(* ===== verification/Prelude.thy ===== *)
theory Prelude
  imports Main "HOL-Library.Multiset" "HOL-Library.Product_Lexorder"
begin

text \<open>
  Shared vocabulary of the development: Python exceptions as values, the result type and its
  sequencing operator, Python's slicing and stable sorting, and the lemmas on lists, tables and
  results that the component theories use through the collections \<open>result_simps\<close> and
  \<open>table_simps\<close>.
\<close>

named_theorems result_simps
named_theorems table_simps

section \<open>Exceptions and results\<close>

text \<open>
  One constructor per exception class the modelled code raises or catches, with the attributes
  the handlers read. \<open>OSErr\<close> stands for every subclass of Python's \<open>OSError\<close>, \<open>OtherException\<close>
  for an exception no handler of the plugin names.
\<close>

datatype exn =
    ValueError string
  | TypeError string
  | OverflowError
  | KeyError
  | IndexError
  | RecursionError
  | IntegrityError
  | ProtectedError
  | OSErr string
  | DoesNotExist string
  | OtherException string
  | DriverError string string
  | DriverRegistryError string
  | SecretProviderError string
  | SecretProviderLookupError string
  | StorageError string
  | PipelineOperationError string string
  | DestinationError string string
  | RetentionCleanupError string
  | RemoteRetentionCleanupError string
  | RevisionDeletionError string
  | TargetDeletionError string
  | BackupRunCancellationError string
  | ArchiveExtractionError string
  | S3ClientError int string
  | FtpErrorPerm string
  | FtpErrorTemp string
  | FtpErrorOther string
  | JobFailed string

text \<open>JSON values as \<open>json.loads\<close> returns them; a number that equals an integer is a \<open>JInt\<close>.\<close>

datatype json =
    JNull
  | JBool bool
  | JInt int
  | JFloat string
  | JStr string
  | JList "json list"
  | JObj "(string \<times> json) list"

type_synonym 'a result = "exn + 'a"

definition bindE :: "'e + 'a \<Rightarrow> ('a \<Rightarrow> 'e + 'b) \<Rightarrow> 'e + 'b" where
  "bindE m f = (case m of Inl e \<Rightarrow> Inl e | Inr x \<Rightarrow> f x)"

lemma bindE_Inl [simp]: "bindE (Inl e) f = Inl e"
  by (simp add: bindE_def)

lemma bindE_Inr [simp]: "bindE (Inr x) f = f x"
  by (simp add: bindE_def)

lemma bindE_eq_Inr [result_simps]: "bindE m f = Inr y \<longleftrightarrow> (\<exists>x. m = Inr x \<and> f x = Inr y)"
  by (cases m) auto

lemma bindE_eq_Inl [result_simps]:
  "bindE m f = Inl e \<longleftrightarrow> m = Inl e \<or> (\<exists>x. m = Inr x \<and> f x = Inl e)"
  by (cases m) auto

lemma bindE_assoc: "bindE (bindE m f) g = bindE m (\<lambda>x. bindE (f x) g)"
  by (cases m) auto

text \<open>A Python loop over a list whose body may raise: it stops at the first exception.\<close>

fun traverse :: "('a \<Rightarrow> 'e + 'b) \<Rightarrow> 'a list \<Rightarrow> 'e + 'b list" where
  "traverse f [] = Inr []"
| "traverse f (x # xs) = bindE (f x) (\<lambda>y. bindE (traverse f xs) (\<lambda>ys. Inr (y # ys)))"

lemma traverse_length: "traverse f xs = Inr ys \<Longrightarrow> length ys = length xs"
  by (induction xs arbitrary: ys) (auto simp: result_simps)

lemma traverse_list_all2: "traverse f xs = Inr ys \<Longrightarrow> list_all2 (\<lambda>x y. f x = Inr y) xs ys"
  by (induction xs arbitrary: ys) (auto simp: result_simps)

lemma traverse_Inr_set: "traverse f xs = Inr ys \<Longrightarrow> y \<in> set ys \<Longrightarrow> \<exists>x \<in> set xs. f x = Inr y"
  by (induction xs arbitrary: ys) (auto simp: result_simps)

lemma traverse_cong: "(\<And>x. x \<in> set xs \<Longrightarrow> f x = g x) \<Longrightarrow> traverse f xs = traverse g xs"
  by (induction xs) auto

lemma traverse_Inr_map: "(\<And>x. x \<in> set xs \<Longrightarrow> f x = Inr (g x)) \<Longrightarrow> traverse f xs = Inr (map g xs)"
  by (induction xs) auto

section \<open>Effects that survive an exception\<close>

text \<open>
  Code that changes files or messages outside a database transaction: the state reached is kept
  whether the call returns or raises. \<open>catchS\<close> is \<open>try: ... except\<close>, with a handler that may
  re-raise; \<open>onfailS\<close> runs a clean-up before the exception goes on.
\<close>

type_synonym ('s, 'a) prog = "'s \<Rightarrow> 'a result \<times> 's"

definition returnS :: "'a \<Rightarrow> ('s, 'a) prog" where
  "returnS x s = (Inr x, s)"

definition raiseS :: "exn \<Rightarrow> ('s, 'a) prog" where
  "raiseS e s = (Inl e, s)"

definition bindS :: "('s, 'a) prog \<Rightarrow> ('a \<Rightarrow> ('s, 'b) prog) \<Rightarrow> ('s, 'b) prog" where
  "bindS m f s = (case m s of (Inl e, s') \<Rightarrow> (Inl e, s') | (Inr x, s') \<Rightarrow> f x s')"

definition readS :: "('s \<Rightarrow> 'a result) \<Rightarrow> ('s, 'a) prog" where
  "readS f s = (f s, s)"

definition catchS :: "('s, 'a) prog \<Rightarrow> (exn \<Rightarrow> ('s, 'a) prog) \<Rightarrow> ('s, 'a) prog" where
  "catchS m h s = (case m s of (Inl e, s') \<Rightarrow> h e s' | (Inr x, s') \<Rightarrow> (Inr x, s'))"

definition onfailS :: "('s, 'a) prog \<Rightarrow> ('s, unit) prog \<Rightarrow> ('s, 'a) prog" where
  "onfailS m c = catchS m (\<lambda>e. bindS c (\<lambda>_. raiseS e))"

text \<open>\<open>except OSError as exc: raise StorageError(msg) from exc\<close> and its relatives.\<close>

fun is_os_error :: "exn \<Rightarrow> bool" where
  "is_os_error (OSErr _) = True"
| "is_os_error _ = False"

definition wrap_oserror :: "exn \<Rightarrow> ('s, 'a) prog \<Rightarrow> ('s, 'a) prog" where
  "wrap_oserror e' m = catchS m (\<lambda>e. raiseS (if is_os_error e then e' else e))"

fun forS :: "('a \<Rightarrow> ('s, unit) prog) \<Rightarrow> 'a list \<Rightarrow> ('s, unit) prog" where
  "forS f [] = returnS ()"
| "forS f (x # xs) = bindS (f x) (\<lambda>_. forS f xs)"

fun sumS :: "('a \<Rightarrow> ('s, nat) prog) \<Rightarrow> 'a list \<Rightarrow> ('s, nat) prog" where
  "sumS f [] = returnS 0"
| "sumS f (x # xs) = bindS (f x) (\<lambda>a. bindS (sumS f xs) (\<lambda>b. returnS (a + b)))"

named_theorems prog_simps

lemma returnS_eq [prog_simps]: "returnS x s = (r, s') \<longleftrightarrow> r = Inr x \<and> s' = s"
  by (auto simp: returnS_def)

lemma raiseS_eq [prog_simps]: "raiseS e s = (r, s') \<longleftrightarrow> r = Inl e \<and> s' = s"
  by (auto simp: raiseS_def)

lemma readS_eq [prog_simps]: "readS f s = (r, s') \<longleftrightarrow> f s = r \<and> s' = s"
  by (auto simp: readS_def)

lemma bindS_eq_Inr [prog_simps]:
  "bindS m f s = (Inr y, s') \<longleftrightarrow> (\<exists>x s1. m s = (Inr x, s1) \<and> f x s1 = (Inr y, s'))"
  by (auto simp: bindS_def split: prod.splits sum.splits)

lemma bindS_eq_Inl [prog_simps]:
  "bindS m f s = (Inl e, s') \<longleftrightarrow>
     m s = (Inl e, s') \<or> (\<exists>x s1. m s = (Inr x, s1) \<and> f x s1 = (Inl e, s'))"
  by (auto simp: bindS_def split: prod.splits sum.splits)

lemma catchS_eq [prog_simps]:
  "catchS m h s = (r, s') \<longleftrightarrow>
     (\<exists>x. m s = (Inr x, s') \<and> r = Inr x) \<or> (\<exists>e s1. m s = (Inl e, s1) \<and> h e s1 = (r, s'))"
  by (auto simp: catchS_def split: prod.splits sum.splits)

lemma wrap_oserror_eq_Inr [prog_simps]: "wrap_oserror e' m s = (Inr x, s') \<longleftrightarrow> m s = (Inr x, s')"
  by (auto simp: wrap_oserror_def prog_simps)

lemma wrap_oserror_Inl:
  "wrap_oserror e' m s = (Inl e, s') \<Longrightarrow> \<exists>e0. m s = (Inl e0, s')"
  by (auto simp: wrap_oserror_def prog_simps)

lemma onfailS_eq_Inr [prog_simps]: "onfailS m c s = (Inr x, s') \<longleftrightarrow> m s = (Inr x, s')"
  by (auto simp: onfailS_def prog_simps)

text \<open>
  A relation between the states before and after a call, in the style of a frame condition. It is
  enough that every elementary step stays within it.
\<close>

definition within :: "('s \<Rightarrow> 's \<Rightarrow> bool) \<Rightarrow> ('s, 'a) prog \<Rightarrow> bool" where
  "within R m \<longleftrightarrow> (\<forall>s r s'. m s = (r, s') \<longrightarrow> R s s')"

lemma withinD: "within R m \<Longrightarrow> m s = (r, s') \<Longrightarrow> R s s'"
  by (simp add: within_def)

locale step_relation =
  fixes R :: "'s \<Rightarrow> 's \<Rightarrow> bool"
  assumes step_refl: "R s s"
    and step_trans: "R s s' \<Longrightarrow> R s' s'' \<Longrightarrow> R s s''"
begin

lemma within_returnS: "within R (returnS x)"
  by (simp add: within_def prog_simps step_refl)

lemma within_raiseS: "within R (raiseS e)"
  by (simp add: within_def prog_simps step_refl)

lemma within_readS: "within R (readS f)"
  by (simp add: within_def prog_simps step_refl)

lemma within_bindS:
  assumes "within R m" "\<And>x. within R (f x)"
  shows "within R (bindS m f)"
  unfolding within_def
proof (intro allI impI)
  fix s r s'
  assume *: "bindS m f s = (r, s')"
  obtain r1 s1 where 1: "m s = (r1, s1)" by (cases "m s")
  with assms(1) have "R s s1" by (rule withinD)
  with * 1 assms(2) show "R s s'"
    by (cases r1) (auto simp: bindS_def dest: withinD intro: step_trans)
qed

lemma within_catchS:
  assumes "within R m" "\<And>e. within R (h e)"
  shows "within R (catchS m h)"
  unfolding within_def
proof (intro allI impI)
  fix s r s'
  assume *: "catchS m h s = (r, s')"
  obtain r1 s1 where 1: "m s = (r1, s1)" by (cases "m s")
  with assms(1) have "R s s1" by (rule withinD)
  with * 1 assms(2) show "R s s'"
    by (cases r1) (auto simp: catchS_def dest: withinD intro: step_trans)
qed

lemma within_forS: "(\<And>x. within R (f x)) \<Longrightarrow> within R (forS f xs)"
  by (induction xs) (simp_all add: within_returnS within_bindS)

lemma within_sumS: "(\<And>x. within R (f x)) \<Longrightarrow> within R (sumS f xs)"
  by (induction xs) (simp_all add: within_returnS within_bindS)

lemmas within_intros = within_returnS within_raiseS within_readS within_bindS within_catchS
  within_forS within_sumS

end

section \<open>Python sequences\<close>

text \<open>\<open>xs[:n]\<close>: a negative bound counts from the end.\<close>

definition py_take :: "int \<Rightarrow> 'a list \<Rightarrow> 'a list" where
  "py_take n xs = take (nat (if 0 \<le> n then n else int (length xs) + n)) xs"

lemma set_py_take_subset: "set (py_take n xs) \<subseteq> set xs"
  by (simp add: py_take_def set_take_subset)

text \<open>
  \<open>sorted(xs, key=k, reverse=True)\<close> keeps the original order of equal keys; on integer keys it is
  the stable sort by the negated key.
\<close>

definition sorted_desc :: "('a \<Rightarrow> int) \<Rightarrow> ('a \<Rightarrow> int) \<Rightarrow> 'a list \<Rightarrow> 'a list" where
  "sorted_desc k i xs = sort_key (\<lambda>x. (- k x, - i x)) xs"

lemma set_sorted_desc [simp]: "set (sorted_desc k i xs) = set xs"
  by (simp add: sorted_desc_def)

lemma length_sorted_desc [simp]: "length (sorted_desc k i xs) = length xs"
  by (simp add: sorted_desc_def)

lemma mset_sorted_desc [simp]: "mset (sorted_desc k i xs) = mset xs"
  by (simp add: sorted_desc_def)

lemma distinct_map_sorted_desc [simp]: "distinct (map f (sorted_desc k i xs)) = distinct (map f xs)"
  by (metis mset_sorted_desc mset_map mset_eq_imp_distinct_iff)

lemma sorted_desc_wrt:
  "sorted_wrt (\<lambda>x y. (k y, i y) \<le> (k x, i x)) (sorted_desc k i xs)"
proof -
  have "sorted (map (\<lambda>x. (- k x, - i x)) (sorted_desc k i xs))"
    by (simp add: sorted_desc_def)
  then have "sorted_wrt (\<lambda>x y. (- k x, - i x) \<le> (- k y, - i y)) (sorted_desc k i xs)"
    by (simp add: sorted_wrt_map)
  then show ?thesis
    by (rule sorted_wrt_mono_rel [rotated]) auto
qed


text \<open>\<open>xs[i]\<close>: negative indices count from the end, anything else raises.\<close>

definition py_index :: "'a list \<Rightarrow> int \<Rightarrow> 'a result" where
  "py_index xs i =
     (if 0 \<le> i \<and> i < int (length xs) then Inr (xs ! nat i)
      else if i < 0 \<and> - i \<le> int (length xs) then Inr (xs ! (length xs - nat (- i)))
      else Inl IndexError)"

lemma find_SomeD: "find P xs = Some x \<Longrightarrow> x \<in> set xs \<and> P x"
  by (auto simp: find_Some_iff)

section \<open>Decimal numerals\<close>

fun show_nat :: "nat \<Rightarrow> string" where
  "show_nat n =
     (if n < 10 then [char_of (48 + n)] else show_nat (n div 10) @ [char_of (48 + n mod 10)])"

declare show_nat.simps [simp del]

definition show_int :: "int \<Rightarrow> string" where
  "show_int i = (if i < 0 then CHR ''-'' # show_nat (nat (- i)) else show_nat (nat i))"

text \<open>The format codes \<open>%04d\<close> and \<open>%02d\<close>.\<close>

definition zero_pad :: "nat \<Rightarrow> int \<Rightarrow> string" where
  "zero_pad w i = (let s = show_nat (nat i) in replicate (w - length s) (CHR ''0'') @ s)"

lemma show_nat_nonempty [simp]: "show_nat n \<noteq> []"
  by (subst show_nat.simps) simp

text \<open>The number a decimal string denotes, the inverse of \<open>show_nat\<close>.\<close>

definition read_nat :: "string \<Rightarrow> nat" where
  "read_nat s = foldl (\<lambda>a c. 10 * a + (of_char c - 48)) 0 s"

lemma read_show_nat [simp]: "read_nat (show_nat n) = n"
proof (induction n rule: show_nat.induct)
  case (1 n)
  have digit: "of_char (char_of (48 + k) :: char) = 48 + k" if "k < 10" for k :: nat
    using that by (simp add: take_bit_eq_mod)
  show ?case
  proof (cases "n < 10")
    case True
    then show ?thesis by (subst show_nat.simps) (simp add: read_nat_def digit)
  next
    case False
    have "n mod 10 < 10" by simp
    with False 1 show ?thesis by (subst show_nat.simps) (simp add: read_nat_def digit)
  qed
qed

lemma show_nat_inject [simp]: "show_nat m = show_nat n \<longleftrightarrow> m = n"
  by (metis read_show_nat)

end
