(* ===== verification/Py_Time.thy ===== *)
theory Py_Time
  imports Prelude
begin

text \<open>
  The part of Python's \<open>datetime\<close> and \<open>zoneinfo\<close> the plugin uses. An aware datetime is the
  instant it denotes, in microseconds since 0001-01-01T00:00:00 UTC; a naive one is the wall clock
  reading it holds, in the same unit. Dates are proleptic Gregorian ordinals (day 1 is
  0001-01-01, a Monday). A time zone is what the tz database says of it: the offset in force at
  an instant, and the offset Python assumes for a wall clock reading with \<open>fold = 0\<close>.
\<close>

datatype datetime = Naive int | Aware int

fun is_aware :: "datetime \<Rightarrow> bool" where
  "is_aware (Aware _) = True"
| "is_aware (Naive _) = False"

fun dt_value :: "datetime \<Rightarrow> int" where
  "dt_value (Aware i) = i"
| "dt_value (Naive w) = w"

definition second_us :: int where "second_us = 1000000"
definition minute_us :: int where "minute_us = 60000000"
definition day_us :: int where "day_us = 86400000000"

text \<open>\<open>datetime.max\<close> is the last microsecond of 9999-12-31, ordinal 3652059.\<close>

definition max_instant :: int where "max_instant = 3652059 * 86400000000 - 1"

definition in_range :: "int \<Rightarrow> bool" where
  "in_range i \<longleftrightarrow> 0 \<le> i \<and> i \<le> max_instant"

text \<open>\<open>timedelta(days=d)\<close> is limited to 999999999 days, and a datetime result to the range above.\<close>

definition timedelta_ok :: "int \<Rightarrow> bool" where
  "timedelta_ok us \<longleftrightarrow> - (999999999 * day_us) \<le> us \<and> us < 1000000000 * day_us"

definition dt_shift :: "int \<Rightarrow> int \<Rightarrow> int result" where
  "dt_shift i us = (if timedelta_ok us \<and> in_range (i + us) then Inr (i + us) else Inl OverflowError)"

definition minus_days :: "int \<Rightarrow> int \<Rightarrow> int result" where
  "minus_days i d =
     (if \<not> timedelta_ok (d * day_us) then Inl OverflowError
      else if in_range (i - d * day_us) then Inr (i - d * day_us) else Inl OverflowError)"

lemma minus_days_Inr [result_simps]: "minus_days i d = Inr c \<Longrightarrow> c = i - d * day_us"
  by (auto simp: minus_days_def split: if_splits)

section \<open>Calendar\<close>

definition utc_date :: "int \<Rightarrow> int" where
  "utc_date i = i div day_us + 1"

definition weekday :: "int \<Rightarrow> int" where
  "weekday n = (n + 6) mod 7"

definition monday_of :: "int \<Rightarrow> int" where
  "monday_of n = n - weekday n"

definition days_before_year :: "int \<Rightarrow> int" where
  "days_before_year y = (let p = y - 1 in p * 365 + p div 4 - p div 100 + p div 400)"

definition days_before_month :: "int \<Rightarrow> int" where
  "days_before_month m =
     (if m \<le> 1 then 0 else [0, 31, 59, 90, 120, 151, 181, 212, 243, 273, 304, 334] ! nat (m - 1))"

definition days_in_month :: "int \<Rightarrow> int" where
  "days_in_month m = (if m = 2 then 28 else if m \<in> {4, 6, 9, 11} then 30 else 31)"

text \<open>The year and month of an ordinal, by CPython's \<open>_ord2ymd\<close>.\<close>

definition year_day :: "int \<Rightarrow> int \<times> int \<times> bool" where
  "year_day ordinal =
     (let n = ordinal - 1;
          n400 = n div 146097; a = n mod 146097;
          n100 = a div 36524; b = a mod 36524;
          n4 = b div 1461; c = b mod 1461;
          n1 = c div 365; d = c mod 365;
          year = n400 * 400 + 1 + n100 * 100 + n4 * 4 + n1
      in if n1 = 4 \<or> n100 = 4 then (year - 1, 365, True)
         else (year, d, n1 = 3 \<and> (n4 \<noteq> 24 \<or> n100 = 3)))"

definition month_day :: "int \<Rightarrow> bool \<Rightarrow> int \<times> int" where
  "month_day n leap =
     (let m = (n + 50) div 32;
          p = days_before_month m + (if m > 2 \<and> leap then 1 else 0)
      in if p > n
         then (let m' = m - 1; p' = p - (days_in_month m' + (if m' = 2 \<and> leap then 1 else 0))
               in (m', n - p' + 1))
         else (m, n - p + 1))"

definition ymd_of :: "int \<Rightarrow> int \<times> int \<times> int" where
  "ymd_of ordinal =
     (case year_day ordinal of (y, n, leap) \<Rightarrow> (case month_day n leap of (m, d) \<Rightarrow> (y, m, d)))"

definition year_of :: "int \<Rightarrow> int" where "year_of n = fst (ymd_of n)"
definition month_of :: "int \<Rightarrow> int" where "month_of n = fst (snd (ymd_of n))"
definition day_of :: "int \<Rightarrow> int" where "day_of n = snd (snd (ymd_of n))"

text \<open>\<open>date.isocalendar()[:2]\<close>, the ISO year and week.\<close>

definition isoweek1monday :: "int \<Rightarrow> int" where
  "isoweek1monday y =
     (let f = days_before_year y + 1; fw = (f + 6) mod 7; w = f - fw
      in if fw > 3 then w + 7 else w)"

definition isocalendar2 :: "int \<Rightarrow> int \<times> int" where
  "isocalendar2 today =
     (let y = year_of today;
          week = (today - isoweek1monday y) div 7
      in if week < 0 then (y - 1, (today - isoweek1monday (y - 1)) div 7 + 1)
         else if week \<ge> 52 \<and> today \<ge> isoweek1monday (y + 1) then (y + 1, 1)
         else (y, week + 1))"

section \<open>Time zones\<close>

record zone =
  utcoff :: "int \<Rightarrow> int"
  walloff :: "int \<Rightarrow> int"

text \<open>\<open>dt.astimezone(zone)\<close> as a wall clock reading, and \<open>astimezone(UTC)\<close> of a reading with fold 0.\<close>

definition to_wall :: "zone \<Rightarrow> int \<Rightarrow> int" where
  "to_wall z i = i + utcoff z i"

definition wall_to_utc :: "zone \<Rightarrow> int \<Rightarrow> int" where
  "wall_to_utc z w = w - walloff z w"

definition utc_zone :: zone where
  "utc_zone = \<lparr>utcoff = (\<lambda>_. 0), walloff = (\<lambda>_. 0)\<rparr>"

text \<open>A zone without transitions, such as UTC or a fixed offset.\<close>

definition fixed_zone :: "int \<Rightarrow> zone" where
  "fixed_zone k = \<lparr>utcoff = (\<lambda>_. k), walloff = (\<lambda>_. k)\<rparr>"

section \<open>Facts about the calendar\<close>

lemma day_us_pos [simp]: "0 < day_us"
  by (simp add: day_us_def)

lemma weekday_bounds: "0 \<le> weekday n" "weekday n < 7"
  by (simp_all add: weekday_def)

lemma monday_of_monday: "weekday (monday_of n) = 0"
  unfolding monday_of_def weekday_def by presburger

lemma monday_of_le: "monday_of n \<le> n" "n < monday_of n + 7"
  using weekday_bounds [of n] by (simp_all add: monday_of_def)

lemma utc_date_mono: "i \<le> j \<Longrightarrow> utc_date i \<le> utc_date j"
  by (simp add: utc_date_def zdiv_mono1)

lemma utc_date_bounds: "(utc_date i - 1) * day_us \<le> i" "i < utc_date i * day_us"
  by (auto simp: utc_date_def day_us_def)

end
