(* ===== verification/Models.thy ===== *)
theory Models
  imports Py_Time
begin

text \<open>
  The rows of the plugin's database (\<open>models.py\<close>) and the enumerations of their columns
  (\<open>choices.py\<close>). Columns are the ones the modelled services read or write; names shown only in
  the user interface and the \<open>last_updated\<close> audit column are left out. A nullable column is an
  \<open>option\<close>; a timestamp column is the instant it stores, which Django always returns as an aware
  datetime. Profiles that the services only read (policies, connection and credential profiles)
  are held by value where the code follows the foreign key; rows the services change
  (revisions, replicas, destinations) are referred to by primary key.
\<close>

section \<open>Enumerations\<close>

datatype run_status =
    RQueued | RRunning | RSuccessUnchanged | RSuccessChanged | RPartial | RFailed | RErrored | RSkipped

fun run_status_value :: "run_status \<Rightarrow> string" where
  "run_status_value RQueued = ''queued''"
| "run_status_value RRunning = ''running''"
| "run_status_value RSuccessUnchanged = ''success_unchanged''"
| "run_status_value RSuccessChanged = ''success_changed''"
| "run_status_value RPartial = ''partial''"
| "run_status_value RFailed = ''failed''"
| "run_status_value RErrored = ''errored''"
| "run_status_value RSkipped = ''skipped''"

datatype run_source = SScheduled | SManual | SRetry | SPreChange

datatype target_status = TNever | THealthy | TFailed | TStale | TDisabled

datatype replica_status = PPending | PQueued | PRunning | PSuccess | PFailed

datatype destination_protocol = PLocal | PSftp | PFtp | PNfs | PSmb

datatype host_key_status = HKPending | HKTrusted | HKRejected

definition replicated_protocol :: "destination_protocol \<Rightarrow> bool" where
  "replicated_protocol p \<longleftrightarrow> p \<in> {PFtp, PNfs, PSmb}"

definition mounted_protocol :: "destination_protocol \<Rightarrow> bool" where
  "mounted_protocol p \<longleftrightarrow> p \<in> {PNfs, PSmb}"

section \<open>Profiles\<close>

record retention_policy =
  rp_pk :: int
  rp_keep_all_days :: int
  rp_daily_days :: int
  rp_weekly_weeks :: int
  rp_monthly_months :: int
  rp_minimum_changed_revisions :: int
  rp_unchanged_run_days :: int
  rp_changed_run_days :: int
  rp_failed_run_days :: int
  rp_max_runs_per_target :: int

record remote_retention_policy =
  rrp_pk :: int
  rrp_keep_all_days :: int
  rrp_daily_days :: int
  rrp_weekly_weeks :: int
  rrp_monthly_months :: int
  rrp_minimum_changed_revisions :: int
  rrp_max_copies_per_target :: int

record backup_policy =
  bp_pk :: int
  bp_enabled :: bool
  bp_schedule_type :: string
  bp_interval_minutes :: "int option"
  bp_time_of_day :: "int option"
  bp_timezone_mode :: string
  bp_jitter_minutes :: int
  bp_connection_timeout :: int
  bp_command_timeout :: int
  bp_max_retries :: int
  bp_retry_backoff_minutes :: "int list"
  bp_store_mode :: string
  bp_retention_policy :: retention_policy

record connection_profile =
  cp_pk :: int
  cp_name :: string
  cp_protocol :: string
  cp_address_preference :: string
  cp_port :: int
  cp_connect_timeout :: int
  cp_command_timeout :: int
  cp_keepalive :: int
  cp_verify_host_key :: bool
  cp_auto_trust_first_host_key :: bool
  cp_known_hosts_path :: string

record credential_profile =
  crp_pk :: int
  crp_name :: string
  crp_provider_id :: string
  crp_secret_reference :: string

record stored_credential =
  sc_profile_id :: int
  sc_reference :: string
  sc_username :: string
  sc_ciphertext :: "int list"
  sc_nonce :: "int list"
  sc_key_version :: string
  sc_rotated_at :: int

record receiver_profile =
  rcp_pk :: int
  rcp_protocol :: string
  rcp_mode :: string
  rcp_credential_profile :: credential_profile
  rcp_advertised_host :: string
  rcp_advertised_port :: int
  rcp_bridge_host :: string
  rcp_bridge_port :: int
  rcp_remote_bind_host :: string
  rcp_remote_bind_port :: int
  rcp_upload_directory :: string
  rcp_export_timeout :: int
  rcp_max_upload_size :: int
  rcp_passive_port_start :: int
  rcp_passive_port_end :: int

text \<open>A driver option value: the JSON values the drivers of this repository read.\<close>

type_synonym options = "(string \<times> string) list"

record platform_mapping =
  pm_platform_id :: int
  pm_driver_id :: string
  pm_connection_profile :: "connection_profile option"
  pm_credential_profile :: "credential_profile option"
  pm_receiver_profile :: "receiver_profile option"
  pm_enabled :: bool
  pm_driver_options :: options

section \<open>Rows\<close>

text \<open>The columns of NetBox's own device and site the plugin reads.\<close>

record device =
  dev_pk :: int
  dev_name :: string
  dev_platform_id :: "int option"
  dev_primary_ip4 :: "string option"
  dev_primary_ip6 :: "string option"
  dev_oob_ip :: "string option"
  dev_site_time_zone :: "string option"

record backup_target =
  t_pk :: int
  t_device :: device
  t_enabled :: bool
  t_policy_override :: "backup_policy option"
  t_retention_override :: "retention_policy option"
  t_remote_retention_policy :: "remote_retention_policy option"
  t_credential_override :: "credential_profile option"
  t_connection_override :: "connection_profile option"
  t_receiver_override :: "receiver_profile option"
  t_driver_override :: string
  t_driver_options_override :: options
  t_next_run_at :: "int option"
  t_last_attempt_at :: "int option"
  t_last_success_at :: "int option"
  t_last_change_at :: "int option"
  t_status :: target_status
  t_consecutive_failures :: int
  t_last_revision :: "int option"
  t_created :: "int option"

record config_revision =
  rev_pk :: int
  rev_target_id :: int
  rev_uuid :: string
  rev_normalized_hash :: string
  rev_normalizer_version :: string
  rev_driver_id :: string
  rev_content_changed :: bool
  rev_protected :: bool
  rev_previous_revision :: "int option"
  rev_created :: int

record config_artifact =
  a_pk :: int
  a_revision_id :: int
  a_artifact_type :: string
  a_format :: string
  a_storage_key :: string
  a_size :: int
  a_raw_hash :: string
  a_normalized_hash :: string
  a_is_primary :: bool
  a_local_available :: bool
  a_local_deleted_at :: "int option"

record revision_replica =
  p_pk :: int
  p_revision_id :: int
  p_destination_id :: int
  p_status :: replica_status
  p_attempts :: int
  p_queued_at :: int
  p_started_at :: "int option"
  p_finished_at :: "int option"
  p_next_retry_at :: "int option"
  p_bytes_transferred :: int
  p_remote_path :: string
  p_remote_available :: bool
  p_remote_deleted_at :: "int option"
  p_error_code :: string
  p_error_message :: string
  p_job_id :: "int option"

record backup_destination =
  dst_pk :: int
  dst_is_default :: bool
  dst_enabled :: bool
  dst_auto_replicate :: bool
  dst_protocol :: destination_protocol
  dst_base_path :: string
  dst_mount_path :: string
  dst_credential_profile :: "credential_profile option"
  dst_max_retries :: int
  dst_retry_delay_minutes :: int
  dst_max_artifact_size :: int
  dst_local_retention_policy :: "retention_policy option"
  dst_remote_retention_policy :: "remote_retention_policy option"
  dst_enforce_retention_policy :: bool
  dst_audit_enabled :: bool
  dst_audit_frequency :: string
  dst_audit_time :: int
  dst_audit_weekday :: int
  dst_next_audit_at :: "int option"
  dst_last_success_at :: "int option"
  dst_last_error_code :: string
  dst_last_error_message :: string
  dst_last_tested_at :: "int option"
  dst_last_audit_at :: "int option"
  dst_last_audit_status :: string
  dst_last_audit_problem_count :: int

record backup_run =
  r_pk :: int
  r_target_id :: int
  r_source :: run_source
  r_scheduled_for :: "int option"
  r_dedupe_key :: "string option"
  r_queued_at :: int
  r_started_at :: "int option"
  r_finished_at :: "int option"
  r_status :: run_status
  r_error_code :: string
  r_error_message :: string
  r_revision :: "int option"
  r_changed :: bool
  r_raw_changed :: bool
  r_job_id :: "int option"

record ssh_host_key =
  hk_pk :: int
  hk_target_id :: int
  hk_address :: string
  hk_port :: int
  hk_key_type :: string
  hk_public_key :: string
  hk_fingerprint_sha256 :: string
  hk_fingerprint_md5 :: string
  hk_status :: host_key_status
  hk_last_seen_at :: int
  hk_approved_at :: "int option"
  hk_approved_by :: "string option"
  hk_rejected_at :: "int option"

text \<open>NetBox's own job rows (\<open>core.models.Job\<close>), as far as the plugin inspects them.\<close>

datatype job_status = JPending | JScheduled | JRunning | JCompleted | JErrored | JFailed

definition enqueued_state :: "job_status \<Rightarrow> bool" where
  "enqueued_state s \<longleftrightarrow> s \<in> {JPending, JScheduled, JRunning}"

record job =
  j_id :: int
  j_name :: string
  j_object_id :: "int option"
  j_status :: job_status
  j_data :: "(string \<times> json) list"

section \<open>The database\<close>

text \<open>
  A table is the list of its rows. Events queued for after the commit are appended to \<open>events\<close>
  as pairs of an event type and a primary key. \<open>next_id\<close> is the sequence new primary keys and
  job identifiers are drawn from.
\<close>

record db =
  targets :: "backup_target list"
  runs :: "backup_run list"
  revisions :: "config_revision list"
  artifacts :: "config_artifact list"
  replicas :: "revision_replica list"
  destinations :: "backup_destination list"
  host_keys :: "ssh_host_key list"
  mappings :: "platform_mapping list"
  connection_profiles :: "connection_profile list"
  credential_profiles :: "credential_profile list"
  stored_credentials :: "stored_credential list"
  receiver_profiles :: "receiver_profile list"
  policies :: "retention_policy list"
  remote_policies :: "remote_retention_policy list"
  jobs :: "job list"
  events :: "(string \<times> int) list"
  next_id :: int

definition empty_db :: db where
  "empty_db = \<lparr>targets = [], runs = [], revisions = [], artifacts = [], replicas = [],
     destinations = [], host_keys = [], mappings = [], connection_profiles = [], credential_profiles = [],
     stored_credentials = [], receiver_profiles = [], policies = [], remote_policies = [],
     jobs = [], events = [], next_id = 1\<rparr>"

text \<open>\<open>objects.get(pk=k)\<close>, \<open>filter(...).first()\<close> and \<open>row.save()\<close> on one table.\<close>

definition row_get :: "string \<Rightarrow> ('a \<Rightarrow> int) \<Rightarrow> int \<Rightarrow> 'a list \<Rightarrow> 'a result" where
  "row_get model key k rows =
     (case find (\<lambda>r. key r = k) rows of None \<Rightarrow> Inl (DoesNotExist model) | Some r \<Rightarrow> Inr r)"

definition row_save :: "('a \<Rightarrow> int) \<Rightarrow> 'a \<Rightarrow> 'a list \<Rightarrow> 'a list" where
  "row_save key row rows = map (\<lambda>r. if key r = key row then row else r) rows"

definition get_target :: "db \<Rightarrow> int \<Rightarrow> backup_target result" where
  "get_target d k = row_get ''BackupTarget'' t_pk k (targets d)"

definition get_run :: "db \<Rightarrow> int \<Rightarrow> backup_run result" where
  "get_run d k = row_get ''BackupRun'' r_pk k (runs d)"

definition get_revision :: "db \<Rightarrow> int \<Rightarrow> config_revision result" where
  "get_revision d k = row_get ''ConfigRevision'' rev_pk k (revisions d)"

definition get_replica :: "db \<Rightarrow> int \<Rightarrow> revision_replica result" where
  "get_replica d k = row_get ''RevisionReplica'' p_pk k (replicas d)"

definition get_destination :: "db \<Rightarrow> int \<Rightarrow> backup_destination result" where
  "get_destination d k = row_get ''BackupDestination'' dst_pk k (destinations d)"

definition save_target :: "backup_target \<Rightarrow> db \<Rightarrow> db" where
  "save_target t d = d\<lparr>targets := row_save t_pk t (targets d)\<rparr>"

definition save_run :: "backup_run \<Rightarrow> db \<Rightarrow> db" where
  "save_run r d = d\<lparr>runs := row_save r_pk r (runs d)\<rparr>"

definition save_replica :: "revision_replica \<Rightarrow> db \<Rightarrow> db" where
  "save_replica p d = d\<lparr>replicas := row_save p_pk p (replicas d)\<rparr>"

definition save_destination :: "backup_destination \<Rightarrow> db \<Rightarrow> db" where
  "save_destination x d = d\<lparr>destinations := row_save dst_pk x (destinations d)\<rparr>"

definition queue_event :: "bool \<Rightarrow> string \<Rightarrow> int \<Rightarrow> db \<Rightarrow> db" where
  "queue_event enabled ty k d = (if enabled then d\<lparr>events := events d @ [(ty, k)]\<rparr> else d)"

section \<open>Table lemmas\<close>

lemma row_get_Inr [table_simps]:
  "row_get m key k rows = Inr r \<Longrightarrow> r \<in> set rows \<and> key r = k"
  by (auto simp: row_get_def find_Some_iff split: option.splits)

lemma row_get_Inl [table_simps]:
  "row_get m key k rows = Inl e \<longleftrightarrow> e = DoesNotExist m \<and> (\<forall>r \<in> set rows. key r \<noteq> k)"
  by (induction rows) (auto simp: row_get_def split: option.splits)

lemma row_get_distinct:
  "distinct (map key rows) \<Longrightarrow> r \<in> set rows \<Longrightarrow> row_get m key (key r) rows = Inr r"
  by (induction rows) (auto simp: row_get_def split: option.splits)

lemma map_key_row_save [simp]: "map key (row_save key row rows) = map key rows"
  by (simp add: row_save_def)

lemma length_row_save [simp]: "length (row_save key row rows) = length rows"
  by (simp add: row_save_def)

lemma row_save_absent: "(\<forall>r \<in> set rows. key r \<noteq> key row) \<Longrightarrow> row_save key row rows = rows"
  by (simp add: row_save_def map_idI)

lemma in_row_save [table_simps]:
  "x \<in> set (row_save key row rows) \<longleftrightarrow>
     (x \<in> set rows \<and> key x \<noteq> key row) \<or> (x = row \<and> (\<exists>r \<in> set rows. key r = key row))"
  by (auto simp: row_save_def)

lemma row_get_row_save_same:
  "row_get m key k rows = Inr r \<Longrightarrow> key row = k \<Longrightarrow> row_get m key k (row_save key row rows) = Inr row"
  by (induction rows) (auto simp: row_get_def row_save_def split: if_splits)

lemma row_get_row_save_other:
  "key row \<noteq> k \<Longrightarrow> row_get m key k (row_save key row rows) = row_get m key k rows"
  by (induction rows) (auto simp: row_get_def row_save_def split: option.splits)

lemma row_save_column:
  assumes "distinct (map key rows)" "row \<in> set rows" "key row' = key row" "f row' = f row"
  shows "map f (row_save key row' rows) = map f rows"
proof -
  have "f r = f row" if "r \<in> set rows" "key r = key row" for r
    using that assms(1,2) by (metis distinct_map inj_onD)
  with assms(3,4) show ?thesis by (auto simp: row_save_def)
qed

section \<open>Sample rows\<close>

text \<open>Concrete rows the witnesses of the component theories start from.\<close>

definition sample_retention :: retention_policy where
  "sample_retention = \<lparr>rp_pk = 1, rp_keep_all_days = 7, rp_daily_days = 30, rp_weekly_weeks = 12,
     rp_monthly_months = 12, rp_minimum_changed_revisions = 1, rp_unchanged_run_days = 7,
     rp_changed_run_days = 30, rp_failed_run_days = 30, rp_max_runs_per_target = 100\<rparr>"

definition sample_policy :: backup_policy where
  "sample_policy = \<lparr>bp_pk = 1, bp_enabled = True, bp_schedule_type = ''interval'',
     bp_interval_minutes = Some 60, bp_time_of_day = None, bp_timezone_mode = ''site'',
     bp_jitter_minutes = 0, bp_connection_timeout = 30, bp_command_timeout = 60, bp_max_retries = 3,
     bp_retry_backoff_minutes = [5, 15, 60], bp_store_mode = ''changed_only'',
     bp_retention_policy = sample_retention\<rparr>"

definition sample_device :: device where
  "sample_device = \<lparr>dev_pk = 11, dev_name = ''r1'', dev_platform_id = Some 5,
     dev_primary_ip4 = Some ''192.0.2.1/24'', dev_primary_ip6 = None, dev_oob_ip = None,
     dev_site_time_zone = None\<rparr>"

definition sample_target :: backup_target where
  "sample_target = \<lparr>t_pk = 1, t_device = sample_device, t_enabled = True,
     t_policy_override = Some sample_policy, t_retention_override = None,
     t_remote_retention_policy = None, t_credential_override = None, t_connection_override = None,
     t_receiver_override = None, t_driver_override = [], t_driver_options_override = [],
     t_next_run_at = Some 0, t_last_attempt_at = None, t_last_success_at = None,
     t_last_change_at = None, t_status = TNever, t_consecutive_failures = 0,
     t_last_revision = None, t_created = Some 0\<rparr>"

definition sample_run :: "int \<Rightarrow> run_status \<Rightarrow> backup_run" where
  "sample_run k s = \<lparr>r_pk = k, r_target_id = 1, r_source = SManual, r_scheduled_for = None,
     r_dedupe_key = None, r_queued_at = 0, r_started_at = None, r_finished_at = None,
     r_status = s, r_error_code = [], r_error_message = [], r_revision = None,
     r_changed = False, r_raw_changed = False, r_job_id = None\<rparr>"

definition sample_revision :: "int \<Rightarrow> int option \<Rightarrow> config_revision" where
  "sample_revision k prev = \<lparr>rev_pk = k, rev_target_id = 1, rev_uuid = ''u'' @ show_int k,
     rev_normalized_hash = ''h'', rev_normalizer_version = ''1'', rev_driver_id = ''fake'',
     rev_content_changed = True, rev_protected = False, rev_previous_revision = prev,
     rev_created = k\<rparr>"

definition sample_destination :: backup_destination where
  "sample_destination = \<lparr>dst_pk = 1, dst_is_default = True, dst_enabled = True,
     dst_auto_replicate = True, dst_protocol = PFtp, dst_base_path = ''/backups'',
     dst_mount_path = [], dst_credential_profile = None, dst_max_retries = 3, dst_retry_delay_minutes = 10,
     dst_max_artifact_size = 1000000, dst_local_retention_policy = None,
     dst_remote_retention_policy = None, dst_enforce_retention_policy = False,
     dst_audit_enabled = True, dst_audit_frequency = ''weekly'', dst_audit_time = 0,
     dst_audit_weekday = 6, dst_next_audit_at = None, dst_last_success_at = None,
     dst_last_error_code = [], dst_last_error_message = [], dst_last_tested_at = None, dst_last_audit_at = None,
     dst_last_audit_status = [], dst_last_audit_problem_count = 0\<rparr>"

definition sample_replica :: "int \<Rightarrow> int \<Rightarrow> replica_status \<Rightarrow> revision_replica" where
  "sample_replica k rid s = \<lparr>p_pk = k, p_revision_id = rid, p_destination_id = 1, p_status = s,
     p_attempts = 0, p_queued_at = 0, p_started_at = None, p_finished_at = None,
     p_next_retry_at = None, p_bytes_transferred = 0, p_remote_path = [],
     p_remote_available = False, p_remote_deleted_at = None, p_error_code = [],
     p_error_message = [], p_job_id = None\<rparr>"

lemmas sample_defs = sample_retention_def sample_policy_def sample_device_def sample_target_def
  sample_run_def sample_revision_def sample_destination_def sample_replica_def

end
