(* ===== verification/Scheduling.thy ===== *)
theory Scheduling
  imports Models
begin

text \<open>
  \<open>services/scheduling.py\<close>: the next regular run of a policy, retry deadlines and the schedule
  kept in a target row. Aware datetimes reaching these functions come from the database or from
  \<open>timezone.now()\<close> and are in UTC, so adding a duration is addition of instants. The tz database
  and SHA-256 are fields of an environment record: the theorems hold for every digest function and
  every tz database.
\<close>

record env =
  tzdb :: "string \<Rightarrow> zone result"
  sha256 :: "string \<Rightarrow> int list"
  default_time_zone :: string

section \<open>Hashing\<close>

definition hex_digit :: "int \<Rightarrow> char" where
  "hex_digit n = ''0123456789abcdef'' ! nat (n mod 16)"

definition sha256_hex :: "env \<Rightarrow> string \<Rightarrow> string" where
  "sha256_hex e content = concat (map (\<lambda>b. [hex_digit (b div 16), hex_digit b]) (sha256 e content))"

definition int_from_bytes :: "int list \<Rightarrow> int" where
  "int_from_bytes bs = foldl (\<lambda>a b. 256 * a + b) 0 bs"

section \<open>Next run of a policy\<close>

definition date_isoformat :: "int \<Rightarrow> string" where
  "date_isoformat d =
     zero_pad 4 (year_of d) @ ''-'' @ zero_pad 2 (month_of d) @ ''-'' @ zero_pad 2 (day_of d)"

definition deterministic_jitter_minutes :: "env \<Rightarrow> int \<Rightarrow> int \<Rightarrow> int \<Rightarrow> int \<Rightarrow> int" where
  "deterministic_jitter_minutes e target_key policy_key local_date maximum =
     (if maximum \<le> 0 then 0
      else int_from_bytes
             (take 8 (sha256 e (show_int target_key @ '':'' @ show_int policy_key @ '':''
                                @ date_isoformat local_date)))
           mod (maximum + 1))"

definition zone_of :: "env \<Rightarrow> string \<Rightarrow> zone result" where
  "zone_of e name = (case tzdb e name of Inl KeyError \<Rightarrow> Inr utc_zone | r \<Rightarrow> r)"

definition check_range :: "int \<Rightarrow> int result" where
  "check_range i = (if in_range i then Inr i else Inl OverflowError)"

definition daily_candidate ::
  "env \<Rightarrow> backup_policy \<Rightarrow> int \<Rightarrow> int \<Rightarrow> int \<Rightarrow> int result" where
  "daily_candidate e pol time_of_day candidate_date target_key =
     bindE (check_range ((candidate_date - 1) * day_us + time_of_day)) (\<lambda>candidate.
     dt_shift candidate
       (deterministic_jitter_minutes e target_key (bp_pk pol) candidate_date (bp_jitter_minutes pol)
        * minute_us))"

definition calculate_next_run ::
  "env \<Rightarrow> backup_policy \<Rightarrow> datetime \<Rightarrow> int \<Rightarrow> string \<Rightarrow> datetime option \<Rightarrow> int result" where
  "calculate_next_run e pol after target_key timezone_name now =
     (let reference = (case now of None \<Rightarrow> after | Some n \<Rightarrow> n) in
      if \<not> is_aware after \<or> \<not> is_aware reference
      then Inl (ValueError ''Scheduling requires timezone-aware datetimes.'')
      else if bp_schedule_type pol = ''interval''
      then (case bp_interval_minutes pol of
              None \<Rightarrow> Inl (ValueError ''Interval policies require a positive interval_minutes value.'')
            | Some minutes \<Rightarrow>
                if minutes \<le> 0
                then Inl (ValueError ''Interval policies require a positive interval_minutes value.'')
                else bindE (dt_shift (dt_value after) (minutes * minute_us)) (\<lambda>candidate.
                     if candidate \<le> dt_value reference
                     then dt_shift candidate
                            (((dt_value reference - candidate) div (minutes * minute_us) + 1)
                             * (minutes * minute_us))
                     else Inr candidate))
      else if bp_schedule_type pol \<noteq> ''daily'' \<or> bp_time_of_day pol = None
      then Inl (ValueError ''Daily policies require time_of_day.'')
      else bindE (zone_of e timezone_name) (\<lambda>z.
           bindE (check_range (to_wall z (dt_value reference))) (\<lambda>local_reference.
           let candidate_date = utc_date local_reference; tod = the (bp_time_of_day pol) in
           bindE (daily_candidate e pol tod candidate_date target_key) (\<lambda>candidate.
           bindE (if candidate \<le> local_reference
                  then daily_candidate e pol tod (candidate_date + 1) target_key
                  else Inr candidate) (\<lambda>candidate'.
           check_range (wall_to_utc z candidate'))))))"

definition calculate_failure_next_run ::
  "env \<Rightarrow> backup_policy option \<Rightarrow> int \<Rightarrow> int \<Rightarrow> int \<Rightarrow> string \<Rightarrow> int option result" where
  "calculate_failure_next_run e policy failed_at consecutive_failures target_key timezone_name =
     (case policy of
        None \<Rightarrow> Inr None
      | Some pol \<Rightarrow>
          if \<not> bp_enabled pol then Inr None
          else let backoff = bp_retry_backoff_minutes pol in
               if consecutive_failures \<le> bp_max_retries pol \<and> backoff \<noteq> []
               then bindE (py_index backoff (min (consecutive_failures - 1) (int (length backoff) - 1)))
                      (\<lambda>minutes. bindE (dt_shift failed_at (minutes * minute_us)) (\<lambda>r. Inr (Some r)))
               else bindE (calculate_next_run e pol (Aware failed_at) target_key timezone_name None)
                      (\<lambda>r. Inr (Some r)))"

definition is_retry_scheduled :: "backup_policy option \<Rightarrow> int \<Rightarrow> bool" where
  "is_retry_scheduled policy consecutive_failures =
     (case policy of
        None \<Rightarrow> False
      | Some pol \<Rightarrow> bp_enabled pol \<and> bp_retry_backoff_minutes pol \<noteq> []
                     \<and> 0 < consecutive_failures \<and> consecutive_failures \<le> bp_max_retries pol)"

definition target_timezone_name :: "env \<Rightarrow> backup_target \<Rightarrow> string" where
  "target_timezone_name e t =
     (case t_policy_override t of
        Some pol \<Rightarrow>
          if bp_timezone_mode pol = ''site''
          then (case dev_site_time_zone (t_device t) of
                  Some tz \<Rightarrow> if tz \<noteq> [] then tz else default_time_zone e
                | None \<Rightarrow> default_time_zone e)
          else default_time_zone e
      | None \<Rightarrow> default_time_zone e)"

definition target_key :: "backup_target \<Rightarrow> int" where
  "target_key t = (if t_pk t \<noteq> 0 then t_pk t else dev_pk (t_device t))"

definition calculate_target_next_run :: "env \<Rightarrow> backup_target \<Rightarrow> datetime \<Rightarrow> int option result" where
  "calculate_target_next_run e t now =
     (case t_policy_override t of
        None \<Rightarrow> Inr None
      | Some pol \<Rightarrow>
          if \<not> t_enabled t \<or> \<not> bp_enabled pol then Inr None
          else bindE (calculate_next_run e pol now (target_key t) (target_timezone_name e t) None)
                 (\<lambda>r. Inr (Some r)))"

text \<open>\<open>apply_target_schedule\<close> without its \<open>save\<close>: the row it writes.\<close>

definition apply_target_schedule :: "env \<Rightarrow> backup_target \<Rightarrow> datetime \<Rightarrow> backup_target result" where
  "apply_target_schedule e t now =
     bindE (calculate_target_next_run e t now) (\<lambda>next.
     Inr (t\<lparr>t_next_run_at := next,
            t_status := (if \<not> t_enabled t then TDisabled
                         else if t_status t = TDisabled
                         then (if t_consecutive_failures t \<noteq> 0 then TFailed
                               else if t_last_success_at t \<noteq> None then THealthy else TNever)
                         else t_status t)\<rparr>))"

section \<open>Facts\<close>

lemma dt_shift_Inr: "dt_shift i us = Inr j \<Longrightarrow> j = i + us"
  by (auto simp: dt_shift_def split: if_splits)

lemma check_range_Inr [simp]: "check_range i = Inr j \<longleftrightarrow> j = i \<and> in_range i"
  by (auto simp: check_range_def)

lemma jitter_bounds:
  "0 \<le> deterministic_jitter_minutes e k p d m"
  "0 \<le> m \<Longrightarrow> deterministic_jitter_minutes e k p d m \<le> m"
proof -
  have "x mod (m + 1) \<le> m" if "0 < m" for x :: int
    using that pos_mod_bound [of "m + 1" x] by linarith
  then show "0 \<le> m \<Longrightarrow> deterministic_jitter_minutes e k p d m \<le> m"
    by (auto simp: deterministic_jitter_minutes_def)
qed (auto simp: deterministic_jitter_minutes_def)

text \<open>Where a daily policy puts the run of a local date, as a wall clock reading.\<close>

definition daily_slot :: "env \<Rightarrow> backup_policy \<Rightarrow> int \<Rightarrow> int \<Rightarrow> int" where
  "daily_slot e pol k d =
     (d - 1) * day_us + the (bp_time_of_day pol)
     + deterministic_jitter_minutes e k (bp_pk pol) d (bp_jitter_minutes pol) * minute_us"

lemma daily_candidate_in_range:
  assumes "bp_time_of_day pol = Some t" "0 \<le> t" "0 \<le> bp_jitter_minutes pol"
    "0 \<le> (d - 1) * day_us" "(d - 1) * day_us + t + bp_jitter_minutes pol * minute_us \<le> max_instant"
  shows "daily_candidate e pol t d k = Inr (daily_slot e pol k d)"
proof -
  let ?j = "deterministic_jitter_minutes e k (bp_pk pol) d (bp_jitter_minutes pol)"
  have j: "0 \<le> ?j" "?j \<le> bp_jitter_minutes pol"
    using jitter_bounds assms(3) by blast+
  then have "0 \<le> ?j * minute_us" "?j * minute_us \<le> bp_jitter_minutes pol * minute_us"
    by (simp_all add: minute_us_def)
  with assms show ?thesis
    by (simp add: daily_candidate_def check_range_def dt_shift_def in_range_def timedelta_ok_def
        daily_slot_def max_instant_def day_us_def)
qed

lemma daily_slot_bounds:
  assumes "bp_time_of_day pol = Some t" "0 \<le> bp_jitter_minutes pol"
  shows "(d - 1) * day_us + t \<le> daily_slot e pol k d"
    "daily_slot e pol k d \<le> (d - 1) * day_us + t + bp_jitter_minutes pol * minute_us"
  using assms jitter_bounds(1) [of e k "bp_pk pol" d "bp_jitter_minutes pol"]
    jitter_bounds(2) [of "bp_jitter_minutes pol" e k "bp_pk pol" d]
  by (simp_all add: daily_slot_def minute_us_def)

lemma calculate_next_run_interval:
  assumes "bp_schedule_type pol = ''interval''" "bp_interval_minutes pol = Some m"
    "calculate_next_run e pol (Aware after) k tz now = Inr r"
  shows "0 < m" "(let ref = dt_value (case now of None \<Rightarrow> Aware after | Some n \<Rightarrow> n); i = m * minute_us in
     r = (if after + i \<le> ref then after + i + ((ref - (after + i)) div i + 1) * i else after + i))"
  using assms
  by (auto simp: calculate_next_run_def Let_def bindE_eq_Inr split: if_splits dest!: dt_shift_Inr)

lemma first_slot_after:
  fixes i :: int
  assumes "0 < i" "r = (if a + i \<le> ref then a + i + ((ref - (a + i)) div i + 1) * i else a + i)"
  shows "ref < r" "\<exists>n \<ge> 1. r = a + n * i" "1 \<le> n \<Longrightarrow> ref < a + n * i \<Longrightarrow> r \<le> a + n * i"
proof -
  define q where "q = (ref - (a + i)) div i"
  have q: "q * i \<le> ref - (a + i)" "ref - (a + i) < (q + 1) * i"
    using assms(1) by (simp_all add: q_def pos_mod_bound algebra_simps
        minus_mod_eq_mult_div [symmetric] less_diff_eq)
  have r: "r = (if a + i \<le> ref then a + (q + 2) * i else a + 1 * i)"
    by (simp add: assms(2) q_def algebra_simps)
  show "ref < r"
    using q(2) r by (simp add: algebra_simps split: if_splits)
  have "0 \<le> q" if "a + i \<le> ref"
    using that assms(1) by (simp add: q_def pos_imp_zdiv_nonneg_iff)
  with r show "\<exists>n \<ge> 1. r = a + n * i"
    by (cases "a + i \<le> ref") (auto intro: exI [of _ "q + 2"] exI [of _ 1])
  show "r \<le> a + n * i" if n: "1 \<le> n" "ref < a + n * i"
  proof (cases "a + i \<le> ref")
    case True
    from n q(1) have "(q + 1) * i < n * i" by (simp add: algebra_simps)
    then have "q + 2 \<le> n" using assms(1) by (simp add: mult_less_cancel_right)
    then have "(q + 2) * i \<le> n * i" using assms(1) by (simp add: mult_right_mono)
    with True r show ?thesis by simp
  next
    case False
    from n assms(1) have "1 * i \<le> n * i" by (intro mult_right_mono) simp_all
    with False r show ?thesis by simp
  qed
qed

text \<open>
  The next run of an interval policy is the earliest point of the grid \<open>after + n * interval\<close>
  strictly later than the reference, however many intervals were missed: runs do not drift.
\<close>

theorem interval_run_on_grid:
  assumes "bp_schedule_type pol = ''interval''" "bp_interval_minutes pol = Some m"
    "calculate_next_run e pol (Aware after) k tz (Some (Aware ref)) = Inr r"
  shows "ref < r \<and> (\<exists>n \<ge> 1. r = after + n * (m * minute_us))
    \<and> (\<forall>n \<ge> 1. ref < after + n * (m * minute_us) \<longrightarrow> r \<le> after + n * (m * minute_us))"
proof -
  note * = calculate_next_run_interval [OF assms]
  from *(1) have "0 < m * minute_us" by (simp add: minute_us_def)
  moreover from *(2) have "r = (if after + m * minute_us \<le> ref
      then after + m * minute_us + ((ref - (after + m * minute_us)) div (m * minute_us) + 1) * (m * minute_us)
      else after + m * minute_us)" by (simp add: Let_def)
  ultimately show ?thesis
    using first_slot_after(1,2) [of "m * minute_us" r after ref]
      first_slot_after(3) [of "m * minute_us" r after ref] by simp
qed

definition sample_env :: env where
  "sample_env = \<lparr>tzdb = (\<lambda>_. Inr utc_zone), sha256 = (\<lambda>s. [int (length s), 3]),
     default_time_zone = ''UTC''\<rparr>"

lemmas time_defs = dt_shift_def timedelta_ok_def in_range_def max_instant_def minute_us_def day_us_def

theorem interval_run_on_grid_witness:
  "calculate_next_run sample_env sample_policy (Aware 0) 1 [] (Some (Aware 9000000000)) = Inr 10800000000
   \<and> 9000000000 < (10800000000 :: int)"
proof -
  have "calculate_next_run sample_env sample_policy (Aware 0) 1 [] (Some (Aware 9000000000)) = Inr 10800000000"
    by (simp add: calculate_next_run_def sample_defs time_defs)
  with interval_run_on_grid [OF _ _ this, of 60] show ?thesis by (simp add: sample_defs)
qed

text \<open>
  In a zone without transitions, and away from the ends of Python's calendar, a daily policy
  always yields a run: strictly after the reference, at most a day plus the jitter later, and on
  the wall clock at the configured time of some local day plus at most the configured jitter.
\<close>

theorem daily_run_next_day:
  assumes "bp_schedule_type pol = ''daily''" "bp_time_of_day pol = Some t" "0 \<le> t" "t < day_us"
    "0 \<le> bp_jitter_minutes pol" "zone_of e tz = Inr (fixed_zone off)" "\<bar>off\<bar> < day_us"
    "2 * day_us \<le> ref" "ref + 4 * day_us + bp_jitter_minutes pol * minute_us \<le> max_instant"
  shows "\<exists>r day. calculate_next_run e pol (Aware after) k tz (Some (Aware ref)) = Inr r
    \<and> ref < r \<and> r \<le> ref + day_us + bp_jitter_minutes pol * minute_us
    \<and> day * day_us + t \<le> to_wall (fixed_zone off) r
    \<and> to_wall (fixed_zone off) r \<le> day * day_us + t + bp_jitter_minutes pol * minute_us"
proof -
  define w where "w = ref + off"
  define d where "d = utc_date w"
  define J where "J = bp_jitter_minutes pol * minute_us"
  define slot where "slot = daily_slot e pol k"
  have J: "0 \<le> J" using assms(5) by (simp add: J_def minute_us_def)
  have w: "(d - 1) * day_us \<le> w" "w < d * day_us" "day_us \<le> w"
    using utc_date_bounds [of w] assms(7,8) by (auto simp: d_def w_def abs_less_iff)
  have d: "(d + 1 - 1) * day_us = (d - 1) * day_us + day_us" by (simp add: algebra_simps)
  have max: "w + 3 * day_us + J \<le> max_instant"
    using assms(7,9) by (simp add: w_def J_def abs_less_iff)
  from w(2,3) have d1: "1 \<le> d" by (simp add: day_us_def)
  then have dn: "0 \<le> (d - 1) * day_us" by (simp add: day_us_def)
  have bounds: "(x - 1) * day_us + t \<le> slot x" "slot x \<le> (x - 1) * day_us + t + J" for x
    using daily_slot_bounds [OF assms(2,5)] by (simp_all add: slot_def J_def)
  have cand: "daily_candidate e pol t d k = Inr (slot d)"
    "daily_candidate e pol t (d + 1) k = Inr (slot (d + 1))"
    unfolding slot_def
    by (rule daily_candidate_in_range; use assms(2-5) w d dn J max in \<open>simp add: J_def\<close>)+
  define c where "c = (if slot d \<le> w then slot (d + 1) else slot d)"
  have "in_range w" using w max J by (simp add: in_range_def day_us_def)
  moreover have c: "w < c" "c \<le> w + day_us + J"
    using bounds [of d] bounds [of "d + 1"] w d assms(3,4) J by (auto simp: c_def)
  moreover from c max assms(7) w(3) have "in_range (c - off)"
    by (simp add: in_range_def abs_less_iff w_def)
  ultimately have "calculate_next_run e pol (Aware after) k tz (Some (Aware ref)) = Inr (c - off)"
    using assms(1,2,6) cand
    by (cases "slot d \<le> w")
      (simp_all add: calculate_next_run_def Let_def to_wall_def wall_to_utc_def fixed_zone_def
        check_range_def w_def [symmetric] d_def [symmetric] c_def)
  moreover have "ref < c - off" "c - off \<le> ref + day_us + J" using c by (simp_all add: w_def)
  moreover have "\<exists>day. day * day_us + t \<le> c \<and> c \<le> day * day_us + t + J"
    using bounds [of d] bounds [of "d + 1"] by (auto simp: c_def)
  ultimately show ?thesis
    by (auto simp: to_wall_def fixed_zone_def J_def)
qed

theorem daily_run_next_day_witness:
  "\<exists>r day. calculate_next_run sample_env
      (sample_policy\<lparr>bp_schedule_type := ''daily'', bp_time_of_day := Some 0, bp_jitter_minutes := 30\<rparr>)
      (Aware 0) 1 ''UTC'' (Some (Aware (1000 * day_us))) = Inr r
    \<and> 1000 * day_us < r \<and> r \<le> 1000 * day_us + day_us + 30 * minute_us
    \<and> day * day_us \<le> r \<and> r \<le> day * day_us + 30 * minute_us"
proof -
  have "zone_of sample_env ''UTC'' = Inr (fixed_zone 0)"
    by (simp add: zone_of_def sample_env_def utc_zone_def fixed_zone_def)
  with daily_run_next_day [of "sample_policy\<lparr>bp_schedule_type := ''daily'', bp_time_of_day := Some 0,
      bp_jitter_minutes := 30\<rparr>" 0 sample_env "''UTC''" 0 "1000 * day_us" 0 1]
  show ?thesis by (simp add: time_defs to_wall_def fixed_zone_def)
qed

text \<open>
  A zone that leaves summer time at instant \<open>T\<close>: offset \<open>2h\<close> before, \<open>1h\<close> from \<open>T\<close> on. Wall clock
  readings up to \<open>T + 2h\<close> are taken with the summer offset, as \<open>fold = 0\<close> prescribes.
\<close>

definition autumn_zone :: "int \<Rightarrow> zone" where
  "autumn_zone T = \<lparr>utcoff = (\<lambda>i. if i < T then 120 * minute_us else 60 * minute_us),
     walloff = (\<lambda>w. if w < T + 120 * minute_us then 120 * minute_us else 60 * minute_us)\<rparr>"

definition autumn_env :: "int \<Rightarrow> env" where
  "autumn_env T = sample_env\<lparr>tzdb := (\<lambda>_. Inr (autumn_zone T))\<rparr>"

text \<open>
  The docstring of \<open>calculate_next_run\<close> promises a run strictly after the reference. In the
  repeated hour at the end of summer time the promise fails: the candidate is compared with the
  reference on the wall clock, then converted with \<open>fold = 0\<close>, and the returned instant lies in
  the past.
\<close>

theorem daily_run_may_be_in_the_past:
  "\<exists>e pol ref r. bp_schedule_type pol = ''daily'' \<and> zone_of e ''Europe/Prague'' \<noteq> Inl KeyError
     \<and> calculate_next_run e pol (Aware ref) 1 ''Europe/Prague'' None = Inr r \<and> r < ref"
proof -
  let ?T = "1000 * day_us + 60 * minute_us" and ?ref = "1000 * day_us + 90 * minute_us"
  let ?pol = "sample_policy\<lparr>bp_schedule_type := ''daily'', bp_time_of_day := Some (165 * minute_us)\<rparr>"
  have "calculate_next_run (autumn_env ?T) ?pol (Aware ?ref) 1 ''Europe/Prague'' None
        = Inr (1000 * day_us + 45 * minute_us)"
    by (simp add: calculate_next_run_def zone_of_def autumn_env_def autumn_zone_def sample_env_def
        daily_candidate_def check_range_def deterministic_jitter_minutes_def to_wall_def
        wall_to_utc_def utc_date_def sample_policy_def time_defs)
  then show ?thesis
    by (intro exI [of _ "autumn_env ?T"] exI [of _ ?pol] exI [of _ ?ref]
        exI [of _ "1000 * day_us + 45 * minute_us"])
      (simp add: zone_of_def autumn_env_def sample_env_def minute_us_def)
qed

text \<open>
  After the \<open>n\<close>-th consecutive failure of an enabled policy the target is retried after the
  \<open>n\<close>-th backoff delay, the last delay being repeated, for as long as \<open>is_retry_scheduled\<close> holds;
  afterwards it waits for its next regular run.
\<close>

theorem failure_retry_deadline:
  assumes "bp_enabled pol" "1 \<le> n"
  shows "calculate_failure_next_run e (Some pol) failed_at n k tz =
    (if is_retry_scheduled (Some pol) n
     then bindE (dt_shift failed_at
            (bp_retry_backoff_minutes pol ! min (nat n - 1) (length (bp_retry_backoff_minutes pol) - 1)
             * minute_us)) (\<lambda>r. Inr (Some r))
     else bindE (calculate_next_run e pol (Aware failed_at) k tz None) (\<lambda>r. Inr (Some r)))"
proof (cases "is_retry_scheduled (Some pol) n")
  case True
  let ?b = "bp_retry_backoff_minutes pol"
  from True have "?b \<noteq> []" by (simp add: is_retry_scheduled_def)
  then have "1 \<le> length ?b" by (cases ?b) auto
  then have "0 \<le> min (n - 1) (int (length ?b) - 1)" "min (n - 1) (int (length ?b) - 1) < int (length ?b)"
    "nat (min (n - 1) (int (length ?b) - 1)) = min (nat n - 1) (length ?b - 1)"
    using assms(2) by auto
  then have "py_index ?b (min (n - 1) (int (length ?b) - 1)) = Inr (?b ! min (nat n - 1) (length ?b - 1))"
    unfolding py_index_def by auto
  with True assms show ?thesis
    by (simp add: calculate_failure_next_run_def is_retry_scheduled_def Let_def)
next
  case False
  with assms show ?thesis
    by (auto simp: calculate_failure_next_run_def is_retry_scheduled_def Let_def)
qed

theorem failure_retry_deadline_witness:
  "calculate_failure_next_run sample_env (Some sample_policy) 0 3 1 [] = Inr (Some 3600000000)
   \<and> calculate_failure_next_run sample_env (Some sample_policy) 0 4 1 [] = Inr (Some 3600000000)
   \<and> calculate_failure_next_run sample_env (Some sample_policy) 0 1 1 [] = Inr (Some 300000000)"
proof -
  have "bp_enabled sample_policy" by (simp add: sample_policy_def)
  note deadline = failure_retry_deadline [OF this, of _ sample_env 0 1 "[]"]
  show ?thesis
    using deadline [of 3] deadline [of 4] deadline [of 1]
    by (simp add: is_retry_scheduled_def calculate_next_run_def sample_policy_def time_defs)
qed

text \<open>
  Re-applying the schedule to a target row leaves the status disabled exactly on disabled
  targets, and a next run exactly on enabled targets with an enabled policy.
\<close>

theorem apply_target_schedule_consistent:
  assumes "apply_target_schedule e t now = Inr t'"
  shows "(t_status t' = TDisabled \<longleftrightarrow> \<not> t_enabled t')
    \<and> (t_next_run_at t' \<noteq> None \<longleftrightarrow> t_enabled t' \<and> (\<exists>pol. t_policy_override t' = Some pol \<and> bp_enabled pol))
    \<and> apply_target_schedule e t' now = Inr t'"
proof -
  from assms obtain n where n: "calculate_target_next_run e t now = Inr n"
    and t': "t' = t\<lparr>t_next_run_at := n,
            t_status := (if \<not> t_enabled t then TDisabled
                         else if t_status t = TDisabled
                         then (if t_consecutive_failures t \<noteq> 0 then TFailed
                               else if t_last_success_at t \<noteq> None then THealthy else TNever)
                         else t_status t)\<rparr>"
    unfolding apply_target_schedule_def by (auto simp: result_simps)
  have "t_policy_override t' = t_policy_override t" "t_enabled t' = t_enabled t"
    "t_pk t' = t_pk t" "t_device t' = t_device t"
    by (simp_all add: t')
  then have "calculate_target_next_run e t' now = calculate_target_next_run e t now"
    by (simp only: calculate_target_next_run_def target_key_def target_timezone_name_def)
  with n have "apply_target_schedule e t' now = Inr t'"
    by (cases t) (auto simp: apply_target_schedule_def t')
  moreover have "n \<noteq> None \<longleftrightarrow> t_enabled t \<and> (\<exists>pol. t_policy_override t = Some pol \<and> bp_enabled pol)"
    using n by (auto simp: calculate_target_next_run_def result_simps split: option.splits if_splits)
  ultimately show ?thesis by (auto simp: t')
qed

theorem apply_target_schedule_consistent_witness:
  "\<exists>t'. apply_target_schedule sample_env (sample_target\<lparr>t_status := TDisabled\<rparr>) (Aware 0) = Inr t'
     \<and> t_status t' = TNever \<and> t_next_run_at t' \<noteq> None"
proof -
  let ?t' = "sample_target\<lparr>t_status := TNever, t_next_run_at := Some 3600000000\<rparr>"
  have *: "apply_target_schedule sample_env (sample_target\<lparr>t_status := TDisabled\<rparr>) (Aware 0) = Inr ?t'"
    by (simp add: apply_target_schedule_def calculate_target_next_run_def calculate_next_run_def
        sample_defs time_defs)
  with apply_target_schedule_consistent [OF *] show ?thesis by (simp add: sample_defs)
qed

section \<open>Integrity audits\<close>

definition audit_candidate :: "int \<Rightarrow> int \<Rightarrow> int \<Rightarrow> int \<Rightarrow> int result" where
  "audit_candidate candidate_date audit_time local_reference days =
     bindE (check_range ((candidate_date - 1) * day_us + audit_time)) (\<lambda>candidate.
     if candidate \<le> local_reference then dt_shift candidate (days * day_us) else Inr candidate)"

definition calculate_next_ftp_audit ::
  "env \<Rightarrow> backup_destination \<Rightarrow> datetime \<Rightarrow> datetime option \<Rightarrow> string \<Rightarrow> int result" where
  "calculate_next_ftp_audit e dst after now timezone_name =
     (let reference = (case now of None \<Rightarrow> after | Some n \<Rightarrow> n) in
      if \<not> is_aware after \<or> \<not> is_aware reference
      then Inl (ValueError ''FTP audit scheduling requires timezone-aware datetimes.'')
      else bindE (zone_of e timezone_name) (\<lambda>z.
           bindE (check_range (to_wall z (dt_value reference))) (\<lambda>local_reference.
           let candidate_date = utc_date local_reference in
           if dst_audit_frequency dst = ''daily''
           then bindE (audit_candidate candidate_date (dst_audit_time dst) local_reference 1)
                  (\<lambda>candidate. check_range (wall_to_utc z candidate))
           else if dst_audit_frequency dst \<noteq> ''weekly''
           then Inl (ValueError ''Unsupported FTP audit frequency.'')
           else let days_ahead = (dst_audit_weekday dst - weekday candidate_date) mod 7 in
                bindE (audit_candidate (candidate_date + days_ahead) (dst_audit_time dst) local_reference 7)
                  (\<lambda>candidate. check_range (wall_to_utc z candidate)))))"

definition calculate_destination_next_ftp_audit ::
  "env \<Rightarrow> backup_destination \<Rightarrow> datetime \<Rightarrow> string \<Rightarrow> int option result" where
  "calculate_destination_next_ftp_audit e dst now timezone_name =
     (if \<not> dst_enabled dst \<or> \<not> dst_audit_enabled dst \<or> \<not> replicated_protocol (dst_protocol dst)
      then Inr None
      else bindE (calculate_next_ftp_audit e dst now (Some now) timezone_name) (\<lambda>r. Inr (Some r)))"

lemma audit_candidate_Inr:
  assumes "audit_candidate d t w n = Inr c" "0 \<le> t" "t < day_us" "1 \<le> n"
    "w < d * day_us" "(d - n) * day_us \<le> w"
  shows "w < c" "c \<le> w + n * day_us" "\<exists>j \<in> {0, n}. c = (d + j - 1) * day_us + t"
proof -
  define A where "A = (d - 1) * day_us"
  define B where "B = n * day_us"
  have w: "day_us \<le> B" "w < A + day_us" "A + day_us - B \<le> w"
    using assms(4-6) by (simp_all add: A_def B_def day_us_def)
  have "c = A + t \<and> w < c \<or> c = A + t + B \<and> A + t \<le> w"
    using assms(1) by (auto simp: audit_candidate_def A_def B_def result_simps split: if_splits
        dest!: dt_shift_Inr)
  moreover have "(d + 0 - 1) * day_us = A" "(d + n - 1) * day_us = A + B"
    by (simp_all add: A_def B_def algebra_simps)
  ultimately show "w < c" "c \<le> w + n * day_us" "\<exists>j \<in> {0, n}. c = (d + j - 1) * day_us + t"
    using w assms(2,3) by (auto simp: B_def [symmetric])
qed

lemma weekday_shift: "weekday (n + 7) = weekday n"
  unfolding weekday_def by presburger

lemma weekday_ahead:
  assumes "0 \<le> wd" "wd < 7"
  shows "weekday (d + (wd - weekday d) mod 7) = wd"
proof -
  have "weekday (d + (wd - weekday d) mod 7) = (d + 6 + (wd - (d + 6) mod 7) mod 7) mod 7"
    by (simp add: weekday_def algebra_simps)
  also have "\<dots> = wd mod 7" by (simp add: mod_simps)
  finally show ?thesis using assms by simp
qed

lemma utc_date_at: "0 \<le> t \<Longrightarrow> t < day_us \<Longrightarrow> utc_date ((n - 1) * day_us + t) = n"
  by (simp add: utc_date_def div_add1_eq zdiv_zmult2_eq)

text \<open>
  In a zone without transitions a weekly audit falls strictly after the reference, at most seven
  days later, on the configured weekday at the configured local time.
\<close>

theorem weekly_audit_slot:
  assumes "dst_audit_frequency dst = ''weekly''" "0 \<le> dst_audit_weekday dst" "dst_audit_weekday dst < 7"
    "0 \<le> dst_audit_time dst" "dst_audit_time dst < day_us" "zone_of e tz = Inr (fixed_zone off)"
    "calculate_next_ftp_audit e dst (Aware after) (Some (Aware ref)) tz = Inr r"
  shows "ref < r \<and> r \<le> ref + 7 * day_us
    \<and> weekday (utc_date (to_wall (fixed_zone off) r)) = dst_audit_weekday dst
    \<and> to_wall (fixed_zone off) r mod day_us = dst_audit_time dst"
proof -
  define w where "w = ref + off"
  define a where "a = (dst_audit_weekday dst - weekday (utc_date w)) mod 7"
  define d where "d = utc_date w + a"
  from assms(1,6,7) obtain c
    where c: "audit_candidate d (dst_audit_time dst) w 7 = Inr c" and r: "r = c - off"
    by (auto simp: calculate_next_ftp_audit_def Let_def result_simps to_wall_def wall_to_utc_def
        fixed_zone_def w_def d_def a_def)
  have a: "0 \<le> a" "a \<le> 6" unfolding a_def by presburger+
  have "w < d * day_us" "(d - 7) * day_us \<le> w"
    using utc_date_bounds [of w] a by (simp_all add: d_def day_us_def)
  have "(1 :: int) \<le> 7" by simp
  note slot = audit_candidate_Inr [OF c assms(4,5) this \<open>w < d * day_us\<close> \<open>(d - 7) * day_us \<le> w\<close>]
  have "weekday d = dst_audit_weekday dst"
    unfolding d_def a_def by (rule weekday_ahead [OF assms(2,3)])
  moreover from slot(3) obtain j where "j \<in> {0, 7}" "c = (d + j - 1) * day_us + dst_audit_time dst"
    by blast
  ultimately have "weekday (utc_date c) = dst_audit_weekday dst" "c mod day_us = dst_audit_time dst"
    using utc_date_at [OF assms(4,5), of "d + j"] assms(4,5) by (auto simp: weekday_shift)
  with slot(1,2) show ?thesis by (simp add: r to_wall_def fixed_zone_def w_def)
qed

theorem weekly_audit_slot_witness:
  "\<exists>r. calculate_next_ftp_audit sample_env sample_destination (Aware 0) (Some (Aware (1000 * day_us))) []
        = Inr r \<and> 1000 * day_us < r \<and> r \<le> 1007 * day_us \<and> weekday (utc_date r) = 6"
proof -
  have *: "calculate_next_ftp_audit sample_env sample_destination (Aware 0) (Some (Aware (1000 * day_us))) []
      = Inr (1007 * day_us)"
    by (simp add: calculate_next_ftp_audit_def audit_candidate_def check_range_def to_wall_def
        wall_to_utc_def utc_zone_def utc_date_def weekday_def sample_env_def sample_defs time_defs
        zone_of_def)
  have "zone_of sample_env [] = Inr (fixed_zone 0)"
    by (simp add: zone_of_def sample_env_def utc_zone_def fixed_zone_def)
  with weekly_audit_slot [OF _ _ _ _ _ this *] * show ?thesis
    by (simp add: sample_defs to_wall_def fixed_zone_def)
qed

end
