(* ===== verification/Database.thy ===== *)
theory Database
  imports Models
begin

text \<open>
  Transactions, background jobs and operational settings shared by the services. A
  \<open>transaction.atomic\<close> block is a function from the database to a result: an exception leaves the
  database as it was. Code outside a transaction commits each statement by itself and is a
  \<open>prog\<close> over the database.
\<close>

definition atomic :: "(db \<Rightarrow> ('a \<times> db) result) \<Rightarrow> (db, 'a) prog" where
  "atomic f d = (case f d of Inl e \<Rightarrow> (Inl e, d) | Inr (x, d') \<Rightarrow> (Inr x, d'))"

lemma atomic_eq_Inr [prog_simps]: "atomic f d = (Inr x, d') \<longleftrightarrow> f d = Inr (x, d')"
  by (auto simp: atomic_def split: sum.splits prod.splits)

lemma atomic_eq_Inl [prog_simps]: "atomic f d = (Inl e, d') \<longleftrightarrow> f d = Inl e \<and> d' = d"
  by (auto simp: atomic_def split: sum.splits prod.splits)

text \<open>\<open>services/runtime_controls.py\<close>: the stored settings win over the deployment's.\<close>

record runtime_controls =
  events_enabled :: bool
  notify_on_every_failure :: bool

record plugin_settings =
  ps_events_enabled :: "bool option"
  ps_notify_on_every_failure :: "bool option"

definition get_runtime_controls :: "plugin_settings \<Rightarrow> runtime_controls option result \<Rightarrow> runtime_controls" where
  "get_runtime_controls plugin stored =
     (let fallback = \<lparr>events_enabled = (case ps_events_enabled plugin of None \<Rightarrow> True | Some b \<Rightarrow> b),
                      notify_on_every_failure =
                        (case ps_notify_on_every_failure plugin of None \<Rightarrow> False | Some b \<Rightarrow> b)\<rparr>
      in case stored of Inl _ \<Rightarrow> fallback | Inr None \<Rightarrow> fallback | Inr (Some c) \<Rightarrow> c)"

text \<open>Queueing a background job writes a pending job row and returns its identifier.\<close>

definition enqueue_job :: "string \<Rightarrow> int option \<Rightarrow> db \<Rightarrow> int \<times> db" where
  "enqueue_job name obj d =
     (next_id d, d\<lparr>jobs := jobs d @ [\<lparr>j_id = next_id d, j_name = name, j_object_id = obj, j_status = JPending, j_data = []\<rparr>],
                  next_id := next_id d + 1\<rparr>)"

lemma enqueue_job_tables [simp]:
  "targets (snd (enqueue_job n ob d)) = targets d" "runs (snd (enqueue_job n ob d)) = runs d"
  "revisions (snd (enqueue_job n ob d)) = revisions d" "artifacts (snd (enqueue_job n ob d)) = artifacts d"
  "replicas (snd (enqueue_job n ob d)) = replicas d" "destinations (snd (enqueue_job n ob d)) = destinations d"
  "events (snd (enqueue_job n ob d)) = events d"
  by (simp_all add: enqueue_job_def)

definition job_of :: "db \<Rightarrow> int option \<Rightarrow> job option" where
  "job_of d k = (case k of None \<Rightarrow> None | Some i \<Rightarrow> find (\<lambda>j. j_id j = i) (jobs d))"

definition job_is_enqueued :: "db \<Rightarrow> int option \<Rightarrow> bool" where
  "job_is_enqueued d k = (case job_of d k of None \<Rightarrow> False | Some j \<Rightarrow> enqueued_state (j_status j))"

end
