(* ===== verification/Health.thy ===== *)
theory Health
  imports Scheduling Database
begin

text \<open>
  \<open>services/health.py\<close>: the status of a backup target as operators see it, the periodic refresh of
  all targets, and the two readings of a stuck run, one on a row and one as a database query.
\<close>

section \<open>Target health\<close>

record target_health_evaluation =
  he_status :: target_status
  he_expected_success_by :: "int option"
  he_monitored :: bool

record target_health_refresh_summary =
  hs_evaluated :: nat
  hs_updated :: nat
  hs_healthy :: nat
  hs_stale :: nat
  hs_failed :: nat
  hs_never :: nat
  hs_disabled :: nat

fun is_value_error :: "exn \<Rightarrow> bool" where
  "is_value_error (ValueError _) = True"
| "is_value_error _ = False"

definition succeeded_or_never :: "backup_target \<Rightarrow> target_status" where
  "succeeded_or_never t = (if t_last_success_at t \<noteq> None then THealthy else TNever)"

text \<open>\<open>last_success_at or created\<close>; both come from the database and are aware.\<close>

definition health_reference :: "backup_target \<Rightarrow> int option" where
  "health_reference t = (case t_last_success_at t of Some i \<Rightarrow> Some i | None \<Rightarrow> t_created t)"

definition evaluate_target_health ::
  "env \<Rightarrow> backup_target \<Rightarrow> datetime \<Rightarrow> int \<Rightarrow> target_health_evaluation result" where
  "evaluate_target_health e t now grace_minutes =
     (if \<not> is_aware now
      then Inl (ValueError ''Target health evaluation requires a timezone-aware datetime.'')
      else if grace_minutes < 0 then Inl (ValueError ''Target health grace cannot be negative.'')
      else if \<not> t_enabled t
      then Inr \<lparr>he_status = TDisabled, he_expected_success_by = None, he_monitored = False\<rparr>
      else if 0 < t_consecutive_failures t \<or> t_status t = TFailed
      then Inr \<lparr>he_status = TFailed, he_expected_success_by = None, he_monitored = True\<rparr>
      else let unmonitored =
             Inr \<lparr>he_status = succeeded_or_never t, he_expected_success_by = None, he_monitored = False\<rparr>
      in case t_policy_override t of
           None \<Rightarrow> unmonitored
         | Some pol \<Rightarrow>
             if \<not> bp_enabled pol then unmonitored
             else (case health_reference t of
                 None \<Rightarrow> Inr \<lparr>he_status = TNever, he_expected_success_by = None, he_monitored = True\<rparr>
               | Some reference \<Rightarrow>
                   (case calculate_next_run e pol (Aware reference) (target_key t)
                           (target_timezone_name e t) (Some (Aware reference)) of
                      Inl exc \<Rightarrow> if is_value_error exc then unmonitored else Inl exc
                    | Inr next_expected \<Rightarrow>
                        bindE (dt_shift next_expected (grace_minutes * minute_us)) (\<lambda>deadline.
                        Inr \<lparr>he_status = (if deadline \<le> dt_value now then TStale else succeeded_or_never t),
                             he_expected_success_by = Some deadline, he_monitored = True\<rparr>))))"

definition health_count :: "target_status \<Rightarrow> target_health_evaluation list \<Rightarrow> nat" where
  "health_count st evs = length (filter (\<lambda>ev. he_status ev = st) evs)"

text \<open>
  The loop evaluates every target before anything is written: an exception leaves the table
  unchanged. \<open>bulk_update\<close> writes the new status of the changed rows, and an event is queued for
  every target that has just become stale.
\<close>

definition refresh_target_health ::
  "env \<Rightarrow> runtime_controls \<Rightarrow> datetime \<Rightarrow> int \<Rightarrow> db \<Rightarrow> (target_health_refresh_summary \<times> db) result" where
  "refresh_target_health e rc now grace_minutes d =
     bindE (traverse (\<lambda>t. evaluate_target_health e t now grace_minutes) (targets d)) (\<lambda>evs.
     let pairs = zip (targets d) evs;
         changed = filter (\<lambda>(t, ev). t_status t \<noteq> he_status ev) pairs;
         newly_stale = map (\<lambda>(t, ev). t_pk t) (filter (\<lambda>(t, ev). he_status ev = TStale) changed);
         d1 = d\<lparr>targets := map (\<lambda>(t, ev). t\<lparr>t_status := he_status ev\<rparr>) pairs\<rparr>
     in Inr (\<lparr>hs_evaluated = length (targets d), hs_updated = length changed,
              hs_healthy = health_count THealthy evs, hs_stale = health_count TStale evs,
              hs_failed = health_count TFailed evs, hs_never = health_count TNever evs,
              hs_disabled = health_count TDisabled evs\<rparr>,
             foldl (\<lambda>d k. queue_event (events_enabled rc) ''config_backup_target_stale'' k d) d1 newly_stale))"

section \<open>Stuck and failed runs\<close>

definition is_active_status :: "run_status \<Rightarrow> bool" where
  "is_active_status st \<longleftrightarrow> st = RQueued \<or> st = RRunning"

definition is_run_stuck :: "backup_run \<Rightarrow> datetime \<Rightarrow> int \<Rightarrow> bool result" where
  "is_run_stuck run now timeout_minutes =
     (if \<not> is_aware now then Inl (ValueError ''Stuck run evaluation requires a timezone-aware datetime.'')
      else if timeout_minutes \<le> 0 then Inl (ValueError ''Stuck run timeout must be positive.'')
      else if \<not> is_active_status (r_status run) then Inr False
      else let reference = (if r_status run = RRunning \<and> r_started_at run \<noteq> None
                            then the (r_started_at run) else r_queued_at run)
           in bindE (dt_shift (dt_value now) (- (timeout_minutes * minute_us))) (\<lambda>cutoff.
              Inr (reference \<le> cutoff)))"

text \<open>A comparison with a null column is not true in SQL.\<close>

definition sql_le :: "int option \<Rightarrow> int \<Rightarrow> bool" where
  "sql_le x c = (case x of None \<Rightarrow> False | Some i \<Rightarrow> i \<le> c)"

definition stuck_run_query :: "int \<Rightarrow> int \<Rightarrow> (backup_run \<Rightarrow> bool) result" where
  "stuck_run_query now timeout_minutes =
     bindE (dt_shift now (- (timeout_minutes * minute_us))) (\<lambda>cutoff.
     Inr (\<lambda>run. (r_status run = RQueued \<and> r_queued_at run \<le> cutoff)
        \<or> (r_status run = RRunning
           \<and> (sql_le (r_started_at run) cutoff \<or> (r_started_at run = None \<and> r_queued_at run \<le> cutoff)))))"

definition stuck_run_queryset :: "backup_run list \<Rightarrow> int \<Rightarrow> int \<Rightarrow> backup_run list result" where
  "stuck_run_queryset rows now timeout_minutes =
     bindE (stuck_run_query now timeout_minutes) (\<lambda>q. Inr (filter q rows))"

definition is_failure_status :: "run_status \<Rightarrow> bool" where
  "is_failure_status st \<longleftrightarrow> st = RPartial \<or> st = RFailed \<or> st = RErrored"

definition failure_run_queryset :: "backup_run list \<Rightarrow> backup_run list" where
  "failure_run_queryset rows = filter (\<lambda>run. is_failure_status (r_status run)) rows"

section \<open>Facts\<close>

text \<open>Only the failed status of a row matters to its evaluation.\<close>

lemma evaluate_status_irrelevant:
  assumes "s \<noteq> TFailed" "t_status t \<noteq> TFailed"
  shows "evaluate_target_health e (t\<lparr>t_status := s\<rparr>) now g = evaluate_target_health e t now g"
proof -
  have same: "target_timezone_name e (t\<lparr>t_status := s\<rparr>) = target_timezone_name e t"
    "target_key (t\<lparr>t_status := s\<rparr>) = target_key t" "health_reference (t\<lparr>t_status := s\<rparr>) = health_reference t"
    "succeeded_or_never (t\<lparr>t_status := s\<rparr>) = succeeded_or_never t"
    by (simp_all add: target_timezone_name_def target_key_def health_reference_def succeeded_or_never_def
        split: option.split)
  show ?thesis
  proof (cases "t_policy_override t")
    case None
    with assms show ?thesis by (simp add: evaluate_target_health_def Let_def same)
  next
    case (Some pol)
    with assms show ?thesis
      by (cases "health_reference t") (simp_all add: evaluate_target_health_def Let_def same bindE_def split: sum.split)
  qed
qed

lemma evaluate_status_fixpoint:
  assumes "evaluate_target_health e t now g = Inr ev"
  shows "evaluate_target_health e (t\<lparr>t_status := he_status ev\<rparr>) now g = Inr ev"
proof (cases "\<not> t_enabled t \<or> 0 < t_consecutive_failures t \<or> t_status t = TFailed")
  case True
  with assms show ?thesis by (auto simp: evaluate_target_health_def Let_def split: if_splits)
next
  case False
  moreover have "succeeded_or_never t \<noteq> TFailed" by (simp add: succeeded_or_never_def)
  ultimately have "he_status ev \<noteq> TFailed"
    using assms
    by (auto simp: evaluate_target_health_def Let_def result_simps split: if_splits option.splits sum.splits)
  with False assms show ?thesis by (simp add: evaluate_status_irrelevant)
qed

lemma foldl_queue_event:
  "foldl (\<lambda>d k. queue_event b ty k d) d ks = d\<lparr>events := events d @ (if b then map (Pair ty) ks else [])\<rparr>"
  by (induction ks arbitrary: d) (simp_all add: queue_event_def)

lemma health_count_total:
  "health_count THealthy evs + health_count TStale evs + health_count TFailed evs + health_count TNever evs
     + health_count TDisabled evs = length evs"
proof (induction evs)
  case (Cons ev evs)
  then show ?case by (cases "he_status ev") (simp_all add: health_count_def)
qed (simp add: health_count_def)

definition refreshed :: "backup_target list \<Rightarrow> target_health_evaluation list \<Rightarrow> backup_target list" where
  "refreshed ts evs = map (\<lambda>(t, ev). t\<lparr>t_status := he_status ev\<rparr>) (zip ts evs)"

lemma refreshed_again:
  assumes "list_all2 (\<lambda>t ev. evaluate_target_health e t now g = Inr ev) ts evs"
  shows "traverse (\<lambda>t. evaluate_target_health e t now g) (refreshed ts evs) = Inr evs"
    "filter (\<lambda>(t, ev). t_status t \<noteq> he_status ev) (zip (refreshed ts evs) evs) = []"
    "refreshed (refreshed ts evs) evs = refreshed ts evs"
  using assms by (induction rule: list_all2_induct) (auto simp: refreshed_def dest: evaluate_status_fixpoint)

section \<open>Properties\<close>

text \<open>
  The health refresh is idempotent: repeated at the same time it changes no row, queues no event
  and reports no update, so a stale target raises its event once, when it becomes stale. The five
  counters of its summary add up to the number of targets.
\<close>

theorem health_refresh_idempotent:
  assumes "refresh_target_health e rc now g d = Inr (summary, d')"
  shows "\<exists>summary'. refresh_target_health e rc now g d' = Inr (summary', d') \<and> hs_updated summary' = 0
    \<and> hs_healthy summary + hs_stale summary + hs_failed summary + hs_never summary + hs_disabled summary
        = length (targets d)"
proof -
  from assms obtain evs where t: "traverse (\<lambda>t. evaluate_target_health e t now g) (targets d) = Inr evs"
    by (auto simp: refresh_target_health_def result_simps)
  from assms t have ts: "targets d' = refreshed (targets d) evs"
    and sum: "hs_healthy summary + hs_stale summary + hs_failed summary + hs_never summary + hs_disabled summary
        = length evs"
    by (auto simp: refresh_target_health_def Let_def foldl_queue_event refreshed_def health_count_total)
  note again = refreshed_again [OF traverse_list_all2 [OF t]]
  have "map (\<lambda>(t, ev). t\<lparr>t_status := he_status ev\<rparr>) (zip (targets d') evs) = targets d'"
    using again(3) ts by (simp add: refreshed_def)
  then have "\<exists>summary'. refresh_target_health e rc now g d' = Inr (summary', d') \<and> hs_updated summary' = 0"
    using again(1,2) ts by (simp add: refresh_target_health_def Let_def del: filter_filter)
  with sum traverse_length [OF t] show ?thesis by simp
qed

theorem health_refresh_idempotent_witness:
  "\<exists>s d'. refresh_target_health sample_env \<lparr>events_enabled = True, notify_on_every_failure = False\<rparr> (Aware (10 ^ 10)) 30
      (empty_db\<lparr>targets := [sample_target]\<rparr>) = Inr (s, d') \<and> hs_stale s = 1
      \<and> (\<exists>s'. refresh_target_health sample_env \<lparr>events_enabled = True, notify_on_every_failure = False\<rparr>
           (Aware (10 ^ 10)) 30 d' = Inr (s', d') \<and> hs_updated s' = 0)"
proof -
  let ?r = "refresh_target_health sample_env \<lparr>events_enabled = True, notify_on_every_failure = False\<rparr> (Aware (10 ^ 10)) 30
      (empty_db\<lparr>targets := [sample_target]\<rparr>)"
  have "case ?r of Inl e \<Rightarrow> False | Inr (s, d') \<Rightarrow> hs_stale s = 1" by code_simp
  then obtain s d' where r: "?r = Inr (s, d')" "hs_stale s = 1" by (auto split: sum.splits)
  from health_refresh_idempotent [OF r(1)] r show ?thesis by blast
qed

text \<open>
  The run page and the dispatcher agree on what a stuck run is: for a positive timeout the
  database query selects exactly the runs on which the row predicate holds, including running rows
  without a start time and rows in a final state.
\<close>

theorem stuck_run_query_agrees:
  assumes "0 < timeout_minutes" "stuck_run_queryset rows now timeout_minutes = Inr stuck"
  shows "stuck = filter (\<lambda>run. is_run_stuck run (Aware now) timeout_minutes = Inr True) rows
    \<and> (\<forall>run. \<exists>b. is_run_stuck run (Aware now) timeout_minutes = Inr b)"
  using assms
  by (auto simp: is_run_stuck_def stuck_run_queryset_def stuck_run_query_def is_active_status_def sql_le_def
      result_simps Let_def split: option.splits intro!: filter_cong)

theorem stuck_run_query_agrees_witness:
  "stuck_run_queryset [sample_run 1 RRunning, sample_run 2 RFailed] (10 ^ 10) 60 = Inr [sample_run 1 RRunning]
   \<and> is_run_stuck (sample_run 1 RRunning) (Aware (10 ^ 10)) 60 = Inr True"
proof -
  have q: "stuck_run_queryset [sample_run 1 RRunning, sample_run 2 RFailed] (10 ^ 10) 60 = Inr [sample_run 1 RRunning]"
    by (simp add: stuck_run_queryset_def stuck_run_query_def sample_run_def time_defs dt_shift_def)
  have "sample_run 1 RRunning \<in> set (filter (\<lambda>run. is_run_stuck run (Aware (10 ^ 10)) 60 = Inr True)
      [sample_run 1 RRunning, sample_run 2 RFailed])"
    using stuck_run_query_agrees [OF _ q] by (metis list.set_intros(1) zero_less_numeral)
  then have "is_run_stuck (sample_run 1 RRunning) (Aware (10 ^ 10)) 60 = Inr True" unfolding set_filter by blast
  with q show ?thesis by blast
qed

end
