(* ===== verification/Storage.thy ===== *)
theory Storage
  imports Models
begin

text \<open>
  The artifact store (\<open>storage/base.py\<close>, \<open>storage/local.py\<close>). The abstract base class is a record of
  operations; \<open>storage_contract\<close> is what its clients rely on. The local file system is a map from absolute
  paths to contents together with the outcomes of the coming system calls, so that every failure
  between two system calls is covered.
\<close>

section \<open>Interface\<close>

record storage_object =
  so_key :: string
  so_size :: int
  so_metadata :: "(string \<times> string) list"

record 's config_storage =
  st_put :: "string \<Rightarrow> string \<Rightarrow> (string \<times> string) list \<Rightarrow> ('s, storage_object) prog"
  st_get :: "string \<Rightarrow> ('s, string) prog"
  st_exists :: "string \<Rightarrow> ('s, bool) prog"
  st_delete :: "string \<Rightarrow> ('s, unit) prog"
  st_stage_delete :: "string \<Rightarrow> string \<Rightarrow> ('s, string option) prog"
  st_restore_staged_delete :: "string \<Rightarrow> string \<Rightarrow> ('s, unit) prog"
  st_purge_staged_delete :: "string \<Rightarrow> ('s, unit) prog"

section \<open>Keys\<close>

text \<open>
  \<open>PurePosixPath(key).parts\<close>: the components between slashes, empty and \<open>.\<close> components dropped.
  An absolute path is recognised before its parts are used.
\<close>

fun split_on :: "char \<Rightarrow> string \<Rightarrow> string list" where
  "split_on c [] = [[]]"
| "split_on c (x # xs) =
     (if x = c then [] # split_on c xs
      else (case split_on c xs of [] \<Rightarrow> [[x]] | w # ws \<Rightarrow> (x # w) # ws))"

definition path_parts :: "string \<Rightarrow> string list" where
  "path_parts key = filter (\<lambda>p. p \<noteq> [] \<and> p \<noteq> ''.'') (split_on (CHR ''/'') key)"

definition is_absolute :: "string \<Rightarrow> bool" where
  "is_absolute key \<longleftrightarrow> take 1 key = ''/''"

fun join_path :: "string list \<Rightarrow> string" where
  "join_path [] = []"
| "join_path [p] = p"
| "join_path (p # ps) = p @ ''/'' @ join_path ps"

text \<open>\<open>re.fullmatch(r"[A-Za-z0-9_-]{1,100}", namespace)\<close>.\<close>

definition namespace_char :: "char \<Rightarrow> bool" where
  "namespace_char c \<longleftrightarrow>
     (let n = of_char c :: nat in
      (48 \<le> n \<and> n \<le> 57) \<or> (65 \<le> n \<and> n \<le> 90) \<or> (97 \<le> n \<and> n \<le> 122) \<or> n = 95 \<or> n = 45)"

definition valid_namespace :: "string \<Rightarrow> bool" where
  "valid_namespace ns \<longleftrightarrow> 1 \<le> length ns \<and> length ns \<le> 100 \<and> list_all namespace_char ns"

section \<open>The local file system\<close>

text \<open>
  \<open>fs_outcomes\<close> says how the coming system calls end: \<open>None\<close> is success, \<open>Some n\<close> an \<open>OSError\<close>
  (after \<open>n\<close> bytes, for a write); when the list is used up every call succeeds. \<open>fs_resolve\<close> is
  \<open>Path.resolve\<close>, \<open>fs_random\<close> the random part \<open>mkstemp\<close> chooses.
\<close>

record local_fs =
  fs_root :: "string list"
  fs_resolve :: "string list \<Rightarrow> string list result"
  fs_files :: "string list \<Rightarrow> string option"
  fs_dirs :: "string list list"
  fs_outcomes :: "nat option list"
  fs_random :: "string"

definition syscall :: "(local_fs, nat option) prog" where
  "syscall s = (case fs_outcomes s of
      [] \<Rightarrow> (Inr None, s)
    | r # rs \<Rightarrow> (Inr r, s\<lparr>fs_outcomes := rs\<rparr>))"

definition os_call :: "(local_fs \<Rightarrow> local_fs) \<Rightarrow> (local_fs, unit) prog" where
  "os_call f = bindS syscall (\<lambda>r s. case r of None \<Rightarrow> (Inr (), f s) | Some _ \<Rightarrow> (Inl (OSErr []), s))"

definition is_prefix :: "'a list \<Rightarrow> 'a list \<Rightarrow> bool" where
  "is_prefix p q \<longleftrightarrow> take (length p) q = p"

definition fs_is_dir :: "local_fs \<Rightarrow> string list \<Rightarrow> bool" where
  "fs_is_dir s p \<longleftrightarrow> (\<exists>d \<in> set (fs_dirs s). is_prefix p d)"

definition fs_is_file :: "local_fs \<Rightarrow> string list \<Rightarrow> bool" where
  "fs_is_file s p \<longleftrightarrow> fs_files s p \<noteq> None"

definition fs_exists :: "local_fs \<Rightarrow> string list \<Rightarrow> bool" where
  "fs_exists s p \<longleftrightarrow> fs_is_file s p \<or> fs_is_dir s p"

definition os_mkdir :: "string list \<Rightarrow> (local_fs, unit) prog" where
  "os_mkdir p = os_call (\<lambda>s. s\<lparr>fs_dirs := p # fs_dirs s\<rparr>)"

definition temp_name :: "local_fs \<Rightarrow> string list \<Rightarrow> string list" where
  "temp_name s path = butlast path @ [''.'' @ last path @ ''.'' @ fs_random s @ ''.tmp'']"

text \<open>\<open>mkstemp\<close> creates an empty file exclusively; it raises when every tried name exists.\<close>

definition os_mkstemp :: "string list \<Rightarrow> (local_fs, string list) prog" where
  "os_mkstemp path =
     bindS (readS (\<lambda>s. if fs_exists s (temp_name s path) then Inl (OSErr []) else Inr (temp_name s path)))
       (\<lambda>temp. bindS (os_call (\<lambda>s. s\<lparr>fs_files := (fs_files s)(temp \<mapsto> [])\<rparr>)) (\<lambda>_. returnS temp))"

definition os_chmod :: "string list \<Rightarrow> (local_fs, unit) prog" where
  "os_chmod p = os_call (\<lambda>s. s)"

definition os_write :: "string list \<Rightarrow> string \<Rightarrow> (local_fs, unit) prog" where
  "os_write p content = bindS syscall (\<lambda>r s. case r of
      None \<Rightarrow> (Inr (), s\<lparr>fs_files := (fs_files s)(p \<mapsto> content)\<rparr>)
    | Some n \<Rightarrow> (Inl (OSErr []), s\<lparr>fs_files := (fs_files s)(p \<mapsto> take n content)\<rparr>))"

text \<open>\<open>os.replace\<close>: the source disappears and the destination gets its content, at once.\<close>

definition os_replace :: "string list \<Rightarrow> string list \<Rightarrow> (local_fs, unit) prog" where
  "os_replace src dst =
     bindS (readS (\<lambda>s. if fs_is_dir s dst then Inl (OSErr [])
                       else (case fs_files s src of None \<Rightarrow> Inl (OSErr []) | Some c \<Rightarrow> Inr c)))
       (\<lambda>c. os_call (\<lambda>s. s\<lparr>fs_files := ((fs_files s)(src := None))(dst \<mapsto> c)\<rparr>))"

text \<open>\<open>Path.unlink(missing_ok=True)\<close>.\<close>

definition os_unlink :: "string list \<Rightarrow> (local_fs, unit) prog" where
  "os_unlink p =
     bindS (readS (\<lambda>s. if fs_is_dir s p then Inl (OSErr []) else Inr ()))
       (\<lambda>_. os_call (\<lambda>s. s\<lparr>fs_files := (fs_files s)(p := None)\<rparr>))"

section \<open>Local storage\<close>

definition local_path :: "local_fs \<Rightarrow> string \<Rightarrow> string list result" where
  "local_path s key =
     (if key = [] \<or> CHR 0x5C \<in> set key then Inl (StorageError ''Invalid storage key.'')
      else if is_absolute key \<or> list_ex (\<lambda>p. p \<in> {[], ''.'', ''..''}) (path_parts key)
      then Inl (StorageError ''Invalid storage key.'')
      else if CHR 0x00 \<in> set key then Inl (ValueError ''embedded null byte'')
      else bindE (fs_resolve s (fs_root s @ path_parts key)) (\<lambda>candidate.
           if candidate = fs_root s \<or> \<not> is_prefix (fs_root s) candidate
           then Inl (StorageError ''Storage key escapes the configured root.'')
           else Inr candidate))"

definition local_fill_temp :: "string list \<Rightarrow> string list \<Rightarrow> string \<Rightarrow> (local_fs, unit) prog" where
  "local_fill_temp temp path content =
     bindS (os_chmod temp) (\<lambda>_.
     bindS (os_write temp content) (\<lambda>_.
     os_replace temp path))"

definition local_write :: "string list \<Rightarrow> string \<Rightarrow> (local_fs, unit) prog" where
  "local_write path content =
     bindS (os_mkdir (butlast path)) (\<lambda>_.
     bindS (os_mkstemp path) (\<lambda>temp.
     bindS (onfailS (local_fill_temp temp path content) (catchS (os_unlink temp) (\<lambda>_. returnS ()))) (\<lambda>_.
     os_chmod path)))"

definition local_put ::
  "string \<Rightarrow> string \<Rightarrow> (string \<times> string) list \<Rightarrow> (local_fs, storage_object) prog" where
  "local_put key content metadata =
     bindS (readS (\<lambda>s. local_path s key)) (\<lambda>path.
     bindS (wrap_oserror (StorageError ''Local configuration write failed.'') (local_write path content)) (\<lambda>_.
     returnS \<lparr>so_key = key, so_size = int (length content), so_metadata = metadata\<rparr>))"

definition local_get :: "string \<Rightarrow> (local_fs, string) prog" where
  "local_get key =
     wrap_oserror (StorageError ''Local configuration read failed.'')
       (bindS (readS (\<lambda>s. local_path s key)) (\<lambda>path.
        bindS (os_call (\<lambda>s. s)) (\<lambda>_.
        readS (\<lambda>s. case fs_files s path of None \<Rightarrow> Inl (OSErr []) | Some c \<Rightarrow> Inr c))))"

definition local_exists :: "string \<Rightarrow> (local_fs, bool) prog" where
  "local_exists key = readS (\<lambda>s. bindE (local_path s key) (\<lambda>path. Inr (fs_is_file s path)))"

definition local_delete :: "string \<Rightarrow> (local_fs, unit) prog" where
  "local_delete key =
     wrap_oserror (StorageError ''Local configuration delete failed.'')
       (bindS (readS (\<lambda>s. local_path s key)) os_unlink)"

definition local_stage_delete :: "string \<Rightarrow> string \<Rightarrow> (local_fs, string option) prog" where
  "local_stage_delete key namespace =
     (if \<not> valid_namespace namespace
      then raiseS (StorageError ''Invalid storage quarantine namespace.'')
      else bindS (readS (\<lambda>s. local_path s key)) (\<lambda>src s.
           if \<not> fs_is_file s src then (Inr None, s)
           else (let staged_key = ''.retention-trash/'' @ namespace @ ''/'' @ key in
             bindS (readS (\<lambda>s. local_path s staged_key)) (\<lambda>dest.
             bindS (wrap_oserror (StorageError ''Local configuration quarantine failed.'')
               (bindS (readS (\<lambda>s. if fs_exists s dest
                                  then Inl (StorageError ''Storage quarantine object already exists.'')
                                  else Inr ())) (\<lambda>_.
                bindS (os_mkdir (butlast dest)) (\<lambda>_.
                os_replace src dest)))) (\<lambda>_.
             returnS (Some staged_key))) s)))"

definition local_restore_staged_delete :: "string \<Rightarrow> string \<Rightarrow> (local_fs, unit) prog" where
  "local_restore_staged_delete key staged_key =
     bindS (readS (\<lambda>s. local_path s staged_key)) (\<lambda>src.
     bindS (readS (\<lambda>s. if fs_is_file s src then Inr ()
                       else Inl (StorageError ''Quarantined configuration object is missing.''))) (\<lambda>_.
     bindS (readS (\<lambda>s. local_path s key)) (\<lambda>dest.
     wrap_oserror (StorageError ''Local configuration restore failed.'')
       (bindS (readS (\<lambda>s. if fs_exists s dest
                          then Inl (StorageError ''Configuration restore destination already exists.'')
                          else Inr ())) (\<lambda>_.
        bindS (os_mkdir (butlast dest)) (\<lambda>_.
        os_replace src dest))))))"

definition local_purge_staged_delete :: "string \<Rightarrow> (local_fs, unit) prog" where
  "local_purge_staged_delete staged_key = local_delete staged_key"

definition LocalConfigStorage :: "local_fs config_storage" where
  "LocalConfigStorage = \<lparr>st_put = local_put, st_get = local_get, st_exists = local_exists,
     st_delete = local_delete, st_stage_delete = local_stage_delete,
     st_restore_staged_delete = local_restore_staged_delete,
     st_purge_staged_delete = local_purge_staged_delete\<rparr>"

section \<open>Keys and paths\<close>

lemma split_on_nonempty [simp]: "split_on c xs \<noteq> []"
  by (induction xs) (auto split: list.splits)

lemma split_on_append:
  "c \<notin> set p \<Longrightarrow> split_on c (p @ c # xs) = p # split_on c xs"
  by (induction p) auto

lemma is_prefix_append: "is_prefix p q \<longleftrightarrow> (\<exists>r. q = p @ r)"
  unfolding is_prefix_def by (metis append_eq_conv_conj append_take_drop_id)

lemma valid_namespace_simps:
  assumes "valid_namespace ns"
  shows "CHR ''/'' \<notin> set ns" "ns \<noteq> []" "ns \<noteq> ''.''" "ns \<noteq> ''..''" "CHR 0x5C \<notin> set ns" "CHR 0x00 \<notin> set ns"
  using assms by (auto simp: valid_namespace_def list_all_iff namespace_char_def)

lemma path_parts_quarantine:
  assumes "valid_namespace ns"
  shows "path_parts (''.retention-trash/'' @ ns @ ''/'' @ key) = ''.retention-trash'' # ns # path_parts key"
proof -
  have "split_on (CHR ''/'') (''.retention-trash'' @ CHR ''/'' # (ns @ CHR ''/'' # key))
      = ''.retention-trash'' # ns # split_on (CHR ''/'') key"
    using valid_namespace_simps(1) [OF assms] by (subst split_on_append) (simp_all add: split_on_append)
  then show ?thesis
    using valid_namespace_simps [OF assms] by (simp add: path_parts_def)
qed

lemma local_path_Inr:
  assumes "local_path s key = Inr p"
  shows "is_prefix (fs_root s) p" "p \<noteq> fs_root s" "fs_resolve s (fs_root s @ path_parts key) = Inr p"
    "''..'' \<notin> set (path_parts key)" "\<not> is_absolute key"
  using assms by (auto simp: local_path_def result_simps list_ex_iff split: if_splits)

section \<open>Effects of the system calls\<close>

definition frame :: "local_fs \<Rightarrow> local_fs \<Rightarrow> bool" where
  "frame s s' \<longleftrightarrow> fs_root s' = fs_root s \<and> fs_resolve s' = fs_resolve s \<and> fs_random s' = fs_random s"

lemma frame_refl [simp]: "frame s s"
  by (simp add: frame_def)

lemma frame_trans [trans]: "frame s s' \<Longrightarrow> frame s' s'' \<Longrightarrow> frame s s''"
  by (simp add: frame_def)

lemma local_path_frame: "frame s s' \<Longrightarrow> local_path s' key = local_path s key"
  by (simp add: frame_def local_path_def)

lemma os_call_effect:
  "os_call f s = (r, s') \<Longrightarrow> \<exists>rs. (r = Inr () \<and> s' = f (s\<lparr>fs_outcomes := rs\<rparr>))
     \<or> (r = Inl (OSErr []) \<and> s' = s\<lparr>fs_outcomes := rs\<rparr>)"
proof -
  assume r: "os_call f s = (r, s')"
  show ?thesis
  proof (cases "fs_outcomes s")
    case Nil
    then have s: "s\<lparr>fs_outcomes := []\<rparr> = s" by (cases s) simp
    from r Nil have "r = Inr () \<and> s' = f s" by (auto simp: os_call_def bindS_def syscall_def)
    then show ?thesis by (intro exI [of _ "[]"]) (simp only: s, simp)
  next
    case (Cons x xs)
    with r show ?thesis
      by (intro exI [of _ xs]) (auto simp: os_call_def bindS_def syscall_def split: option.splits)
  qed
qed

lemma os_mkdir_effect: "os_mkdir p s = (r, s') \<Longrightarrow> frame s s' \<and> fs_files s' = fs_files s"
  unfolding os_mkdir_def by (drule os_call_effect) (auto simp: frame_def)

lemma os_chmod_effect: "os_chmod p s = (r, s') \<Longrightarrow> frame s s' \<and> fs_files s' = fs_files s"
  unfolding os_chmod_def by (drule os_call_effect) (auto simp: frame_def)

lemma os_mkstemp_Inr:
  assumes "os_mkstemp path s = (Inr t, s')"
  shows "frame s s' \<and> t = temp_name s path \<and> fs_files s t = None \<and> fs_files s' = (fs_files s)(t \<mapsto> [])"
  using assms unfolding os_mkstemp_def
  by (auto simp: prog_simps fs_exists_def fs_is_file_def frame_def split: if_splits dest!: os_call_effect)

lemma os_mkstemp_Inl:
  assumes "os_mkstemp path s = (Inl e, s')"
  shows "frame s s' \<and> fs_files s' = fs_files s"
  using assms unfolding os_mkstemp_def
  by (auto simp: prog_simps frame_def split: if_splits dest!: os_call_effect)

lemma os_write_effect:
  "os_write p c s = (r, s') \<Longrightarrow>
     frame s s' \<and> (\<exists>x. fs_files s' = (fs_files s)(p \<mapsto> x) \<and> (r = Inr () \<longrightarrow> x = c))"
  by (cases "fs_outcomes s")
    (auto simp: os_write_def bindS_def syscall_def frame_def split: option.splits list.splits)

lemma os_replace_Inr:
  assumes "os_replace src dst s = (Inr (), s')"
  shows "frame s s' \<and> (\<exists>c. fs_files s src = Some c \<and> fs_files s' = ((fs_files s)(src := None))(dst \<mapsto> c))"
  using assms unfolding os_replace_def
  by (auto simp: prog_simps frame_def split: if_splits option.splits dest!: os_call_effect)

lemma os_replace_Inl:
  assumes "os_replace src dst s = (Inl e, s')"
  shows "frame s s' \<and> fs_files s' = fs_files s"
  using assms unfolding os_replace_def
  by (auto simp: prog_simps frame_def split: if_splits option.splits dest!: os_call_effect)

lemma os_unlink_effect:
  assumes "os_unlink p s = (r, s')"
  shows "frame s s' \<and> fs_files s' = (if r = Inr () then (fs_files s)(p := None) else fs_files s)"
  using assms unfolding os_unlink_def
  by (cases r) (auto simp: prog_simps frame_def split: if_splits dest!: os_call_effect)

section \<open>The contract of a store\<close>

text \<open>
  \<open>objs\<close> is the content of the store by key components, \<open>scratch\<close> the names a failed write may
  leave behind. A write either happens completely or not at all, also when it reports failure; a
  failed deletion or quarantine leaves every object in place.
\<close>

locale storage_contract =
  fixes ops :: "'s config_storage"
    and wf :: "'s \<Rightarrow> bool"
    and objs :: "'s \<Rightarrow> string list \<Rightarrow> string option"
    and scratch :: "string list \<Rightarrow> bool"
  assumes put_Inr: "wf s \<Longrightarrow> st_put ops k c m s = (Inr ob, s') \<Longrightarrow>
      wf s' \<and> objs s' = (objs s)(path_parts k \<mapsto> c) \<and> so_key ob = k \<and> so_size ob = int (length c)"
    and put_Inl: "wf s \<Longrightarrow> st_put ops k c m s = (Inl e, s') \<Longrightarrow>
      wf s' \<and> (\<forall>p. \<not> scratch p \<longrightarrow> objs s' p = objs s p \<or> p = path_parts k \<and> objs s' p = Some c)"
    and delete_Inr: "wf s \<Longrightarrow> st_delete ops k s = (Inr u, s') \<Longrightarrow>
      wf s' \<and> objs s' = (objs s)(path_parts k := None)"
    and delete_Inl: "wf s \<Longrightarrow> st_delete ops k s = (Inl e, s') \<Longrightarrow> wf s' \<and> objs s' = objs s"
    and stage_None: "wf s \<Longrightarrow> st_stage_delete ops k ns s = (Inr None, s') \<Longrightarrow>
      wf s' \<and> objs s' = objs s \<and> objs s (path_parts k) = None"
    and stage_Some: "wf s \<Longrightarrow> st_stage_delete ops k ns s = (Inr (Some sk), s') \<Longrightarrow>
      wf s' \<and> objs s' = (objs s)(path_parts k := None, path_parts sk := objs s (path_parts k))
      \<and> objs s (path_parts k) \<noteq> None \<and> objs s (path_parts sk) = None
      \<and> path_parts sk = ''.retention-trash'' # ns # path_parts k"
    and stage_Inl: "wf s \<Longrightarrow> st_stage_delete ops k ns s = (Inl e, s') \<Longrightarrow> wf s' \<and> objs s' = objs s"
    and restore_Inr: "wf s \<Longrightarrow> st_restore_staged_delete ops k sk s = (Inr u, s') \<Longrightarrow>
      wf s' \<and> objs s' = (objs s)(path_parts sk := None, path_parts k := objs s (path_parts sk))"
    and restore_Inl: "wf s \<Longrightarrow> st_restore_staged_delete ops k sk s = (Inl e, s') \<Longrightarrow>
      wf s' \<and> objs s' = objs s"
    and purge_delete: "st_purge_staged_delete ops = st_delete ops"
begin

text \<open>Restoring what was staged brings the store back to where it was.\<close>

lemma stage_restore:
  assumes "wf s" "st_stage_delete ops k ns s = (Inr (Some sk), s1)"
    "objs s2 = objs s1" "wf s2" "st_restore_staged_delete ops k sk s2 = (Inr u, s3)"
  shows "wf s3 \<and> objs s3 = objs s"
proof -
  note st = stage_Some [OF assms(1,2)] and re = restore_Inr [OF assms(4,5)]
  have "path_parts sk \<noteq> path_parts k"
    using st by (metis impossible_Cons le_refl length_Cons list.sel(3) not_Cons_self2)
  with st re assms(3) show ?thesis by (auto simp: fun_eq_iff)
qed

lemma stage_purge:
  assumes "wf s" "st_stage_delete ops k ns s = (Inr (Some sk), s1)"
    "st_purge_staged_delete ops sk s1 = (Inr u, s2)"
  shows "wf s2 \<and> objs s2 = (objs s)(path_parts k := None)"
proof -
  note st = stage_Some [OF assms(1,2)]
  with delete_Inr [of s1 sk u s2] assms(3) purge_delete have "wf s2"
    "objs s2 = (objs s1)(path_parts sk := None)" by auto
  with st show ?thesis by (auto simp: fun_eq_iff)
qed

text \<open>What a client did before is untouched by later failed calls on other keys.\<close>

lemma put_keeps_others:
  assumes "wf s" "st_put ops k c m s = (r, s')" "p \<noteq> path_parts k" "\<not> scratch p"
  shows "objs s' p = objs s p"
  using assms put_Inr [of s k c m _ s'] put_Inl [of s k c m _ s'] by (cases r) fastforce+

end

section \<open>Local storage keeps the contract\<close>

definition local_wf :: "local_fs \<Rightarrow> bool" where
  "local_wf s \<longleftrightarrow> (\<forall>p. fs_resolve s (fs_root s @ p) = Inr (fs_root s @ p))"

definition local_objs :: "local_fs \<Rightarrow> string list \<Rightarrow> string option" where
  "local_objs s p = fs_files s (fs_root s @ p)"

definition temp_part :: "string list \<Rightarrow> bool" where
  "temp_part p \<longleftrightarrow> p \<noteq> [] \<and> take 1 (last p) = ''.'' \<and> drop (length (last p) - 4) (last p) = ''.tmp''"

lemma local_wf_frame: "local_wf s \<Longrightarrow> frame s s' \<Longrightarrow> local_wf s'"
  by (simp add: local_wf_def frame_def)

lemma local_path_wf:
  assumes "local_wf s" "local_path s key = Inr p"
  shows "p = fs_root s @ path_parts key" "path_parts key \<noteq> []"
  using local_path_Inr(2,3) [OF assms(2)] assms(1) by (auto simp: local_wf_def)

lemma temp_name_props:
  assumes "p \<noteq> []"
  shows "temp_name s (fs_root s @ p) = fs_root s @ butlast p @ [''.'' @ last p @ ''.'' @ fs_random s @ ''.tmp'']"
    "temp_part (butlast p @ [''.'' @ last p @ ''.'' @ fs_random s @ ''.tmp''])"
    "butlast p @ [''.'' @ last p @ ''.'' @ fs_random s @ ''.tmp''] \<noteq> p"
proof -
  show "temp_name s (fs_root s @ p) = fs_root s @ butlast p @ [''.'' @ last p @ ''.'' @ fs_random s @ ''.tmp'']"
    using assms by (simp add: temp_name_def butlast_append)
  show "temp_part (butlast p @ [''.'' @ last p @ ''.'' @ fs_random s @ ''.tmp''])"
    by (simp add: temp_part_def)
  show "butlast p @ [''.'' @ last p @ ''.'' @ fs_random s @ ''.tmp''] \<noteq> p"
  proof
    assume "butlast p @ [''.'' @ last p @ ''.'' @ fs_random s @ ''.tmp''] = p"
    then have "length (last p) = length (''.'' @ last p @ ''.'' @ fs_random s @ ''.tmp'')"
      by (metis last_snoc)
    then show False by simp
  qed
qed

lemma local_fill_temp_Inr:
  assumes "local_fill_temp temp path c s = (Inr (), s')"
  shows "frame s s' \<and> fs_files s' = ((fs_files s)(temp := None))(path \<mapsto> c)"
  using assms unfolding local_fill_temp_def
  by (auto simp: prog_simps frame_def dest!: os_chmod_effect os_write_effect os_replace_Inr)

lemma local_fill_temp_Inl:
  assumes "local_fill_temp temp path c s = (Inl e, s')"
  shows "frame s s' \<and> (\<exists>x. fs_files s' = (fs_files s)(temp := x))"
  using assms unfolding local_fill_temp_def
  by (auto simp: prog_simps frame_def dest!: os_chmod_effect os_write_effect os_replace_Inl
      intro: exI [of _ "fs_files s temp"])

lemma local_fill_temp_failed:
  assumes "onfailS (local_fill_temp temp path c) (catchS (os_unlink temp) (\<lambda>_. returnS ())) s = (Inl e, s')"
  shows "frame s s' \<and> (\<exists>x. fs_files s' = (fs_files s)(temp := x))"
proof -
  from assms obtain e1 s1 r where w: "local_fill_temp temp path c s = (Inl e1, s1)"
    and c: "os_unlink temp s1 = (r, s')"
    by (auto simp: onfailS_def prog_simps)
  from local_fill_temp_Inl [OF w] obtain x where "frame s s1" "fs_files s1 = (fs_files s)(temp := x)" by blast
  with os_unlink_effect [OF c] show ?thesis by (auto simp: frame_def)
qed

lemma local_write_Inr:
  assumes "local_write path c s = (Inr (), s')"
  shows "frame s s' \<and> fs_files s' = (fs_files s)(path \<mapsto> c)"
proof -
  from assms obtain s1 s2 s3 t where 1: "os_mkdir (butlast path) s = (Inr (), s1)"
    and 2: "os_mkstemp path s1 = (Inr t, s2)" and 3: "local_fill_temp t path c s2 = (Inr (), s3)"
    and 4: "os_chmod path s3 = (Inr (), s')"
    by (auto simp: local_write_def prog_simps)
  note eff = os_mkdir_effect [OF 1] os_mkstemp_Inr [OF 2] local_fill_temp_Inr [OF 3] os_chmod_effect [OF 4]
  then show ?thesis by (auto simp: fun_eq_iff frame_def)
qed

text \<open>
  A failed write leaves the old object, the complete new one, or the old one and a temporary file.
\<close>

lemma local_write_Inl:
  assumes "local_write path c s = (Inl e, s')"
  shows "frame s s' \<and> (fs_files s' = fs_files s \<or> fs_files s' = (fs_files s)(path \<mapsto> c)
       \<or> (\<exists>x. fs_files s' = (fs_files s)(temp_name s path \<mapsto> x)))"
proof -
  let ?w = "\<lambda>t. onfailS (local_fill_temp t path c) (catchS (os_unlink t) (\<lambda>_. returnS ()))"
  consider "os_mkdir (butlast path) s = (Inl e, s')"
    | s1 where "os_mkdir (butlast path) s = (Inr (), s1)" "os_mkstemp path s1 = (Inl e, s')"
    | s1 t s2 where "os_mkdir (butlast path) s = (Inr (), s1)" "os_mkstemp path s1 = (Inr t, s2)"
        "?w t s2 = (Inl e, s')"
    | s1 t s2 s3 where "os_mkdir (butlast path) s = (Inr (), s1)" "os_mkstemp path s1 = (Inr t, s2)"
        "?w t s2 = (Inr (), s3)" "os_chmod path s3 = (Inl e, s')"
    using assms unfolding local_write_def bindS_eq_Inl by auto
  then show ?thesis
  proof cases
    case 1
    from os_mkdir_effect [OF 1] show ?thesis by simp
  next
    case 2
    from os_mkdir_effect [OF 2(1)] os_mkstemp_Inl [OF 2(2)] show ?thesis by (auto simp: frame_def)
  next
    case 3
    note eff = os_mkdir_effect [OF 3(1)] os_mkstemp_Inr [OF 3(2)] local_fill_temp_failed [OF 3(3)]
    then obtain x where x: "fs_files s' = (fs_files s)(t := x)" "fs_files s t = None" "t = temp_name s path"
      by (auto simp: frame_def temp_name_def)
    have "fs_files s' = fs_files s \<or> (\<exists>x. fs_files s' = (fs_files s)(temp_name s path \<mapsto> x))"
      using x by (cases x) auto
    with eff show ?thesis by (auto simp: frame_def)
  next
    case 4
    note eff = os_mkdir_effect [OF 4(1)] os_mkstemp_Inr [OF 4(2)]
      local_fill_temp_Inr [OF 4(3) [unfolded onfailS_eq_Inr]] os_chmod_effect [OF 4(4)]
    then have "fs_files s' = (fs_files s)(path \<mapsto> c)" by (auto simp: fun_eq_iff)
    with eff show ?thesis by (auto simp: frame_def)
  qed
qed

lemma local_objs_upd:
  assumes "frame s s'" "fs_files s' = (fs_files s)(fs_root s @ p := x)"
  shows "local_objs s' = (local_objs s)(p := x)"
  using assms by (auto simp: local_objs_def frame_def fun_eq_iff)

lemma local_objs_same: "frame s s' \<Longrightarrow> fs_files s' = fs_files s \<Longrightarrow> local_objs s' = local_objs s"
  by (auto simp: local_objs_def frame_def fun_eq_iff)

lemma local_put_Inr:
  assumes "local_wf s" "local_put k c m s = (Inr ob, s')"
  shows "local_wf s' \<and> local_objs s' = (local_objs s)(path_parts k \<mapsto> c)
    \<and> so_key ob = k \<and> so_size ob = int (length c)"
proof -
  from assms(2) obtain path where p: "local_path s k = Inr path" and w: "local_write path c s = (Inr (), s')"
    and ob: "ob = \<lparr>so_key = k, so_size = int (length c), so_metadata = m\<rparr>"
    by (auto simp: local_put_def prog_simps)
  from local_write_Inr [OF w] have "frame s s'" "fs_files s' = (fs_files s)(fs_root s @ path_parts k \<mapsto> c)"
    by (simp_all add: local_path_wf(1) [OF assms(1) p])
  with local_objs_upd [OF this] local_wf_frame [OF assms(1)] ob show ?thesis by simp
qed

lemma local_put_Inl:
  assumes "local_wf s" "local_put k c m s = (Inl e, s')"
  shows "local_wf s' \<and> (\<forall>p. \<not> temp_part p \<longrightarrow>
    local_objs s' p = local_objs s p \<or> p = path_parts k \<and> local_objs s' p = Some c)"
proof (cases "local_path s k")
  case (Inl e')
  with assms show ?thesis by (simp add: local_put_def prog_simps)
next
  case (Inr path)
  with assms(2) obtain e0 where w: "local_write path c s = (Inl e0, s')"
    by (auto simp: local_put_def bindS_eq_Inl readS_eq returnS_def dest!: wrap_oserror_Inl)
  note path = local_path_wf [OF assms(1) Inr]
  note temp = temp_name_props [OF path(2), of s]
  from local_write_Inl [OF w] have fr: "frame s s'" by simp
  from local_write_Inl [OF w] consider "fs_files s' = fs_files s"
    | "fs_files s' = (fs_files s)(fs_root s @ path_parts k \<mapsto> c)"
    | x where "fs_files s' = (fs_files s)(fs_root s @ (butlast (path_parts k)
        @ [''.'' @ last (path_parts k) @ ''.'' @ fs_random s @ ''.tmp'']) \<mapsto> x)"
    by (auto simp: path(1) temp(1))
  then show ?thesis
  proof cases
    case 1
    with fr local_objs_same local_wf_frame [OF assms(1)] show ?thesis by simp
  next
    case 2
    with local_objs_upd [OF fr 2] local_wf_frame [OF assms(1) fr] show ?thesis by simp
  next
    case 3
    with local_objs_upd [OF fr 3] local_wf_frame [OF assms(1) fr] temp(2) show ?thesis by auto
  qed
qed

lemma local_delete_effect:
  assumes "local_delete k s = (r, s')"
  shows "frame s s' \<and> (case r of
      Inl _ \<Rightarrow> fs_files s' = fs_files s
    | Inr _ \<Rightarrow> (\<exists>p. local_path s k = Inr p \<and> fs_files s' = (fs_files s)(p := None)))"
proof (cases r)
  case (Inl e)
  with assms obtain e0 where "bindS (readS (\<lambda>s. local_path s k)) os_unlink s = (Inl e0, s')"
    by (auto simp: local_delete_def dest!: wrap_oserror_Inl)
  with Inl show ?thesis by (auto simp: prog_simps dest!: os_unlink_effect)
next
  case (Inr u)
  with assms show ?thesis by (auto simp: local_delete_def prog_simps dest!: os_unlink_effect)
qed

text \<open>The move both quarantine operations end with.\<close>

definition local_move :: "string \<Rightarrow> string list \<Rightarrow> string list \<Rightarrow> (local_fs, unit) prog" where
  "local_move msg src dest =
     bindS (readS (\<lambda>s. if fs_exists s dest then Inl (StorageError msg) else Inr ())) (\<lambda>_.
     bindS (os_mkdir (butlast dest)) (\<lambda>_.
     os_replace src dest))"

lemma local_move_Inr:
  assumes "local_move msg src dest s = (Inr (), s')"
  shows "frame s s' \<and> fs_files s dest = None
    \<and> (\<exists>c. fs_files s src = Some c \<and> fs_files s' = ((fs_files s)(src := None))(dest \<mapsto> c))"
  using assms unfolding local_move_def
  by (auto simp: prog_simps frame_def fs_exists_def fs_is_file_def split: if_splits
      dest!: os_mkdir_effect os_replace_Inr)

lemma local_move_Inl:
  assumes "local_move msg src dest s = (Inl e, s')"
  shows "frame s s' \<and> fs_files s' = fs_files s"
  using assms unfolding local_move_def
  by (auto simp: prog_simps frame_def split: if_splits dest!: os_mkdir_effect os_replace_Inl)

lemma local_stage_delete_effect:
  assumes "local_stage_delete k ns s = (r, s')"
  shows "frame s s' \<and> (case r of
      Inl _ \<Rightarrow> fs_files s' = fs_files s
    | Inr None \<Rightarrow> fs_files s' = fs_files s \<and> (\<exists>p. local_path s k = Inr p \<and> fs_files s p = None)
    | Inr (Some sk) \<Rightarrow> valid_namespace ns \<and> sk = ''.retention-trash/'' @ ns @ ''/'' @ k
        \<and> (\<exists>p q c. local_path s k = Inr p \<and> local_path s sk = Inr q \<and> fs_files s p = Some c
              \<and> fs_files s q = None \<and> fs_files s' = ((fs_files s)(p := None))(q \<mapsto> c)))"
proof (cases "valid_namespace ns \<and> (\<exists>p. local_path s k = Inr p \<and> fs_is_file s p)")
  case True
  then obtain p where p: "valid_namespace ns" "local_path s k = Inr p" "fs_is_file s p" by blast
  let ?sk = "''.retention-trash/'' @ ns @ ''/'' @ k"
  from assms p have eq: "bindS (readS (\<lambda>s. local_path s ?sk)) (\<lambda>dest.
      bindS (wrap_oserror (StorageError ''Local configuration quarantine failed.'')
        (local_move ''Storage quarantine object already exists.'' p dest)) (\<lambda>_. returnS (Some ?sk))) s = (r, s')"
    by (simp add: local_stage_delete_def bindS_def [of "readS (\<lambda>s. local_path s k)"] readS_def [of "\<lambda>s. local_path s k"]
        Let_def local_move_def)
  show ?thesis
  proof (cases r)
    case (Inl e)
    with eq show ?thesis
      by (auto simp: bindS_eq_Inl readS_eq returnS_def dest!: wrap_oserror_Inl local_move_Inl)
  next
    case (Inr x)
    with eq p show ?thesis
      by (auto simp: prog_simps dest!: local_move_Inr)
  qed
next
  case False
  with assms show ?thesis
    by (auto simp: local_stage_delete_def prog_simps fs_is_file_def bindS_def readS_def raiseS_def
        split: sum.splits if_splits)
qed

lemma local_restore_effect:
  assumes "local_restore_staged_delete k sk s = (r, s')"
  shows "frame s s' \<and> (case r of
      Inl _ \<Rightarrow> fs_files s' = fs_files s
    | Inr _ \<Rightarrow> (\<exists>p q c. local_path s k = Inr p \<and> local_path s sk = Inr q \<and> fs_files s q = Some c
              \<and> fs_files s p = None \<and> fs_files s' = ((fs_files s)(q := None))(p \<mapsto> c)))"
proof -
  have def: "local_restore_staged_delete k sk = bindS (readS (\<lambda>s. local_path s sk)) (\<lambda>src.
     bindS (readS (\<lambda>s. if fs_is_file s src then Inr ()
                       else Inl (StorageError ''Quarantined configuration object is missing.''))) (\<lambda>_.
     bindS (readS (\<lambda>s. local_path s k)) (\<lambda>dest.
     wrap_oserror (StorageError ''Local configuration restore failed.'')
       (local_move ''Configuration restore destination already exists.'' src dest))))"
    by (simp add: local_restore_staged_delete_def local_move_def)
  show ?thesis
  proof (cases r)
    case (Inl e)
    with assms show ?thesis unfolding def
      by (auto simp: bindS_eq_Inl readS_eq split: if_splits dest!: wrap_oserror_Inl local_move_Inl)
  next
    case (Inr u)
    with assms show ?thesis unfolding def
      by (auto simp: prog_simps split: if_splits dest!: local_move_Inr)
  qed
qed

lemma local_objs_move:
  assumes "frame s s'" "fs_files s' = ((fs_files s)(fs_root s @ p := None))(fs_root s @ q \<mapsto> c)"
    "fs_files s (fs_root s @ p) = Some c"
  shows "local_objs s' = (local_objs s)(p := None, q := local_objs s p)"
  using assms by (auto simp: local_objs_def frame_def fun_eq_iff)

lemma local_stage_contract:
  assumes wf: "local_wf s" and stage: "local_stage_delete k ns s = (Inr (Some sk), s')"
  shows "local_wf s' \<and> local_objs s' = (local_objs s)(path_parts k := None, path_parts sk := local_objs s (path_parts k))
    \<and> local_objs s (path_parts k) \<noteq> None \<and> local_objs s (path_parts sk) = None
    \<and> path_parts sk = ''.retention-trash'' # ns # path_parts k"
proof -
  from local_stage_delete_effect [OF stage] obtain p q c
    where fr: "frame s s'" and ns: "valid_namespace ns" and sk: "sk = ''.retention-trash/'' @ ns @ ''/'' @ k"
      and p: "local_path s k = Inr p" and q: "local_path s sk = Inr q"
      and f: "fs_files s p = Some c" "fs_files s q = None" "fs_files s' = ((fs_files s)(p := None))(q \<mapsto> c)"
    by auto
  note p' = local_path_wf(1) [OF wf p] and q' = local_path_wf(1) [OF wf q]
  from local_objs_move [OF fr f(3) [unfolded p' q'] f(1) [unfolded p']] local_wf_frame [OF wf fr] f(1,2)
    path_parts_quarantine [OF ns, of k]
  show ?thesis
    by (simp add: p' q' local_objs_def sk)
qed

lemma local_restore_contract:
  assumes wf: "local_wf s" and restore: "local_restore_staged_delete k sk s = (Inr u, s')"
  shows "local_wf s' \<and> local_objs s' = (local_objs s)(path_parts sk := None, path_parts k := local_objs s (path_parts sk))"
proof -
  from local_restore_effect [OF restore] obtain p q c
    where fr: "frame s s'" and p: "local_path s k = Inr p" and q: "local_path s sk = Inr q"
      and f: "fs_files s q = Some c" "fs_files s' = ((fs_files s)(q := None))(p \<mapsto> c)"
    by auto
  note p' = local_path_wf(1) [OF wf p] and q' = local_path_wf(1) [OF wf q]
  from local_objs_move [OF fr f(2) [unfolded p' q'] f(1) [unfolded q']] local_wf_frame [OF wf fr]
  show ?thesis by simp
qed

interpretation local_store: storage_contract LocalConfigStorage local_wf local_objs temp_part
proof (unfold_locales, unfold LocalConfigStorage_def config_storage.simps)
  show "local_wf s' \<and> local_objs s' = (local_objs s)(path_parts k := None)"
    if "local_wf s" "local_delete k s = (Inr u, s')" for s k u s'
  proof -
    from local_delete_effect [OF that(2)] obtain p where p: "local_path s k = Inr p" "frame s s'"
      "fs_files s' = (fs_files s)(p := None)" by auto
    with local_path_wf(1) [OF that(1) p(1)] local_objs_upd [OF p(2), of "path_parts k" None]
      local_wf_frame [OF that(1) p(2)] show ?thesis by simp
  qed
  show "local_wf s' \<and> local_objs s' = local_objs s \<and> local_objs s (path_parts k) = None"
    if "local_wf s" "local_stage_delete k ns s = (Inr None, s')" for s k ns s'
  proof -
    from local_stage_delete_effect [OF that(2)] obtain p where p: "local_path s k = Inr p" "frame s s'"
      "fs_files s' = fs_files s" "fs_files s p = None" by auto
    with local_path_wf(1) [OF that(1) p(1)] local_objs_same [OF p(2,3)] local_wf_frame [OF that(1) p(2)]
    show ?thesis by (simp add: local_objs_def)
  qed
  have same: "local_wf s' \<and> local_objs s' = local_objs s"
    if "local_wf s" "frame s s' \<and> fs_files s' = fs_files s" for s s'
    using local_wf_frame [OF that(1), of s'] local_objs_same [of s s'] that(2) by blast
  show "local_wf s' \<and> local_objs s' = local_objs s" if "local_wf s" "local_delete k s = (Inl e, s')" for s k e s'
    by (rule same [OF that(1)]) (use local_delete_effect [OF that(2)] in simp)
  show "local_wf s' \<and> local_objs s' = local_objs s"
    if "local_wf s" "local_stage_delete k ns s = (Inl e, s')" for s k ns e s'
    by (rule same [OF that(1)]) (use local_stage_delete_effect [OF that(2)] in simp)
  show "local_wf s' \<and> local_objs s' = local_objs s"
    if "local_wf s" "local_restore_staged_delete k sk s = (Inl e, s')" for s k sk e s'
    by (rule same [OF that(1)]) (use local_restore_effect [OF that(2)] in simp)
  show "local_purge_staged_delete = local_delete"
    by (simp add: local_purge_staged_delete_def fun_eq_iff)
qed (rule local_put_Inr local_put_Inl local_stage_contract local_restore_contract; assumption)+

section \<open>Properties of local storage\<close>

definition sample_fs :: local_fs where
  "sample_fs = \<lparr>fs_root = [''srv''], fs_resolve = Inr, fs_files = Map.empty, fs_dirs = [[''srv'']],
     fs_outcomes = [], fs_random = ''x7''\<rparr>"

lemma sample_fs_wf: "local_wf sample_fs"
  by (simp add: local_wf_def sample_fs_def)

lemma local_put_outside:
  assumes "local_put k c m s = (r, s')" "\<not> is_prefix (fs_root s) q"
  shows "fs_files s' q = fs_files s q"
proof (cases "local_path s k")
  case (Inl e)
  with assms(1) show ?thesis by (simp add: local_put_def bindS_def readS_def)
next
  case (Inr path)
  from local_path_Inr(1,2) [OF Inr] obtain t where t: "path = fs_root s @ t" "t \<noteq> []"
    by (auto simp: is_prefix_append)
  from assms(1) Inr obtain r0 where "local_write path c s = (r0, s')"
    by (auto simp: local_put_def wrap_oserror_def bindS_def readS_def returnS_def raiseS_def catchS_def
        split: prod.splits sum.splits if_splits)
  then have "fs_files s' = fs_files s \<or> fs_files s' = (fs_files s)(path \<mapsto> c)
       \<or> (\<exists>x. fs_files s' = (fs_files s)(temp_name s path \<mapsto> x))"
    using local_write_Inr local_write_Inl by (cases r0) (metis old.unit.exhaust)+
  moreover have "q \<noteq> path" "q \<noteq> temp_name s path"
    using assms(2) t temp_name_props(1) [OF t(2), of s] by (auto simp: is_prefix_append)
  ultimately show ?thesis by auto
qed

text \<open>
  C15. Whatever the key, the namespace, the symbolic links below the root and the outcome of the
  system calls: no operation of the local store touches a file outside the configured root.
\<close>

theorem local_storage_confined:
  assumes "\<not> is_prefix (fs_root s) q"
    "local_put k c m s = (r, s') \<or> local_delete k s = (r1, s') \<or> local_stage_delete k ns s = (r2, s')
     \<or> local_restore_staged_delete k sk s = (r1, s') \<or> local_purge_staged_delete sk s = (r1, s')"
  shows "fs_files s' q = fs_files s q"
proof -
  have outside: "q \<noteq> p" if "local_path s key = Inr p" for key p
    using local_path_Inr(1) [OF that] assms(1) by auto
  have del: "fs_files s' q = fs_files s q" if "local_delete key s = (r1, s')" for key
    using local_delete_effect [OF that] outside by (auto split: sum.splits)
  from assms(2) consider "local_put k c m s = (r, s')" | "local_delete k s = (r1, s')"
    | "local_stage_delete k ns s = (r2, s')" | "local_restore_staged_delete k sk s = (r1, s')"
    | "local_delete sk s = (r1, s')"
    by (auto simp: local_purge_staged_delete_def)
  then show ?thesis
  proof cases
    case 3
    from local_stage_delete_effect [OF 3] outside show ?thesis by (auto split: sum.splits option.splits)
  next
    case 4
    from local_restore_effect [OF 4] outside show ?thesis by (auto split: sum.splits)
  qed (use local_put_outside assms(1) del in blast)+
qed

theorem local_storage_confined_witness:
  "fs_files (snd (local_put ''a/../../etc'' ''x'' [] sample_fs)) [''etc''] = fs_files sample_fs [''etc'']"
proof -
  have "\<not> is_prefix (fs_root sample_fs) [''etc'']" by (simp add: is_prefix_def sample_fs_def)
  then show ?thesis
    by (rule local_storage_confined [of _ _ "''a/../../etc''" "''x''" "[]"]) (rule disjI1, rule prod.collapse [symmetric])
qed

text \<open>
  Writing is all or nothing: a successful \<open>put\<close> stores exactly the content under its key and
  changes nothing else; a failing one leaves, under the key, the old object or the complete new
  one, and everywhere else (temporary names apart) what was there.
\<close>

theorem local_put_atomic:
  assumes "local_wf s" "local_put k c m s = (r, s')"
  shows "case r of
      Inr ob \<Rightarrow> local_objs s' = (local_objs s)(path_parts k \<mapsto> c) \<and> so_size ob = int (length c)
    | Inl _ \<Rightarrow> (\<forall>p. \<not> temp_part p \<longrightarrow> local_objs s' p = local_objs s p
                 \<or> p = path_parts k \<and> local_objs s' p = Some c)"
  using local_store.put_Inr [of s k c m _ s'] local_store.put_Inl [of s k c m _ s'] assms
  by (cases r) (simp_all add: LocalConfigStorage_def)

theorem local_put_atomic_witness:
  "\<exists>ob s'. local_put ''a/b'' ''cfg'' [] sample_fs = (Inr ob, s') \<and> local_objs s' [''a'', ''b''] = Some ''cfg''"
proof -
  have "local_path sample_fs ''a/b'' = Inr [''srv'', ''a'', ''b'']"
    by (simp add: local_path_def sample_fs_def path_parts_def is_absolute_def is_prefix_def)
  then have "\<exists>ob s'. local_put ''a/b'' ''cfg'' [] sample_fs = (Inr ob, s')"
    by (simp add: local_put_def local_write_def local_fill_temp_def os_mkdir_def os_mkstemp_def os_chmod_def
        os_write_def os_replace_def os_call_def syscall_def sample_fs_def temp_name_def fs_exists_def
        fs_is_file_def fs_is_dir_def is_prefix_def wrap_oserror_def onfailS_def catchS_def bindS_def
        readS_def returnS_def)
  then obtain ob s' where w: "local_put ''a/b'' ''cfg'' [] sample_fs = (Inr ob, s')" by blast
  with local_put_atomic [OF sample_fs_wf w] show ?thesis by (simp add: path_parts_def)
qed

text \<open>
  C16. Quarantine is reversible: whenever \<open>stage_delete\<close> moved an object away and, with the store
  otherwise unchanged, \<open>restore_staged_delete\<close> succeeds, the store holds exactly what it held.
\<close>

theorem local_stage_restore:
  assumes "local_wf s" "local_stage_delete k ns s = (Inr (Some sk), s1)"
    "local_wf s2" "local_objs s2 = local_objs s1" "local_restore_staged_delete k sk s2 = (Inr u, s3)"
  shows "local_objs s1 (path_parts k) = None \<and> local_objs s3 = local_objs s"
  using local_store.stage_restore [of s k ns sk s1 s2 u s3] local_store.stage_Some [of s k ns sk s1] assms
  by (auto simp: LocalConfigStorage_def)

lemma local_calls_succeed:
  assumes "fs_outcomes s = []"
  shows "os_call f s = (Inr (), f s)"
  using assms by (simp add: os_call_def bindS_def syscall_def)

theorem local_stage_restore_witness:
  "\<exists>s s1 s3 sk. local_stage_delete ''a'' ''ns'' s = (Inr (Some sk), s1)
     \<and> local_restore_staged_delete ''a'' sk s1 = (Inr (), s3)
     \<and> local_objs s [''a''] = Some ''cfg'' \<and> local_objs s1 [''a''] = None \<and> local_objs s3 = local_objs s"
proof -
  let ?s = "sample_fs\<lparr>fs_files := [[''srv'', ''a''] \<mapsto> ''cfg'']\<rparr>"
  note defs = local_stage_delete_def local_restore_staged_delete_def local_path_def sample_fs_def
    path_parts_def is_absolute_def is_prefix_def valid_namespace_def namespace_char_def
    os_mkdir_def os_replace_def os_call_def syscall_def fs_exists_def fs_is_file_def fs_is_dir_def
    wrap_oserror_def catchS_def bindS_def readS_def returnS_def
  obtain s1 where s1: "local_stage_delete ''a'' ''ns'' ?s = (Inr (Some ''.retention-trash/ns/a''), s1)"
    and fs1: "fs_files s1 = [[''srv'', ''.retention-trash'', ''ns'', ''a''] \<mapsto> ''cfg'']"
      "fs_outcomes s1 = []" "fs_dirs s1 = [[''srv'', ''.retention-trash'', ''ns''], [''srv'']]"
      "fs_root s1 = [''srv'']" "fs_resolve s1 = Inr"
    by (simp add: defs)
  have "\<exists>s3. local_restore_staged_delete ''a'' ''.retention-trash/ns/a'' s1 = (Inr (), s3)"
    by (simp add: defs fs1)
  then obtain s3 where s3: "local_restore_staged_delete ''a'' ''.retention-trash/ns/a'' s1 = (Inr (), s3)" ..
  have wf: "local_wf ?s" "local_wf s1" by (simp_all add: local_wf_def sample_fs_def fs1)
  from local_stage_restore [OF wf(1) s1 wf(2) refl s3] s1 s3
  show ?thesis
    by (intro exI [of _ ?s] exI [of _ s1] exI [of _ s3] exI [of _ "''.retention-trash/ns/a''"])
      (simp add: local_objs_def sample_fs_def path_parts_def)
qed

end
