(* ===== verification/Paths.thy ===== *)
theory Paths
  imports Storage
begin

text \<open>
  Names and paths of remote copies: \<open>services/destination_paths.py\<close>, the pure helpers of
  \<open>services/ftp_helpers.py\<close> and \<open>receiver/paths.py\<close>. \<open>asc\<close> stands for
  \<open>unicodedata.normalize("NFKD", s).encode("ascii", "ignore")\<close>; the theorems hold for any such
  function.
\<close>

section \<open>Strings\<close>

function sub_runs :: "(char \<Rightarrow> bool) \<Rightarrow> string \<Rightarrow> string" where
  "sub_runs P [] = []"
| "sub_runs P (c # cs) = (if P c then CHR ''-'' # sub_runs P (dropWhile P cs) else c # sub_runs P cs)"
  by pat_completeness auto
termination
  by (relation "measure (length \<circ> snd)") (auto simp: le_imp_less_Suc length_dropWhile_le)

definition lstrip :: "(char \<Rightarrow> bool) \<Rightarrow> string \<Rightarrow> string" where
  "lstrip P s = dropWhile P s"

definition rstrip :: "(char \<Rightarrow> bool) \<Rightarrow> string \<Rightarrow> string" where
  "rstrip P s = rev (dropWhile P (rev s))"

definition strip :: "(char \<Rightarrow> bool) \<Rightarrow> string \<Rightarrow> string" where
  "strip P s = rstrip P (lstrip P s)"

definition ascii_space :: "char \<Rightarrow> bool" where
  "ascii_space c \<longleftrightarrow> (let n = of_char c :: nat in (9 \<le> n \<and> n \<le> 13) \<or> (28 \<le> n \<and> n \<le> 32))"

definition ascii_alnum :: "char \<Rightarrow> bool" where
  "ascii_alnum c \<longleftrightarrow>
     (let n = of_char c :: nat in (48 \<le> n \<and> n \<le> 57) \<or> (65 \<le> n \<and> n \<le> 90) \<or> (97 \<le> n \<and> n \<le> 122))"

definition segment_char :: "char \<Rightarrow> bool" where
  "segment_char c \<longleftrightarrow> ascii_alnum c \<or> c \<in> {CHR ''.'', CHR ''_'', CHR ''-''}"

definition edge_char :: "char \<Rightarrow> bool" where
  "edge_char c \<longleftrightarrow> c \<in> {CHR ''.'', CHR ''_'', CHR ''-''}"

fun join_with :: "string \<Rightarrow> string list \<Rightarrow> string" where
  "join_with sep [] = []"
| "join_with sep [p] = p"
| "join_with sep (p # q # ps) = p @ sep @ join_with sep (q # ps)"

text \<open>\<open>posixpath.join\<close>: a later absolute component discards what came before.\<close>

definition posix_join2 :: "string \<Rightarrow> string \<Rightarrow> string" where
  "posix_join2 a b =
     (if take 1 b = ''/'' then b
      else if a = [] \<or> last a = CHR ''/'' then a @ b
      else a @ ''/'' @ b)"

definition posix_join :: "string \<Rightarrow> string list \<Rightarrow> string" where
  "posix_join a ps = foldl posix_join2 a ps"

abbreviation slash :: "char \<Rightarrow> bool" where
  "slash c \<equiv> c = CHR ''/''"

section \<open>Destination paths\<close>

definition max_device_segment_length :: nat where "max_device_segment_length = 128"
definition max_backup_device_segment_length :: nat where "max_backup_device_segment_length = 96"

definition device_directory_name :: "(string \<Rightarrow> string) \<Rightarrow> string option \<Rightarrow> int \<Rightarrow> string" where
  "device_directory_name asc device_name device_id =
     (let ascii_name = asc (case device_name of None \<Rightarrow> [] | Some n \<Rightarrow> n);
          safe1 = sub_runs (\<lambda>c. \<not> segment_char c) (strip ascii_space ascii_name);
          safe2 = strip edge_char (sub_runs (\<lambda>c. c = CHR ''-'') safe1);
          safe3 = join_with ''-'' (filter (\<lambda>p. strip (\<lambda>c. c = CHR ''.'') p \<noteq> [])
                                     (split_on (CHR ''-'') safe2));
          safe4 = rstrip edge_char (take max_device_segment_length safe3)
      in if safe4 \<noteq> [] then safe4 else ''device-'' @ show_int device_id)"

definition revision_destination_path ::
  "(string \<Rightarrow> string) \<Rightarrow> string \<Rightarrow> string option \<Rightarrow> int \<Rightarrow> string \<Rightarrow> string" where
  "revision_destination_path asc base_path device_name device_id revision_uuid =
     ''/'' @ lstrip slash (posix_join (strip slash base_path)
       [''devices'', device_directory_name asc device_name device_id, ''revisions'', revision_uuid])"

text \<open>\<open>strftime("%Y-%m-%d_%H-%M-%S")\<close> of an instant in UTC; \<open>%Y\<close> is not padded.\<close>

definition backup_creation_timestamp :: "datetime \<Rightarrow> string" where
  "backup_creation_timestamp created_at =
     (let i = dt_value created_at; d = utc_date i; t = i mod day_us div second_us in
      show_int (year_of d) @ ''-'' @ zero_pad 2 (month_of d) @ ''-'' @ zero_pad 2 (day_of d) @ ''_''
      @ zero_pad 2 (t div 3600) @ ''-'' @ zero_pad 2 (t div 60 mod 60) @ ''-'' @ zero_pad 2 (t mod 60))"

definition backup_filename_stem ::
  "(string \<Rightarrow> string) \<Rightarrow> string option \<Rightarrow> int \<Rightarrow> datetime \<Rightarrow> string" where
  "backup_filename_stem asc device_name device_id created_at =
     rstrip edge_char (take max_backup_device_segment_length
       (device_directory_name asc device_name device_id))
     @ ''_'' @ backup_creation_timestamp created_at"

definition ftp_revision_destination_path ::
  "(string \<Rightarrow> string) \<Rightarrow> string \<Rightarrow> string option \<Rightarrow> int \<Rightarrow> datetime \<Rightarrow> int option \<Rightarrow> string option
   \<Rightarrow> string result" where
  "ftp_revision_destination_path asc base_path device_name device_id created_at revision_id revision_uuid =
     (let path = posix_join (strip slash base_path)
        [''devices'', device_directory_name asc device_name device_id, ''backups'',
         backup_creation_timestamp created_at] in
      bindE (case revision_id of
          Some r \<Rightarrow> if r \<le> 0 then Inl (ValueError ''revision_id must be a positive integer'')
                    else Inr (path @ ''-r'' @ show_int r)
        | None \<Rightarrow> (case revision_uuid of Some u \<Rightarrow> Inr (posix_join path [u]) | None \<Rightarrow> Inr path))
        (\<lambda>path. Inr (''/'' @ lstrip slash path)))"

section \<open>FTP helpers\<close>

text \<open>\<open>PurePosixPath(p).name\<close>, \<open>.suffixes\<close> joined.\<close>

definition path_name :: "string \<Rightarrow> string" where
  "path_name p = (case rev (path_parts p) of [] \<Rightarrow> [] | n # _ \<Rightarrow> n)"

definition joined_suffixes :: "string \<Rightarrow> string" where
  "joined_suffixes name =
     (if name \<noteq> [] \<and> last name = CHR ''.'' then []
      else dropWhile (\<lambda>c. c \<noteq> CHR ''.'') (lstrip (\<lambda>c. c = CHR ''.'') name))"

definition artifact_filename :: "string \<Rightarrow> string \<Rightarrow> string" where
  "artifact_filename storage_key artifact_type =
     (let filename = path_name storage_key in
      if filename \<noteq> [] \<and> filename \<noteq> ''.'' \<and> filename \<noteq> ''..'' then filename
      else artifact_type @ ''.bin'')"

definition readable_artifact_filename ::
  "(string \<Rightarrow> string) \<Rightarrow> string option \<Rightarrow> int \<Rightarrow> datetime \<Rightarrow> config_artifact \<Rightarrow> string option \<Rightarrow> string" where
  "readable_artifact_filename asc device_name device_id created artifact stem_override =
     (let original = artifact_filename (a_storage_key artifact) (a_artifact_type artifact);
          suffix0 = joined_suffixes (path_name original);
          suffix = (if suffix0 = [] \<or> 24 < length suffix0
                       \<or> list_ex (\<lambda>c. c \<noteq> CHR ''.'' \<and> \<not> ascii_alnum c) suffix0
                    then ''.bin'' else suffix0);
          stem = (case stem_override of
              Some st \<Rightarrow> if st \<noteq> [] then st else backup_filename_stem asc device_name device_id created
            | None \<Rightarrow> backup_filename_stem asc device_name device_id created)
      in if a_is_primary artifact then stem @ suffix
         else let t = take 48 (device_directory_name asc (Some (a_artifact_type artifact)) 0);
                  safe_type = (if t \<noteq> [] then t else ''artifact'')
              in stem @ ''_'' @ safe_type @ suffix)"

text \<open>\<open>PurePosixPath(p).parts\<close>: exactly two leading slashes are a root of their own.\<close>

definition root_part :: "string \<Rightarrow> string" where
  "root_part p = (if take 2 p = ''//'' \<and> take 3 p \<noteq> ''///'' then ''//'' else ''/'')"

definition all_parts :: "string \<Rightarrow> string list" where
  "all_parts p = (if is_absolute p then root_part p # path_parts p else path_parts p)"

definition uses_readable_ftp_layout :: "string \<Rightarrow> bool" where
  "uses_readable_ftp_layout remote_path \<longleftrightarrow>
     (let parts = all_parts remote_path; n = length parts in
      2 \<le> n \<and> (parts ! (n - 2) = ''backups'' \<or> (3 \<le> n \<and> parts ! (n - 3) = ''backups'')))"

definition validate_direct_filename :: "string \<Rightarrow> unit result" where
  "validate_direct_filename filename =
     (if filename = [] \<or> path_name filename \<noteq> filename \<or> filename = ''.'' \<or> filename = ''..''
         \<or> CHR 0x5C \<in> set filename \<or> CHR 0x00 \<in> set filename
         \<or> list_ex (\<lambda>c. (of_char c :: nat) < 32) filename
      then Inl (DestinationError ''DELETE_FILESET_INVALID'' ''An FTP revision filename is not safe to delete.'')
      else Inr ())"

definition join_ftp_path :: "string \<Rightarrow> string list \<Rightarrow> string" where
  "join_ftp_path base parts = posix_join (rstrip slash base) parts"

definition absolute_ftp_path :: "string \<Rightarrow> string" where
  "absolute_ftp_path path = ''/'' @ lstrip slash path"

section \<open>Receiver inbox\<close>

definition receiver_profile_root :: "string list \<Rightarrow> int \<Rightarrow> string list" where
  "receiver_profile_root base profile_id = base @ [''profile-'' @ show_int profile_id]"

text \<open>\<open>resolve\<close> is \<open>Path.resolve\<close> on absolute paths, \<open>base\<close> the resolved receiver root.\<close>

definition receiver_inbox_path ::
  "(string list \<Rightarrow> string list) \<Rightarrow> string list \<Rightarrow> int \<Rightarrow> string \<Rightarrow> string list result" where
  "receiver_inbox_path resolve base profile_id upload_directory =
     (if upload_directory = [] \<or> upload_directory = ''.'' \<or> upload_directory = ''..''
         \<or> CHR ''/'' \<in> set upload_directory \<or> CHR 0x5C \<in> set upload_directory
         \<or> CHR 0x00 \<in> set upload_directory
      then Inl (ValueError ''Invalid receiver upload directory.'')
      else let profile_root = receiver_profile_root base profile_id;
               result = resolve (profile_root @ [upload_directory])
           in if result = [] \<or> butlast result \<noteq> profile_root
              then Inl (ValueError ''Receiver upload directory escapes the profile root.'')
              else Inr result)"

section \<open>Safety of device directories\<close>

lemma set_dropWhile_subset: "set (dropWhile P xs) \<subseteq> set xs"
  by (induction xs) auto

lemma set_rstrip_subset: "set (rstrip P s) \<subseteq> set s"
  using set_dropWhile_subset [of P "rev s"] by (simp add: rstrip_def)

lemma set_strip_subset: "set (strip P s) \<subseteq> set s"
  using set_rstrip_subset [of P "lstrip P s"] set_dropWhile_subset [of P s]
  by (auto simp: strip_def lstrip_def)

lemma last_rstrip: "rstrip P s \<noteq> [] \<Longrightarrow> \<not> P (last (rstrip P s))"
  by (simp add: rstrip_def last_rev hd_dropWhile)

lemma set_sub_runs: "c \<in> set (sub_runs P s) \<Longrightarrow> c = CHR ''-'' \<or> (c \<in> set s \<and> \<not> P c)"
  by (induction P s rule: sub_runs.induct) (auto split: if_splits dest: set_dropWhileD)

lemma set_split_on: "w \<in> set (split_on c xs) \<Longrightarrow> set w \<subseteq> set xs - {c}"
proof (induction xs arbitrary: w)
  case (Cons x xs)
  obtain v vs where v: "split_on c xs = v # vs"
    by (cases "split_on c xs") auto
  show ?case
  proof (cases "x = c")
    case False
    with Cons.prems v consider "w = x # v" | "w \<in> set vs" by auto
    then show ?thesis
    proof cases
      case 1
      with Cons.IH [of v] v False show ?thesis by auto
    next
      case 2
      with Cons.IH [of w] v show ?thesis by auto
    qed
  next
    case True
    with Cons.prems v consider "w = []" | "w \<in> set (split_on c xs)" by auto
    then show ?thesis using Cons.IH [of w] by cases auto
  qed
qed simp

lemma set_join_with: "set (join_with sep ps) \<subseteq> set sep \<union> (\<Union>p \<in> set ps. set p)"
  by (induction sep ps rule: join_with.induct) auto

lemma show_nat_digits: "c \<in> set (show_nat n) \<Longrightarrow> 48 \<le> (of_char c :: nat) \<and> (of_char c :: nat) \<le> 57"
proof (induction n rule: show_nat.induct)
  case (1 n)
  show ?case
  proof (cases "n < 10")
    case True
    with "1.prems" show ?thesis by (subst (asm) show_nat.simps) (auto simp: take_bit_eq_mod)
  next
    case False
    with "1.prems" consider "c \<in> set (show_nat (n div 10))" | "c = char_of (48 + n mod 10)"
      by (subst (asm) show_nat.simps) auto
    then show ?thesis
    proof cases
      case 2
      have "48 + n mod 10 < 256" by simp
      with 2 show ?thesis by (simp add: take_bit_eq_mod)
    qed (use "1.IH" False in blast)
  qed
qed

lemma show_nat_segment: "c \<in> set (show_nat n) \<Longrightarrow> ascii_alnum c"
  using show_nat_digits [of c n] by (simp add: ascii_alnum_def)

definition safe_name :: "(string \<Rightarrow> string) \<Rightarrow> string option \<Rightarrow> string" where
  "safe_name asc device_name =
     rstrip edge_char (take max_device_segment_length
       (join_with ''-'' (filter (\<lambda>p. strip (\<lambda>c. c = CHR ''.'') p \<noteq> []) (split_on (CHR ''-'')
         (strip edge_char (sub_runs (\<lambda>c. c = CHR ''-'') (sub_runs (\<lambda>c. \<not> segment_char c)
           (strip ascii_space (asc (case device_name of None \<Rightarrow> [] | Some n \<Rightarrow> n))))))))))"

lemma device_directory_name_alt:
  "device_directory_name asc n i = (if safe_name asc n \<noteq> [] then safe_name asc n else ''device-'' @ show_int i)"
  by (simp add: device_directory_name_def safe_name_def Let_def)

lemma segment_dash [simp]: "segment_char (CHR ''-'')"
  by (simp add: segment_char_def)

lemma safe_name_chars:
  assumes "c \<in> set (safe_name asc n)"
  shows "segment_char c"
proof -
  define s1 where "s1 = sub_runs (\<lambda>c. \<not> segment_char c)
    (strip ascii_space (asc (case n of None \<Rightarrow> [] | Some n \<Rightarrow> n)))"
  define s2 where "s2 = strip edge_char (sub_runs (\<lambda>c. c = CHR ''-'') s1)"
  define ps where "ps = filter (\<lambda>p. strip (\<lambda>c. c = CHR ''.'') p \<noteq> []) (split_on (CHR ''-'') s2)"
  have s1: "segment_char x" if "x \<in> set s1" for x
    using set_sub_runs [OF that [unfolded s1_def]] by auto
  have s2: "segment_char x" if "x \<in> set s2" for x
  proof -
    from that have "x \<in> set (sub_runs (\<lambda>c. c = CHR ''-'') s1)"
      using set_strip_subset unfolding s2_def by blast
    from set_sub_runs [OF this] s1 [of x] show ?thesis by auto
  qed
  have ps: "segment_char x" if "p \<in> set ps" "x \<in> set p" for p x
    using that set_split_on [of p "CHR ''-''" s2] s2 [of x] by (auto simp: ps_def)
  from assms have "c \<in> set (take max_device_segment_length (join_with ''-'' ps))"
    unfolding safe_name_def s1_def [symmetric] s2_def [symmetric] ps_def [symmetric]
    using set_rstrip_subset by blast
  then have "c \<in> set (join_with ''-'' ps)" by (rule in_set_takeD)
  then show ?thesis using ps set_join_with [of "''-''" ps] by auto
qed

lemma length_rstrip: "length (rstrip P s) \<le> length s"
  using length_dropWhile_le [of P "rev s"] by (simp add: rstrip_def)

lemma length_safe_name: "length (safe_name asc n) \<le> 128"
  unfolding safe_name_def max_device_segment_length_def
  by (rule order_trans [OF length_rstrip]) simp

text \<open>
  The directory of a device is one safe path component whatever the device is called: not empty,
  made of letters, digits, dots, underscores and dashes only, ending in a letter or digit (so
  neither \<open>.\<close> nor \<open>..\<close>), and a name taken from the device has at most 128 characters.
\<close>

theorem device_directory_safe:
  assumes "0 \<le> i"
  shows "device_directory_name asc n i \<noteq> [] \<and> list_all segment_char (device_directory_name asc n i)
    \<and> ascii_alnum (last (device_directory_name asc n i))
    \<and> (device_directory_name asc n i = ''device-'' @ show_int i \<or> length (device_directory_name asc n i) \<le> 128)"
proof (cases "safe_name asc n = []")
  case True
  have "ascii_alnum (last (show_int i))" "list_all segment_char (show_int i)" "show_int i \<noteq> []"
    using assms show_nat_segment [of _ "nat i"]
    by (auto simp: show_int_def list_all_iff segment_char_def)
  with True show ?thesis
    by (simp add: device_directory_name_alt segment_char_def ascii_alnum_def)
next
  case False
  have "\<not> edge_char (last (safe_name asc n))"
    using last_rstrip False unfolding safe_name_def by blast
  moreover have "segment_char (last (safe_name asc n))" by (rule safe_name_chars [OF last_in_set [OF False]])
  ultimately have "ascii_alnum (last (safe_name asc n))"
    by (auto simp: edge_char_def segment_char_def)
  with False safe_name_chars length_safe_name show ?thesis
    by (auto simp: device_directory_name_alt list_all_iff)
qed

theorem device_directory_safe_witness:
  "device_directory_name id (Some ''../core sw#1..'') 7 = ''core-sw-1''
   \<and> ascii_alnum (last (device_directory_name id (Some ''../core sw#1..'') 7))"
  using device_directory_safe [of 7 id "Some ''../core sw#1..''"]
  by (simp, code_simp)

section \<open>Distinct revisions get distinct paths\<close>

definition digit :: "char \<Rightarrow> bool" where
  "digit c \<longleftrightarrow> 48 \<le> (of_char c :: nat) \<and> (of_char c :: nat) \<le> 57"

lemma trailing_number:
  "takeWhile digit (rev (X @ ''-r'' @ show_nat n)) = rev (show_nat n)"
proof -
  have "\<forall>c \<in> set (rev (show_nat n)). digit c" using show_nat_digits [of _ n] by (simp add: digit_def)
  then have "takeWhile digit (rev (show_nat n) @ (CHR ''r'' # CHR ''-'' # rev X)) = rev (show_nat n)"
    by (subst takeWhile_append2) (auto simp: digit_def)
  then show ?thesis by simp
qed

lemma lstrip_append_kept: "\<not> P c \<Longrightarrow> \<exists>Y. lstrip P (X @ c # Z) = Y @ c # Z"
  unfolding lstrip_def by (induction X) auto

lemma ftp_path_shape:
  assumes "ftp_revision_destination_path asc b n i t (Some r) u = Inr p"
  shows "0 < r \<and> (\<exists>X. p = X @ ''-r'' @ show_nat (nat r))"
proof -
  from assms obtain P where r: "0 < r" and p: "p = ''/'' @ lstrip slash (P @ ''-r'' @ show_int r)"
    by (auto simp: ftp_revision_destination_path_def Let_def result_simps split: if_splits)
  have "P @ ''-r'' @ show_int r = P @ CHR ''-'' # (''r'' @ show_nat (nat r))"
    using r by (simp add: show_int_def)
  moreover obtain Y where "lstrip slash (P @ CHR ''-'' # (''r'' @ show_nat (nat r)))
      = Y @ CHR ''-'' # (''r'' @ show_nat (nat r))"
    using lstrip_append_kept [of slash "CHR ''-''" P "''r'' @ show_nat (nat r)"] by auto
  ultimately have "p = (''/'' @ Y) @ ''-r'' @ show_nat (nat r)" by (simp add: p)
  with r show ?thesis by blast
qed

text \<open>
  Remote paths are collision free, as the docstring of \<open>ftp_revision_destination_path\<close> claims:
  two revisions with different identifiers never share a path, whatever their devices, base paths
  and creation times.
\<close>

theorem ftp_path_collision_free:
  assumes "ftp_revision_destination_path asc b n i t (Some r) u = Inr p"
    "ftp_revision_destination_path asc' b' n' i' t' (Some r') u' = Inr p"
  shows "r = r'"
proof -
  from ftp_path_shape [OF assms(1)] obtain X where X: "0 < r" "p = X @ ''-r'' @ show_nat (nat r)" by blast
  from ftp_path_shape [OF assms(2)] obtain Y where Y: "0 < r'" "p = Y @ ''-r'' @ show_nat (nat r')" by blast
  have "rev (show_nat (nat r)) = rev (show_nat (nat r'))"
    using trailing_number [of X "nat r"] trailing_number [of Y "nat r'"] X(2) Y(2) by metis
  then show ?thesis using X(1) Y(1) by simp
qed

theorem ftp_path_collision_free_witness:
  "\<exists>p. ftp_revision_destination_path id ''/srv'' (Some ''r1'') 1 (Aware 0) (Some 12) None = Inr p
     \<and> (\<forall>r b. ftp_revision_destination_path id b (Some ''r1'') 1 (Aware 0) (Some r) None = Inr p \<longrightarrow> r = 12)"
proof -
  have "\<exists>p. ftp_revision_destination_path id ''/srv'' (Some ''r1'') 1 (Aware 0) (Some 12) None = Inr p"
    by (simp add: ftp_revision_destination_path_def)
  then obtain p where p: "ftp_revision_destination_path id ''/srv'' (Some ''r1'') 1 (Aware 0) (Some 12) None = Inr p" ..
  show ?thesis using p ftp_path_collision_free [OF _ p] by blast
qed

section \<open>Direct children\<close>

lemma split_on_no_sep: "c \<notin> set w \<Longrightarrow> split_on c w = [w]"
  by (induction w) auto

lemma path_name_slash: "path_name f = f \<Longrightarrow> CHR ''/'' \<notin> set f"
proof -
  assume n: "path_name f = f"
  show ?thesis
  proof (cases "rev (path_parts f)")
    case (Cons a as)
    with n have "f \<in> set (path_parts f)"
      by (metis list.set_intros(1) list.simps(5) path_name_def set_rev)
    then have "f \<in> set (split_on (CHR ''/'') f)" by (simp add: path_parts_def)
    with set_split_on show ?thesis by fast
  qed (use n in \<open>simp add: path_name_def\<close>)
qed

text \<open>
  A file name accepted for remote deletion denotes a direct child of its directory: joined to
  any directory path it adds exactly one component, which is not a dot directory.
\<close>

theorem validated_filename_is_child:
  assumes "validate_direct_filename f = Inr ()" "d \<noteq> []" "last d \<noteq> CHR ''/''"
  shows "join_ftp_path d [f] = d @ ''/'' @ f \<and> path_parts f = [f] \<and> f \<noteq> ''..''"
proof -
  from assms(1) have f: "f \<noteq> []" "f \<noteq> ''.''" "f \<noteq> ''..''" "path_name f = f"
    by (auto simp: validate_direct_filename_def split: if_splits)
  from path_name_slash [OF f(4)] have ns: "CHR ''/'' \<notin> set f" .
  with f have "path_parts f = [f]" by (simp add: path_parts_def split_on_no_sep)
  moreover have "take 1 f \<noteq> ''/''" using ns by (cases f) auto
  moreover have "rstrip slash d = d"
    using assms(2,3) by (cases d rule: rev_cases) (auto simp: rstrip_def)
  ultimately show ?thesis
    using assms(2,3) f(3) by (simp add: join_ftp_path_def posix_join_def posix_join2_def)
qed

theorem validated_filename_is_child_witness:
  "validate_direct_filename ''r1_2024.cfg'' = Inr () \<and> join_ftp_path ''/b'' [''r1_2024.cfg''] = ''/b/r1_2024.cfg''"
proof -
  have "validate_direct_filename ''r1_2024.cfg'' = Inr ()" by code_simp
  with validated_filename_is_child [OF this, of "''/b''"] show ?thesis by simp
qed

text \<open>The inbox of an upload receiver is a direct child of its profile's directory.\<close>

lemma receiver_inbox_confined:
  assumes "receiver_inbox_path resolve base k d = Inr p"
  shows "\<exists>name. p = receiver_profile_root base k @ [name]"
  using assms by (auto simp: receiver_inbox_path_def Let_def split: if_splits)
    (metis append_butlast_last_id)

end
