(* ===== verification/Replication.thy ===== *)
theory Replication
  imports Paths Database
begin

text \<open>
  \<open>services/replication.py\<close> with the protocol dispatch of \<open>services/destination.py\<close>: the life of one
  remote copy of a revision. The uploads themselves are parameters (\<open>upload_ops\<close>): they talk to FTP,
  SFTP and mounted file systems. \<open>now\<close> is what \<open>timezone.now()\<close> returns during the call.
\<close>

section \<open>Backends\<close>

record replication_result =
  rr_remote_path :: string
  rr_bytes_transferred :: int
  rr_artifact_count :: int

record upload_ops =
  up_ftp :: "db \<Rightarrow> backup_destination \<Rightarrow> config_revision \<Rightarrow> string option \<Rightarrow> replication_result result"
  up_mounted :: "db \<Rightarrow> backup_destination \<Rightarrow> config_revision \<Rightarrow> string option \<Rightarrow> replication_result result"
  up_sftp :: "db \<Rightarrow> backup_destination \<Rightarrow> config_revision \<Rightarrow> replication_result result"

definition replicate_revision ::
  "upload_ops \<Rightarrow> db \<Rightarrow> backup_destination \<Rightarrow> config_revision \<Rightarrow> string option \<Rightarrow> replication_result result" where
  "replicate_revision ops d dst rv recorded_remote_path =
     (if dst_protocol dst = PFtp then up_ftp ops d dst rv recorded_remote_path
      else if mounted_protocol (dst_protocol dst) then up_mounted ops d dst rv recorded_remote_path
      else if dst_protocol dst = PSftp then up_sftp ops d dst rv
      else Inl (DestinationError ''PROTOCOL_UNSUPPORTED'' ''This storage type cannot receive replicas.''))"

section \<open>Queueing\<close>

definition active_replica :: "revision_replica \<Rightarrow> bool" where
  "active_replica p \<longleftrightarrow> p_status p \<in> {PQueued, PRunning}"

definition queue_replica_row :: "int \<Rightarrow> revision_replica \<Rightarrow> revision_replica" where
  "queue_replica_row now p = p\<lparr>p_status := PQueued, p_queued_at := now, p_started_at := None,
     p_finished_at := None, p_next_retry_at := None, p_error_code := [], p_error_message := [],
     p_remote_available := False\<rparr>"

definition enqueue_revision_replica :: "int \<Rightarrow> int \<Rightarrow> bool \<Rightarrow> db \<Rightarrow> (int option \<times> db) result" where
  "enqueue_revision_replica now replica_id force d =
     bindE (get_replica d replica_id) (\<lambda>p.
     bindE (get_destination d (p_destination_id p)) (\<lambda>dst.
     if \<not> replicated_protocol (dst_protocol dst) then Inr (None, d)
     else if \<not> dst_enabled dst then Inr (None, d)
     else if p_remote_deleted_at p \<noteq> None then Inr (None, d)
     else if active_replica p then Inr (None, d)
     else if \<not> force \<and> p_status p = PSuccess then Inr (None, d)
     else let p1 = queue_replica_row now p;
              d1 = save_replica p1 d;
              (job, d2) = enqueue_job ''Config backup external replication'' (Some (dst_pk dst)) d1
          in Inr (Some job, save_replica (p1\<lparr>p_job_id := Some job\<rparr>) d2)))"

definition auto_destination :: "backup_destination \<Rightarrow> bool" where
  "auto_destination dst \<longleftrightarrow> dst_enabled dst \<and> dst_auto_replicate dst \<and> replicated_protocol (dst_protocol dst)"

text \<open>\<open>get_or_create\<close> of the row of one revision at one destination.\<close>

definition new_replica :: "int \<Rightarrow> int \<Rightarrow> int \<Rightarrow> int \<Rightarrow> revision_replica" where
  "new_replica now k revision_id destination_id =
     \<lparr>p_pk = k, p_revision_id = revision_id, p_destination_id = destination_id, p_status = PPending,
      p_attempts = 0, p_queued_at = now, p_started_at = None, p_finished_at = None,
      p_next_retry_at = None, p_bytes_transferred = 0, p_remote_path = [], p_remote_available = False,
      p_remote_deleted_at = None, p_error_code = [], p_error_message = [], p_job_id = None\<rparr>"

definition get_or_create_replica :: "int \<Rightarrow> int \<Rightarrow> int \<Rightarrow> db \<Rightarrow> ((revision_replica \<times> bool) \<times> db) result" where
  "get_or_create_replica now revision_id destination_id d =
     (case find (\<lambda>p. p_revision_id p = revision_id \<and> p_destination_id p = destination_id) (replicas d) of
        Some p \<Rightarrow> Inr ((p, False), d)
      | None \<Rightarrow>
          if \<not> list_ex (\<lambda>r. rev_pk r = revision_id) (revisions d) then Inl IntegrityError
          else let p = new_replica now (next_id d) revision_id destination_id in
               Inr ((p, True), d\<lparr>replicas := replicas d @ [p], next_id := next_id d + 1\<rparr>))"

text \<open>The two loops of \<open>create_revision_replicas\<close>: create the rows, then queue the new ones.\<close>

fun create_rows :: "int \<Rightarrow> (int \<times> int) list \<Rightarrow> (db, int list) prog" where
  "create_rows now [] = returnS []"
| "create_rows now ((revision_id, destination_id) # rest) =
     bindS (atomic (get_or_create_replica now revision_id destination_id)) (\<lambda>(p, created).
     bindS (create_rows now rest) (\<lambda>ids.
     returnS (if created then p_pk p # ids else ids)))"

definition enqueue_all :: "int \<Rightarrow> int list \<Rightarrow> (db, unit) prog" where
  "enqueue_all now ids =
     forS (\<lambda>k. bindS (atomic (enqueue_revision_replica now k False)) (\<lambda>_. returnS ())) ids"

definition create_revision_replicas :: "int \<Rightarrow> int \<Rightarrow> (db, nat) prog" where
  "create_revision_replicas now revision_id =
     bindS (readS (\<lambda>d. Inr (map dst_pk (filter auto_destination (destinations d))))) (\<lambda>destination_ids.
     bindS (create_rows now (map (\<lambda>k. (revision_id, k)) destination_ids)) (\<lambda>created_ids.
     bindS (enqueue_all now created_ids) (\<lambda>_.
     returnS (length created_ids))))"

text \<open>
  \<open>verify\<close> is \<open>reconcile_destination_for_replicas(destination, (replica,))["success"]\<close>, the read-only
  check of the remote files.
\<close>

fun is_destination_error :: "exn \<Rightarrow> bool" where
  "is_destination_error (DestinationError _ _) = True"
| "is_destination_error _ = False"

definition enqueue_counted :: "int \<Rightarrow> int \<Rightarrow> bool \<Rightarrow> (db, nat) prog" where
  "enqueue_counted now k force =
     bindS (atomic (enqueue_revision_replica now k force)) (\<lambda>job. returnS (if job = None then 0 else 1))"

definition ensure_one ::
  "(backup_destination \<Rightarrow> revision_replica \<Rightarrow> bool result) \<Rightarrow> int \<Rightarrow> int \<Rightarrow> backup_destination \<Rightarrow> (db, nat) prog" where
  "ensure_one verify now revision_id dst =
     bindS (atomic (get_or_create_replica now revision_id (dst_pk dst))) (\<lambda>(p, created).
     if created then enqueue_counted now (p_pk p) False
     else if active_replica p then returnS 0
     else if p_remote_deleted_at p \<noteq> None then returnS 0
     else bindS (readS (\<lambda>d.
            if p_status p \<noteq> PSuccess then Inr True
            else (case verify dst p of
                    Inr ok \<Rightarrow> Inr (\<not> ok)
                  | Inl e \<Rightarrow> if is_destination_error e then Inr True else Inl e))) (\<lambda>needs_repair.
          if needs_repair then enqueue_counted now (p_pk p) True else returnS 0))"

definition ensure_revision_replicas ::
  "(backup_destination \<Rightarrow> revision_replica \<Rightarrow> bool result) \<Rightarrow> int \<Rightarrow> int \<Rightarrow> (db, nat) prog" where
  "ensure_revision_replicas verify now revision_id =
     bindS (readS (\<lambda>d. Inr (filter auto_destination (destinations d)))) (\<lambda>dsts.
     sumS (ensure_one verify now revision_id) dsts)"

section \<open>Execution\<close>

definition running_row :: "int \<Rightarrow> string \<Rightarrow> revision_replica \<Rightarrow> revision_replica" where
  "running_row now path p = p\<lparr>p_remote_path := path, p_status := PRunning, p_started_at := Some now,
     p_finished_at := None, p_attempts := p_attempts p + 1, p_error_code := [],
     p_error_message := [], p_remote_available := False\<rparr>"

definition success_row :: "int \<Rightarrow> string \<Rightarrow> int \<Rightarrow> revision_replica \<Rightarrow> revision_replica" where
  "success_row now path n p = p\<lparr>p_status := PSuccess, p_finished_at := Some now, p_next_retry_at := None,
     p_remote_path := path, p_bytes_transferred := n, p_error_code := [], p_error_message := [],
     p_remote_available := True, p_remote_deleted_at := None\<rparr>"

definition failed_row :: "int \<Rightarrow> string \<Rightarrow> string \<Rightarrow> int option \<Rightarrow> revision_replica \<Rightarrow> revision_replica" where
  "failed_row now code message retry p = p\<lparr>p_status := PFailed, p_finished_at := Some now,
     p_error_code := take 64 code, p_error_message := take 500 message, p_remote_available := False,
     p_next_retry_at := retry\<rparr>"

definition mark_running_replica ::
  "(string \<Rightarrow> string) \<Rightarrow> int \<Rightarrow> int \<Rightarrow> db \<Rightarrow> ((revision_replica \<times> backup_destination \<times> config_revision) \<times> db) result" where
  "mark_running_replica asc now replica_id d =
     bindE (get_replica d replica_id) (\<lambda>p.
     bindE (get_destination d (p_destination_id p)) (\<lambda>dst.
     bindE (get_revision d (p_revision_id p)) (\<lambda>rv.
     bindE (get_target d (rev_target_id rv)) (\<lambda>t.
     if \<not> dst_enabled dst
     then Inl (DestinationError ''DESTINATION_DISABLED''
            ''The external destination is disabled and no network connection was attempted.'')
     else if p_remote_deleted_at p \<noteq> None
     then Inl (DestinationError ''REPLICA_EXPIRED''
            ''The remote revision copy has expired and cannot be uploaded again.'')
     else if p_status p \<notin> {PPending, PQueued, PFailed}
     then Inl (DestinationError ''REPLICA_STATE_CONFLICT'' ''The revision replica is not ready to run.'')
     else bindE (if p_remote_path p \<noteq> [] then Inr (p_remote_path p)
                 else ftp_revision_destination_path asc (dst_base_path dst) (Some (dev_name (t_device t)))
                        (dev_pk (t_device t)) (Aware (rev_created rv)) (Some (rev_pk rv)) None) (\<lambda>path.
          Inr ((running_row now path p, dst, rv), save_replica (running_row now path p) d))))))"

definition mark_success_replica :: "runtime_controls \<Rightarrow> int \<Rightarrow> int \<Rightarrow> string \<Rightarrow> int \<Rightarrow> db \<Rightarrow> (unit \<times> db) result" where
  "mark_success_replica rc now replica_id remote_path bytes_transferred d =
     bindE (get_replica d replica_id) (\<lambda>p.
     bindE (get_destination d (p_destination_id p)) (\<lambda>dst.
     let d1 = save_replica (success_row now remote_path bytes_transferred p) d;
         d2 = save_destination (dst\<lparr>dst_last_success_at := Some now, dst_last_error_code := [],
                dst_last_error_message := []\<rparr>) d1
     in Inr ((), if dst_last_error_code dst \<noteq> []
                 then queue_event (events_enabled rc) ''config_backup_replica_recovered'' (p_pk p) d2 else d2)))"

definition mark_failed_replica :: "runtime_controls \<Rightarrow> int \<Rightarrow> int \<Rightarrow> string \<Rightarrow> string \<Rightarrow> db \<Rightarrow> (unit \<times> db) result" where
  "mark_failed_replica rc now replica_id code message d =
     bindE (get_replica d replica_id) (\<lambda>p.
     bindE (get_destination d (p_destination_id p)) (\<lambda>dst.
     bindE (if p_attempts p \<le> dst_max_retries dst
            then bindE (dt_shift now (dst_retry_delay_minutes dst * minute_us)) (\<lambda>t. Inr (Some t))
            else Inr None) (\<lambda>retry.
     let p' = failed_row now code message retry p;
         d1 = save_replica p' d;
         d2 = save_destination (dst\<lparr>dst_last_error_code := p_error_code p',
                dst_last_error_message := p_error_message p'\<rparr>) d1
     in Inr ((), if dst_last_error_code dst = []
                 then queue_event (events_enabled rc) ''config_backup_replica_failed'' (p_pk p) d2 else d2))))"

text \<open>An exception other than \<open>DestinationError\<close> is recorded and re-raised as an internal error.\<close>

fun replication_failure :: "exn \<Rightarrow> string \<times> string" where
  "replication_failure (DestinationError code message) = (code, message)"
| "replication_failure _ =
     (''INTERNAL_ERROR'', ''External replication stopped because of an internal error.'')"

text \<open>
  The clock is read when the replica starts (\<open>now\<close>) and when the outcome is recorded (\<open>later\<close>).
\<close>

definition execute_revision_replica ::
  "(string \<Rightarrow> string) \<Rightarrow> runtime_controls \<Rightarrow> upload_ops \<Rightarrow> int \<Rightarrow> int \<Rightarrow> int \<Rightarrow> (db, replication_result) prog" where
  "execute_revision_replica asc rc ops now later replica_id =
     bindS (atomic (mark_running_replica asc now replica_id)) (\<lambda>(p, dst, rv).
     bindS (readS (\<lambda>d. Inr (replicate_revision ops d dst rv
              (if p_remote_path p \<noteq> [] then Some (p_remote_path p) else None)))) (\<lambda>outcome.
     case outcome of
       Inl e \<Rightarrow>
         (case replication_failure e of (code, message) \<Rightarrow>
            bindS (atomic (mark_failed_replica rc later (p_pk p) code message)) (\<lambda>_.
            raiseS (DestinationError code message)))
     | Inr result \<Rightarrow>
         bindS (atomic (mark_success_replica rc later (p_pk p) (rr_remote_path result) (rr_bytes_transferred result)))
           (\<lambda>_. returnS result)))"

section \<open>Dispatch and housekeeping\<close>

record replication_dispatch_summary =
  rds_considered :: nat
  rds_queued :: nat
  rds_skipped :: nat

definition replica_due :: "db \<Rightarrow> int \<Rightarrow> revision_replica \<Rightarrow> bool" where
  "replica_due d now p \<longleftrightarrow>
     list_ex (\<lambda>dst. dst_pk dst = p_destination_id p \<and> dst_enabled dst \<and> replicated_protocol (dst_protocol dst))
       (destinations d)
     \<and> p_remote_deleted_at p = None
     \<and> (p_status p = PPending
        \<or> (p_status p = PFailed \<and> (case p_next_retry_at p of None \<Rightarrow> False | Some t \<Rightarrow> t \<le> now)))"

definition due_replica_ids :: "db \<Rightarrow> int \<Rightarrow> nat \<Rightarrow> int list" where
  "due_replica_ids d now limit =
     map p_pk (take limit (sort_key p_queued_at (filter (replica_due d now) (replicas d))))"

definition dispatch_due_replicas :: "int \<Rightarrow> nat \<Rightarrow> (db, replication_dispatch_summary) prog" where
  "dispatch_due_replicas now limit =
     bindS (readS (\<lambda>d. Inr (due_replica_ids d now limit))) (\<lambda>ids.
     bindS (sumS (\<lambda>k. enqueue_counted now k False) ids) (\<lambda>queued.
     returnS \<lparr>rds_considered = length ids, rds_queued = queued, rds_skipped = length ids - queued\<rparr>))"

definition stale_replica :: "int \<Rightarrow> revision_replica \<Rightarrow> bool" where
  "stale_replica cutoff p \<longleftrightarrow> p_remote_deleted_at p = None \<and>
     ((p_status p = PRunning \<and> (case p_started_at p of None \<Rightarrow> False | Some t \<Rightarrow> t \<le> cutoff))
      \<or> (p_status p = PQueued \<and> p_queued_at p \<le> cutoff))"

definition reconcile_stale_replicas :: "runtime_controls \<Rightarrow> int \<Rightarrow> int \<Rightarrow> (db, nat) prog" where
  "reconcile_stale_replicas rc now stale_after_minutes =
     bindS (readS (\<lambda>d. bindE (dt_shift now (- (stale_after_minutes * minute_us))) (\<lambda>cutoff.
              Inr (filter (stale_replica cutoff) (replicas d))))) (\<lambda>candidates.
     sumS (\<lambda>p. bindS (readS (\<lambda>d. Inr (job_is_enqueued d (p_job_id p)))) (\<lambda>queued.
               if queued then returnS 0
               else bindS (atomic (mark_failed_replica rc now (p_pk p) ''STALE_REPLICA''
                      ''The remote replication job ended without completing its replica record.''))
                      (\<lambda>_. returnS 1))) candidates)"

definition backfill_destination :: "int \<Rightarrow> backup_destination \<Rightarrow> nat \<Rightarrow> (db, nat) prog" where
  "backfill_destination now dst limit =
     (if \<not> replicated_protocol (dst_protocol dst)
      then raiseS (ValueError ''Only supported remote storage can receive revision replicas.'')
      else bindS (readS (\<lambda>d. Inr (take limit (map rev_pk (filter (\<lambda>r.
               list_ex (\<lambda>a. a_revision_id a = rev_pk r \<and> a_local_available a) (artifacts d)
               \<and> \<not> list_ex (\<lambda>p. p_revision_id p = rev_pk r \<and> p_destination_id p = dst_pk dst) (replicas d))
               (revisions d)))))) (\<lambda>revision_ids.
           bindS (create_rows now (map (\<lambda>r. (r, dst_pk dst)) revision_ids)) (\<lambda>ids.
           bindS (enqueue_all now ids) (\<lambda>_.
           returnS (length ids)))))"

section \<open>Invariant and frame\<close>

text \<open>Primary keys and the unique constraint \<open>ncb_replica_revision_destination\<close>.\<close>

definition replica_ids_ok :: "db \<Rightarrow> bool" where
  "replica_ids_ok d \<longleftrightarrow>
     distinct (map p_pk (replicas d))
     \<and> distinct (map (\<lambda>p. (p_revision_id p, p_destination_id p)) (replicas d))
     \<and> (\<forall>p \<in> set (replicas d). p_pk p < next_id d)"

definition tombstoned :: "revision_replica \<Rightarrow> bool" where
  "tombstoned p \<longleftrightarrow> p_remote_deleted_at p \<noteq> None"

text \<open>An expired copy stays expired, is not attempted again and is not made active.\<close>

definition expired_kept :: "revision_replica \<Rightarrow> revision_replica \<Rightarrow> bool" where
  "expired_kept p p' \<longleftrightarrow> p_pk p' = p_pk p \<and> p_remote_deleted_at p' = p_remote_deleted_at p
     \<and> p_attempts p' = p_attempts p \<and> p_remote_path p' = p_remote_path p
     \<and> (active_replica p' \<longrightarrow> p_status p' = p_status p)"

definition replica_frame :: "db \<Rightarrow> db \<Rightarrow> bool" where
  "replica_frame d d' \<longleftrightarrow> replica_ids_ok d \<longrightarrow> replica_ids_ok d' \<and>
     (\<forall>p \<in> set (replicas d). tombstoned p \<longrightarrow> (\<exists>p' \<in> set (replicas d'). expired_kept p p'))"

lemma expired_kept_refl [simp]: "expired_kept p p"
  by (simp add: expired_kept_def)

lemma expired_kept_trans: "expired_kept p q \<Longrightarrow> expired_kept q r \<Longrightarrow> expired_kept p r"
  by (auto simp: expired_kept_def active_replica_def)

interpretation replica_steps: step_relation replica_frame
proof
  show "replica_frame d d" for d unfolding replica_frame_def using expired_kept_refl by blast
  show "replica_frame d d''" if "replica_frame d d'" "replica_frame d' d''" for d d' d''
    unfolding replica_frame_def
  proof (intro impI conjI ballI)
    assume ok: "replica_ids_ok d"
    with that show "replica_ids_ok d''" by (simp add: replica_frame_def)
    fix p assume p: "p \<in> set (replicas d)" "tombstoned p"
    with ok that(1) obtain q where q: "q \<in> set (replicas d')" "expired_kept p q"
      by (auto simp: replica_frame_def)
    with p have "tombstoned q" by (simp add: expired_kept_def tombstoned_def)
    with ok that q obtain r where "r \<in> set (replicas d'')" "expired_kept q r"
      unfolding replica_frame_def by blast
    with q(2) show "\<exists>r \<in> set (replicas d''). expired_kept p r" using expired_kept_trans by blast
  qed
qed

lemma replica_frame_same:
  assumes "replicas d' = replicas d" "next_id d \<le> next_id d'"
  shows "replica_frame d d'"
  unfolding replica_frame_def
proof (intro impI conjI ballI)
  assume "replica_ids_ok d"
  with assms show "replica_ids_ok d'" by (auto simp: replica_ids_ok_def intro: less_le_trans)
next
  fix p assume "p \<in> set (replicas d)"
  with assms(1) show "\<exists>p' \<in> set (replicas d'). expired_kept p p'"
    by (intro bexI [of _ p]) simp_all
qed

lemma replica_frame_save:
  assumes "get_replica d k = Inr p" "p_pk p' = p_pk p" "p_revision_id p' = p_revision_id p"
    "p_destination_id p' = p_destination_id p" "tombstoned p \<Longrightarrow> expired_kept p p'"
  shows "replica_frame d (save_replica p' d)"
proof -
  from assms(1) have p: "p \<in> set (replicas d)"
    unfolding get_replica_def by (blast dest: row_get_Inr)
  show ?thesis
    unfolding replica_frame_def
  proof (intro impI conjI ballI)
    assume ok: "replica_ids_ok d"
    then have dist: "distinct (map p_pk (replicas d))" by (simp add: replica_ids_ok_def)
    have "map (\<lambda>p. (p_revision_id p, p_destination_id p)) (row_save p_pk p' (replicas d))
        = map (\<lambda>p. (p_revision_id p, p_destination_id p)) (replicas d)"
      by (rule row_save_column [OF dist p]) (simp_all add: assms)
    with ok p assms(2) show "replica_ids_ok (save_replica p' d)"
      by (auto simp: replica_ids_ok_def save_replica_def in_row_save)
    fix q assume q: "q \<in> set (replicas d)" "tombstoned q"
    show "\<exists>q' \<in> set (replicas (save_replica p' d)). expired_kept q q'"
    proof (cases "p_pk q = p_pk p")
      case True
      with dist p q have "q = p" by (simp add: distinct_map inj_on_def)
      with q p assms(2,5) show ?thesis by (intro bexI [of _ p']) (auto simp: save_replica_def in_row_save)
    next
      case False
      with q assms(2) have "q \<in> set (replicas (save_replica p' d))"
        by (simp add: save_replica_def in_row_save)
      then show ?thesis using expired_kept_refl by blast
    qed
  qed
qed

lemma within_atomic:
  assumes "\<And>s. R s s" "\<And>d x d'. f d = Inr (x, d') \<Longrightarrow> R d d'"
  shows "within R (atomic f)"
  unfolding within_def using assms by (auto simp: atomic_def split: sum.splits prod.splits)

lemmas replica_frame_trans = replica_steps.step_trans
  and replica_atomic = within_atomic [of replica_frame, OF replica_steps.step_refl]

lemma replica_frame_create:
  assumes "\<not> list_ex (\<lambda>p. p_revision_id p = r \<and> p_destination_id p = k) (replicas d)"
  shows "replica_frame d (d\<lparr>replicas := replicas d @ [new_replica now (next_id d) r k], next_id := next_id d + 1\<rparr>)"
  unfolding replica_frame_def
proof (intro impI conjI ballI)
  assume "replica_ids_ok d"
  with assms show "replica_ids_ok
      (d\<lparr>replicas := replicas d @ [new_replica now (next_id d) r k], next_id := next_id d + 1\<rparr>)"
    by (auto simp: replica_ids_ok_def new_replica_def list_ex_iff)
next
  fix p assume "p \<in> set (replicas d)"
  then show "\<exists>p' \<in> set (replicas (d\<lparr>replicas := replicas d @ [new_replica now (next_id d) r k],
      next_id := next_id d + 1\<rparr>)). expired_kept p p'"
    by (intro bexI [of _ p]) simp_all
qed

lemma get_replica_save_same:
  "get_replica d k = Inr p \<Longrightarrow> p_pk p' = p_pk p \<Longrightarrow> get_replica (save_replica p' d) k = Inr p'"
  unfolding get_replica_def save_replica_def
  using row_get_row_save_same [of _ p_pk k "replicas d" p p'] row_get_Inr [of _ p_pk k "replicas d" p]
  by simp

lemma get_replica_enqueue_job [simp]: "get_replica (snd (enqueue_job n ob d)) k = get_replica d k"
  by (simp add: get_replica_def)

lemma next_id_enqueue_job [simp]: "next_id (snd (enqueue_job n ob d)) = next_id d + 1"
  by (simp add: enqueue_job_def)

text \<open>What a successful call of \<open>enqueue_revision_replica\<close> did.\<close>

lemma enqueue_revision_replica_cases:
  assumes "enqueue_revision_replica now k force d = Inr (res, d')"
  obtains (skipped) p dst where "res = None" "d' = d" "get_replica d k = Inr p"
      "get_destination d (p_destination_id p) = Inr dst"
      "\<not> replicated_protocol (dst_protocol dst) \<or> \<not> dst_enabled dst \<or> tombstoned p \<or> active_replica p
       \<or> (\<not> force \<and> p_status p = PSuccess)"
  | (queued) p dst job d2 where "res = Some job" "get_replica d k = Inr p"
      "get_destination d (p_destination_id p) = Inr dst" "replicated_protocol (dst_protocol dst)"
      "dst_enabled dst" "\<not> tombstoned p" "\<not> active_replica p" "force \<or> p_status p \<noteq> PSuccess"
      "(job, d2) = enqueue_job ''Config backup external replication'' (Some (dst_pk dst)) (save_replica (queue_replica_row now p) d)"
      "d' = save_replica ((queue_replica_row now p)\<lparr>p_job_id := Some job\<rparr>) d2"
proof -
  from assms obtain p dst where p: "get_replica d k = Inr p" "get_destination d (p_destination_id p) = Inr dst"
    by (auto simp: enqueue_revision_replica_def result_simps)
  show thesis
  proof (cases "\<not> replicated_protocol (dst_protocol dst) \<or> \<not> dst_enabled dst \<or> tombstoned p
      \<or> active_replica p \<or> (\<not> force \<and> p_status p = PSuccess)")
    case True
    with assms p have "res = None" "d' = d"
      by (auto simp: enqueue_revision_replica_def tombstoned_def split: if_splits)
    then show thesis using skipped p True by blast
  next
    case False
    obtain job d2 where j: "(job, d2) = enqueue_job ''Config backup external replication'' (Some (dst_pk dst))
        (save_replica (queue_replica_row now p) d)"
      by (metis surj_pair)
    with False assms p have "res = Some job" "d' = save_replica ((queue_replica_row now p)\<lparr>p_job_id := Some job\<rparr>) d2"
      by (auto simp: enqueue_revision_replica_def tombstoned_def Let_def split: prod.splits if_splits)
    then show thesis using queued p False j by blast
  qed
qed

lemma enqueue_replica_frame:
  assumes "enqueue_revision_replica now k force d = Inr (res, d')"
  shows "replica_frame d d'"
  using assms
proof (cases rule: enqueue_revision_replica_cases)
  case skipped
  then show ?thesis using replica_steps.step_refl by simp
next
  case (queued p dst job d2)
  let ?q = "queue_replica_row now p"
  have pk: "p_pk ?q = p_pk p" "p_revision_id ?q = p_revision_id p" "p_destination_id ?q = p_destination_id p"
    by (simp_all add: queue_replica_row_def)
  have 1: "replica_frame d (save_replica ?q d)"
    by (rule replica_frame_save [OF queued(2) pk]) (use queued(6) in simp)
  have d2: "d2 = snd (enqueue_job ''Config backup external replication'' (Some (dst_pk dst)) (save_replica ?q d))"
    using queued(9) by (metis snd_conv)
  have 2: "replica_frame (save_replica ?q d) d2"
    by (rule replica_frame_same) (simp_all add: d2)
  have "get_replica d2 k = Inr ?q"
    using get_replica_save_same [OF queued(2) pk(1)] by (simp add: d2)
  then have 3: "replica_frame d2 d'"
    unfolding queued(10)
    by (rule replica_frame_save) (use queued(6) in \<open>simp_all add: tombstoned_def queue_replica_row_def\<close>)
  show ?thesis using 1 2 3 replica_frame_trans by blast
qed

lemma get_or_create_frame:
  assumes "get_or_create_replica now r k d = Inr (x, d')"
  shows "replica_frame d d'"
  using assms replica_frame_create [of r k d now] replica_steps.step_refl [of d]
  by (auto simp: get_or_create_replica_def Let_def list_ex_iff find_None_iff split: option.splits if_splits)

lemma row_columns [simp]:
  "p_pk (running_row now path p) = p_pk p" "p_pk (success_row now path n p) = p_pk p"
  "p_pk (failed_row now c m r p) = p_pk p"
  "p_revision_id (running_row now path p) = p_revision_id p"
  "p_revision_id (success_row now path n p) = p_revision_id p"
  "p_revision_id (failed_row now c m r p) = p_revision_id p"
  "p_destination_id (running_row now path p) = p_destination_id p"
  "p_destination_id (success_row now path n p) = p_destination_id p"
  "p_destination_id (failed_row now c m r p) = p_destination_id p"
  by (simp_all add: running_row_def success_row_def failed_row_def)

lemma replicas_untouched [simp]:
  "replicas (save_destination x d) = replicas d" "next_id (save_destination x d) = next_id d"
  "replicas (queue_event b ty k d) = replicas d" "next_id (queue_event b ty k d) = next_id d"
  "next_id (save_replica p d) = next_id d"
  by (simp_all add: save_destination_def queue_event_def save_replica_def)

lemma mark_failed_row:
  assumes "mark_failed_replica rc now k code msg d = Inr (x, d')"
  obtains p dst retry where "get_replica d k = Inr p" "get_destination d (p_destination_id p) = Inr dst"
    "replicas d' = replicas (save_replica (failed_row now code msg retry p) d)" "next_id d' = next_id d"
    "if p_attempts p \<le> dst_max_retries dst
     then dt_shift now (dst_retry_delay_minutes dst * minute_us) = Inr (the retry) \<and> retry \<noteq> None
     else retry = None"
proof -
  from assms obtain p dst retry where "get_replica d k = Inr p" "get_destination d (p_destination_id p) = Inr dst"
    "(if p_attempts p \<le> dst_max_retries dst
      then bindE (dt_shift now (dst_retry_delay_minutes dst * minute_us)) (\<lambda>t. Inr (Some t)) else Inr None)
     = Inr retry"
    "d' = (let p' = failed_row now code msg retry p; d1 = save_replica p' d;
         d2 = save_destination (dst\<lparr>dst_last_error_code := p_error_code p',
                dst_last_error_message := p_error_message p'\<rparr>) d1
     in if dst_last_error_code dst = [] then queue_event (events_enabled rc) ''config_backup_replica_failed'' (p_pk p) d2
        else d2)"
    unfolding mark_failed_replica_def bindE_eq_Inr Let_def by auto
  then show thesis
    by (intro that [of p dst retry]) (auto simp: Let_def result_simps split: if_splits)
qed

lemma mark_failed_frame:
  assumes "mark_failed_replica rc now k code msg d = Inr (x, d')"
  shows "replica_frame d d'"
  using assms
proof (cases rule: mark_failed_row)
  case (1 p dst retry)
  have "replica_frame d (save_replica (failed_row now code msg retry p) d)"
    by (rule replica_frame_save [OF 1(1)]) (simp_all add: expired_kept_def active_replica_def failed_row_def)
  moreover have "replica_frame \<dots> d'"
    by (rule replica_frame_same) (simp_all add: 1(3,4))
  ultimately show ?thesis by (rule replica_frame_trans)
qed

lemma mark_success_row:
  assumes "mark_success_replica rc now k path n d = Inr (x, d')"
  obtains p dst where "get_replica d k = Inr p" "get_destination d (p_destination_id p) = Inr dst"
    "replicas d' = replicas (save_replica (success_row now path n p) d)" "next_id d' = next_id d"
proof -
  from assms obtain p dst where "get_replica d k = Inr p" "get_destination d (p_destination_id p) = Inr dst"
    "d' = (let d1 = save_replica (success_row now path n p) d;
         d2 = save_destination (dst\<lparr>dst_last_success_at := Some now, dst_last_error_code := [],
                dst_last_error_message := []\<rparr>) d1
       in if dst_last_error_code dst \<noteq> []
          then queue_event (events_enabled rc) ''config_backup_replica_recovered'' (p_pk p) d2 else d2)"
    unfolding mark_success_replica_def bindE_eq_Inr Let_def by auto
  then show thesis by (intro that [of p dst]) (auto simp: Let_def)
qed

lemma mark_success_frame:
  assumes "mark_success_replica rc now k path n d = Inr (x, d')" "get_replica d k = Inr p" "\<not> tombstoned p"
  shows "replica_frame d d'"
  using assms(1)
proof (cases rule: mark_success_row)
  case (1 q dst)
  with assms(2,3) have "\<not> tombstoned q" by simp
  then have "replica_frame d (save_replica (success_row now path n q) d)"
    by (intro replica_frame_save [OF 1(1)]) simp_all
  moreover have "replica_frame \<dots> d'"
    by (rule replica_frame_same) (simp_all add: 1(3,4))
  ultimately show ?thesis by (rule replica_frame_trans)
qed

lemma ftp_path_nonempty: "ftp_revision_destination_path asc b n i t r u = Inr p \<Longrightarrow> p \<noteq> []"
  by (auto simp: ftp_revision_destination_path_def Let_def result_simps)

lemma mark_running_row:
  assumes "mark_running_replica asc now k d = Inr ((p', dst, rv), d')"
  obtains p path where "get_replica d k = Inr p" "get_destination d (p_destination_id p) = Inr dst"
    "dst_enabled dst" "\<not> tombstoned p" "p_status p \<in> {PPending, PQueued, PFailed}" "path \<noteq> []"
    "p' = running_row now path p" "d' = save_replica p' d"
    "get_replica d' k = Inr p'" "p_pk p = k"
proof -
  from assms obtain p path where p: "get_replica d k = Inr p" "get_destination d (p_destination_id p) = Inr dst"
    "dst_enabled dst" "\<not> tombstoned p" "p_status p \<in> {PPending, PQueued, PFailed}"
    and path: "(if p_remote_path p \<noteq> [] then Inr (p_remote_path p)
                 else ftp_revision_destination_path asc (dst_base_path dst)
                   (Some (dev_name (t_device (projr (get_target d (rev_target_id rv))))))
                   (dev_pk (t_device (projr (get_target d (rev_target_id rv)))))
                   (Aware (rev_created rv)) (Some (rev_pk rv)) None) = Inr path"
    and p': "p' = running_row now path p" "d' = save_replica p' d"
    unfolding mark_running_replica_def bindE_eq_Inr tombstoned_def
    by (auto simp: result_simps split: if_splits)
  from path have "path \<noteq> []" using ftp_path_nonempty by (auto split: if_splits)
  moreover have "p_pk p = k" using p(1) unfolding get_replica_def by (blast dest: row_get_Inr)
  moreover have "get_replica d' k = Inr p'" using get_replica_save_same [OF p(1)] p' by simp
  ultimately show thesis using that p p' by blast
qed

lemma mark_running_frame:
  assumes "mark_running_replica asc now k d = Inr (x, d')"
  shows "replica_frame d d'"
proof -
  obtain p' dst rv where x: "x = (p', dst, rv)" by (cases x) auto
  from assms [unfolded x] show ?thesis
    by (cases rule: mark_running_row) (auto intro!: replica_frame_save)
qed

lemma execute_replica_within: "within replica_frame (execute_revision_replica asc rc ops now later k)"
  unfolding within_def
proof (intro allI impI)
  fix d r d'
  assume run: "execute_revision_replica asc rc ops now later k d = (r, d')"
  show "replica_frame d d'"
  proof (cases "mark_running_replica asc now k d")
    case (Inl e)
    with run show ?thesis
      by (simp add: execute_revision_replica_def bindS_def atomic_def replica_steps.step_refl)
  next
    case (Inr x)
    then obtain p dst rv d1 where m: "mark_running_replica asc now k d = Inr ((p, dst, rv), d1)"
      by (cases x) auto
    from m have p: "get_replica d1 (p_pk p) = Inr p" "\<not> tombstoned p"
      by (auto elim!: mark_running_row simp: tombstoned_def running_row_def)
    have "replica_frame d1 d'"
    proof (cases "replicate_revision ops d1 dst rv (if p_remote_path p \<noteq> [] then Some (p_remote_path p) else None)")
      case (Inl e)
      obtain code msg where e: "replication_failure e = (code, msg)" by (cases "replication_failure e")
      from run m Inl e have "d' = snd (atomic (mark_failed_replica rc later (p_pk p) code msg) d1)"
        by (auto simp: execute_revision_replica_def bindS_def readS_def raiseS_def
            atomic_def [of "mark_running_replica asc now k"] split: prod.splits sum.splits)
      then show ?thesis
        using mark_failed_frame [of rc later "p_pk p" code msg d1] replica_steps.step_refl [of d1]
        by (cases "mark_failed_replica rc later (p_pk p) code msg d1") (auto simp: atomic_def)
    next
      case (Inr res)
      from run m Inr have "d' = snd (atomic (mark_success_replica rc later (p_pk p) (rr_remote_path res)
          (rr_bytes_transferred res)) d1)"
        by (auto simp: execute_revision_replica_def bindS_def readS_def returnS_def
            atomic_def [of "mark_running_replica asc now k"] split: prod.splits sum.splits)
      then show ?thesis
        using mark_success_frame [OF _ p, of rc later "rr_remote_path res" "rr_bytes_transferred res"]
          replica_steps.step_refl [of d1]
        by (cases "mark_success_replica rc later (p_pk p) (rr_remote_path res) (rr_bytes_transferred res) d1")
          (auto simp: atomic_def)
    qed
    with mark_running_frame [OF m] show ?thesis by (rule replica_frame_trans)
  qed
qed

lemmas replica_within = replica_steps.within_intros replica_atomic

lemma enqueue_all_within: "within replica_frame (enqueue_all now ids)"
  unfolding enqueue_all_def by (intro replica_within enqueue_replica_frame)

lemma enqueue_counted_within: "within replica_frame (enqueue_counted now k force)"
  unfolding enqueue_counted_def by (intro replica_within enqueue_replica_frame)

lemma create_rows_within: "within replica_frame (create_rows now ps)"
proof (induction now ps rule: create_rows.induct)
  case (2 now r k rest)
  then show ?case
    unfolding create_rows.simps
    by (intro replica_steps.within_bindS) (auto intro!: replica_within get_or_create_frame split: prod.splits)
qed (simp add: replica_steps.within_returnS)

lemma create_revision_replicas_within: "within replica_frame (create_revision_replicas now r)"
  unfolding create_revision_replicas_def by (intro replica_within create_rows_within enqueue_all_within)

lemma ensure_one_within: "within replica_frame (ensure_one verify now r dst)"
  unfolding ensure_one_def
  by (intro replica_steps.within_bindS)
    (auto intro!: replica_within enqueue_counted_within get_or_create_frame split: prod.splits)

lemma ensure_revision_replicas_within: "within replica_frame (ensure_revision_replicas verify now r)"
  unfolding ensure_revision_replicas_def by (intro replica_within ensure_one_within)

lemma dispatch_due_replicas_within: "within replica_frame (dispatch_due_replicas now limit)"
  unfolding dispatch_due_replicas_def by (intro replica_within enqueue_counted_within)

lemma reconcile_stale_replicas_within: "within replica_frame (reconcile_stale_replicas rc now m)"
  unfolding reconcile_stale_replicas_def
  by (intro replica_steps.within_bindS replica_steps.within_sumS replica_steps.within_readS)
    (auto intro!: replica_within mark_failed_frame)

lemma backfill_destination_within: "within replica_frame (backfill_destination now dst limit)"
  unfolding backfill_destination_def
  by (auto intro!: replica_within create_rows_within enqueue_all_within)

section \<open>Replication as a transition system\<close>

text \<open>One complete service call, with any clock, backend and outcome.\<close>

inductive replication_step :: "db \<Rightarrow> db \<Rightarrow> bool" where
  enqueue: "atomic (enqueue_revision_replica now k force) d = (r, d') \<Longrightarrow> replication_step d d'"
| create: "create_revision_replicas now rid d = (r, d') \<Longrightarrow> replication_step d d'"
| ensure: "ensure_revision_replicas verify now rid d = (r, d') \<Longrightarrow> replication_step d d'"
| dispatch: "dispatch_due_replicas now limit d = (r, d') \<Longrightarrow> replication_step d d'"
| reconcile: "reconcile_stale_replicas rc now m d = (r, d') \<Longrightarrow> replication_step d d'"
| backfill: "backfill_destination now dst limit d = (r, d') \<Longrightarrow> replication_step d d'"
| execute: "execute_revision_replica asc rc ops now later k d = (r, d') \<Longrightarrow> replication_step d d'"

lemma replication_step_frame: "replication_step d d' \<Longrightarrow> replica_frame d d'"
proof (induction rule: replication_step.induct)
  case (enqueue now k force d r d')
  from replica_atomic [OF enqueue_replica_frame] enqueue show ?case by (rule withinD)
qed (auto intro: withinD create_revision_replicas_within ensure_revision_replicas_within
    dispatch_due_replicas_within reconcile_stale_replicas_within backfill_destination_within
    execute_replica_within)

lemma replication_steps_frame: "replication_step\<^sup>*\<^sup>* d d' \<Longrightarrow> replica_frame d d'"
  by (induction rule: rtranclp_induct)
    (auto intro: replica_steps.step_refl replica_frame_trans replication_step_frame)

inductive_cases replication_stepE: "replication_step d d'"

section \<open>Properties\<close>

definition sample_controls :: runtime_controls where
  "sample_controls = \<lparr>events_enabled = True, notify_on_every_failure = False\<rparr>"

definition sample_db :: "revision_replica list \<Rightarrow> db" where
  "sample_db ps = empty_db\<lparr>targets := [sample_target], revisions := [sample_revision 1 None],
     replicas := ps, destinations := [sample_destination], next_id := 100\<rparr>"

text \<open>
  C9. Through any sequence of replication calls (queueing, creation, verification after an unchanged
  backup, dispatch, stale reconciliation, backfill, execution) with any backends and clocks, row
  keys stay unique per revision and destination, and a remote copy that retention has expired stays
  expired: it is never queued, started or attempted again and keeps its recorded path.
\<close>

theorem expired_replicas_stay_expired:
  assumes "replication_step\<^sup>*\<^sup>* d d'" "replica_ids_ok d" "p \<in> set (replicas d)" "p_remote_deleted_at p \<noteq> None"
  shows "replica_ids_ok d' \<and> (\<exists>p' \<in> set (replicas d'). p_pk p' = p_pk p
    \<and> p_remote_deleted_at p' = p_remote_deleted_at p \<and> p_attempts p' = p_attempts p
    \<and> p_remote_path p' = p_remote_path p \<and> (active_replica p' \<longrightarrow> p_status p' = p_status p))"
  using replication_steps_frame [OF assms(1)] assms(2-4)
  unfolding replica_frame_def tombstoned_def expired_kept_def by blast

theorem expired_replicas_stay_expired_witness:
  "\<exists>d d'. replication_step\<^sup>*\<^sup>* d d' \<and> d = sample_db [(sample_replica 7 1 PSuccess)\<lparr>p_remote_deleted_at := Some 5\<rparr>]
     \<and> (\<exists>p' \<in> set (replicas d'). p_pk p' = 7 \<and> p_remote_deleted_at p' = Some 5)"
proof -
  let ?p = "(sample_replica 7 1 PSuccess)\<lparr>p_remote_deleted_at := Some 5\<rparr>"
  let ?d = "sample_db [?p]"
  obtain r d' where "ensure_revision_replicas (\<lambda>_ _. Inr False) 9 1 ?d = (r, d')" by fastforce
  then have step: "replication_step\<^sup>*\<^sup>* ?d d'" by (intro r_into_rtranclp replication_step.ensure)
  have "replica_ids_ok ?d" by (simp add: replica_ids_ok_def sample_db_def empty_db_def sample_replica_def)
  moreover have "?p \<in> set (replicas ?d)" by (simp add: sample_db_def)
  ultimately have "\<exists>p' \<in> set (replicas d'). p_pk p' = p_pk ?p \<and> p_remote_deleted_at p' = p_remote_deleted_at ?p"
    using expired_replicas_stay_expired [OF step, of ?p] by auto
  with step show ?thesis by (auto simp: sample_replica_def)
qed

text \<open>
  \<open>enqueue_revision_replica\<close> queues exactly when it should: the destination is enabled and
  replicates, the copy has not expired, no transfer is queued or running, and the copy is not
  already complete unless a repair is forced. Otherwise the database is unchanged.
\<close>

theorem enqueue_replica_decides:
  assumes "get_replica d k = Inr p" "get_destination d (p_destination_id p) = Inr dst"
  shows "\<exists>res d'. enqueue_revision_replica now k force d = Inr (res, d')
    \<and> (res \<noteq> None \<longleftrightarrow> replicated_protocol (dst_protocol dst) \<and> dst_enabled dst
         \<and> p_remote_deleted_at p = None \<and> p_status p \<notin> {PQueued, PRunning} \<and> (force \<or> p_status p \<noteq> PSuccess))
    \<and> (if res = None then d' = d
       else \<exists>p'. get_replica d' k = Inr p' \<and> p_status p' = PQueued \<and> p_job_id p' = res
              \<and> p_queued_at p' = now \<and> p_next_retry_at p' = None \<and> p_attempts p' = p_attempts p
              \<and> (\<exists>j \<in> set (jobs d'). Some (j_id j) = res \<and> j_status j = JPending))"
proof -
  have "\<exists>res d'. enqueue_revision_replica now k force d = Inr (res, d')"
    using assms by (simp add: enqueue_revision_replica_def Let_def split_def)
  then obtain res d' where e: "enqueue_revision_replica now k force d = Inr (res, d')" by blast
  from e show ?thesis
  proof (cases rule: enqueue_revision_replica_cases)
    case (skipped q dst')
    with assms e show ?thesis by (auto simp: tombstoned_def active_replica_def)
  next
    case (queued q dst' job d2)
    let ?q = "queue_replica_row now p"
    from queued assms have q: "q = p" "dst' = dst" by simp_all
    have d2: "d2 = snd (enqueue_job ''Config backup external replication'' (Some (dst_pk dst)) (save_replica ?q d))"
      and job: "job = fst (enqueue_job ''Config backup external replication'' (Some (dst_pk dst)) (save_replica ?q d))"
      using queued(9) q by (metis snd_conv, metis fst_conv)
    have pk: "p_pk ?q = p_pk p" by (simp add: queue_replica_row_def)
    have "get_replica d2 k = Inr ?q"
      using get_replica_save_same [OF assms(1) pk] by (simp add: d2)
    then have "get_replica d' k = Inr (?q\<lparr>p_job_id := Some job\<rparr>)"
      unfolding queued(10) q by (rule get_replica_save_same) simp
    moreover have "\<exists>j \<in> set (jobs d'). Some (j_id j) = res \<and> j_status j = JPending"
      using queued(1) by (simp add: queued(10) save_replica_def d2 job enqueue_job_def)
    ultimately show ?thesis
      using e queued q
      by (intro exI [of _ res] exI [of _ d'] conjI) (auto simp: queue_replica_row_def active_replica_def tombstoned_def)
  qed
qed

theorem enqueue_replica_decides_witness:
  "\<exists>job d'. enqueue_revision_replica 9 7 True (sample_db [sample_replica 7 1 PSuccess]) = Inr (Some job, d')"
proof -
  let ?d = "sample_db [sample_replica 7 1 PSuccess]"
  have *: "get_replica ?d 7 = Inr (sample_replica 7 1 PSuccess)"
    "get_destination ?d (p_destination_id (sample_replica 7 1 PSuccess)) = Inr sample_destination"
    by (simp_all add: get_replica_def get_destination_def row_get_def sample_db_def empty_db_def sample_defs)
  from enqueue_replica_decides [OF *, of 9 True] show ?thesis
    by (auto simp: sample_defs replicated_protocol_def)
qed

lemma execute_replica_started:
  assumes "mark_running_replica asc now k d = Inr ((p, dst, rv), d1)"
  shows "execute_revision_replica asc rc ops now later k d =
    (case replicate_revision ops d1 dst rv (Some (p_remote_path p)) of
       Inl e \<Rightarrow> (case replication_failure e of (code, message) \<Rightarrow>
          (case mark_failed_replica rc later k code message d1 of
             Inl e' \<Rightarrow> (Inl e', d1) | Inr (_, d') \<Rightarrow> (Inl (DestinationError code message), d')))
     | Inr res \<Rightarrow>
          (case mark_success_replica rc later k (rr_remote_path res) (rr_bytes_transferred res) d1 of
             Inl e' \<Rightarrow> (Inl e', d1) | Inr (_, d') \<Rightarrow> (Inr res, d')))"
proof -
  from assms have "p_pk p = k" "p_remote_path p \<noteq> []"
    by (auto elim!: mark_running_row simp: running_row_def)
  with assms show ?thesis
    by (auto simp: execute_revision_replica_def bindS_def atomic_def readS_def raiseS_def returnS_def
        split: sum.splits prod.splits)
qed

lemma mark_failed_total:
  assumes "get_replica d k = Inr p" "get_destination d (p_destination_id p) = Inr dst" "in_range now"
    "0 \<le> dst_retry_delay_minutes dst" "now + dst_retry_delay_minutes dst * minute_us \<le> max_instant"
  shows "\<exists>d' retry. mark_failed_replica rc now k code msg d = Inr ((), d')
    \<and> replicas d' = replicas (save_replica (failed_row now code msg retry p) d)
    \<and> (retry \<noteq> None \<longleftrightarrow> p_attempts p \<le> dst_max_retries dst)"
proof -
  have "0 \<le> dst_retry_delay_minutes dst * minute_us" using assms(4) by (simp add: minute_us_def)
  then have "dt_shift now (dst_retry_delay_minutes dst * minute_us)
      = Inr (now + dst_retry_delay_minutes dst * minute_us)"
    using assms(3,5) by (simp add: dt_shift_def in_range_def timedelta_ok_def max_instant_def day_us_def)
  then have "\<exists>d'. mark_failed_replica rc now k code msg d = Inr ((), d')"
    using assms(1,2) by (cases "p_attempts p \<le> dst_max_retries dst") (simp_all add: mark_failed_replica_def Let_def)
  then obtain d' where m: "mark_failed_replica rc now k code msg d = Inr ((), d')" by blast
  from m obtain retry where "replicas d' = replicas (save_replica (failed_row now code msg retry p) d)"
      "retry \<noteq> None \<longleftrightarrow> p_attempts p \<le> dst_max_retries dst"
    using assms(1,2) by (cases rule: mark_failed_row) (auto split: if_splits)
  with m show ?thesis by blast
qed

text \<open>
  C11. A transfer that was started is always recorded. After success the copy is available at the
  reported path; after any failure a \<open>DestinationError\<close> is raised and the row is failed, with a
  retry time exactly while the attempts made do not exceed the destination's retry limit. Beyond
  the limit the dispatcher never picks the row up again.
\<close>

theorem execute_replica_records_outcome:
  assumes "mark_running_replica asc now k d = Inr ((p, dst, rv), d1)" "in_range later"
    "0 \<le> dst_retry_delay_minutes dst" "later + dst_retry_delay_minutes dst * minute_us \<le> max_instant"
  shows "\<exists>d' p'. get_replica d' k = Inr p' \<and> p_attempts p' = p_attempts p
    \<and> (case replicate_revision ops d1 dst rv (Some (p_remote_path p)) of
         Inr res \<Rightarrow> execute_revision_replica asc rc ops now later k d = (Inr res, d')
           \<and> p_status p' = PSuccess \<and> p_remote_available p' \<and> p_remote_path p' = rr_remote_path res
       | Inl e \<Rightarrow> (\<exists>code msg. execute_revision_replica asc rc ops now later k d = (Inl (DestinationError code msg), d'))
           \<and> p_status p' = PFailed \<and> \<not> p_remote_available p' \<and> p_remote_path p' = p_remote_path p
           \<and> (p_next_retry_at p' \<noteq> None \<longleftrightarrow> p_attempts p \<le> dst_max_retries dst)
           \<and> (dst_max_retries dst < p_attempts p \<longrightarrow> (\<forall>t. \<not> replica_due d' t p')))"
proof -
  note start = execute_replica_started [OF assms(1), of rc ops later]
  from assms(1) obtain p0 path where g: "get_replica d1 k = Inr p" "p = running_row now path p0" "p_pk p = k"
    "get_destination d (p_destination_id p0) = Inr dst" "d1 = save_replica p d"
    by (auto elim!: mark_running_row)
  then have dst: "get_destination d1 (p_destination_id p) = Inr dst"
    by (simp add: get_destination_def save_replica_def)
  have keep: "get_replica d' k = Inr p'"
    if "replicas d' = replicas (save_replica p' d1)" "p_pk p' = k" for d' p'
    using get_replica_save_same [OF g(1), of p'] that g(3) by (simp add: get_replica_def)
  show ?thesis
  proof (cases "replicate_revision ops d1 dst rv (Some (p_remote_path p))")
    case (Inr res)
    obtain u d' where m: "mark_success_replica rc later k (rr_remote_path res) (rr_bytes_transferred res) d1 = Inr (u, d')"
      using g(1) dst by (simp add: mark_success_replica_def Let_def)
    from m have "replicas d' = replicas (save_replica (success_row later (rr_remote_path res) (rr_bytes_transferred res) p) d1)"
      using g(1) by (auto elim!: mark_success_row)
    from keep [OF this] have "get_replica d' k = Inr (success_row later (rr_remote_path res) (rr_bytes_transferred res) p)"
      using g(3) by simp
    with start Inr m show ?thesis by (auto simp: success_row_def)
  next
    case (Inl e)
    obtain code msg where e: "replication_failure e = (code, msg)" by (cases "replication_failure e")
    from mark_failed_total [OF g(1) dst assms(2-4), of rc code msg] obtain d' retry
      where m: "mark_failed_replica rc later k code msg d1 = Inr ((), d')"
      and r: "replicas d' = replicas (save_replica (failed_row later code msg retry p) d1)"
      "retry \<noteq> None \<longleftrightarrow> p_attempts p \<le> dst_max_retries dst" by blast
    from keep [OF r(1)] have "get_replica d' k = Inr (failed_row later code msg retry p)" using g(3) by simp
    moreover have "execute_revision_replica asc rc ops now later k d = (Inl (DestinationError code msg), d')"
      using start Inl e m by simp
    ultimately show ?thesis
      using r(2) Inl by (intro exI [of _ d'] exI [of _ "failed_row later code msg retry p"])
        (auto simp: failed_row_def replica_due_def split: option.splits)
  qed
qed

definition failing_uploads :: upload_ops where
  "failing_uploads = \<lparr>up_ftp = (\<lambda>_ _ _ _. Inl (OSErr ''reset'')), up_mounted = (\<lambda>_ _ _ _. Inl (OSErr [])),
     up_sftp = (\<lambda>_ _ _. Inl (OSErr []))\<rparr>"

lemma sample_mark_running:
  assumes "p_status p \<in> {PPending, PQueued, PFailed}" "p_remote_path p = ''/b/x''"
    "p_remote_deleted_at p = None" "p_pk p = 7" "p_revision_id p = 1" "p_destination_id p = 1"
  shows "mark_running_replica id 5 7 (sample_db [p]) = Inr ((running_row 5 ''/b/x'' p, sample_destination,
      sample_revision 1 None), save_replica (running_row 5 ''/b/x'' p) (sample_db [p]))"
  using assms
  by (simp add: mark_running_replica_def get_replica_def get_destination_def get_revision_def get_target_def
      row_get_def sample_db_def empty_db_def sample_destination_def sample_revision_def sample_target_def)

theorem execute_replica_records_outcome_witness:
  "\<exists>d' p' code msg. execute_revision_replica id sample_controls failing_uploads 5 9 7
       (sample_db [(sample_replica 7 1 PFailed)\<lparr>p_remote_path := ''/b/x'', p_attempts := 3\<rparr>])
     = (Inl (DestinationError code msg), d')
     \<and> get_replica d' 7 = Inr p' \<and> p_attempts p' = 4 \<and> p_next_retry_at p' = None"
proof -
  let ?p = "(sample_replica 7 1 PFailed)\<lparr>p_remote_path := ''/b/x'', p_attempts := 3\<rparr>"
  let ?d1 = "save_replica (running_row 5 ''/b/x'' ?p) (sample_db [?p])"
  have run: "mark_running_replica id 5 7 (sample_db [?p]) = Inr ((running_row 5 ''/b/x'' ?p,
      sample_destination, sample_revision 1 None), ?d1)"
    by (rule sample_mark_running) (simp_all add: sample_replica_def)
  have up: "replicate_revision failing_uploads ?d1 sample_destination (sample_revision 1 None)
      (Some (p_remote_path (running_row 5 ''/b/x'' ?p))) = Inl (OSErr ''reset'')"
    by (simp add: replicate_revision_def failing_uploads_def sample_destination_def)
  have "in_range 9" "0 \<le> dst_retry_delay_minutes sample_destination"
    "9 + dst_retry_delay_minutes sample_destination * minute_us \<le> max_instant"
    by (simp_all add: in_range_def max_instant_def sample_destination_def minute_us_def)
  note outcome = execute_replica_records_outcome [OF run this, of sample_controls failing_uploads]
  have a: "p_attempts (running_row 5 ''/b/x'' ?p) = 4" "dst_max_retries sample_destination = 3"
    by (simp_all add: running_row_def sample_defs)
  show ?thesis
    using outcome unfolding up sum.case a by auto
qed

text \<open>
  \<open>attempts\<close> counts over the whole life of a copy: neither success nor a forced repair resets it.
  A copy that has used up its retry budget once, and was later verified as lost and queued for
  repair, gets no automatic retry when that repair fails.
\<close>

theorem retry_budget_is_never_refilled:
  "\<exists>d d1 job d2 p e. get_replica d 7 = Inr p \<and> p_status p = PSuccess \<and> p_attempts p = 4
     \<and> enqueue_revision_replica 2 7 True d = Inr (Some job, d1)
     \<and> execute_revision_replica id sample_controls failing_uploads 5 9 7 d1 = (Inl e, d2)
     \<and> (\<forall>t limit. 7 \<notin> set (due_replica_ids d2 t limit)) \<and> dst_max_retries sample_destination = 3"
proof -
  let ?p = "(sample_replica 7 1 PSuccess)\<lparr>p_remote_path := ''/b/x'', p_attempts := 4\<rparr>"
  let ?q = "(queue_replica_row 2 ?p)\<lparr>p_job_id := Some 100\<rparr>"
  let ?d = "sample_db [?p]"
  let ?d1 = "snd (enqueue_job ''Config backup external replication'' (Some 1) (sample_db [?q]))"
  have e: "enqueue_revision_replica 2 7 True ?d = Inr (Some 100, ?d1)"
    by (simp add: enqueue_revision_replica_def get_replica_def get_destination_def row_get_def sample_db_def
        empty_db_def sample_defs active_replica_def replicated_protocol_def enqueue_job_def Let_def
        save_replica_def row_save_def queue_replica_row_def)
  let ?f = "failed_row 9 ''INTERNAL_ERROR'' ''External replication stopped because of an internal error.'' None
      (running_row 5 ''/b/x'' ?q)"
  obtain err d2 where x: "execute_revision_replica id sample_controls failing_uploads 5 9 7 ?d1 = (Inl err, d2)"
    and r: "replicas d2 = [?f]"
    by (simp add: execute_revision_replica_def mark_running_replica_def mark_failed_replica_def
        replicate_revision_def failing_uploads_def get_replica_def get_destination_def get_revision_def
        get_target_def row_get_def sample_db_def empty_db_def sample_destination_def sample_revision_def
        sample_target_def sample_replica_def enqueue_job_def save_replica_def save_destination_def
        row_save_def queue_replica_row_def running_row_def failed_row_def queue_event_def sample_controls_def
        bindS_def atomic_def readS_def raiseS_def Let_def)
  have "7 \<notin> set (due_replica_ids d2 t limit)" for t limit
    by (auto simp: due_replica_ids_def replica_due_def r failed_row_def dest!: in_set_takeD)
  with e x show ?thesis
    by (intro exI [of _ ?d] exI [of _ ?d1] exI [of _ 100] exI [of _ d2] exI [of _ ?p] exI [of _ err])
      (simp add: get_replica_def row_get_def sample_db_def sample_defs)
qed

end
