(* ===== verification/Drivers.thy ===== *)
theory Drivers
  imports Models "HOL-Library.Char_ord" "HOL-Library.List_Lexorder"
begin

text \<open>
  The extension points of the backup engine: device drivers (\<open>drivers/base.py\<close>,
  \<open>drivers/registry.py\<close>, \<open>services/driver_selection.py\<close>) and secret providers (\<open>credentials/\<close>).
  The abstract base classes are records of operations; a registry is a dictionary, kept as an
  association list in insertion order.
\<close>

section \<open>Credentials\<close>

record credential_material =
  cm_username :: string
  cm_password :: "string option"
  cm_private_key :: "string option"
  cm_enable_secret :: "string option"

definition truthy :: "string option \<Rightarrow> bool" where
  "truthy s \<longleftrightarrow> (case s of None \<Rightarrow> False | Some x \<Rightarrow> x \<noteq> [])"

text \<open>The checks of \<open>CredentialMaterial.__post_init__\<close>.\<close>

definition mk_credential_material ::
  "string \<Rightarrow> string option \<Rightarrow> string option \<Rightarrow> string option \<Rightarrow> credential_material result" where
  "mk_credential_material username password private_key enable_secret =
     (if username = [] then Inl (ValueError ''username must not be empty'')
      else if truthy password = truthy private_key
      then Inl (ValueError ''Exactly one of password or private_key must be supplied.'')
      else Inr \<lparr>cm_username = username, cm_password = password, cm_private_key = private_key,
                cm_enable_secret = enable_secret\<rparr>)"

record secret_provider =
  sp_provider_id :: string
  sp_resolve :: "string \<Rightarrow> credential_material result"

type_synonym secret_registry = "(string \<times> secret_provider) list"

definition register_provider :: "secret_provider \<Rightarrow> secret_registry \<Rightarrow> secret_registry result" where
  "register_provider provider reg =
     (if sp_provider_id provider = [] then Inl (ValueError ''A secret provider must declare provider_id.'')
      else if map_of reg (sp_provider_id provider) \<noteq> None
      then Inl (ValueError ''Secret provider is already registered.'')
      else Inr (reg @ [(sp_provider_id provider, provider)]))"

definition get_provider :: "secret_registry \<Rightarrow> string \<Rightarrow> secret_provider result" where
  "get_provider reg provider_id =
     (case map_of reg provider_id of
        None \<Rightarrow> Inl (SecretProviderLookupError (''Unknown secret provider: '' @ provider_id))
      | Some p \<Rightarrow> Inr p)"

section \<open>The environment provider\<close>

definition upper :: "char \<Rightarrow> bool" where
  "upper c \<longleftrightarrow> 65 \<le> (of_char c :: nat) \<and> (of_char c :: nat) \<le> 90"

definition variable_char :: "char \<Rightarrow> bool" where
  "variable_char c \<longleftrightarrow> upper c \<or> c = CHR ''_'' \<or> (48 \<le> (of_char c :: nat) \<and> (of_char c :: nat) \<le> 57)"

definition env_parse_reference :: "string \<Rightarrow> string result" where
  "env_parse_reference reference =
     (if take 6 reference \<noteq> ''env://'' then Inl (SecretProviderError ''Credential resolution failed.'')
      else let name = drop 6 reference in
           if name = [] \<or> \<not> upper (hd name) \<or> \<not> list_all variable_char name
           then Inl (SecretProviderError ''Credential resolution failed.'')
           else Inr name)"

definition env_read :: "(string \<Rightarrow> string option) \<Rightarrow> string \<Rightarrow> string option" where
  "env_read environ variable = (if truthy (environ variable) then environ variable else None)"

definition env_resolve :: "(string \<Rightarrow> string option) \<Rightarrow> string \<Rightarrow> credential_material result" where
  "env_resolve environ reference =
     bindE (env_parse_reference reference) (\<lambda>name.
     let username = env_read environ (name @ ''_USERNAME'');
         password = env_read environ (name @ ''_PASSWORD'');
         private_key = env_read environ (name @ ''_PRIVATE_KEY'');
         enable_secret = env_read environ (name @ ''_ENABLE_SECRET'')
     in if \<not> truthy username then Inl (SecretProviderError ''Credential resolution failed.'')
        else if truthy password = truthy private_key
        then Inl (SecretProviderError ''Credential resolution failed.'')
        else (case mk_credential_material (the username) password private_key enable_secret of
                Inl _ \<Rightarrow> Inl (SecretProviderError ''Credential resolution failed.'')
              | Inr c \<Rightarrow> Inr c))"

section \<open>Drivers\<close>

record connection_parameters =
  cpar_protocol :: string
  cpar_port :: int
  cpar_connect_timeout :: int
  cpar_command_timeout :: int
  cpar_keepalive :: int
  cpar_verify_host_key :: bool
  cpar_auto_trust_first_host_key :: bool
  cpar_known_hosts_path :: string
  cpar_trusted_host_keys :: "string list"

record receiver_parameters =
  rpar_profile_id :: int
  rpar_mode :: string
  rpar_protocol :: string
  rpar_advertised_host :: string
  rpar_advertised_port :: int
  rpar_bridge_host :: string
  rpar_bridge_port :: int
  rpar_remote_bind_host :: string
  rpar_remote_bind_port :: int
  rpar_upload_directory :: string
  rpar_inbox_path :: "string list"
  rpar_export_timeout :: int
  rpar_max_upload_bytes :: int
  rpar_passive_port_start :: int
  rpar_passive_port_end :: int
  rpar_credentials :: "credential_material option"

record driver_context =
  dc_device_id :: int
  dc_device_name :: string
  dc_address :: "string option"
  dc_credentials :: "credential_material option"
  dc_connection :: connection_parameters
  dc_receiver :: "receiver_parameters option"
  dc_options :: options

record collected_artifact =
  ca_artifact_type :: string
  ca_filename :: string
  ca_content :: string
  ca_format :: string
  ca_is_primary :: bool

definition mk_collected_artifact ::
  "string \<Rightarrow> string \<Rightarrow> string \<Rightarrow> string \<Rightarrow> bool \<Rightarrow> collected_artifact result" where
  "mk_collected_artifact artifact_type filename content fmt is_primary =
     (if artifact_type = [] then Inl (ValueError ''artifact_type must not be empty'')
      else if filename = [] \<or> CHR ''/'' \<in> set filename \<or> CHR 0x5C \<in> set filename
      then Inl (ValueError ''filename must be a plain file name'')
      else Inr \<lparr>ca_artifact_type = artifact_type, ca_filename = filename, ca_content = content,
                ca_format = fmt, ca_is_primary = is_primary\<rparr>)"

record validation_result =
  v_valid :: bool
  v_error_code :: string
  v_safe_message :: string

record driver =
  dr_driver_id :: string
  dr_api_version :: int
  dr_user_selectable :: bool
  dr_normalizer_version :: string
  dr_collect :: "driver_context \<Rightarrow> collected_artifact list result"
  dr_validate :: "collected_artifact \<Rightarrow> validation_result result"
  dr_normalize :: "collected_artifact \<Rightarrow> string result"

type_synonym driver_registry = "(string \<times> driver) list"

definition register_driver :: "driver \<Rightarrow> driver_registry \<Rightarrow> driver_registry result" where
  "register_driver drv reg =
     (if dr_driver_id drv = [] then Inl (ValueError ''A driver must declare a non-empty string driver_id.'')
      else if map_of reg (dr_driver_id drv) \<noteq> None then Inl (ValueError ''Driver is already registered.'')
      else Inr (reg @ [(dr_driver_id drv, drv)]))"

definition unregister_driver :: "string \<Rightarrow> driver_registry \<Rightarrow> driver_registry result" where
  "unregister_driver driver_id reg =
     (if map_of reg driver_id = None then Inl (DriverRegistryError (''Unknown backup driver: '' @ driver_id))
      else Inr (filter (\<lambda>(k, _). k \<noteq> driver_id) reg))"

definition create_driver :: "driver_registry \<Rightarrow> string \<Rightarrow> driver result" where
  "create_driver reg driver_id =
     (case map_of reg driver_id of
        None \<Rightarrow> Inl (DriverRegistryError (''Unknown backup driver: '' @ driver_id))
      | Some drv \<Rightarrow> Inr drv)"

definition driver_ids :: "driver_registry \<Rightarrow> string list" where
  "driver_ids reg = sort (map fst reg)"

definition driver_classes :: "driver_registry \<Rightarrow> driver list" where
  "driver_classes reg = map (\<lambda>k. the (map_of reg k)) (driver_ids reg)"

text \<open>An entry point: its name and what loading it gives (\<open>None\<close>: not a driver class).\<close>

record entry_point =
  ep_name :: string
  ep_load :: "driver option result"

definition supported_driver_api_version :: int where "supported_driver_api_version = 1"

definition load_entry :: "driver_registry \<Rightarrow> entry_point \<Rightarrow> driver_registry result" where
  "load_entry reg e =
     (case ep_load e of
        Inl _ \<Rightarrow> Inl (DriverRegistryError ''External driver entry point could not be loaded.'')
      | Inr None \<Rightarrow> Inl (DriverRegistryError ''External driver entry point is not a BackupDriver.'')
      | Inr (Some drv) \<Rightarrow>
          if dr_driver_id drv \<noteq> ep_name e
          then Inl (DriverRegistryError ''External driver entry point has a mismatched driver ID.'')
          else if dr_api_version drv \<noteq> supported_driver_api_version
          then Inl (DriverRegistryError ''External driver uses an unsupported API version.'')
          else (case register_driver drv reg of
                  Inl _ \<Rightarrow> Inl (DriverRegistryError ''External driver conflicts with a registered driver.'')
                | Inr reg' \<Rightarrow> Inr reg'))"

fun load_sorted_entries :: "entry_point list \<Rightarrow> (driver_registry, string list) prog" where
  "load_sorted_entries [] = returnS []"
| "load_sorted_entries (e # es) =
     bindS (\<lambda>reg. case load_entry reg e of Inl x \<Rightarrow> (Inl x, reg) | Inr reg' \<Rightarrow> (Inr (), reg')) (\<lambda>_.
     bindS (load_sorted_entries es) (\<lambda>names. returnS (ep_name e # names)))"

definition load_entry_points :: "entry_point list \<Rightarrow> (driver_registry, string list) prog" where
  "load_entry_points entries = load_sorted_entries (sort_key ep_name entries)"

section \<open>Driver selection\<close>

definition siae_compatibility_ids :: "string list" where
  "siae_compatibility_ids =
     [''siae_smos_cli'', ''siae_smos_ssh'', ''siae_alfoplus'', ''siae_alfoplus2'', ''siae_alfoplus80hd'',
      ''siae_ags20'']"

definition selection_id :: "string \<Rightarrow> string" where
  "selection_id driver_id = (if driver_id \<in> set siae_compatibility_ids then ''siae_smos_auto'' else driver_id)"

definition driver_is_enabled :: "string \<Rightarrow> string list \<Rightarrow> bool" where
  "driver_is_enabled driver_id disabled \<longleftrightarrow> selection_id driver_id \<notin> set (map selection_id disabled)"

text \<open>\<open>driver_usage_counts\<close>: how many targets and mappings use a driver, by selection identifier.\<close>

definition driver_usage_count :: "db \<Rightarrow> string \<Rightarrow> nat" where
  "driver_usage_count d sel =
     length (filter (\<lambda>x. x \<noteq> [] \<and> selection_id x = sel)
       (map t_driver_override (targets d) @ map pm_driver_id (mappings d)))"

text \<open>\<open>validate_disabled_drivers\<close> raises when a driver to disable is still assigned.\<close>

definition validate_disabled_drivers :: "db \<Rightarrow> string list \<Rightarrow> unit result" where
  "validate_disabled_drivers d values =
     (if values = [] then Inr ()
      else if list_ex (\<lambda>v. 0 < driver_usage_count d (selection_id v)) values
      then Inl (OtherException ''ValidationError'')
      else Inr ())"

definition validate_driver_assignment :: "string \<Rightarrow> string list \<Rightarrow> unit result" where
  "validate_driver_assignment driver_id disabled =
     (if driver_id \<noteq> [] \<and> \<not> driver_is_enabled driver_id disabled
      then Inl (OtherException ''ValidationError'')
      else Inr ())"

text \<open>\<open>EnabledDriverRegistry.create\<close>; \<open>disabled\<close> are the identifiers stored in the settings.\<close>

definition create_enabled_driver :: "driver_registry \<Rightarrow> string list \<Rightarrow> string \<Rightarrow> driver result" where
  "create_enabled_driver reg disabled driver_id =
     (if \<not> driver_is_enabled driver_id disabled
      then Inl (DriverError ''DRIVER_DISABLED'' ''Enable this driver in Settings > Device drivers.'')
      else create_driver reg driver_id)"

section \<open>Properties\<close>

definition registry_ok :: "driver_registry \<Rightarrow> bool" where
  "registry_ok reg \<longleftrightarrow> distinct (map fst reg) \<and> (\<forall>(k, drv) \<in> set reg. k = dr_driver_id drv \<and> k \<noteq> [])"

lemma register_driver_Inr:
  assumes "register_driver drv reg = Inr reg'" "registry_ok reg"
  shows "registry_ok reg' \<and> map_of reg' = (map_of reg)(dr_driver_id drv \<mapsto> drv) \<and> map_of reg (dr_driver_id drv) = None"
proof -
  from assms(1) have r: "reg' = reg @ [(dr_driver_id drv, drv)]" "dr_driver_id drv \<noteq> []"
    "map_of reg (dr_driver_id drv) = None"
    by (auto simp: register_driver_def split: if_splits)
  then have "dr_driver_id drv \<notin> fst ` set reg" by (simp add: map_of_eq_None_iff)
  with r assms(2) have "registry_ok reg'" by (auto simp: registry_ok_def)
  moreover have "map_of reg' k = ((map_of reg)(dr_driver_id drv \<mapsto> drv)) k" for k
    using r(1,3) by (auto simp: map_add_def split: option.splits)
  ultimately show ?thesis using r(3) by (simp add: fun_eq_iff)
qed

lemma load_entry_Inr:
  assumes "load_entry reg e = Inr reg'" "registry_ok reg"
  shows "registry_ok reg' \<and> map_of reg \<subseteq>\<^sub>m map_of reg' \<and> (\<exists>drv. map_of reg' (ep_name e) = Some drv)"
proof -
  from assms(1) obtain drv where "dr_driver_id drv = ep_name e" "register_driver drv reg = Inr reg'"
    by (auto simp: load_entry_def split: sum.splits option.splits if_splits)
  with register_driver_Inr [OF this(2) assms(2)] show ?thesis
    by (auto simp: map_le_def)
qed

lemma load_sorted_entries_ok:
  assumes "load_sorted_entries es reg = (r, reg')" "registry_ok reg"
  shows "registry_ok reg' \<and> map_of reg \<subseteq>\<^sub>m map_of reg'
    \<and> (\<forall>names. r = Inr names \<longrightarrow> names = map ep_name es \<and> (\<forall>n \<in> set names. map_of reg' n \<noteq> None))"
  using assms
proof (induction es arbitrary: reg r reg')
  case (Cons e es)
  show ?case
  proof (cases "load_entry reg e")
    case (Inl x)
    with Cons.prems show ?thesis by (auto simp: bindS_def)
  next
    case (Inr reg1)
    note le = load_entry_Inr [OF Inr Cons.prems(2)]
    obtain r2 where tail: "load_sorted_entries es reg1 = (r2, reg')"
      and r: "r = (case r2 of Inl x \<Rightarrow> Inl x | Inr names \<Rightarrow> Inr (ep_name e # names))"
      using Cons.prems(1) Inr
      by (cases "load_sorted_entries es reg1") (auto simp: bindS_def returnS_def split: sum.splits)
    from Cons.IH [OF tail] le have IH: "registry_ok reg'" "map_of reg1 \<subseteq>\<^sub>m map_of reg'"
      "\<forall>names. r2 = Inr names \<longrightarrow> names = map ep_name es \<and> (\<forall>n \<in> set names. map_of reg' n \<noteq> None)"
      by auto
    from le IH(2) have "map_of reg' (ep_name e) \<noteq> None" "map_of reg \<subseteq>\<^sub>m map_of reg'"
      by (auto simp: map_le_def dom_def intro: map_le_trans)
    with IH r show ?thesis by (auto split: sum.splits)
  qed
qed (simp add: returnS_def)

text \<open>
  Loading external drivers never replaces or removes a registered driver, also when an entry is
  refused half way, and keeps the registry well formed; on success exactly the entry points, sorted
  by name, are reported and available.
\<close>

theorem load_entry_points_conservative:
  assumes "registry_ok reg" "load_entry_points es reg = (r, reg')"
  shows "registry_ok reg' \<and> (\<forall>k drv. create_driver reg k = Inr drv \<longrightarrow> create_driver reg' k = Inr drv)
    \<and> (\<forall>names. r = Inr names \<longrightarrow> names = map ep_name (sort_key ep_name es)
         \<and> (\<forall>n \<in> set names. \<exists>drv. create_driver reg' n = Inr drv))"
proof -
  note ok = load_sorted_entries_ok [OF assms(2) [unfolded load_entry_points_def] assms(1)]
  then have "create_driver reg' k = Inr drv" if "create_driver reg k = Inr drv" for k drv
    using that by (auto simp: create_driver_def map_le_def dom_def split: option.splits)
  moreover have "\<exists>drv. create_driver reg' n = Inr drv" if "map_of reg' n \<noteq> None" for n
    using that by (auto simp: create_driver_def)
  ultimately show ?thesis using ok by blast
qed

definition sample_driver :: "string \<Rightarrow> string \<Rightarrow> driver" where
  "sample_driver k content = \<lparr>dr_driver_id = k, dr_api_version = 1, dr_user_selectable = True,
     dr_normalizer_version = ''1'',
     dr_collect = (\<lambda>_. Inr [\<lparr>ca_artifact_type = ''running_config'', ca_filename = ''running-config.txt'',
       ca_content = content, ca_format = ''text'', ca_is_primary = True\<rparr>]),
     dr_validate = (\<lambda>_. Inr \<lparr>v_valid = True, v_error_code = [], v_safe_message = []\<rparr>),
     dr_normalize = (\<lambda>a. Inr (ca_content a))\<rparr>"

theorem load_entry_points_conservative_witness:
  "\<exists>reg'. load_entry_points [\<lparr>ep_name = ''b'', ep_load = Inr (Some (sample_driver ''b'' ''x''))\<rparr>,
       \<lparr>ep_name = ''a'', ep_load = Inr (Some (sample_driver ''a'' ''y''))\<rparr>] [(''fake'', sample_driver ''fake'' ''z'')]
     = (Inr [''a'', ''b''], reg') \<and> create_driver reg' ''fake'' = Inr (sample_driver ''fake'' ''z'')"
proof -
  let ?es = "[\<lparr>ep_name = ''b'', ep_load = Inr (Some (sample_driver ''b'' ''x''))\<rparr>,
    \<lparr>ep_name = ''a'', ep_load = Inr (Some (sample_driver ''a'' ''y''))\<rparr>]"
  let ?reg = "[(''fake'', sample_driver ''fake'' ''z'')]"
  have "''a'' < ''b''" "\<not> ''b'' \<le> ''a''" by code_simp+
  then have "sort_key ep_name ?es = rev ?es" by simp
  then have "\<exists>reg'. load_entry_points ?es ?reg = (Inr [''a'', ''b''], reg')"
    by (simp add: load_entry_points_def load_entry_def register_driver_def sample_driver_def
        supported_driver_api_version_def bindS_def returnS_def)
  then obtain reg' where r: "load_entry_points ?es ?reg = (Inr [''a'', ''b''], reg')" ..
  moreover have "registry_ok ?reg" by (simp add: registry_ok_def sample_driver_def)
  moreover have "create_driver ?reg ''fake'' = Inr (sample_driver ''fake'' ''z'')" by (simp add: create_driver_def)
  ultimately show ?thesis using load_entry_points_conservative [of ?reg ?es] by blast
qed

text \<open>
  Settings that pass \<open>validate_disabled_drivers\<close> do not disable a driver some target or platform
  mapping uses, through whatever compatibility name: execution finds the same driver as before.
\<close>

theorem disabled_drivers_are_unused:
  assumes "validate_disabled_drivers d values = Inr ()" "k \<noteq> []"
    "(\<exists>t \<in> set (targets d). t_driver_override t = k) \<or> (\<exists>m \<in> set (mappings d). pm_driver_id m = k)"
  shows "create_enabled_driver reg values k = create_driver reg k"
proof (cases "values = []")
  case False
  let ?xs = "map t_driver_override (targets d) @ map pm_driver_id (mappings d)"
  have "k \<in> set ?xs" using assms(3) by auto
  then have "filter (\<lambda>x. x \<noteq> [] \<and> selection_id x = selection_id k) ?xs \<noteq> []"
    using assms(2) by (auto simp: filter_empty_conv)
  then have "0 < driver_usage_count d (selection_id k)"
    unfolding driver_usage_count_def length_greater_0_conv .
  with assms(1) False have "\<forall>v \<in> set values. selection_id v \<noteq> selection_id k"
    by (auto simp: validate_disabled_drivers_def list_ex_iff split: if_splits)
  then have "selection_id k \<notin> set (map selection_id values)" by (metis imageE set_map)
  then show ?thesis by (simp add: create_enabled_driver_def driver_is_enabled_def)
qed (simp add: create_enabled_driver_def driver_is_enabled_def)

theorem disabled_drivers_are_unused_witness:
  "create_enabled_driver [(''siae_ags20'', sample_driver ''siae_ags20'' [])] [''fake''] ''siae_ags20''
     = Inr (sample_driver ''siae_ags20'' [])"
proof -
  let ?d = "empty_db\<lparr>targets := [sample_target\<lparr>t_driver_override := ''siae_ags20''\<rparr>]\<rparr>"
  have "validate_disabled_drivers ?d [''fake''] = Inr ()"
    by (simp add: validate_disabled_drivers_def driver_usage_count_def selection_id_def
        siae_compatibility_ids_def empty_db_def)
  from disabled_drivers_are_unused [OF this, of "''siae_ags20''"] show ?thesis
    by (simp add: create_driver_def)
qed

end
