(* ===== verification/Repository.thy ===== *)
theory Repository
  imports Scheduling Replication Drivers
begin

text \<open>
  \<open>services/django_repository.py\<close> with the data classes of \<open>services/repository.py\<close>: what a backup
  run reads before it starts and how its outcome is recorded. Every operation marked
  \<open>transaction.atomic\<close> is a function to a result, so an exception rolls it back.
\<close>

section \<open>Environment\<close>

record runtime =
  rt_env :: env
  rt_asc :: "string \<Rightarrow> string"
  rt_controls :: runtime_controls
  rt_disabled_drivers :: "string list"
  rt_receiver_root :: "string list"
  rt_resolve :: "string list \<Rightarrow> string list"
  rt_error_message_max_length :: int

record execution_context =
  ec_run_id :: "int option"
  ec_target_id :: int
  ec_device_id :: int
  ec_device_name :: string
  ec_driver_id :: string
  ec_address :: "string option"
  ec_connection :: connection_parameters
  ec_driver_options :: options
  ec_store_mode :: string
  ec_secret_provider_id :: "string option"
  ec_secret_reference :: "string option"
  ec_receiver :: "receiver_parameters option"
  ec_receiver_secret_provider_id :: "string option"
  ec_receiver_secret_reference :: "string option"

record revision_snapshot =
  rs_revision_id :: int
  rs_normalized_hash :: string
  rs_primary_raw_hash :: string

record stored_artifact_record =
  sa_artifact_type :: string
  sa_format :: string
  sa_storage_key :: string
  sa_size :: int
  sa_raw_hash :: string
  sa_normalized_hash :: string
  sa_is_primary :: bool

section \<open>Execution context\<close>

definition select_address :: "device \<Rightarrow> connection_profile option \<Rightarrow> string option" where
  "select_address dev connection =
     (let preference = (case connection of Some c \<Rightarrow> cp_address_preference c | None \<Rightarrow> ''primary4_first'');
          candidates =
            (if preference = ''oob_first'' then [dev_oob_ip dev, dev_primary_ip4 dev, dev_primary_ip6 dev]
             else if preference = ''primary4_first''
             then [dev_primary_ip4 dev, dev_primary_ip6 dev, dev_oob_ip dev]
             else if preference = ''primary6_first''
             then [dev_primary_ip6 dev, dev_primary_ip4 dev, dev_oob_ip dev]
             else [])
      in case filter (\<lambda>a. a \<noteq> None) candidates of [] \<Rightarrow> None | a # _ \<Rightarrow> a)"

text \<open>\<open>str(address.ip)\<close>: the address without its prefix length.\<close>

definition address_ip :: "string \<Rightarrow> string" where
  "address_ip a = takeWhile (\<lambda>c. c \<noteq> CHR ''/'') a"

definition enabled_mapping :: "db \<Rightarrow> device \<Rightarrow> platform_mapping option" where
  "enabled_mapping d dev =
     (case dev_platform_id dev of
        None \<Rightarrow> None
      | Some k \<Rightarrow> find (\<lambda>m. pm_platform_id m = k \<and> pm_enabled m) (mappings d))"

definition host_key_line :: "ssh_host_key \<Rightarrow> string" where
  "host_key_line hk =
     (if hk_port hk = 22 then hk_address hk else ''['' @ hk_address hk @ '']:'' @ show_int (hk_port hk))
     @ '' '' @ hk_key_type hk @ '' '' @ hk_public_key hk"

definition trusted_host_keys :: "db \<Rightarrow> int \<Rightarrow> string option \<Rightarrow> int \<Rightarrow> string list" where
  "trusted_host_keys d target_id address port =
     map host_key_line (filter (\<lambda>hk. hk_target_id hk = target_id \<and> Some (hk_address hk) = address
       \<and> hk_port hk = port \<and> hk_status hk = HKTrusted) (host_keys d))"

text \<open>\<open>{**a, **b}\<close>.\<close>

definition merge_options :: "options \<Rightarrow> options \<Rightarrow> options" where
  "merge_options a b = filter (\<lambda>(k, _). map_of b k = None) a @ b"

definition or_option :: "'a option \<Rightarrow> 'a option \<Rightarrow> 'a option" where
  "or_option a b = (case a of None \<Rightarrow> b | Some _ \<Rightarrow> a)"

definition receiver_parameters_of :: "runtime \<Rightarrow> receiver_profile \<Rightarrow> receiver_parameters result" where
  "receiver_parameters_of rt r =
     bindE (receiver_inbox_path (rt_resolve rt) (rt_receiver_root rt) (rcp_pk r) (rcp_upload_directory r)) (\<lambda>inbox.
     Inr \<lparr>rpar_profile_id = rcp_pk r, rpar_mode = rcp_mode r, rpar_protocol = rcp_protocol r,
          rpar_advertised_host = rcp_advertised_host r, rpar_advertised_port = rcp_advertised_port r,
          rpar_bridge_host = rcp_bridge_host r, rpar_bridge_port = rcp_bridge_port r,
          rpar_remote_bind_host = rcp_remote_bind_host r, rpar_remote_bind_port = rcp_remote_bind_port r,
          rpar_upload_directory = rcp_upload_directory r, rpar_inbox_path = inbox,
          rpar_export_timeout = rcp_export_timeout r, rpar_max_upload_bytes = rcp_max_upload_size r,
          rpar_passive_port_start = rcp_passive_port_start r,
          rpar_passive_port_end = rcp_passive_port_end r, rpar_credentials = None\<rparr>)"

definition connection_parameters_of ::
  "db \<Rightarrow> int \<Rightarrow> string option \<Rightarrow> connection_profile option \<Rightarrow> backup_policy option \<Rightarrow> connection_parameters" where
  "connection_parameters_of d target_id address connection policy =
     (case connection of
        Some c \<Rightarrow>
          \<lparr>cpar_protocol = cp_protocol c, cpar_port = cp_port c, cpar_connect_timeout = cp_connect_timeout c,
           cpar_command_timeout = cp_command_timeout c, cpar_keepalive = cp_keepalive c,
           cpar_verify_host_key = cp_verify_host_key c,
           cpar_auto_trust_first_host_key = cp_auto_trust_first_host_key c,
           cpar_known_hosts_path = cp_known_hosts_path c,
           cpar_trusted_host_keys = trusted_host_keys d target_id address (cp_port c)\<rparr>
      | None \<Rightarrow>
          \<lparr>cpar_protocol = ''auto'', cpar_port = 22,
           cpar_connect_timeout = (case policy of Some p \<Rightarrow> bp_connection_timeout p | None \<Rightarrow> 15),
           cpar_command_timeout = (case policy of Some p \<Rightarrow> bp_command_timeout p | None \<Rightarrow> 60),
           cpar_keepalive = 30, cpar_verify_host_key = True, cpar_auto_trust_first_host_key = False,
           cpar_known_hosts_path = [],
           cpar_trusted_host_keys = trusted_host_keys d target_id address 22\<rparr>)"

definition get_target_execution_context :: "runtime \<Rightarrow> db \<Rightarrow> int \<Rightarrow> execution_context result" where
  "get_target_execution_context rt d target_id =
     bindE (get_target d target_id) (\<lambda>t.
     let dev = t_device t;
         mapping = enabled_mapping d dev;
         driver_id = (if t_driver_override t \<noteq> [] then t_driver_override t
                      else case mapping of Some m \<Rightarrow> pm_driver_id m | None \<Rightarrow> []);
         credential = or_option (t_credential_override t)
                        (case mapping of Some m \<Rightarrow> pm_credential_profile m | None \<Rightarrow> None);
         connection = or_option (t_connection_override t)
                        (case mapping of Some m \<Rightarrow> pm_connection_profile m | None \<Rightarrow> None);
         receiver = or_option (t_receiver_override t)
                        (case mapping of Some m \<Rightarrow> pm_receiver_profile m | None \<Rightarrow> None);
         policy = t_policy_override t;
         address = map_option address_ip (select_address dev connection)
     in bindE (case receiver of None \<Rightarrow> Inr None
               | Some r \<Rightarrow> bindE (receiver_parameters_of rt r) (\<lambda>x. Inr (Some x))) (\<lambda>rpar.
        Inr \<lparr>ec_run_id = None, ec_target_id = t_pk t, ec_device_id = dev_pk dev, ec_device_name = dev_name dev,
             ec_driver_id = driver_id, ec_address = address,
             ec_connection = connection_parameters_of d (t_pk t) address connection policy,
             ec_driver_options = merge_options
               (case mapping of Some m \<Rightarrow> if pm_driver_id m = driver_id then pm_driver_options m else []
                | None \<Rightarrow> []) (t_driver_options_override t),
             ec_store_mode = (case policy of Some p \<Rightarrow> bp_store_mode p | None \<Rightarrow> ''changed_only''),
             ec_secret_provider_id = map_option crp_provider_id credential,
             ec_secret_reference = map_option crp_secret_reference credential,
             ec_receiver = rpar,
             ec_receiver_secret_provider_id = map_option (\<lambda>r. crp_provider_id (rcp_credential_profile r)) receiver,
             ec_receiver_secret_reference = map_option (\<lambda>r. crp_secret_reference (rcp_credential_profile r)) receiver\<rparr>))"

definition get_execution_context :: "runtime \<Rightarrow> db \<Rightarrow> int \<Rightarrow> execution_context result" where
  "get_execution_context rt d run_id =
     bindE (get_run d run_id) (\<lambda>run.
     bindE (get_target_execution_context rt d (r_target_id run)) (\<lambda>ctx.
     Inr (ctx\<lparr>ec_run_id := Some (r_pk run)\<rparr>)))"

section \<open>Recording a run\<close>

text \<open>\<open>BackupTarget.save\<close> refuses a row whose driver override is disabled.\<close>

definition save_target_checked :: "runtime \<Rightarrow> backup_target \<Rightarrow> db \<Rightarrow> db result" where
  "save_target_checked rt t d =
     bindE (validate_driver_assignment (t_driver_override t) (rt_disabled_drivers rt)) (\<lambda>_.
     Inr (save_target t d))"

definition mark_running :: "int \<Rightarrow> int \<Rightarrow> db \<Rightarrow> (unit \<times> db) result" where
  "mark_running run_id started_at d =
     bindE (get_run d run_id) (\<lambda>run.
     if r_status run \<noteq> RQueued then Inl (ValueError (''Run '' @ show_int run_id @ '' is not queued.''))
     else Inr ((), save_run (run\<lparr>r_status := RRunning, r_started_at := Some started_at,
                r_error_code := [], r_error_message := []\<rparr>) d))"

definition latest_revision :: "db \<Rightarrow> int \<Rightarrow> config_revision option" where
  "latest_revision d target_id =
     (case sort_key (\<lambda>r. - rev_created r) (filter (\<lambda>r. rev_target_id r = target_id) (revisions d)) of
        [] \<Rightarrow> None | r # _ \<Rightarrow> Some r)"

definition get_latest_revision :: "db \<Rightarrow> int \<Rightarrow> revision_snapshot option result" where
  "get_latest_revision d target_id =
     (case latest_revision d target_id of
        None \<Rightarrow> Inr None
      | Some r \<Rightarrow>
          (case find (\<lambda>a. a_revision_id a = rev_pk r \<and> a_is_primary a) (artifacts d) of
             None \<Rightarrow> Inl (ValueError (''Revision '' @ show_int (rev_pk r) @ '' has no primary artifact.''))
           | Some a \<Rightarrow> Inr (Some \<lparr>rs_revision_id = rev_pk r, rs_normalized_hash = rev_normalized_hash r,
                                  rs_primary_raw_hash = a_raw_hash a\<rparr>)))"

definition target_was_unhealthy :: "backup_target \<Rightarrow> bool" where
  "target_was_unhealthy t \<longleftrightarrow> 0 < t_consecutive_failures t \<or> t_status t \<in> {TFailed, TStale}"

definition mark_target_success ::
  "runtime \<Rightarrow> backup_target \<Rightarrow> int option \<Rightarrow> int \<Rightarrow> bool \<Rightarrow> db \<Rightarrow> db result" where
  "mark_target_success rt t rid finished_at content_changed d =
     (let t1 = t\<lparr>t_status := THealthy, t_last_attempt_at := Some finished_at,
                 t_last_success_at := Some finished_at, t_consecutive_failures := 0,
                 t_last_revision := (case rid of Some k \<Rightarrow> Some k | None \<Rightarrow> t_last_revision t),
                 t_last_change_at := (if content_changed then Some finished_at else t_last_change_at t)\<rparr>
      in bindE (if t_next_run_at t1 = None then calculate_target_next_run (rt_env rt) t1 (Aware finished_at)
                else Inr (t_next_run_at t1)) (\<lambda>next.
         save_target_checked rt (t1\<lparr>t_next_run_at := next\<rparr>) d))"

definition recovered_event :: "runtime \<Rightarrow> bool \<Rightarrow> int \<Rightarrow> db \<Rightarrow> db" where
  "recovered_event rt was_unhealthy run_id d =
     (if was_unhealthy then queue_event (events_enabled (rt_controls rt)) ''config_backup_recovered'' run_id d else d)"

definition commit_unchanged :: "runtime \<Rightarrow> int \<Rightarrow> bool \<Rightarrow> int \<Rightarrow> db \<Rightarrow> (int option \<times> db) result" where
  "commit_unchanged rt run_id raw_changed finished_at d =
     bindE (get_run d run_id) (\<lambda>run.
     bindE (get_target d (r_target_id run)) (\<lambda>t.
     let latest = map_option rev_pk (latest_revision d (t_pk t));
         d1 = save_run (run\<lparr>r_status := RSuccessUnchanged, r_finished_at := Some finished_at,
                r_changed := False, r_raw_changed := raw_changed, r_revision := latest\<rparr>) d
     in bindE (mark_target_success rt t latest finished_at False d1) (\<lambda>d2.
        Inr (latest, recovered_event rt (target_was_unhealthy t) (r_pk run) d2))))"

text \<open>The unique constraints of \<open>ConfigRevision\<close> and \<open>ConfigArtifact\<close>.\<close>

definition revision_insertable :: "string \<Rightarrow> stored_artifact_record list \<Rightarrow> db \<Rightarrow> bool" where
  "revision_insertable revision_uuid items d \<longleftrightarrow>
     \<not> list_ex (\<lambda>r. rev_uuid r = revision_uuid) (revisions d)
     \<and> distinct (map a_storage_key (artifacts d) @ map sa_storage_key items)
     \<and> distinct (map sa_artifact_type items)
     \<and> length (filter sa_is_primary items) \<le> 1"

fun new_artifacts :: "int \<Rightarrow> int \<Rightarrow> stored_artifact_record list \<Rightarrow> config_artifact list" where
  "new_artifacts k revision_id [] = []"
| "new_artifacts k revision_id (x # xs) =
     \<lparr>a_pk = k, a_revision_id = revision_id, a_artifact_type = sa_artifact_type x, a_format = sa_format x,
      a_storage_key = sa_storage_key x, a_size = sa_size x, a_raw_hash = sa_raw_hash x,
      a_normalized_hash = sa_normalized_hash x, a_is_primary = sa_is_primary x,
      a_local_available = True, a_local_deleted_at = None\<rparr> # new_artifacts (k + 1) revision_id xs"

text \<open>\<open>created_at\<close> is the creation time the database stamps on the new revision.\<close>

definition commit_revision ::
  "runtime \<Rightarrow> int \<Rightarrow> string \<Rightarrow> string \<Rightarrow> string \<Rightarrow> string \<Rightarrow> bool \<Rightarrow> bool \<Rightarrow> stored_artifact_record list
   \<Rightarrow> int \<Rightarrow> int \<Rightarrow> db \<Rightarrow> (int \<times> db) result" where
  "commit_revision rt run_id revision_uuid normalized_hash normalizer_version driver_id content_changed
     raw_changed items created_at finished_at d =
     bindE (get_run d run_id) (\<lambda>run.
     bindE (get_target d (r_target_id run)) (\<lambda>t.
     if \<not> revision_insertable revision_uuid items d then Inl IntegrityError
     else let rid = next_id d;
              rv = \<lparr>rev_pk = rid, rev_target_id = t_pk t, rev_uuid = revision_uuid,
                    rev_normalized_hash = normalized_hash, rev_normalizer_version = normalizer_version,
                    rev_driver_id = driver_id, rev_content_changed = content_changed, rev_protected = False,
                    rev_previous_revision = map_option rev_pk (latest_revision d (t_pk t)),
                    rev_created = created_at\<rparr>;
              d1 = d\<lparr>revisions := revisions d @ [rv],
                     artifacts := artifacts d @ new_artifacts (rid + 1) rid items,
                     next_id := rid + 1 + int (length items)\<rparr>;
              d2 = save_run (run\<lparr>r_status := (if content_changed then RSuccessChanged else RSuccessUnchanged),
                     r_finished_at := Some finished_at, r_changed := content_changed,
                     r_raw_changed := raw_changed, r_revision := Some rid\<rparr>) d1
          in bindE (mark_target_success rt t (Some rid) finished_at content_changed d2) (\<lambda>d3.
             Inr (rid, recovered_event rt (target_was_unhealthy t) (r_pk run) d3))))"

definition failure_next_run :: "runtime \<Rightarrow> backup_target \<Rightarrow> int \<Rightarrow> int \<Rightarrow> int option result" where
  "failure_next_run rt t failed_at failures =
     calculate_failure_next_run (rt_env rt) (t_policy_override t) failed_at failures (t_pk t)
       (target_timezone_name (rt_env rt) t)"

definition mark_failed ::
  "runtime \<Rightarrow> int \<Rightarrow> run_status \<Rightarrow> string \<Rightarrow> string \<Rightarrow> int \<Rightarrow> db \<Rightarrow> (unit \<times> db) result" where
  "mark_failed rt run_id status error_code error_message finished_at d =
     bindE (get_run d run_id) (\<lambda>run.
     bindE (get_target d (r_target_id run)) (\<lambda>t.
     let d1 = save_run (run\<lparr>r_status := status, r_finished_at := Some finished_at,
                r_error_code := error_code, r_error_message := error_message\<rparr>) d;
         t1 = t\<lparr>t_status := TFailed, t_last_attempt_at := Some finished_at,
                t_consecutive_failures := t_consecutive_failures t + 1\<rparr>
     in bindE (failure_next_run rt t1 finished_at (t_consecutive_failures t1)) (\<lambda>next.
        bindE (save_target_checked rt (t1\<lparr>t_next_run_at := next\<rparr>) d1) (\<lambda>d2.
        Inr ((), if t_consecutive_failures t = 0 \<or> notify_on_every_failure (rt_controls rt)
                 then queue_event (events_enabled (rt_controls rt))
                        (if error_code = ''STALE_RUN'' then ''config_backup_stuck'' else ''config_backup_failed'')
                        (r_pk run) d2
                 else d2)))))"

end
