(* ===== verification/Pipeline.thy ===== *)
theory Pipeline
  imports Repository
begin

text \<open>
  \<open>services/backup.py\<close>: one backup run from start to recorded outcome, and the connection test of
  \<open>services/connection_test.py\<close> that exercises the same steps without storing anything. The state is
  the database, the artifact store and the local variable \<open>stored_keys\<close>, which the exception handlers
  read. A \<open>clock\<close> holds what the successive readings of the time give, \<open>revision_uuid\<close> is the value of
  the UUID factory.
\<close>

record clock =
  ck_started :: int
  ck_finished :: int
  ck_created :: int
  ck_replicated :: int

record 's pstate =
  ps_db :: db
  ps_store :: 's
  ps_keys :: "string list"

definition on_db :: "(db, 'a) prog \<Rightarrow> ('s pstate, 'a) prog" where
  "on_db m s = (case m (ps_db s) of (r, d) \<Rightarrow> (r, s\<lparr>ps_db := d\<rparr>))"

definition on_store :: "('s, 'a) prog \<Rightarrow> ('s pstate, 'a) prog" where
  "on_store m s = (case m (ps_store s) of (r, st) \<Rightarrow> (r, s\<lparr>ps_store := st\<rparr>))"

definition read_db :: "(db \<Rightarrow> 'a result) \<Rightarrow> ('s pstate, 'a) prog" where
  "read_db f = readS (\<lambda>s. f (ps_db s))"

definition note_key :: "string \<Rightarrow> ('s pstate, unit) prog" where
  "note_key key s = (Inr (), s\<lparr>ps_keys := ps_keys s @ [key]\<rparr>)"

text \<open>A callback registered with \<open>transaction.on_commit(..., robust=True)\<close>: its exceptions are logged.\<close>

definition robust :: "(db, 'a) prog \<Rightarrow> (db, unit) prog" where
  "robust m d = (Inr (), snd (m d))"

record backup_result =
  br_run_id :: int
  br_status :: run_status
  br_changed :: bool
  br_raw_changed :: bool
  br_revision_id :: "int option"
  br_error_code :: string

record prepared_artifact =
  pa_artifact :: collected_artifact
  pa_raw_hash :: string
  pa_normalized_hash :: string
  pa_is_primary :: bool

section \<open>Preparing artifacts\<close>

text \<open>\<open>UnicodeError\<close> is a subclass of \<open>ValueError\<close>.\<close>

fun is_value_error :: "exn \<Rightarrow> bool" where
  "is_value_error (ValueError _) = True"
| "is_value_error _ = False"

definition prepare_artifact :: "env \<Rightarrow> driver \<Rightarrow> collected_artifact \<Rightarrow> prepared_artifact result" where
  "prepare_artifact e drv artifact =
     bindE (dr_validate drv artifact) (\<lambda>validation.
     if \<not> v_valid validation
     then Inl (PipelineOperationError (v_error_code validation) (v_safe_message validation))
     else bindE (case dr_normalize drv artifact of
                   Inl x \<Rightarrow> Inl (if is_value_error x
                               then PipelineOperationError ''NORMALIZATION_FAILED'' ''Artifact normalization failed.''
                               else x)
                 | Inr n \<Rightarrow> Inr n) (\<lambda>normalized.
          if normalized = []
          then Inl (PipelineOperationError ''NORMALIZATION_FAILED'' ''Artifact normalization returned no data.'')
          else Inr \<lparr>pa_artifact = artifact, pa_raw_hash = sha256_hex e (ca_content artifact),
                    pa_normalized_hash = sha256_hex e normalized, pa_is_primary = ca_is_primary artifact\<rparr>))"

definition prepare_artifacts ::
  "env \<Rightarrow> driver \<Rightarrow> collected_artifact list \<Rightarrow> prepared_artifact list result" where
  "prepare_artifacts e drv collected =
     (if collected = [] then Inl (PipelineOperationError ''EMPTY_CONFIG'' ''Driver returned no artifacts.'')
      else if \<not> distinct (map ca_artifact_type collected)
      then Inl (PipelineOperationError ''VALIDATION_FAILED'' ''Driver returned duplicate artifact types.'')
      else if length (filter ca_is_primary collected) \<noteq> 1
      then Inl (PipelineOperationError ''VALIDATION_FAILED'' ''Exactly one primary artifact is required.'')
      else traverse (prepare_artifact e drv) collected)"

section \<open>Credentials\<close>

definition truthy_pair :: "string option \<Rightarrow> string option \<Rightarrow> bool" where
  "truthy_pair a b \<longleftrightarrow> truthy a \<and> truthy b"

definition resolve_credentials ::
  "(string \<Rightarrow> string \<Rightarrow> exn) \<Rightarrow> secret_registry \<Rightarrow> execution_context \<Rightarrow> credential_material option result" where
  "resolve_credentials err secrets ctx =
     (if truthy (ec_secret_provider_id ctx) \<or> truthy (ec_secret_reference ctx)
      then if \<not> truthy_pair (ec_secret_provider_id ctx) (ec_secret_reference ctx)
           then Inl (err ''NO_CREDENTIAL_PROFILE'' ''Credential provider and reference must both be configured.'')
           else bindE (get_provider secrets (the (ec_secret_provider_id ctx))) (\<lambda>p.
                bindE (sp_resolve p (the (ec_secret_reference ctx))) (\<lambda>c. Inr (Some c)))
      else Inr None)"

definition resolve_receiver ::
  "(string \<Rightarrow> string \<Rightarrow> exn) \<Rightarrow> secret_registry \<Rightarrow> execution_context \<Rightarrow> receiver_parameters option result" where
  "resolve_receiver err secrets ctx =
     (case ec_receiver ctx of
        None \<Rightarrow> Inr None
      | Some r \<Rightarrow>
          if \<not> truthy_pair (ec_receiver_secret_provider_id ctx) (ec_receiver_secret_reference ctx)
          then Inl (err ''NO_RECEIVER_CREDENTIALS'' ''The device upload receiver has no complete credential profile.'')
          else bindE (get_provider secrets (the (ec_receiver_secret_provider_id ctx))) (\<lambda>p.
               bindE (sp_resolve p (the (ec_receiver_secret_reference ctx))) (\<lambda>c.
               Inr (Some (r\<lparr>rpar_credentials := Some c\<rparr>)))))"

definition driver_context_of ::
  "execution_context \<Rightarrow> credential_material option \<Rightarrow> receiver_parameters option \<Rightarrow> driver_context" where
  "driver_context_of ctx credentials receiver =
     \<lparr>dc_device_id = ec_device_id ctx, dc_device_name = ec_device_name ctx, dc_address = ec_address ctx,
      dc_credentials = credentials, dc_connection = ec_connection ctx, dc_receiver = receiver,
      dc_options = ec_driver_options ctx\<rparr>"

section \<open>The pipeline\<close>

definition artifact_key :: "execution_context \<Rightarrow> string \<Rightarrow> prepared_artifact \<Rightarrow> string" where
  "artifact_key ctx revision_uuid item =
     ''devices/'' @ show_int (ec_device_id ctx) @ ''/revisions/'' @ revision_uuid @ ''/''
     @ ca_filename (pa_artifact item)"

fun store_artifacts ::
  "'s config_storage \<Rightarrow> execution_context \<Rightarrow> string \<Rightarrow> prepared_artifact list
   \<Rightarrow> ('s pstate, stored_artifact_record list) prog" where
  "store_artifacts ops ctx revision_uuid [] = returnS []"
| "store_artifacts ops ctx revision_uuid (item # items) =
     (let key = artifact_key ctx revision_uuid item in
      bindS (on_store (st_put ops key (ca_content (pa_artifact item))
        [(''artifact_type'', ca_artifact_type (pa_artifact item)), (''driver_id'', ec_driver_id ctx),
         (''raw_hash'', pa_raw_hash item)])) (\<lambda>stored.
      bindS (note_key key) (\<lambda>_.
      bindS (store_artifacts ops ctx revision_uuid items) (\<lambda>records.
      returnS (\<lparr>sa_artifact_type = ca_artifact_type (pa_artifact item), sa_format = ca_format (pa_artifact item),
        sa_storage_key = key, sa_size = so_size stored, sa_raw_hash = pa_raw_hash item,
        sa_normalized_hash = pa_normalized_hash item, sa_is_primary = pa_is_primary item\<rparr> # records)))))"

fun is_storage_error :: "exn \<Rightarrow> bool" where
  "is_storage_error (StorageError _) = True"
| "is_storage_error _ = False"

definition rollback_storage :: "'s config_storage \<Rightarrow> ('s pstate, unit) prog" where
  "rollback_storage ops s =
     forS (\<lambda>key. catchS (on_store (st_delete ops key)) (\<lambda>e. if is_storage_error e then returnS () else raiseS e))
       (rev (ps_keys s)) s"

text \<open>The exceptions of the first handler, with the code and message it records.\<close>

fun expected_error :: "exn \<Rightarrow> (string \<times> string) option" where
  "expected_error (DriverError code msg) = Some (code, msg)"
| "expected_error (PipelineOperationError code msg) = Some (code, msg)"
| "expected_error (DriverRegistryError msg) = Some (''UNSUPPORTED_PLATFORM'', msg)"
| "expected_error (SecretProviderError msg) = Some (''SECRET_RESOLUTION_FAILED'', ''Credential resolution failed.'')"
| "expected_error (SecretProviderLookupError msg) =
     Some (''SECRET_RESOLUTION_FAILED'', ''Credential resolution failed.'')"
| "expected_error (StorageError msg) = Some (''STORAGE_FAILED'', msg)"
| "expected_error _ = None"

record 's pipeline =
  pl_storage :: "'s config_storage"
  pl_drivers :: driver_registry
  pl_secrets :: secret_registry
  pl_verify :: "backup_destination \<Rightarrow> revision_replica \<Rightarrow> bool result"

text \<open>From the execution context to the prepared artifacts, the part that talks to the device.\<close>

definition collect_prepared ::
  "runtime \<Rightarrow> 's pipeline \<Rightarrow> execution_context \<Rightarrow> (driver \<times> prepared_artifact list) result" where
  "collect_prepared rt pl ctx =
     bindE (create_enabled_driver (pl_drivers pl) (rt_disabled_drivers rt) (ec_driver_id ctx)) (\<lambda>drv.
     bindE (resolve_credentials PipelineOperationError (pl_secrets pl) ctx) (\<lambda>credentials.
     bindE (resolve_receiver PipelineOperationError (pl_secrets pl) ctx) (\<lambda>receiver.
     bindE (dr_collect drv (driver_context_of ctx credentials receiver)) (\<lambda>collected.
     bindE (prepare_artifacts (rt_env rt) drv collected) (\<lambda>prepared.
     Inr (drv, prepared))))))"

definition collect_stage ::
  "runtime \<Rightarrow> 's pipeline \<Rightarrow> int \<Rightarrow> int \<Rightarrow> ('s pstate, execution_context \<times> driver \<times> prepared_artifact list) prog" where
  "collect_stage rt pl started_at run_id =
     bindS (read_db (\<lambda>d. get_execution_context rt d run_id)) (\<lambda>ctx.
     bindS (on_db (atomic (mark_running run_id started_at))) (\<lambda>_.
     bindS (readS (\<lambda>_. collect_prepared rt pl ctx)) (\<lambda>(drv, prepared).
     returnS (ctx, drv, prepared))))"

definition unchanged_stage ::
  "runtime \<Rightarrow> 's pipeline \<Rightarrow> clock \<Rightarrow> int \<Rightarrow> bool \<Rightarrow> ('s pstate, backup_result) prog" where
  "unchanged_stage rt pl ck run_id raw_changed =
     bindS (on_db (atomic (commit_unchanged rt run_id raw_changed (ck_finished ck)))) (\<lambda>rid.
     bindS (on_db (robust (case rid of None \<Rightarrow> returnS 0
                           | Some k \<Rightarrow> ensure_revision_replicas (pl_verify pl) (ck_replicated ck) k))) (\<lambda>_.
     returnS \<lparr>br_run_id = run_id, br_status = RSuccessUnchanged, br_changed = False,
              br_raw_changed = raw_changed, br_revision_id = rid, br_error_code = []\<rparr>))"

definition store_stage ::
  "runtime \<Rightarrow> 's pipeline \<Rightarrow> string \<Rightarrow> clock \<Rightarrow> int \<Rightarrow> execution_context \<Rightarrow> driver \<Rightarrow> prepared_artifact list
   \<Rightarrow> string \<Rightarrow> bool \<Rightarrow> bool \<Rightarrow> ('s pstate, backup_result) prog" where
  "store_stage rt pl revision_uuid ck run_id ctx drv prepared primary_hash content_changed raw_changed =
     bindS (store_artifacts (pl_storage pl) ctx revision_uuid prepared) (\<lambda>records.
     bindS (on_db (atomic (commit_revision rt run_id revision_uuid primary_hash (dr_normalizer_version drv)
       (ec_driver_id ctx) content_changed raw_changed records (ck_created ck) (ck_finished ck)))) (\<lambda>rid.
     bindS (on_db (robust (create_revision_replicas (ck_replicated ck) rid))) (\<lambda>_.
     returnS \<lparr>br_run_id = run_id, br_status = (if content_changed then RSuccessChanged else RSuccessUnchanged),
              br_changed = content_changed, br_raw_changed = raw_changed, br_revision_id = Some rid,
              br_error_code = []\<rparr>)))"

definition execute_body ::
  "runtime \<Rightarrow> 's pipeline \<Rightarrow> string \<Rightarrow> clock \<Rightarrow> int \<Rightarrow> ('s pstate, backup_result) prog" where
  "execute_body rt pl revision_uuid ck run_id =
     bindS (collect_stage rt pl (ck_started ck) run_id) (\<lambda>(ctx, drv, prepared).
     let primary = hd (filter pa_is_primary prepared) in
     bindS (read_db (\<lambda>d. get_latest_revision d (ec_target_id ctx))) (\<lambda>latest.
     let content_changed = (case latest of None \<Rightarrow> True | Some l \<Rightarrow> rs_normalized_hash l \<noteq> pa_normalized_hash primary);
         raw_changed = (case latest of None \<Rightarrow> True | Some l \<Rightarrow> rs_primary_raw_hash l \<noteq> pa_raw_hash primary)
     in if \<not> content_changed \<and> ec_store_mode ctx = ''changed_only''
        then unchanged_stage rt pl ck run_id raw_changed
        else store_stage rt pl revision_uuid ck run_id ctx drv prepared
               (pa_normalized_hash primary) content_changed raw_changed))"

definition handle_failure ::
  "runtime \<Rightarrow> 's pipeline \<Rightarrow> int \<Rightarrow> int \<Rightarrow> exn \<Rightarrow> ('s pstate, backup_result) prog" where
  "handle_failure rt pl finished_at run_id exc =
     bindS (rollback_storage (pl_storage pl)) (\<lambda>_.
     case expected_error exc of
       Some (error_code, safe_message) \<Rightarrow>
         bindS (on_db (atomic (mark_failed rt run_id RFailed error_code
           (py_take (rt_error_message_max_length rt) safe_message) finished_at))) (\<lambda>_.
         returnS \<lparr>br_run_id = run_id, br_status = RFailed, br_changed = False, br_raw_changed = False,
                  br_revision_id = None, br_error_code = error_code\<rparr>)
     | None \<Rightarrow>
         bindS (on_db (atomic (mark_failed rt run_id RErrored ''INTERNAL_ERROR''
           ''Unexpected internal backup error.'' finished_at))) (\<lambda>_.
         raiseS exc))"

definition execute ::
  "runtime \<Rightarrow> 's pipeline \<Rightarrow> string \<Rightarrow> clock \<Rightarrow> int \<Rightarrow> ('s pstate, backup_result) prog" where
  "execute rt pl revision_uuid ck run_id =
     catchS (execute_body rt pl revision_uuid ck run_id)
       (handle_failure rt pl (ck_finished ck) run_id)"

section \<open>Connection test\<close>

record connection_test_result =
  ct_success :: bool
  ct_driver_id :: string
  ct_artifact_count :: nat
  ct_total_bytes :: nat
  ct_error_code :: string
  ct_safe_message :: string

definition validate_artifact :: "driver \<Rightarrow> collected_artifact \<Rightarrow> unit result" where
  "validate_artifact drv artifact =
     bindE (dr_validate drv artifact) (\<lambda>validation.
     if \<not> v_valid validation then Inl (DriverError (v_error_code validation) (v_safe_message validation))
     else bindE (case dr_normalize drv artifact of
                   Inl x \<Rightarrow> Inl (if is_value_error x
                               then DriverError ''NORMALIZATION_FAILED'' ''Artifact normalization failed.'' else x)
                 | Inr n \<Rightarrow> Inr n) (\<lambda>normalized.
          if normalized = []
          then Inl (DriverError ''NORMALIZATION_FAILED'' ''Artifact normalization returned no data.'')
          else Inr ()))"

definition validate_artifacts :: "driver \<Rightarrow> collected_artifact list \<Rightarrow> unit result" where
  "validate_artifacts drv collected =
     (if collected = [] then Inl (DriverError ''EMPTY_CONFIG'' ''Driver returned no artifacts.'')
      else if \<not> distinct (map ca_artifact_type collected)
      then Inl (DriverError ''VALIDATION_FAILED'' ''Driver returned duplicate artifact types.'')
      else if length (filter ca_is_primary collected) \<noteq> 1
      then Inl (DriverError ''VALIDATION_FAILED'' ''Exactly one primary artifact is required.'')
      else bindE (traverse (validate_artifact drv) collected) (\<lambda>_. Inr ()))"

definition connection_failure :: "string \<Rightarrow> string \<Rightarrow> string \<Rightarrow> connection_test_result" where
  "connection_failure driver_id error_code safe_message =
     \<lparr>ct_success = False, ct_driver_id = driver_id, ct_artifact_count = 0, ct_total_bytes = 0,
      ct_error_code = error_code, ct_safe_message = safe_message\<rparr>"

fun connection_handler :: "string \<Rightarrow> exn \<Rightarrow> connection_test_result result" where
  "connection_handler driver_id (DriverRegistryError _) =
     Inr (connection_failure driver_id ''UNSUPPORTED_PLATFORM''
       ''No supported backup driver is configured for this target.'')"
| "connection_handler driver_id (SecretProviderError _) =
     Inr (connection_failure driver_id ''SECRET_RESOLUTION_FAILED'' ''Credential resolution failed.'')"
| "connection_handler driver_id (SecretProviderLookupError _) =
     Inr (connection_failure driver_id ''SECRET_RESOLUTION_FAILED'' ''Credential resolution failed.'')"
| "connection_handler driver_id (DriverError code msg) = Inr (connection_failure driver_id code msg)"
| "connection_handler driver_id e = Inl e"

definition test_connection ::
  "runtime \<Rightarrow> driver_registry \<Rightarrow> secret_registry \<Rightarrow> db \<Rightarrow> int \<Rightarrow> connection_test_result result" where
  "test_connection rt drivers secrets d target_id =
     (case get_target_execution_context rt d target_id of
        Inl e \<Rightarrow> connection_handler [] e
      | Inr ctx \<Rightarrow>
          (case bindE (create_enabled_driver drivers (rt_disabled_drivers rt) (ec_driver_id ctx)) (\<lambda>drv.
                bindE (resolve_credentials DriverError secrets ctx) (\<lambda>credentials.
                bindE (resolve_receiver DriverError secrets ctx) (\<lambda>receiver.
                bindE (dr_collect drv (driver_context_of ctx credentials receiver)) (\<lambda>collected.
                bindE (validate_artifacts drv collected) (\<lambda>_. Inr collected))))) of
             Inl e \<Rightarrow> connection_handler (ec_driver_id ctx) e
           | Inr collected \<Rightarrow>
               Inr \<lparr>ct_success = True, ct_driver_id = ec_driver_id ctx, ct_artifact_count = length collected,
                    ct_total_bytes = sum_list (map (\<lambda>a. length (ca_content a)) collected), ct_error_code = [],
                    ct_safe_message = ''Connection and configuration collection test succeeded.''\<rparr>))"

section \<open>Replication leaves runs, targets, revisions and artifacts alone\<close>

definition core_same :: "db \<Rightarrow> db \<Rightarrow> bool" where
  "core_same d d' \<longleftrightarrow> runs d' = runs d \<and> targets d' = targets d \<and> revisions d' = revisions d
     \<and> artifacts d' = artifacts d \<and> next_id d \<le> next_id d'"

interpretation core_steps: step_relation core_same
  by unfold_locales (auto simp: core_same_def)

lemmas core_atomic = within_atomic [of core_same, OF core_steps.step_refl]

lemmas core_within = core_steps.within_intros core_atomic

lemma enqueue_replica_core:
  "enqueue_revision_replica now k force d = Inr (res, d') \<Longrightarrow> core_same d d'"
  by (cases rule: enqueue_revision_replica_cases)
    (auto simp: core_same_def save_replica_def enqueue_job_def)

lemma get_or_create_core: "get_or_create_replica now r k d = Inr (x, d') \<Longrightarrow> core_same d d'"
  by (auto simp: get_or_create_replica_def Let_def core_same_def split: option.splits if_splits)

lemma create_rows_core: "within core_same (create_rows now ps)"
proof (induction now ps rule: create_rows.induct)
  case (2 now r k rest)
  then show ?case
    unfolding create_rows.simps
    by (intro core_steps.within_bindS) (auto intro!: core_within get_or_create_core split: prod.splits)
qed (simp add: core_steps.within_returnS)

lemma create_revision_replicas_core: "within core_same (create_revision_replicas now r)"
  unfolding create_revision_replicas_def enqueue_all_def
  by (intro core_within create_rows_core enqueue_replica_core)

lemma enqueue_counted_core: "within core_same (enqueue_counted now k force)"
  unfolding enqueue_counted_def by (intro core_within enqueue_replica_core)

lemma ensure_one_core: "within core_same (ensure_one verify now r dst)"
  unfolding ensure_one_def
  by (intro core_steps.within_bindS)
    (auto intro!: core_within enqueue_counted_core get_or_create_core split: prod.splits)

lemma ensure_revision_replicas_core: "within core_same (ensure_revision_replicas verify now r)"
  unfolding ensure_revision_replicas_def by (intro core_within ensure_one_core)

section \<open>Steps of the pipeline\<close>

lemma on_db_eq [prog_simps]:
  "on_db m s = (r, s') \<longleftrightarrow> (\<exists>d. m (ps_db s) = (r, d) \<and> s' = s\<lparr>ps_db := d\<rparr>)"
  by (auto simp: on_db_def split: prod.splits)

lemma on_store_eq [prog_simps]:
  "on_store m s = (r, s') \<longleftrightarrow> (\<exists>st. m (ps_store s) = (r, st) \<and> s' = s\<lparr>ps_store := st\<rparr>)"
  by (auto simp: on_store_def split: prod.splits)

lemma read_db_eq [prog_simps]: "read_db f s = (r, s') \<longleftrightarrow> f (ps_db s) = r \<and> s' = s"
  by (simp add: read_db_def prog_simps)

lemma note_key_eq [prog_simps]: "note_key k s = (r, s') \<longleftrightarrow> r = Inr () \<and> s' = s\<lparr>ps_keys := ps_keys s @ [k]\<rparr>"
  by (auto simp: note_key_def)

lemma get_run_save_same:
  "get_run d k = Inr r \<Longrightarrow> r_pk r' = r_pk r \<Longrightarrow> get_run (save_run r' d) k = Inr r'"
  unfolding get_run_def save_run_def
  using row_get_row_save_same [of _ r_pk k "runs d" r r'] row_get_Inr [of _ r_pk k "runs d" r]
  by simp

lemma get_run_core: "core_same d d' \<Longrightarrow> get_run d' k = get_run d k"
  by (simp add: core_same_def get_run_def)

lemma runs_target [simp]:
  "runs (save_target t d) = runs d" "runs (queue_event b ty k d) = runs d"
  "revisions (save_target t d) = revisions d" "revisions (queue_event b ty k d) = revisions d"
  "artifacts (save_target t d) = artifacts d" "artifacts (queue_event b ty k d) = artifacts d"
  "revisions (save_run r d) = revisions d" "artifacts (save_run r d) = artifacts d"
  by (simp_all add: save_target_def queue_event_def save_run_def)

lemma runs_recovered_event [simp]:
  "runs (recovered_event rt b k d) = runs d" "revisions (recovered_event rt b k d) = revisions d"
  "artifacts (recovered_event rt b k d) = artifacts d"
  by (simp_all add: recovered_event_def)

lemma save_target_checked_Inr:
  "save_target_checked rt t d = Inr d' \<Longrightarrow> d' = save_target t d"
  by (auto simp: save_target_checked_def result_simps)

lemma mark_target_success_Inr:
  "mark_target_success rt t rid f c d = Inr d' \<Longrightarrow>
     runs d' = runs d \<and> revisions d' = revisions d \<and> artifacts d' = artifacts d"
  by (auto simp: mark_target_success_def Let_def result_simps dest!: save_target_checked_Inr)

lemma commit_unchanged_run:
  assumes "commit_unchanged rt k raw f d = Inr (rid, d')"
  obtains run where "get_run d' k = Inr run" "r_status run = RSuccessUnchanged" "\<not> r_changed run"
    "r_raw_changed run = raw" "r_revision run = rid" "r_finished_at run = Some f"
    "revisions d' = revisions d" "artifacts d' = artifacts d"
proof -
  from assms obtain run t d2 where r: "get_run d k = Inr run" and
    m: "mark_target_success rt t rid f False (save_run (run\<lparr>r_status := RSuccessUnchanged,
       r_finished_at := Some f, r_changed := False, r_raw_changed := raw, r_revision := rid\<rparr>) d) = Inr d2"
    and d': "d' = recovered_event rt (target_was_unhealthy t) (r_pk run) d2"
    by (auto simp: commit_unchanged_def Let_def result_simps)
  let ?run = "run\<lparr>r_status := RSuccessUnchanged,
       r_finished_at := Some f, r_changed := False, r_raw_changed := raw, r_revision := rid\<rparr>"
  have "get_run (save_run ?run d) k = Inr ?run" using get_run_save_same [OF r] by simp
  then have "get_run d' k = Inr ?run"
    using mark_target_success_Inr [OF m] by (simp add: get_run_def d')
  then show thesis using that mark_target_success_Inr [OF m] by (simp add: d')
qed

lemma mark_failed_run:
  assumes "mark_failed rt k st code msg f d = Inr (u, d')"
  obtains run t where "get_run d k = Inr run" "get_run d' k = Inr (run\<lparr>r_status := st, r_finished_at := Some f,
      r_error_code := code, r_error_message := msg\<rparr>)"
    "revisions d' = revisions d" "artifacts d' = artifacts d"
proof -
  from assms obtain run t nx d2 where r: "get_run d k = Inr run" and
    m: "save_target_checked rt (t\<lparr>t_next_run_at := nx\<rparr>) (save_run (run\<lparr>r_status := st, r_finished_at := Some f,
      r_error_code := code, r_error_message := msg\<rparr>) d) = Inr d2"
    and d': "runs d' = runs d2" "revisions d' = revisions d2" "artifacts d' = artifacts d2"
    by (auto simp: mark_failed_def Let_def result_simps split: if_splits)
  let ?run = "run\<lparr>r_status := st, r_finished_at := Some f, r_error_code := code, r_error_message := msg\<rparr>"
  have "get_run (save_run ?run d) k = Inr ?run" using get_run_save_same [OF r] by simp
  then have "get_run d' k = Inr ?run"
    using save_target_checked_Inr [OF m] d' by (simp add: get_run_def)
  then show thesis using that [OF r] save_target_checked_Inr [OF m] d' by simp
qed

lemma commit_revision_Inr:
  assumes "commit_revision rt k u nh nv drv cc rc items cr f d = Inr (rid, d')"
  obtains run rv where "get_run d' k = Inr run" "r_status run = (if cc then RSuccessChanged else RSuccessUnchanged)"
    "r_changed run = cc" "r_raw_changed run = rc" "r_revision run = Some rid" "r_finished_at run = Some f"
    "revisions d' = revisions d @ [rv]" "rev_pk rv = rid" "rev_uuid rv = u" "rev_normalized_hash rv = nh"
    "rev_target_id rv = r_target_id run" "rev_previous_revision rv = map_option rev_pk (latest_revision d (r_target_id run))"
    "artifacts d' = artifacts d @ new_artifacts (rid + 1) rid items" "revision_insertable u items d"
proof -
  from assms obtain run t where r: "get_run d k = Inr run" and t: "get_target d (r_target_id run) = Inr t"
    and ins: "revision_insertable u items d"
    by (auto simp: commit_revision_def result_simps split: if_splits)
  define rv where "rv = \<lparr>rev_pk = next_id d, rev_target_id = t_pk t, rev_uuid = u,
                    rev_normalized_hash = nh, rev_normalizer_version = nv,
                    rev_driver_id = drv, rev_content_changed = cc, rev_protected = False,
                    rev_previous_revision = map_option rev_pk (latest_revision d (t_pk t)), rev_created = cr\<rparr>"
  define d1 where "d1 = d\<lparr>revisions := revisions d @ [rv],
                     artifacts := artifacts d @ new_artifacts (next_id d + 1) (next_id d) items,
                     next_id := next_id d + 1 + int (length items)\<rparr>"
  define run' where "run' = run\<lparr>r_status := (if cc then RSuccessChanged else RSuccessUnchanged),
                     r_finished_at := Some f, r_changed := cc, r_raw_changed := rc, r_revision := Some (next_id d)\<rparr>"
  from assms r t ins obtain d3 where m: "mark_target_success rt t (Some (next_id d)) f cc (save_run run' d1) = Inr d3"
    and d': "d' = recovered_event rt (target_was_unhealthy t) (r_pk run) d3" and rid: "rid = next_id d"
    by (auto simp: commit_revision_def Let_def result_simps rv_def d1_def run'_def)
  note eff = mark_target_success_Inr [OF m]
  have "get_run d1 k = Inr run" using r by (simp add: get_run_def d1_def)
  then have "get_run (save_run run' d1) k = Inr run'" by (rule get_run_save_same) (simp add: run'_def)
  then have "get_run d' k = Inr run'" using eff by (simp add: get_run_def d')
  moreover have "t_pk t = r_target_id run" using t unfolding get_target_def by (blast dest: row_get_Inr)
  ultimately show thesis
    using that [of run' rv] eff ins by (simp add: d' rid d1_def run'_def rv_def)
qed

lemma mark_running_Inr:
  assumes "mark_running k t d = Inr (u, d')"
  obtains run where "get_run d k = Inr run" "r_status run = RQueued"
    "d' = save_run (run\<lparr>r_status := RRunning, r_started_at := Some t, r_error_code := [], r_error_message := []\<rparr>) d"
  using assms by (auto simp: mark_running_def result_simps split: if_splits)

text \<open>What the first part of a run did to the state.\<close>

lemma collect_stage_effect:
  assumes "collect_stage rt pl t k s = (r, s1)"
  shows "s1 = s \<or> (\<exists>run. get_run (ps_db s) k = Inr run \<and> r_status run = RQueued
          \<and> s1 = s\<lparr>ps_db := save_run (run\<lparr>r_status := RRunning, r_started_at := Some t, r_error_code := [],
               r_error_message := []\<rparr>) (ps_db s)\<rparr>)"
proof (cases "get_execution_context rt (ps_db s) k")
  case (Inl e)
  with assms show ?thesis by (simp add: collect_stage_def bindS_def read_db_def readS_def)
next
  case (Inr ctx)
  show ?thesis
  proof (cases "mark_running k t (ps_db s)")
    case (Inl e)
    with assms Inr show ?thesis
      by (simp add: collect_stage_def bindS_def read_db_def readS_def on_db_def atomic_def)
  next
    case 2: (Inr x)
    obtain u d where x: "x = (u, d)" by (cases x)
    from assms Inr 2 x have "s1 = s\<lparr>ps_db := d\<rparr>"
      by (cases "collect_prepared rt pl ctx")
        (auto simp: collect_stage_def bindS_def read_db_def readS_def on_db_def atomic_def returnS_def)
    with 2 x show ?thesis by (auto elim: mark_running_Inr)
  qed
qed

lemma collect_stage_Inr:
  assumes "collect_stage rt pl t k s = (Inr (ctx, drv, prepared), s1)"
  shows "get_execution_context rt (ps_db s) k = Inr ctx \<and> collect_prepared rt pl ctx = Inr (drv, prepared)"
  using assms by (auto simp: collect_stage_def prog_simps split: prod.splits)

section \<open>Storing the artifacts of a revision\<close>

definition item_record :: "execution_context \<Rightarrow> string \<Rightarrow> prepared_artifact \<Rightarrow> stored_artifact_record" where
  "item_record ctx u item =
     \<lparr>sa_artifact_type = ca_artifact_type (pa_artifact item), sa_format = ca_format (pa_artifact item),
      sa_storage_key = artifact_key ctx u item, sa_size = int (length (ca_content (pa_artifact item))),
      sa_raw_hash = pa_raw_hash item, sa_normalized_hash = pa_normalized_hash item,
      sa_is_primary = pa_is_primary item\<rparr>"

definition item_paths :: "execution_context \<Rightarrow> string \<Rightarrow> prepared_artifact list \<Rightarrow> string list set" where
  "item_paths ctx u items = (\<lambda>i. path_parts (artifact_key ctx u i)) ` set items"

context storage_contract
begin

lemma store_artifacts_Inr:
  assumes "wf (ps_store s)" "store_artifacts ops ctx u items s = (Inr records, s')"
  shows "wf (ps_store s') \<and> ps_db s' = ps_db s \<and> ps_keys s' = ps_keys s @ map (artifact_key ctx u) items
    \<and> records = map (item_record ctx u) items
    \<and> objs (ps_store s') = objs (ps_store s) ++
        map_of (rev (map (\<lambda>i. (path_parts (artifact_key ctx u i), ca_content (pa_artifact i))) items))"
  using assms
proof (induction items arbitrary: s records)
  case Nil
  then show ?case by (simp add: returnS_def)
next
  case (Cons i items)
  from Cons.prems(2) obtain ob st recs where
    put: "st_put ops (artifact_key ctx u i) (ca_content (pa_artifact i))
        [(''artifact_type'', ca_artifact_type (pa_artifact i)), (''driver_id'', ec_driver_id ctx),
         (''raw_hash'', pa_raw_hash i)] (ps_store s) = (Inr ob, st)"
    and rest: "store_artifacts ops ctx u items
        (s\<lparr>ps_store := st, ps_keys := ps_keys s @ [artifact_key ctx u i]\<rparr>) = (Inr recs, s')"
    and records: "records = (item_record ctx u i)\<lparr>sa_size := so_size ob\<rparr> # recs"
    by (auto simp: prog_simps Let_def item_record_def)
  note p = put_Inr [OF Cons.prems(1) put]
  then have "wf (ps_store (s\<lparr>ps_store := st, ps_keys := ps_keys s @ [artifact_key ctx u i]\<rparr>))" by simp
  note IH = Cons.IH [OF this rest]
  have "objs (ps_store s') = (objs (ps_store s))(path_parts (artifact_key ctx u i) \<mapsto> ca_content (pa_artifact i))
      ++ map_of (rev (map (\<lambda>i. (path_parts (artifact_key ctx u i), ca_content (pa_artifact i))) items))"
    using IH p by (simp add: fun_upd_def)
  then have "objs (ps_store s') = objs (ps_store s) ++
        map_of (rev (map (\<lambda>i. (path_parts (artifact_key ctx u i), ca_content (pa_artifact i))) (i # items)))"
    by simp
  with IH p records show ?case by (simp add: item_record_def)
qed

text \<open>Whatever happens, only the objects of this revision are written.\<close>

lemma store_artifacts_frame:
  assumes "wf (ps_store s)" "store_artifacts ops ctx u items s = (r, s')"
  shows "wf (ps_store s') \<and> ps_db s' = ps_db s
    \<and> (\<exists>ks. ps_keys s' = ps_keys s @ ks \<and> set ks \<subseteq> artifact_key ctx u ` set items)
    \<and> (\<forall>p. \<not> scratch p \<longrightarrow> p \<notin> item_paths ctx u items \<longrightarrow> objs (ps_store s') p = objs (ps_store s) p)"
  using assms
proof (induction items arbitrary: s r)
  case Nil
  then show ?case by (simp add: returnS_def)
next
  case (Cons i items)
  let ?key = "artifact_key ctx u i"
  obtain r1 st where put: "st_put ops ?key (ca_content (pa_artifact i))
        [(''artifact_type'', ca_artifact_type (pa_artifact i)), (''driver_id'', ec_driver_id ctx),
         (''raw_hash'', pa_raw_hash i)] (ps_store s) = (r1, st)"
    by (cases "st_put ops ?key (ca_content (pa_artifact i))
        [(''artifact_type'', ca_artifact_type (pa_artifact i)), (''driver_id'', ec_driver_id ctx),
         (''raw_hash'', pa_raw_hash i)] (ps_store s)")
  have st: "wf st" "\<And>p. \<not> scratch p \<Longrightarrow> p \<noteq> path_parts ?key \<Longrightarrow> objs st p = objs (ps_store s) p"
    using put_Inr [OF Cons.prems(1)] put_Inl [OF Cons.prems(1)] put put_keeps_others [OF Cons.prems(1) put]
    by (cases r1; blast)+
  show ?case
  proof (cases r1)
    case (Inl e)
    with Cons.prems(2) put have "s' = s\<lparr>ps_store := st\<rparr>" by (simp add: bindS_def on_store_def Let_def)
    with st show ?thesis by (auto simp: item_paths_def)
  next
    case (Inr ob)
    let ?s1 = "s\<lparr>ps_store := st, ps_keys := ps_keys s @ [?key]\<rparr>"
    obtain r2 where rest: "store_artifacts ops ctx u items ?s1 = (r2, s')"
      using Cons.prems(2) put Inr
      by (cases "store_artifacts ops ctx u items ?s1")
        (auto simp: bindS_def on_store_def note_key_def returnS_def Let_def split: sum.splits)
    have "wf (ps_store ?s1)" using st(1) by simp
    note IH = Cons.IH [OF this rest]
    then obtain ks where "ps_keys s' = ps_keys s @ ?key # ks" "set ks \<subseteq> artifact_key ctx u ` set items"
      by auto
    then have "\<exists>ks. ps_keys s' = ps_keys s @ ks \<and> set ks \<subseteq> artifact_key ctx u ` set (i # items)"
      by (intro exI [of _ "?key # ks"]) auto
    with IH st show ?thesis by (auto simp: item_paths_def)
  qed
qed

lemma rollback_frame:
  assumes "wf (ps_store s)" "rollback_storage ops s = (r, s')"
  shows "wf (ps_store s') \<and> ps_db s' = ps_db s \<and> ps_keys s' = ps_keys s
    \<and> (\<forall>p. objs (ps_store s') p = objs (ps_store s) p \<or> (objs (ps_store s') p = None \<and> p \<in> path_parts ` set (ps_keys s)))"
proof -
  let ?del = "\<lambda>key. catchS (on_store (st_delete ops key)) (\<lambda>e. if is_storage_error e then returnS () else raiseS e)"
  have step: "wf (ps_store t') \<and> ps_db t' = ps_db t \<and> ps_keys t' = ps_keys t
      \<and> (\<forall>p. objs (ps_store t') p = objs (ps_store t) p \<or> (objs (ps_store t') p = None \<and> p = path_parts key))"
    if t: "wf (ps_store t)" and d: "?del key t = (r, t')" for t t' r key
  proof -
    obtain r1 st where del: "st_delete ops key (ps_store t) = (r1, st)" by (cases "st_delete ops key (ps_store t)")
    with d have "t' = t\<lparr>ps_store := st\<rparr>"
      by (auto simp: catchS_def on_store_def returnS_def raiseS_def split: sum.splits if_splits)
    with del delete_Inr [OF t] delete_Inl [OF t] show ?thesis by (cases r1) auto
  qed
  have "wf (ps_store s') \<and> ps_db s' = ps_db s \<and> ps_keys s' = ps_keys s
      \<and> (\<forall>p. objs (ps_store s') p = objs (ps_store s) p \<or> (objs (ps_store s') p = None \<and> p \<in> path_parts ` set keys))"
    if "wf (ps_store s)" "forS ?del keys s = (r, s')" for keys s
    using that
  proof (induction keys arbitrary: s)
    case (Cons key keys)
    obtain r1 s1 where 1: "?del key s = (r1, s1)" by (cases "?del key s")
    note st = step [OF Cons.prems(1) 1]
    show ?case
    proof (cases r1)
      case (Inl e)
      with Cons.prems(2) 1 have "s' = s1" by (simp add: bindS_def)
      with st show ?thesis by auto
    next
      case (Inr x)
      with Cons.prems(2) 1 have "forS ?del keys s1 = (r, s')" by (simp add: bindS_def)
      from Cons.IH [OF _ this] st show ?thesis by auto (metis)+
    qed
  qed (simp add: returnS_def)
  from this [of s "rev (ps_keys s)"] assms show ?thesis by (simp add: rollback_storage_def)
qed

end

section \<open>The body of a run\<close>

lemma robust_eq [prog_simps]: "robust m d = (r, d') \<longleftrightarrow> r = Inr () \<and> d' = snd (m d)"
  by (auto simp: robust_def)

lemma within_core_snd: "within core_same m \<Longrightarrow> core_same d (snd (m d))"
  by (auto intro: withinD prod.collapse [symmetric])

lemma unchanged_stage_Inr:
  assumes "unchanged_stage rt pl ck k raw s = (Inr res, s')"
  obtains rid run where "get_run (ps_db s') k = Inr run" "r_status run = RSuccessUnchanged"
    "br_status res = RSuccessUnchanged" "\<not> br_changed res" "br_revision_id res = rid" "r_revision run = rid"
    "revisions (ps_db s') = revisions (ps_db s)" "artifacts (ps_db s') = artifacts (ps_db s)"
    "ps_store s' = ps_store s"
proof -
  from assms obtain rid d where c: "commit_unchanged rt k raw (ck_finished ck) (ps_db s) = Inr (rid, d)"
    and s': "s' = s\<lparr>ps_db := snd ((case rid of None \<Rightarrow> returnS 0
           | Some k \<Rightarrow> ensure_revision_replicas (pl_verify pl) (ck_replicated ck) k) d)\<rparr>"
    and res: "br_status res = RSuccessUnchanged" "\<not> br_changed res" "br_revision_id res = rid"
    by (auto simp: unchanged_stage_def prog_simps)
  have "core_same d (ps_db s')"
    unfolding s'
    by (simp, rule within_core_snd) (auto intro!: core_steps.within_returnS ensure_revision_replicas_core split: option.splits)
  note same = this [unfolded core_same_def] get_run_core [OF this, of k]
  from c show thesis
    by (rule commit_unchanged_run) (use that res same s' in simp)
qed

lemma unchanged_stage_Inl:
  assumes "unchanged_stage rt pl ck k raw s = (Inl e, s')"
  shows "s' = s"
  using assms by (auto simp: unchanged_stage_def prog_simps)

lemma store_stage_Inr:
  assumes "store_stage rt pl u ck k ctx drv prepared h cc raw s = (Inr res, s')"
  obtains records s1 rid run rv where
    "store_artifacts (pl_storage pl) ctx u prepared s = (Inr records, s1)" "ps_store s' = ps_store s1"
    "get_run (ps_db s') k = Inr run" "r_status run = br_status res"
    "br_status res = (if cc then RSuccessChanged else RSuccessUnchanged)" "br_changed res = cc"
    "br_revision_id res = Some rid" "r_revision run = Some rid"
    "revisions (ps_db s') = revisions (ps_db s1) @ [rv]" "rev_pk rv = rid" "rev_uuid rv = u" "rev_normalized_hash rv = h"
    "artifacts (ps_db s') = artifacts (ps_db s1) @ new_artifacts (rid + 1) rid records"
    "revision_insertable u records (ps_db s1)"
proof -
  from assms obtain records s1 rid d where
    st: "store_artifacts (pl_storage pl) ctx u prepared s = (Inr records, s1)"
    and c: "commit_revision rt k u h (dr_normalizer_version drv) (ec_driver_id ctx) cc raw records
       (ck_created ck) (ck_finished ck) (ps_db s1) = Inr (rid, d)"
    and s': "s' = s1\<lparr>ps_db := snd (create_revision_replicas (ck_replicated ck) rid d)\<rparr>"
    and res: "br_status res = (if cc then RSuccessChanged else RSuccessUnchanged)" "br_changed res = cc"
      "br_revision_id res = Some rid"
    by (auto simp: store_stage_def prog_simps)
  have "core_same d (ps_db s')"
    unfolding s' by (simp add: within_core_snd [OF create_revision_replicas_core])
  note same = this [unfolded core_same_def] get_run_core [OF this, of k]
  from c show thesis
    by (rule commit_revision_Inr) (use that [OF st] res same s' in simp)
qed

lemma store_stage_Inl:
  assumes "store_stage rt pl u ck k ctx drv prepared h cc raw s = (Inl e, s')"
  shows "\<exists>r. store_artifacts (pl_storage pl) ctx u prepared s = (r, s')"
  using assms by (auto simp: store_stage_def prog_simps)

text \<open>How a run can proceed: it stops early, stores nothing, or stores a revision.\<close>

lemma execute_body_cases:
  assumes "execute_body rt pl u ck k s = (r, s')"
  obtains (early) e r1 where "r = Inl e" "collect_stage rt pl (ck_started ck) k s = (r1, s')"
  | (unchanged) ctx drv prepared s1 raw where
      "collect_stage rt pl (ck_started ck) k s = (Inr (ctx, drv, prepared), s1)"
      "unchanged_stage rt pl ck k raw s1 = (r, s')"
  | (stored) ctx drv prepared s1 cc raw where
      "collect_stage rt pl (ck_started ck) k s = (Inr (ctx, drv, prepared), s1)"
      "store_stage rt pl u ck k ctx drv prepared (pa_normalized_hash (hd (filter pa_is_primary prepared))) cc raw s1 = (r, s')"
      "cc \<longleftrightarrow> (case latest_revision (ps_db s1) (ec_target_id ctx) of None \<Rightarrow> True
         | Some l \<Rightarrow> rev_normalized_hash l \<noteq> pa_normalized_hash (hd (filter pa_is_primary prepared)))"
proof (cases "collect_stage rt pl (ck_started ck) k s")
  case (Pair r1 s1)
  show thesis
  proof (cases r1)
    case (Inl e)
    with Pair assms have "r = Inl e" "s' = s1" by (simp_all add: execute_body_def bindS_def)
    with Pair show thesis using early by blast
  next
    case (Inr x)
    obtain ctx drv prepared where x: "x = (ctx, drv, prepared)" by (cases x) auto
    let ?p = "hd (filter pa_is_primary prepared)"
    show thesis
    proof (cases "get_latest_revision (ps_db s1) (ec_target_id ctx)")
      case (Inl e)
      with Pair Inr x assms have "r = Inl e" "s' = s1"
        by (simp_all add: execute_body_def bindS_def read_db_def readS_def Let_def)
      with Pair show thesis using early by blast
    next
      case l: (Inr latest)
      define cc where "cc = (case latest of None \<Rightarrow> True | Some l \<Rightarrow> rs_normalized_hash l \<noteq> pa_normalized_hash ?p)"
      define raw where "raw = (case latest of None \<Rightarrow> True | Some l \<Rightarrow> rs_primary_raw_hash l \<noteq> pa_raw_hash ?p)"
      have r: "(r, s') = (if \<not> cc \<and> ec_store_mode ctx = ''changed_only'' then unchanged_stage rt pl ck k raw s1
          else store_stage rt pl u ck k ctx drv prepared (pa_normalized_hash ?p) cc raw s1)"
        using Pair Inr x assms l
        unfolding cc_def raw_def
        by (simp add: execute_body_def bindS_def read_db_def readS_def Let_def if_distrib [of "\<lambda>f. f s1"]
            split del: if_split)
      have "cc \<longleftrightarrow> (case latest_revision (ps_db s1) (ec_target_id ctx) of None \<Rightarrow> True
         | Some l \<Rightarrow> rev_normalized_hash l \<noteq> pa_normalized_hash ?p)"
        using l by (auto simp: cc_def get_latest_revision_def split: option.splits)
      with r Pair Inr x show thesis
        by (cases "\<not> cc \<and> ec_store_mode ctx = ''changed_only''") (auto intro: unchanged stored)
    qed
  qed
qed

lemma collect_stage_same:
  assumes "collect_stage rt pl t k s = (r, s1)"
  shows "ps_store s1 = ps_store s \<and> ps_keys s1 = ps_keys s
    \<and> revisions (ps_db s1) = revisions (ps_db s) \<and> artifacts (ps_db s1) = artifacts (ps_db s)"
  using collect_stage_effect [OF assms] by auto

section \<open>Failure handling\<close>

lemma handle_failure_effect:
  assumes "handle_failure rt pl f k exc s = (r, s')"
  obtains r1 s1 where "rollback_storage (pl_storage pl) s = (r1, s1)" "ps_store s' = ps_store s1"
    "ps_db s' = ps_db s1 \<or> (\<exists>st code msg u. mark_failed rt k st code msg f (ps_db s1) = Inr (u, ps_db s'))"
    "\<And>res. r = Inr res \<Longrightarrow> r1 = Inr () \<and> br_status res = RFailed \<and> br_revision_id res = None
       \<and> (\<exists>msg u. mark_failed rt k RFailed (br_error_code res) msg f (ps_db s1) = Inr (u, ps_db s'))"
proof (cases "rollback_storage (pl_storage pl) s")
  case (Pair r1 s1)
  show thesis
  proof (cases r1)
    case (Inl e)
    with Pair assms have "r = Inl e" "s' = s1" by (simp_all add: handle_failure_def bindS_def)
    with Pair show thesis by (intro that [of r1 s1]) simp_all
  next
    case (Inr x)
    with Pair assms show thesis
      by (intro that [of r1 s1])
        (auto simp: handle_failure_def bindS_def on_db_def atomic_def returnS_def raiseS_def
          split: option.splits sum.splits prod.splits)
  qed
qed

lemma mark_failed_same:
  "mark_failed rt k st code msg f d = Inr (u, d') \<Longrightarrow> revisions d' = revisions d \<and> artifacts d' = artifacts d"
  by (erule mark_failed_run) simp

text \<open>A body that raises has committed nothing.\<close>

lemma execute_body_Inl_db:
  assumes "execute_body rt pl u ck k s = (Inl e, s')" "\<And>ctx items s r s'.
      store_artifacts (pl_storage pl) ctx u items s = (r, s') \<Longrightarrow> ps_db s' = ps_db s"
  shows "revisions (ps_db s') = revisions (ps_db s) \<and> artifacts (ps_db s') = artifacts (ps_db s)"
  using assms(1)
proof (cases rule: execute_body_cases)
  case (early e r1)
  then show ?thesis using collect_stage_same by blast
next
  case (unchanged ctx drv prepared s1 raw)
  then show ?thesis using collect_stage_same [OF unchanged(1)] unchanged_stage_Inl [OF unchanged(2)] by simp
next
  case (stored ctx drv prepared s1 cc raw)
  then show ?thesis using collect_stage_same [OF stored(1)] store_stage_Inl assms(2) by fastforce
qed

lemma on_store_db: "on_store m s = (r, s') \<Longrightarrow> ps_db s' = ps_db s"
  by (auto simp: prog_simps)

interpretation db_steps: step_relation "\<lambda>(s :: 's pstate) s'. ps_db s' = ps_db s"
  by unfold_locales simp_all

lemma within_on_store: "within (\<lambda>s s'. ps_db s' = ps_db s) (on_store m)"
  by (auto simp: within_def dest: on_store_db)

lemma within_note_key: "within (\<lambda>s s'. ps_db s' = ps_db s) (note_key k)"
  by (simp add: within_def note_key_def)

lemma store_artifacts_db: "store_artifacts ops ctx u items s = (r, s') \<Longrightarrow> ps_db s' = ps_db s"
proof -
  have "within (\<lambda>s s'. ps_db s' = ps_db s) (store_artifacts ops ctx u items)"
    by (induction ops ctx u items rule: store_artifacts.induct)
      (auto simp: Let_def intro!: db_steps.within_intros within_on_store within_note_key)
  then show "store_artifacts ops ctx u items s = (r, s') \<Longrightarrow> ps_db s' = ps_db s" by (rule withinD)
qed

lemma rollback_storage_db: "rollback_storage ops s = (r, s') \<Longrightarrow> ps_db s' = ps_db s"
proof -
  have "within (\<lambda>s s'. ps_db s' = ps_db s) (forS (\<lambda>key. catchS (on_store (st_delete ops key))
      (\<lambda>e. if is_storage_error e then returnS () else raiseS e)) (rev (ps_keys s)))"
    by (intro db_steps.within_forS db_steps.within_catchS within_on_store)
      (auto intro: db_steps.within_intros)
  then show "rollback_storage ops s = (r, s') \<Longrightarrow> ps_db s' = ps_db s"
    unfolding rollback_storage_def by (rule withinD)
qed

section \<open>Properties\<close>

text \<open>
  C3. What a run reports is what is recorded. When \<open>execute\<close> returns, the run row has the reported
  status, which is final; a failed run created no revision and no artifact row; a successful run
  points at the reported revision.
\<close>

theorem execute_records_result:
  assumes "execute rt pl u ck k s = (Inr res, s')"
  shows "\<exists>run. get_run (ps_db s') k = Inr run \<and> r_status run = br_status res
    \<and> br_status res \<in> {RSuccessChanged, RSuccessUnchanged, RFailed}
    \<and> (br_status res = RFailed \<longrightarrow> revisions (ps_db s') = revisions (ps_db s)
          \<and> artifacts (ps_db s') = artifacts (ps_db s) \<and> r_error_code run = br_error_code res)
    \<and> (br_status res \<noteq> RFailed \<longrightarrow> r_revision run = br_revision_id res)"
proof (cases "execute_body rt pl u ck k s")
  case (Pair r s1)
  show ?thesis
  proof (cases r)
    case (Inl e)
    with Pair assms have "handle_failure rt pl (ck_finished ck) k e s1 = (Inr res, s')"
      by (simp add: execute_def catchS_def)
    then show ?thesis
    proof (rule handle_failure_effect)
      fix r1 s2
      assume rb: "rollback_storage (pl_storage pl) s1 = (r1, s2)"
        and "\<And>x. Inr res = Inr x \<Longrightarrow> r1 = Inr () \<and> br_status x = RFailed \<and> br_revision_id x = None
           \<and> (\<exists>msg u. mark_failed rt k RFailed (br_error_code x) msg (ck_finished ck) (ps_db s2) = Inr (u, ps_db s'))"
      then obtain msg u' where st: "br_status res = RFailed"
        and mf: "mark_failed rt k RFailed (br_error_code res) msg (ck_finished ck) (ps_db s2) = Inr (u', ps_db s')"
        by blast
      have "revisions (ps_db s1) = revisions (ps_db s) \<and> artifacts (ps_db s1) = artifacts (ps_db s)"
        by (rule execute_body_Inl_db [OF _ store_artifacts_db]) (use Pair Inl in auto)
      with rollback_storage_db [OF rb] mark_failed_same [OF mf] st show ?thesis
        by (auto intro: mark_failed_run [OF mf])
    qed
  next
    case (Inr x)
    with Pair assms have body: "execute_body rt pl u ck k s = (Inr res, s')" by (simp add: execute_def catchS_def)
    then show ?thesis
    proof (cases rule: execute_body_cases)
      case (unchanged ctx drv prepared s1 raw)
      from unchanged(2) show ?thesis by (rule unchanged_stage_Inr) auto
    next
      case (stored ctx drv prepared s1 cc raw)
      from stored(2) show ?thesis by (rule store_stage_Inr) auto
    qed simp
  qed
qed

definition sample_runtime :: runtime where
  "sample_runtime = \<lparr>rt_env = sample_env, rt_asc = id, rt_controls = sample_controls, rt_disabled_drivers = [],
     rt_receiver_root = [''inbox''], rt_resolve = id, rt_error_message_max_length = 1000\<rparr>"

definition sample_pipeline :: "'s config_storage \<Rightarrow> 's pipeline" where
  "sample_pipeline ops = \<lparr>pl_storage = ops, pl_drivers = [(''fake'', sample_driver ''fake'' ''hostname r1'')],
     pl_secrets = [], pl_verify = (\<lambda>_ _. Inr True)\<rparr>"

definition sample_state :: "run_status \<Rightarrow> local_fs pstate" where
  "sample_state st = \<lparr>ps_db = (sample_db [])\<lparr>targets := [sample_target\<lparr>t_driver_override := ''fake''\<rparr>],
       revisions := [], destinations := [], runs := [sample_run 5 st]\<rparr>,
     ps_store = sample_fs, ps_keys = []\<rparr>"

definition sample_clock :: clock where
  "sample_clock = \<lparr>ck_started = 10, ck_finished = 20, ck_created = 19, ck_replicated = 21\<rparr>"

lemma sample_execution_context:
  "\<exists>ctx. get_execution_context sample_runtime (ps_db (sample_state st)) 5 = Inr ctx
     \<and> ec_driver_id ctx = ''fake'' \<and> ec_receiver ctx = None \<and> ec_secret_provider_id ctx = None
     \<and> ec_secret_reference ctx = None \<and> ec_device_id ctx = 11 \<and> ec_target_id ctx = 1"
  by (simp add: get_execution_context_def get_target_execution_context_def get_run_def get_target_def row_get_def
      sample_state_def sample_db_def sample_run_def sample_target_def sample_device_def enabled_mapping_def
      or_option_def Let_def empty_db_def)

text \<open>
  Executing a run that is no longer queued (finished, cancelled or already running elsewhere)
  destroys its record: \<open>mark_running\<close> refuses it, but the general exception handler then marks the
  run as errored and counts one more failure against the target, whatever its status was.
\<close>

theorem executing_a_finished_run_overwrites_it:
  assumes "ps_keys s = []" "get_execution_context rt (ps_db s) k = Inr ctx" "get_run (ps_db s) k = Inr run"
    "r_status run \<noteq> RQueued"
    "mark_failed rt k RErrored ''INTERNAL_ERROR'' ''Unexpected internal backup error.'' (ck_finished ck) (ps_db s) = Inr ((), d')"
  shows "\<exists>msg. execute rt pl u ck k s = (Inl (ValueError msg), s\<lparr>ps_db := d'\<rparr>)
    \<and> get_run d' k = Inr (run\<lparr>r_status := RErrored, r_finished_at := Some (ck_finished ck),
        r_error_code := ''INTERNAL_ERROR'', r_error_message := ''Unexpected internal backup error.''\<rparr>)"
proof -
  let ?e = "ValueError (''Run '' @ show_int k @ '' is not queued.'')"
  have "mark_running k (ck_started ck) (ps_db s) = Inl ?e"
    using assms(3,4) by (simp add: mark_running_def)
  then have "execute_body rt pl u ck k s = (Inl ?e, s)"
    using assms(2)
    by (simp add: execute_body_def collect_stage_def bindS_def read_db_def readS_def on_db_def atomic_def)
  then have "execute rt pl u ck k s = (Inl ?e, s\<lparr>ps_db := d'\<rparr>)"
    using assms(1,5)
    by (simp add: execute_def catchS_def handle_failure_def rollback_storage_def bindS_def returnS_def
        on_db_def atomic_def raiseS_def)
  moreover have "get_run d' k = Inr (run\<lparr>r_status := RErrored, r_finished_at := Some (ck_finished ck),
        r_error_code := ''INTERNAL_ERROR'', r_error_message := ''Unexpected internal backup error.''\<rparr>)"
    by (rule mark_failed_run [OF assms(5)]) (use assms(3) in simp)
  ultimately show ?thesis by blast
qed

theorem executing_a_finished_run_overwrites_it_witness:
  "\<exists>s' e run. execute sample_runtime (sample_pipeline LocalConfigStorage) ''u1'' sample_clock 5
        (sample_state RSuccessChanged) = (Inl e, s')
     \<and> get_run (ps_db s') 5 = Inr run \<and> r_status run = RErrored"
proof -
  let ?s = "sample_state RSuccessChanged"
  have g: "get_run (ps_db ?s) 5 = Inr (sample_run 5 RSuccessChanged)" and k: "ps_keys ?s = []"
    and r: "r_status (sample_run 5 RSuccessChanged) \<noteq> RQueued"
    by (simp_all add: get_run_def row_get_def sample_state_def sample_db_def sample_run_def)
  obtain ctx where c: "get_execution_context sample_runtime (ps_db ?s) 5 = Inr ctx"
    using sample_execution_context by blast
  obtain d' where m: "mark_failed sample_runtime 5 RErrored ''INTERNAL_ERROR''
      ''Unexpected internal backup error.'' (ck_finished sample_clock) (ps_db ?s) = Inr ((), d')"
    by (simp add: mark_failed_def get_run_def get_target_def row_get_def sample_state_def sample_db_def
        empty_db_def sample_run_def sample_target_def failure_next_run_def calculate_failure_next_run_def
        sample_policy_def sample_runtime_def py_index_def time_defs sample_clock_def save_target_checked_def
        validate_driver_assignment_def driver_is_enabled_def Let_def)
  from executing_a_finished_run_overwrites_it [OF k c g r m, of "sample_pipeline LocalConfigStorage" "''u1''"]
  obtain msg where "execute sample_runtime (sample_pipeline LocalConfigStorage) ''u1'' sample_clock 5 ?s
      = (Inl (ValueError msg), ?s\<lparr>ps_db := d'\<rparr>)" and "\<exists>run. get_run d' 5 = Inr run \<and> r_status run = RErrored"
    by auto
  then show ?thesis by force
qed

lemma validate_prepare_artifact:
  "(\<exists>u. validate_artifact drv a = Inr u) \<longleftrightarrow> (\<exists>p. prepare_artifact e drv a = Inr p)"
  by (cases "dr_normalize drv a") (auto simp: validate_artifact_def prepare_artifact_def result_simps split: if_splits)

lemma traverse_Inr_iff: "(\<exists>ys. traverse f xs = Inr ys) \<longleftrightarrow> (\<forall>x \<in> set xs. \<exists>y. f x = Inr y)"
  by (induction xs) (auto simp: result_simps)

lemma validate_prepare_artifacts:
  "validate_artifacts drv xs = Inr () \<longleftrightarrow> (\<exists>ps. prepare_artifacts e drv xs = Inr ps)"
proof -
  have "(\<exists>us. traverse (validate_artifact drv) xs = Inr us) \<longleftrightarrow> (\<exists>ps. traverse (prepare_artifact e drv) xs = Inr ps)"
    using validate_prepare_artifact [of drv _ e] by (simp add: traverse_Inr_iff)
  then show ?thesis by (auto simp: validate_artifacts_def prepare_artifacts_def result_simps)
qed

text \<open>
  The connection test is a faithful rehearsal of a run: it reports success exactly when the
  pipeline, started on the same target, gets through collection, validation and normalisation.
\<close>

theorem connection_test_rehearses_pipeline:
  assumes "get_target_execution_context rt d tid = Inr ctx"
  shows "(\<exists>res. test_connection rt (pl_drivers pl) (pl_secrets pl) d tid = Inr res \<and> ct_success res)
     \<longleftrightarrow> (\<exists>drv prepared. collect_prepared rt pl ctx = Inr (drv, prepared))"
proof -
  have cred: "resolve_credentials DriverError (pl_secrets pl) ctx = Inr c \<longleftrightarrow>
      resolve_credentials PipelineOperationError (pl_secrets pl) ctx = Inr c" for c
    by (simp add: resolve_credentials_def)
  have rec: "resolve_receiver DriverError (pl_secrets pl) ctx = Inr r \<longleftrightarrow>
      resolve_receiver PipelineOperationError (pl_secrets pl) ctx = Inr r" for r
    by (simp add: resolve_receiver_def split: option.splits)
  let ?steps = "bindE (create_enabled_driver (pl_drivers pl) (rt_disabled_drivers rt) (ec_driver_id ctx)) (\<lambda>drv.
                bindE (resolve_credentials DriverError (pl_secrets pl) ctx) (\<lambda>credentials.
                bindE (resolve_receiver DriverError (pl_secrets pl) ctx) (\<lambda>receiver.
                bindE (dr_collect drv (driver_context_of ctx credentials receiver)) (\<lambda>collected.
                bindE (validate_artifacts drv collected) (\<lambda>_. Inr collected)))))"
  have fail: "connection_handler k e = Inr res \<Longrightarrow> \<not> ct_success res" for k e res
    by (cases e) (auto simp: connection_failure_def)
  have "(\<exists>res. test_connection rt (pl_drivers pl) (pl_secrets pl) d tid = Inr res \<and> ct_success res)
      \<longleftrightarrow> (\<exists>xs. ?steps = Inr xs)"
    using assms fail by (auto simp: test_connection_def split: sum.splits)
  also have "\<dots> \<longleftrightarrow> (\<exists>drv prepared. collect_prepared rt pl ctx = Inr (drv, prepared))"
    using validate_prepare_artifacts [of _ _ "rt_env rt"]
    by (simp add: collect_prepared_def bindE_eq_Inr cred rec) blast
  finally show ?thesis .
qed

theorem connection_test_rehearses_pipeline_witness:
  "\<exists>res. test_connection sample_runtime (pl_drivers (sample_pipeline LocalConfigStorage)) []
        (ps_db (sample_state RQueued)) 1 = Inr res \<and> ct_success res"
proof -
  obtain ctx where c: "get_execution_context sample_runtime (ps_db (sample_state RQueued)) 5 = Inr ctx"
    and e: "ec_driver_id ctx = ''fake''" "ec_receiver ctx = None" "ec_secret_provider_id ctx = None"
      "ec_secret_reference ctx = None"
    using sample_execution_context by blast
  then obtain ctx' where c': "get_target_execution_context sample_runtime (ps_db (sample_state RQueued)) 1 = Inr ctx'"
    and e': "ctx = ctx'\<lparr>ec_run_id := Some 5\<rparr>"
    by (auto simp: get_execution_context_def get_run_def row_get_def sample_state_def sample_db_def sample_run_def
        result_simps)
  have "\<exists>drv prepared. collect_prepared sample_runtime (sample_pipeline LocalConfigStorage) ctx' = Inr (drv, prepared)"
    using e by (simp add: e' collect_prepared_def create_enabled_driver_def create_driver_def driver_is_enabled_def
        sample_runtime_def sample_pipeline_def resolve_credentials_def resolve_receiver_def truthy_def
        sample_driver_def prepare_artifacts_def prepare_artifact_def)
  with connection_test_rehearses_pipeline [OF c', of "sample_pipeline LocalConfigStorage"] show ?thesis
    by (simp add: sample_pipeline_def)
qed

section \<open>Committed artifacts\<close>

text \<open>What \<open>CollectedArtifact.__post_init__\<close> guarantees of a file name, and what a UUID satisfies.\<close>

definition plain_name :: "string \<Rightarrow> bool" where
  "plain_name n \<longleftrightarrow> n \<noteq> [] \<and> CHR ''/'' \<notin> set n"

definition drivers_construct_artifacts :: "driver_registry \<Rightarrow> bool" where
  "drivers_construct_artifacts reg \<longleftrightarrow>
     (\<forall>(k, drv) \<in> set reg. \<forall>dc xs. dr_collect drv dc = Inr xs \<longrightarrow>
        (\<forall>x \<in> set xs. mk_collected_artifact (ca_artifact_type x) (ca_filename x) (ca_content x) (ca_format x)
                         (ca_is_primary x) = Inr x))"

lemma path_parts_step:
  "CHR ''/'' \<notin> set p \<Longrightarrow> path_parts (p @ CHR ''/'' # q) = (if p = [] \<or> p = ''.'' then [] else [p]) @ path_parts q"
  by (simp add: path_parts_def split_on_append)

lemma path_parts_plain: "CHR ''/'' \<notin> set p \<Longrightarrow> path_parts p = (if p = [] \<or> p = ''.'' then [] else [p])"
  by (simp add: path_parts_def split_on_no_sep)

lemma show_int_component: "CHR ''/'' \<notin> set (show_int i)" "show_int i \<noteq> []" "show_int i \<noteq> ''.''"
proof -
  have "c \<in> set (show_nat n) \<Longrightarrow> c \<noteq> CHR ''/'' \<and> c \<noteq> CHR ''.''" for c n
    using show_nat_digits [of c n] by auto
  then have n: "CHR ''/'' \<notin> set (show_nat n)" "CHR ''.'' \<notin> set (show_nat n)" for n by auto
  show "CHR ''/'' \<notin> set (show_int i)" "show_int i \<noteq> []" using n(1) by (auto simp: show_int_def)
  show "show_int i \<noteq> ''.''"
  proof
    assume "show_int i = ''.''"
    then have "show_nat (nat i) = ''.''" by (auto simp: show_int_def split: if_splits)
    with n(2) [of "nat i"] show False by simp
  qed
qed

lemma artifact_key_parts:
  assumes "plain_name u" "u \<noteq> ''.''" "plain_name (ca_filename (pa_artifact i))"
  shows "path_parts (artifact_key ctx u i) = [''devices'', show_int (ec_device_id ctx), ''revisions'', u]
    @ (if ca_filename (pa_artifact i) = ''.'' then [] else [ca_filename (pa_artifact i)])"
proof -
  have 1: "path_parts (''devices'' @ CHR ''/'' # q) = ''devices'' # path_parts q"
    and 2: "path_parts (''revisions'' @ CHR ''/'' # q) = ''revisions'' # path_parts q" for q
    by (subst path_parts_step; simp)+
  have 3: "path_parts (show_int (ec_device_id ctx) @ CHR ''/'' # q) = show_int (ec_device_id ctx) # path_parts q" for q
    using show_int_component [of "ec_device_id ctx"] by (simp add: path_parts_step)
  have 4: "path_parts (u @ CHR ''/'' # q) = u # path_parts q" for q
    using assms(1,2) by (simp add: path_parts_step plain_name_def)
  have "artifact_key ctx u i = ''devices'' @ CHR ''/'' # (show_int (ec_device_id ctx) @ CHR ''/'' #
      (''revisions'' @ CHR ''/'' # (u @ CHR ''/'' # ca_filename (pa_artifact i))))"
    by (simp add: artifact_key_def)
  then show ?thesis
    using assms(3) by (simp only: 1 2 3 4) (simp add: path_parts_plain plain_name_def)
qed

lemma artifact_key_inj:
  assumes "plain_name u" "u \<noteq> ''.''" "\<forall>i \<in> set items. plain_name (ca_filename (pa_artifact i))"
    "distinct (map (artifact_key ctx u) items)"
  shows "distinct (map (\<lambda>i. path_parts (artifact_key ctx u i)) items)"
proof -
  have "artifact_key ctx u i = artifact_key ctx u j"
    if "i \<in> set items" "j \<in> set items" "path_parts (artifact_key ctx u i) = path_parts (artifact_key ctx u j)" for i j
  proof -
    have "ca_filename (pa_artifact i) = ca_filename (pa_artifact j)"
      using that assms(3) artifact_key_parts [OF assms(1,2), of i ctx] artifact_key_parts [OF assms(1,2), of j ctx]
      by (auto split: if_splits)
    then show ?thesis by (simp add: artifact_key_def)
  qed
  with assms(4) show ?thesis by (auto simp: distinct_map inj_on_def)
qed

lemma length_filter_map_eq: "map P xs = map Q ys \<Longrightarrow> length (filter P xs) = length (filter Q ys)"
  by (induction xs arbitrary: ys) auto

lemma prepare_artifacts_Inr:
  assumes "prepare_artifacts e drv xs = Inr ps"
  shows "xs \<noteq> []" "ps \<noteq> []"
    "\<forall>p \<in> set ps. pa_artifact p \<in> set xs \<and> pa_raw_hash p = sha256_hex e (ca_content (pa_artifact p))
       \<and> pa_is_primary p = ca_is_primary (pa_artifact p)"
    "length (filter pa_is_primary ps) = 1"
proof -
  from assms have t: "traverse (prepare_artifact e drv) xs = Inr ps" and xs: "xs \<noteq> []"
    and one: "length (filter ca_is_primary xs) = 1"
    by (auto simp: prepare_artifacts_def split: if_splits)
  have step: "pa_artifact p = x \<and> pa_raw_hash p = sha256_hex e (ca_content x) \<and> pa_is_primary p = ca_is_primary x"
    if "prepare_artifact e drv x = Inr p" for x p
    using that by (auto simp: prepare_artifact_def result_simps split: if_splits sum.splits)
  show "xs \<noteq> []" by (rule xs)
  show "ps \<noteq> []" using traverse_length [OF t] xs by auto
  show "\<forall>p \<in> set ps. pa_artifact p \<in> set xs \<and> pa_raw_hash p = sha256_hex e (ca_content (pa_artifact p))
       \<and> pa_is_primary p = ca_is_primary (pa_artifact p)"
    using traverse_Inr_set [OF t] step by blast
  have "map pa_is_primary ps = map ca_is_primary xs"
    using traverse_list_all2 [OF t] step by (induction rule: list_all2_induct) auto
  from length_filter_map_eq [OF this] one show "length (filter pa_is_primary ps) = 1" by simp
qed

lemma collect_prepared_plain:
  assumes "drivers_construct_artifacts (pl_drivers pl)" "collect_prepared rt pl ctx = Inr (drv, ps)" "p \<in> set ps"
  shows "plain_name (ca_filename (pa_artifact p))"
proof -
  from assms(2) obtain dc xs where k: "create_enabled_driver (pl_drivers pl) (rt_disabled_drivers rt) (ec_driver_id ctx) = Inr drv"
    and xs: "dr_collect drv dc = Inr xs" and ps: "prepare_artifacts (rt_env rt) drv xs = Inr ps"
    by (auto simp: collect_prepared_def result_simps)
  from k have "(ec_driver_id ctx, drv) \<in> set (pl_drivers pl)"
    by (auto simp: create_enabled_driver_def create_driver_def split: if_splits option.splits dest: map_of_SomeD)
  moreover have "pa_artifact p \<in> set xs" using prepare_artifacts_Inr(3) [OF ps] assms(3) by blast
  ultimately have "mk_collected_artifact (ca_artifact_type (pa_artifact p)) (ca_filename (pa_artifact p))
      (ca_content (pa_artifact p)) (ca_format (pa_artifact p)) (ca_is_primary (pa_artifact p)) = Inr (pa_artifact p)"
    using assms(1) xs unfolding drivers_construct_artifacts_def by blast
  then show ?thesis by (auto simp: mk_collected_artifact_def plain_name_def split: if_splits)
qed

lemma new_artifacts_records:
  "a \<in> set (new_artifacts k rid records) \<Longrightarrow> \<exists>x \<in> set records. a_revision_id a = rid \<and> a_storage_key a = sa_storage_key x
     \<and> a_size a = sa_size x \<and> a_raw_hash a = sa_raw_hash x \<and> a_is_primary a = sa_is_primary x
     \<and> a_normalized_hash a = sa_normalized_hash x"
  by (induction k rid records rule: new_artifacts.induct) auto

lemma map_primary_new_artifacts: "map a_is_primary (new_artifacts k rid records) = map sa_is_primary records"
  by (induction k rid records rule: new_artifacts.induct) auto

lemma only_primary: "length (filter P xs) = 1 \<Longrightarrow> x \<in> set xs \<Longrightarrow> P x \<Longrightarrow> hd (filter P xs) = x"
proof -
  assume "length (filter P xs) = 1" "x \<in> set xs" "P x"
  then obtain y where "filter P xs = [y]" by (auto simp: length_Suc_conv)
  moreover have "x \<in> set (filter P xs)" using \<open>x \<in> set xs\<close> \<open>P x\<close> by simp
  ultimately show ?thesis by simp
qed

lemma length_new_artifacts [simp]: "length (new_artifacts k rid records) = length records"
  by (induction k rid records rule: new_artifacts.induct) auto

context storage_contract
begin

lemma stored_contents:
  assumes "wf (ps_store s)" "store_artifacts ops ctx u items s = (Inr records, s')"
    "distinct (map (\<lambda>i. path_parts (artifact_key ctx u i)) items)" "i \<in> set items"
  shows "objs (ps_store s') (path_parts (artifact_key ctx u i)) = Some (ca_content (pa_artifact i))"
proof -
  let ?zs = "rev (map (\<lambda>i. (path_parts (artifact_key ctx u i), ca_content (pa_artifact i))) items)"
  have "distinct (map fst ?zs)" using assms(3) by (simp add: rev_map [symmetric] comp_def)
  then have "map_of ?zs (path_parts (artifact_key ctx u i)) = Some (ca_content (pa_artifact i))"
    by (rule map_of_is_SomeI) (use assms(4) in auto)
  with store_artifacts_Inr [OF assms(1,2)] show ?thesis by (simp add: map_add_Some_iff)
qed

lemma committed_artifacts:
  assumes "wf (ps_store s)" "pl_storage pl = ops" "plain_name u" "u \<noteq> ''.''"
    "drivers_construct_artifacts (pl_drivers pl)" "execute rt pl u ck k s = (Inr res, s')" "br_changed res"
  shows "\<exists>rv new. revisions (ps_db s') = revisions (ps_db s) @ [rv] \<and> br_revision_id res = Some (rev_pk rv)
    \<and> artifacts (ps_db s') = artifacts (ps_db s) @ new \<and> length (filter a_is_primary new) = 1
    \<and> (\<forall>a \<in> set new. a_revision_id a = rev_pk rv
         \<and> (\<exists>c. objs (ps_store s') (path_parts (a_storage_key a)) = Some c
              \<and> a_size a = int (length c) \<and> a_raw_hash a = sha256_hex (rt_env rt) c)
         \<and> (a_is_primary a \<longrightarrow> a_normalized_hash a = rev_normalized_hash rv))"
proof -
  have body: "execute_body rt pl u ck k s = (Inr res, s')"
  proof (rule ccontr)
    assume "execute_body rt pl u ck k s \<noteq> (Inr res, s')"
    with assms(6) obtain e s1 where "handle_failure rt pl (ck_finished ck) k e s1 = (Inr res, s')"
      by (auto simp: execute_def catchS_def split: prod.splits sum.splits)
    then have "\<not> br_changed res"
      by (auto simp: handle_failure_def prog_simps split: option.splits)
    with assms(7) show False by simp
  qed
  from body show ?thesis
  proof (cases rule: execute_body_cases)
    case (unchanged ctx drv prepared s1 raw)
    from unchanged(2) assms(7) show ?thesis by (auto elim: unchanged_stage_Inr)
  next
    case (stored ctx drv prepared s1 cc raw)
    note same = collect_stage_same [OF stored(1)]
    from collect_stage_Inr [OF stored(1)] have cp: "collect_prepared rt pl ctx = Inr (drv, prepared)" by simp
    then obtain xs where ps: "prepare_artifacts (rt_env rt) drv xs = Inr prepared"
      by (auto simp: collect_prepared_def result_simps)
    note prep = prepare_artifacts_Inr [OF ps]
    from stored(2) show ?thesis
    proof (rule store_stage_Inr)
      fix records s2 rid run rv
      assume st: "store_artifacts (pl_storage pl) ctx u prepared s1 = (Inr records, s2)"
        and s2: "ps_store s' = ps_store s2" "revisions (ps_db s') = revisions (ps_db s2) @ [rv]" "rev_pk rv = rid"
          "br_revision_id res = Some rid"
          "rev_normalized_hash rv = pa_normalized_hash (hd (filter pa_is_primary prepared))"
          "artifacts (ps_db s') = artifacts (ps_db s2) @ new_artifacts (rid + 1) rid records"
        and ins: "revision_insertable u records (ps_db s2)"
      have wf1: "wf (ps_store s1)" using same assms(1) by simp
      note st' = st [unfolded assms(2)]
      note facts = store_artifacts_Inr [OF wf1 st']
      let ?new = "new_artifacts (rid + 1) rid records"
      have keys: "distinct (map (\<lambda>i. path_parts (artifact_key ctx u i)) prepared)"
        using ins facts collect_prepared_plain [OF assms(5) cp]
        by (intro artifact_key_inj [OF assms(3,4)]) (auto simp: revision_insertable_def item_record_def comp_def)
      note contents = stored_contents [OF wf1 st' keys]
      have rec: "\<exists>i \<in> set prepared. x = item_record ctx u i" if "x \<in> set records" for x
        using facts that by auto
      have "a_revision_id a = rev_pk rv
         \<and> (\<exists>c. objs (ps_store s') (path_parts (a_storage_key a)) = Some c
              \<and> a_size a = int (length c) \<and> a_raw_hash a = sha256_hex (rt_env rt) c)
         \<and> (a_is_primary a \<longrightarrow> a_normalized_hash a = rev_normalized_hash rv)" if "a \<in> set ?new" for a
      proof -
        from new_artifacts_records [OF that] rec obtain i where i: "i \<in> set prepared" and a: "a_revision_id a = rid"
          "a_storage_key a = artifact_key ctx u i" "a_size a = int (length (ca_content (pa_artifact i)))"
          "a_raw_hash a = pa_raw_hash i" "a_is_primary a = pa_is_primary i" "a_normalized_hash a = pa_normalized_hash i"
          by (fastforce simp: item_record_def)
        from contents [OF i] prep(3) i only_primary [OF prep(4) i] show ?thesis
          by (simp add: a s2)
      qed
      moreover have "length (filter a_is_primary ?new) = 1"
      proof -
        have "map a_is_primary ?new = map pa_is_primary prepared"
          using facts by (simp add: map_primary_new_artifacts item_record_def comp_def)
        from length_filter_map_eq [OF this] prep(4) show ?thesis by simp
      qed
      moreover have "revisions (ps_db s') = revisions (ps_db s) @ [rv]" "artifacts (ps_db s') = artifacts (ps_db s) @ ?new"
        using s2 same facts by simp_all
      ultimately show ?thesis using s2 by blast
    qed
  qed simp
qed

end

lemma item_paths_inside:
  assumes "plain_name u" "u \<noteq> ''.''" "\<forall>i \<in> set items. plain_name (ca_filename (pa_artifact i))" "p \<in> item_paths ctx u items"
  shows "is_prefix [''devices'', show_int (ec_device_id ctx), ''revisions'', u] p"
  using assms artifact_key_parts [OF assms(1,2)] by (force simp: item_paths_def is_prefix_append)

context storage_contract
begin

lemma handle_failure_frame:
  assumes "wf (ps_store s)" "pl_storage pl = ops" "handle_failure rt pl f k e s = (r, s')" "p \<notin> path_parts ` set (ps_keys s)"
  shows "objs (ps_store s') p = objs (ps_store s) p"
  using assms(3)
proof (rule handle_failure_effect)
  fix r1 s1
  assume "rollback_storage (pl_storage pl) s = (r1, s1)" "ps_store s' = ps_store s1"
  with rollback_frame [OF assms(1), of r1 s1] assms(2,4) show ?thesis by auto
qed

lemma execute_body_frame:
  assumes "wf (ps_store s)" "pl_storage pl = ops" "ps_keys s = []" "execute_body rt pl u ck k s = (r, s')"
  shows "(ps_store s' = ps_store s \<and> ps_keys s' = []) \<or>
    (\<exists>ctx drv items. get_execution_context rt (ps_db s) k = Inr ctx \<and> collect_prepared rt pl ctx = Inr (drv, items)
       \<and> wf (ps_store s') \<and> set (ps_keys s') \<subseteq> artifact_key ctx u ` set items
       \<and> (\<forall>p. \<not> scratch p \<longrightarrow> p \<notin> item_paths ctx u items \<longrightarrow> objs (ps_store s') p = objs (ps_store s) p))"
  using assms(4)
proof (cases rule: execute_body_cases)
  case (early e r1)
  with collect_stage_same [OF early(2)] assms(3) show ?thesis by simp
next
  case (unchanged ctx drv prepared s1 raw)
  have "ps_store s' = ps_store s1 \<and> ps_keys s' = ps_keys s1"
    using unchanged(2) by (auto simp: unchanged_stage_def bindS_def on_db_def atomic_def returnS_def
        split: prod.splits sum.splits)
  with collect_stage_same [OF unchanged(1)] assms(3) show ?thesis by simp
next
  case (stored ctx drv prepared s1 cc raw)
  note same = collect_stage_same [OF stored(1)]
  have "\<exists>r s2. store_artifacts ops ctx u prepared s1 = (r, s2) \<and> ps_store s' = ps_store s2 \<and> ps_keys s' = ps_keys s2"
    using stored(2) assms(2) by (auto simp: store_stage_def bindS_def on_db_def atomic_def returnS_def
        split: prod.splits sum.splits)
  then obtain r2 s2 where st: "store_artifacts ops ctx u prepared s1 = (r2, s2)"
    and s': "ps_store s' = ps_store s2" "ps_keys s' = ps_keys s2" by blast
  have "wf (ps_store s1)" using same assms(1) by simp
  from store_artifacts_frame [OF this st] same assms(3) s' collect_stage_Inr [OF stored(1)] show ?thesis by auto
qed

lemma execute_isolated:
  assumes "wf (ps_store s)" "pl_storage pl = ops" "ps_keys s = []" "plain_name u" "u \<noteq> ''.''"
    "drivers_construct_artifacts (pl_drivers pl)" "execute rt pl u ck k s = (r, s')" "\<not> scratch p"
    "\<forall>ctx. get_execution_context rt (ps_db s) k = Inr ctx \<longrightarrow>
       \<not> is_prefix [''devices'', show_int (ec_device_id ctx), ''revisions'', u] p"
  shows "objs (ps_store s') p = objs (ps_store s) p"
proof (cases "execute_body rt pl u ck k s")
  case (Pair r1 s1)
  have body: "objs (ps_store s1) p = objs (ps_store s) p \<and> wf (ps_store s1) \<and> p \<notin> path_parts ` set (ps_keys s1)"
    using execute_body_frame [OF assms(1,2,3) Pair]
  proof
    assume "\<exists>ctx drv items. get_execution_context rt (ps_db s) k = Inr ctx \<and> collect_prepared rt pl ctx = Inr (drv, items)
       \<and> wf (ps_store s1) \<and> set (ps_keys s1) \<subseteq> artifact_key ctx u ` set items
       \<and> (\<forall>p. \<not> scratch p \<longrightarrow> p \<notin> item_paths ctx u items \<longrightarrow> objs (ps_store s1) p = objs (ps_store s) p)"
    then obtain ctx drv items where *: "get_execution_context rt (ps_db s) k = Inr ctx"
      "collect_prepared rt pl ctx = Inr (drv, items)" "wf (ps_store s1)"
      "set (ps_keys s1) \<subseteq> artifact_key ctx u ` set items"
      "\<And>p. \<not> scratch p \<Longrightarrow> p \<notin> item_paths ctx u items \<Longrightarrow> objs (ps_store s1) p = objs (ps_store s) p" by blast
    have "p \<notin> item_paths ctx u items"
      using item_paths_inside [OF assms(4,5)] collect_prepared_plain [OF assms(6) *(2)] assms(9) *(1) by blast
    with * assms(8) show ?thesis by (auto simp: item_paths_def)
  qed (use assms(1) in simp)
  show ?thesis
  proof (cases r1)
    case (Inl e)
    with Pair assms(7) have "handle_failure rt pl (ck_finished ck) k e s1 = (r, s')"
      by (simp add: execute_def catchS_def)
    from handle_failure_frame [OF _ assms(2) this] body show ?thesis by simp
  next
    case (Inr x)
    with Pair assms(7) have "s' = s1" by (simp add: execute_def catchS_def)
    with body show ?thesis by simp
  qed
qed

end

definition sample_execution :: "backup_result result \<times> local_fs pstate" where
  "sample_execution = execute sample_runtime (sample_pipeline LocalConfigStorage) ''u1'' sample_clock 5 (sample_state RQueued)"

lemma sample_execution_succeeds:
  obtains res s' where "execute sample_runtime (sample_pipeline LocalConfigStorage) ''u1'' sample_clock 5
      (sample_state RQueued) = (Inr res, s')" "br_changed res" "br_status res = RSuccessChanged"
proof -
  have "case fst sample_execution of Inl e \<Rightarrow> False | Inr res \<Rightarrow> br_changed res \<and> br_status res = RSuccessChanged"
    by code_simp
  then show thesis
    using that [of _ "snd sample_execution"]
    by (cases sample_execution) (auto simp: sample_execution_def split: sum.splits)
qed

lemma sample_pipeline_artifacts: "drivers_construct_artifacts (pl_drivers (sample_pipeline ops))"
  by (simp add: drivers_construct_artifacts_def sample_pipeline_def sample_driver_def mk_collected_artifact_def)

lemma sample_uuid: "plain_name ''u1''" "''u1'' \<noteq> ''.''"
  by (simp_all add: plain_name_def)

lemma sample_state_store: "local_wf (ps_store (sample_state st))"
  by (simp add: sample_state_def sample_fs_wf)

theorem execute_records_result_witness:
  "\<exists>res s' run. execute sample_runtime (sample_pipeline LocalConfigStorage) ''u1'' sample_clock 5
      (sample_state RQueued) = (Inr res, s') \<and> get_run (ps_db s') 5 = Inr run
      \<and> r_status run = RSuccessChanged \<and> r_revision run = br_revision_id res"
proof -
  obtain res s' where e: "execute sample_runtime (sample_pipeline LocalConfigStorage) ''u1'' sample_clock 5
      (sample_state RQueued) = (Inr res, s')" and s: "br_status res = RSuccessChanged"
    using sample_execution_succeeds by metis
  from execute_records_result [OF e] s
  obtain run where "get_run (ps_db s') 5 = Inr run" "r_status run = RSuccessChanged" "r_revision run = br_revision_id res"
    by auto
  with e show ?thesis by blast
qed

text \<open>
  C2. A run that reports a changed configuration leaves the revision it reports, the newest row of the
  table, with its artifact rows, and the store holds exactly what these rows describe: for every
  artifact an object of the recorded size and SHA-256, and one of them, the primary one, carries the
  normalised hash of the revision.
\<close>

theorem committed_artifacts_are_stored:
  assumes "local_wf (ps_store s)" "pl_storage pl = LocalConfigStorage" "plain_name u" "u \<noteq> ''.''"
    "drivers_construct_artifacts (pl_drivers pl)" "execute rt pl u ck k s = (Inr res, s')" "br_changed res"
  shows "\<exists>rv new. revisions (ps_db s') = revisions (ps_db s) @ [rv] \<and> br_revision_id res = Some (rev_pk rv)
    \<and> artifacts (ps_db s') = artifacts (ps_db s) @ new \<and> length (filter a_is_primary new) = 1
    \<and> (\<forall>a \<in> set new. a_revision_id a = rev_pk rv
         \<and> (\<exists>c. local_objs (ps_store s') (path_parts (a_storage_key a)) = Some c
              \<and> a_size a = int (length c) \<and> a_raw_hash a = sha256_hex (rt_env rt) c)
         \<and> (a_is_primary a \<longrightarrow> a_normalized_hash a = rev_normalized_hash rv))"
  using assms by (rule local_store.committed_artifacts)

theorem committed_artifacts_are_stored_witness:
  "\<exists>res s' rv. execute sample_runtime (sample_pipeline LocalConfigStorage) ''u1'' sample_clock 5
      (sample_state RQueued) = (Inr res, s') \<and> revisions (ps_db s') = [rv] \<and> br_revision_id res = Some (rev_pk rv)"
proof -
  obtain res s' where e: "execute sample_runtime (sample_pipeline LocalConfigStorage) ''u1'' sample_clock 5
      (sample_state RQueued) = (Inr res, s')" and c: "br_changed res"
    using sample_execution_succeeds by metis
  have "pl_storage (sample_pipeline LocalConfigStorage) = LocalConfigStorage" by (simp add: sample_pipeline_def)
  from committed_artifacts_are_stored [OF sample_state_store this sample_uuid sample_pipeline_artifacts e c]
  obtain rv where "revisions (ps_db s') = revisions (ps_db (sample_state RQueued)) @ [rv]"
    "br_revision_id res = Some (rev_pk rv)" by blast
  with e show ?thesis by (auto simp: sample_state_def)
qed

text \<open>
  C12. Whatever the outcome of a run, it touches no stored object outside the directory of the revision
  it creates (temporary files apart): the artifacts of other revisions and devices keep their content,
  also when the run fails and its storage is rolled back.
\<close>

theorem pipeline_isolated:
  assumes "local_wf (ps_store s)" "pl_storage pl = LocalConfigStorage" "ps_keys s = []" "plain_name u" "u \<noteq> ''.''"
    "drivers_construct_artifacts (pl_drivers pl)" "execute rt pl u ck k s = (r, s')" "\<not> temp_part p"
    "\<forall>ctx. get_execution_context rt (ps_db s) k = Inr ctx \<longrightarrow>
       \<not> is_prefix [''devices'', show_int (ec_device_id ctx), ''revisions'', u] p"
  shows "local_objs (ps_store s') p = local_objs (ps_store s) p"
  using assms by (rule local_store.execute_isolated)

theorem pipeline_isolated_witness:
  "local_objs (ps_store (snd (execute sample_runtime (sample_pipeline LocalConfigStorage) ''u1'' sample_clock 5
      (sample_state RQueued)))) [''devices'', ''11''] = None"
proof -
  let ?x = "execute sample_runtime (sample_pipeline LocalConfigStorage) ''u1'' sample_clock 5 (sample_state RQueued)"
  have s: "pl_storage (sample_pipeline LocalConfigStorage) = LocalConfigStorage" "ps_keys (sample_state RQueued) = []"
    by (simp_all add: sample_pipeline_def sample_state_def)
  have p: "\<not> temp_part [''devices'', ''11'']" by (simp add: temp_part_def)
  have o: "\<forall>ctx. get_execution_context sample_runtime (ps_db (sample_state RQueued)) 5 = Inr ctx \<longrightarrow>
       \<not> is_prefix [''devices'', show_int (ec_device_id ctx), ''revisions'', ''u1''] [''devices'', ''11'']"
    by (simp add: is_prefix_def)
  have "?x = (fst ?x, snd ?x)" by simp
  from pipeline_isolated [OF sample_state_store s sample_uuid sample_pipeline_artifacts this p o] show ?thesis
    by (simp add: sample_state_def sample_fs_def local_objs_def)
qed

end
