(* ===== verification/Dispatcher.thy ===== *)
theory Dispatcher
  imports Health Pipeline
begin

text \<open>
  \<open>services/queueing.py\<close>, \<open>services/run_cancellation.py\<close>, \<open>services/dispatcher.py\<close> and the periodic
  jobs of \<open>jobs.py\<close> that call them: how backup runs come into being, are cancelled, and are released
  when their worker died. Together with \<open>Repository\<close> these are all the operations that change the
  run table, and the run state machine is the relation \<open>run_step\<close> they generate.

  The Redis queue is a parameter: what it reports of a job, whether a worker serves the queue and
  whether deleting a job works, each of which may raise.
\<close>

section \<open>Queueing a run\<close>

fun run_source_value :: "run_source \<Rightarrow> string" where
  "run_source_value SScheduled = ''scheduled''"
| "run_source_value SManual = ''manual''"
| "run_source_value SRetry = ''retry''"
| "run_source_value SPreChange = ''pre_change''"

text \<open>The two unique constraints of the run table, as the database checks them on an insert.\<close>

definition has_active_run :: "db \<Rightarrow> int \<Rightarrow> bool" where
  "has_active_run d tid \<longleftrightarrow> list_ex (\<lambda>r. r_target_id r = tid \<and> is_active_status (r_status r)) (runs d)"

definition dedupe_key_used :: "db \<Rightarrow> int \<Rightarrow> string option \<Rightarrow> bool" where
  "dedupe_key_used d tid key \<longleftrightarrow> key \<noteq> None \<and> list_ex (\<lambda>r. r_target_id r = tid \<and> r_dedupe_key r = key) (runs d)"

definition new_run :: "int \<Rightarrow> int \<Rightarrow> run_source \<Rightarrow> int option \<Rightarrow> string option \<Rightarrow> int \<Rightarrow> backup_run" where
  "new_run k tid source scheduled_for dedupe_key queued_at =
     \<lparr>r_pk = k, r_target_id = tid, r_source = source, r_scheduled_for = scheduled_for,
      r_dedupe_key = dedupe_key, r_queued_at = queued_at, r_started_at = None, r_finished_at = None,
      r_status = RQueued, r_error_code = [], r_error_message = [], r_revision = None,
      r_changed = False, r_raw_changed = False, r_job_id = None\<rparr>"

definition enqueue_backup_run ::
  "int \<Rightarrow> run_source \<Rightarrow> int option \<Rightarrow> string option \<Rightarrow> int \<Rightarrow> db \<Rightarrow> (backup_run \<times> db) result" where
  "enqueue_backup_run tid source scheduled_for dedupe_key queued_at d =
     (if has_active_run d tid \<or> dedupe_key_used d tid dedupe_key then Inl IntegrityError
      else let run = new_run (next_id d) tid source scheduled_for dedupe_key queued_at;
               d1 = d\<lparr>runs := runs d @ [run], next_id := next_id d + 1\<rparr>;
               (jid, d2) = enqueue_job ''Config backup'' None d1;
               run' = run\<lparr>r_job_id := Some jid\<rparr>
           in Inr (run', save_run run' d2))"

section \<open>The queue as the services see it\<close>

datatype rq_status = RqQueued | RqStarted | RqDeferred | RqScheduled | RqFinished | RqFailed | RqStopped | RqCanceled

definition rq_live :: "rq_status option \<Rightarrow> bool" where
  "rq_live s \<longleftrightarrow> s \<in> {Some RqQueued, Some RqStarted, Some RqDeferred, Some RqScheduled}"

record queue_view =
  qv_status :: "job \<Rightarrow> rq_status option result"
  qv_workers :: "job \<Rightarrow> bool result"
  qv_delete :: "job \<Rightarrow> unit result"
  qv_row_lost :: "job \<Rightarrow> bool"

text \<open>
  \<open>job.delete()\<close>: on success the row is gone; when it raises outside a transaction the row may
  already be gone (\<open>qv_row_lost\<close>).
\<close>

definition drop_job :: "job \<Rightarrow> db \<Rightarrow> db" where
  "drop_job j d = d\<lparr>jobs := filter (\<lambda>x. j_id x \<noteq> j_id j) (jobs d)\<rparr>"

definition delete_job :: "queue_view \<Rightarrow> job \<Rightarrow> (db, unit) prog" where
  "delete_job qv j d =
     (case qv_delete qv j of
        Inr u \<Rightarrow> (Inr u, drop_job j d)
      | Inl e \<Rightarrow> (Inl e, if qv_row_lost qv j then drop_job j d else d))"

section \<open>Cancelling a queued run\<close>

record backup_run_cancellation_result =
  cx_run_id :: int
  cx_job_removed :: bool

definition cancelled_row :: "int \<Rightarrow> backup_run \<Rightarrow> backup_run" where
  "cancelled_row now run = run\<lparr>r_status := RSkipped, r_finished_at := Some now, r_error_code := ''CANCELLED'',
     r_error_message := ''Queued backup was cancelled before execution.''\<rparr>"

definition cancel_queued_backup_run ::
  "queue_view \<Rightarrow> int \<Rightarrow> int \<Rightarrow> db \<Rightarrow> (backup_run_cancellation_result \<times> db) result" where
  "cancel_queued_backup_run qv run_id now d =
     bindE (get_run d run_id) (\<lambda>run.
     if r_status run \<noteq> RQueued
     then Inl (BackupRunCancellationError ''Only a backup run which is still queued can be cancelled.'')
     else case job_of d (r_job_id run) of
         None \<Rightarrow> Inr (\<lparr>cx_run_id = r_pk run, cx_job_removed = False\<rparr>, save_run (cancelled_row now run) d)
       | Some j \<Rightarrow>
           if j_status j = JRunning
           then Inl (BackupRunCancellationError
                  ''The worker has already started this backup; wait for it to finish or become stale.'')
           else (case delete_job qv j d of
                   (Inl e, _) \<Rightarrow> Inl (BackupRunCancellationError
                        ''The queued Redis job could not be cancelled. Nothing was changed.'')
                 | (Inr _, d1) \<Rightarrow>
                     Inr (\<lparr>cx_run_id = r_pk run, cx_job_removed = True\<rparr>, save_run (cancelled_row now run) d1)))"

section \<open>Dispatching due targets\<close>

record dispatch_summary =
  ds_initialized :: nat
  ds_due :: nat
  ds_queued :: nat
  ds_skipped_active :: nat
  ds_conflicts :: nat
  ds_worker_unavailable :: bool
  ds_worker_state_unknown :: bool

definition policy_active :: "backup_target \<Rightarrow> bool" where
  "policy_active t \<longleftrightarrow> (case t_policy_override t of None \<Rightarrow> False | Some pol \<Rightarrow> bp_enabled pol)"

definition clear_inactive :: "db \<Rightarrow> db" where
  "clear_inactive d = d\<lparr>targets := map (\<lambda>t. if \<not> t_enabled t \<or> \<not> policy_active t then t\<lparr>t_next_run_at := None\<rparr> else t)
     (targets d)\<rparr>"

definition schedule_target :: "runtime \<Rightarrow> int \<Rightarrow> backup_target \<Rightarrow> (db, unit) prog" where
  "schedule_target rt now t = atomic (\<lambda>d.
     bindE (apply_target_schedule (rt_env rt) t (Aware now)) (\<lambda>t'.
     bindE (save_target_checked rt t' d) (\<lambda>d'. Inr ((), d'))))"

definition initialize_target_schedules :: "runtime \<Rightarrow> int \<Rightarrow> (db, nat) prog" where
  "initialize_target_schedules rt now d =
     (let d1 = clear_inactive d;
          ts = filter (\<lambda>t. t_enabled t \<and> policy_active t \<and> t_next_run_at t = None) (targets d1)
      in bindS (forS (schedule_target rt now) ts) (\<lambda>_. returnS (length ts)) d1)"

text \<open>\<open>datetime.isoformat()\<close> of an aware UTC datetime.\<close>

definition dt_isoformat :: "int \<Rightarrow> string" where
  "dt_isoformat i =
     (let us = i mod day_us; s = us div second_us; f = us mod second_us
      in date_isoformat (utc_date i) @ ''T'' @ zero_pad 2 (s div 3600) @ '':'' @ zero_pad 2 (s div 60 mod 60)
         @ '':'' @ zero_pad 2 (s mod 60) @ (if f = 0 then [] else ''.'' @ zero_pad 6 f) @ ''+00:00'')"

definition run_dedupe_key :: "run_source \<Rightarrow> int \<Rightarrow> string" where
  "run_dedupe_key source scheduled_for = run_source_value source @ '':'' @ dt_isoformat scheduled_for"

definition dispatch_source :: "backup_target \<Rightarrow> run_source" where
  "dispatch_source t =
     (if t_status t = TFailed \<and> is_retry_scheduled (t_policy_override t) (t_consecutive_failures t)
      then SRetry else SScheduled)"

datatype dispatch_outcome = DQueued | DActive | DSkipped | DConflict

text \<open>\<open>next_run_at__lte=now\<close> on an enabled target with an enabled policy.\<close>

definition target_due :: "int \<Rightarrow> backup_target \<Rightarrow> bool" where
  "target_due now t \<longleftrightarrow> t_enabled t \<and> policy_active t \<and> sql_le (t_next_run_at t) now"

text \<open>The transaction of one candidate: the row is read again and the conditions are repeated.\<close>

definition dispatch_target :: "runtime \<Rightarrow> int \<Rightarrow> int \<Rightarrow> int \<Rightarrow> db \<Rightarrow> (dispatch_outcome \<times> db) result" where
  "dispatch_target rt now queued_at tid d =
     bindE (get_target d tid) (\<lambda>t.
     case (t_policy_override t, t_next_run_at t) of
       (Some pol, Some scheduled_for) \<Rightarrow>
         if \<not> t_enabled t \<or> \<not> bp_enabled pol \<or> now < scheduled_for then Inr (DSkipped, d)
         else if has_active_run d (t_pk t) then Inr (DActive, d)
         else let source = dispatch_source t in
              bindE (calculate_next_run (rt_env rt) pol (Aware scheduled_for) (t_pk t)
                       (target_timezone_name (rt_env rt) t) (Some (Aware now))) (\<lambda>next.
              bindE (save_target_checked rt (t\<lparr>t_next_run_at := Some next\<rparr>) d) (\<lambda>d1.
              bindE (enqueue_backup_run (t_pk t) source (Some scheduled_for)
                       (Some (run_dedupe_key source scheduled_for)) queued_at d1) (\<lambda>(run, d2).
              Inr (DQueued, d2))))
     | _ \<Rightarrow> Inr (DSkipped, d))"

fun is_integrity_error :: "exn \<Rightarrow> bool" where
  "is_integrity_error IntegrityError = True"
| "is_integrity_error _ = False"

definition dispatch_candidate :: "runtime \<Rightarrow> int \<Rightarrow> int \<Rightarrow> int \<Rightarrow> (db, dispatch_outcome) prog" where
  "dispatch_candidate rt now queued_at tid =
     catchS (atomic (dispatch_target rt now queued_at tid))
       (\<lambda>e. if is_integrity_error e then returnS DConflict else raiseS e)"

fun mapS :: "('a \<Rightarrow> ('s, 'b) prog) \<Rightarrow> 'a list \<Rightarrow> ('s, 'b list) prog" where
  "mapS f [] = returnS []"
| "mapS f (x # xs) = bindS (f x) (\<lambda>y. bindS (mapS f xs) (\<lambda>ys. returnS (y # ys)))"

text \<open>A slice with a negative bound is refused by Django.\<close>

definition due_target_ids :: "int \<Rightarrow> int \<Rightarrow> db \<Rightarrow> int list result" where
  "due_target_ids now limit d =
     (if limit < 0 then Inl (ValueError ''Negative indexing is not supported.'')
      else Inr (take (nat limit) (map t_pk
             (sort_key (\<lambda>t. the (t_next_run_at t)) (filter (target_due now) (targets d))))))"

definition dispatch_due_targets ::
  "runtime \<Rightarrow> bool result \<Rightarrow> int \<Rightarrow> int \<Rightarrow> int \<Rightarrow> (db, dispatch_summary) prog" where
  "dispatch_due_targets rt workers now queued_at limit =
     bindS (initialize_target_schedules rt now) (\<lambda>n.
     bindS (readS (due_target_ids now limit)) (\<lambda>ids.
     let summary = \<lparr>ds_initialized = n, ds_due = length ids, ds_queued = 0, ds_skipped_active = 0,
           ds_conflicts = 0, ds_worker_unavailable = False, ds_worker_state_unknown = False\<rparr>
     in if ids = [] then returnS summary
        else (case workers of
                Inl _ \<Rightarrow> returnS (summary\<lparr>ds_worker_state_unknown := True\<rparr>)
              | Inr False \<Rightarrow> returnS (summary\<lparr>ds_worker_unavailable := True\<rparr>)
              | Inr True \<Rightarrow>
                  bindS (mapS (dispatch_candidate rt now queued_at) ids) (\<lambda>os.
                  returnS (summary\<lparr>ds_queued := count_list os DQueued,
                    ds_skipped_active := count_list os DActive, ds_conflicts := count_list os DConflict\<rparr>)))))"

section \<open>Releasing runs whose worker died\<close>

text \<open>
  Whether the stale run may be released: its job, when still enqueued, must be known to be dead or
  unserved, and must have been removed from the queue.
\<close>

definition release_stale_job :: "queue_view \<Rightarrow> backup_run \<Rightarrow> (db, bool) prog" where
  "release_stale_job qv run d =
     (case job_of d (r_job_id run) of
        None \<Rightarrow> returnS True d
      | Some j \<Rightarrow>
          if \<not> enqueued_state (j_status j) then returnS True d
          else (case bindE (qv_status qv j) (\<lambda>st. bindE (qv_workers qv j) (\<lambda>w. Inr (st, w))) of
                  Inl _ \<Rightarrow> returnS False d
                | Inr (st, w) \<Rightarrow>
                    if rq_live st \<and> w then returnS False d
                    else catchS (bindS (delete_job qv j) (\<lambda>_. returnS True)) (\<lambda>_. returnS False) d))"

definition reconcile_run :: "runtime \<Rightarrow> queue_view \<Rightarrow> int \<Rightarrow> backup_run \<Rightarrow> (db, nat) prog" where
  "reconcile_run rt qv now run =
     bindS (release_stale_job qv run) (\<lambda>free.
     if \<not> free then returnS 0
     else bindS (atomic (mark_failed rt (r_pk run) RErrored ''STALE_RUN''
            ''Backup job ended without completing its run record.'' now)) (\<lambda>_. returnS 1))"

definition reconcile_stale_runs :: "runtime \<Rightarrow> queue_view \<Rightarrow> int \<Rightarrow> int \<Rightarrow> (db, nat) prog" where
  "reconcile_stale_runs rt qv now stale_after_minutes =
     bindS (readS (\<lambda>d. stuck_run_queryset (runs d) now stale_after_minutes)) (\<lambda>candidates.
     sumS (reconcile_run rt qv now) candidates)"

section \<open>The periodic job\<close>

text \<open>\<open>ScheduledBackupDispatcherJob.run\<close>, every minute.\<close>

definition scheduled_backup_dispatcher ::
  "runtime \<Rightarrow> queue_view \<Rightarrow> bool result \<Rightarrow> int \<Rightarrow> int \<Rightarrow> int \<Rightarrow> int \<Rightarrow> int
   \<Rightarrow> (db, nat \<times> dispatch_summary \<times> target_health_refresh_summary) prog" where
  "scheduled_backup_dispatcher rt qv workers now queued_at stale_run_minutes batch_size grace =
     bindS (reconcile_stale_runs rt qv now stale_run_minutes) (\<lambda>reconciled.
     bindS (dispatch_due_targets rt workers now queued_at batch_size) (\<lambda>summary.
     bindS (atomic (refresh_target_health (rt_env rt) (rt_controls rt) (Aware now) grace)) (\<lambda>health.
     returnS (reconciled, summary, health))))"

section \<open>The run table\<close>

text \<open>The unique constraints of the run table, and that fresh keys come from the sequence.\<close>

definition runs_ok :: "db \<Rightarrow> bool" where
  "runs_ok d \<longleftrightarrow> distinct (map r_pk (runs d)) \<and> (\<forall>r \<in> set (runs d). r_pk r < next_id d)
     \<and> (\<forall>tid. length (filter (\<lambda>r. r_target_id r = tid \<and> is_active_status (r_status r)) (runs d)) \<le> 1)
     \<and> (\<forall>tid key. length (filter (\<lambda>r. r_target_id r = tid \<and> r_dedupe_key r = Some key) (runs d)) \<le> 1)"

definition finished_kept :: "db \<Rightarrow> db \<Rightarrow> bool" where
  "finished_kept d d' \<longleftrightarrow> (\<forall>r \<in> set (runs d). \<exists>r' \<in> set (runs d'). r_pk r' = r_pk r \<and> r_target_id r' = r_target_id r
     \<and> (is_active_status (r_status r') \<longrightarrow> is_active_status (r_status r)))"

definition run_frame :: "db \<Rightarrow> db \<Rightarrow> bool" where
  "run_frame d d' \<longleftrightarrow> runs_ok d \<longrightarrow> runs_ok d' \<and> finished_kept d d'"

lemma finished_kept_trans: "finished_kept d d' \<Longrightarrow> finished_kept d' d'' \<Longrightarrow> finished_kept d d''"
  unfolding finished_kept_def by metis

interpretation run_frames: step_relation run_frame
proof
  show "run_frame d d" for d by (auto simp: run_frame_def finished_kept_def)
  show "run_frame d d''" if "run_frame d d'" "run_frame d' d''" for d d' d''
    using that finished_kept_trans [of d d' d''] by (simp add: run_frame_def)
qed

lemma run_frame_same: "runs d' = runs d \<Longrightarrow> next_id d \<le> next_id d' \<Longrightarrow> run_frame d d'"
  by (auto simp: run_frame_def runs_ok_def finished_kept_def intro: less_le_trans)

lemma filter_row_save_le:
  assumes "\<forall>r \<in> set rows. key r = key row \<longrightarrow> P row \<longrightarrow> P r"
  shows "length (filter P (row_save key row rows)) \<le> length (filter P rows)"
  using assms by (induction rows) (auto simp: row_save_def)

text \<open>What the services write to an existing run: it keeps its identity and never becomes active again.\<close>

definition run_update :: "backup_run \<Rightarrow> backup_run \<Rightarrow> bool" where
  "run_update r r' \<longleftrightarrow> r_pk r' = r_pk r \<and> r_target_id r' = r_target_id r \<and> r_dedupe_key r' = r_dedupe_key r
     \<and> (is_active_status (r_status r') \<longrightarrow> is_active_status (r_status r))"

lemma run_frame_save:
  assumes "get_run d k = Inr r" "run_update r r'" "runs d' = row_save r_pk r' (runs d)" "next_id d \<le> next_id d'"
  shows "run_frame d d'"
  unfolding run_frame_def
proof
  assume ok: "runs_ok d"
  from assms(1) have r: "r \<in> set (runs d)" unfolding get_run_def by (blast dest: row_get_Inr)
  have only: "x = r" if "x \<in> set (runs d)" "r_pk x = r_pk r'" for x
    using that r ok assms(2) by (auto simp: runs_ok_def distinct_map run_update_def dest: inj_onD)
  have count: "length (filter P (runs d')) \<le> length (filter P (runs d))" if "P r' \<longrightarrow> P r" for P
    unfolding assms(3) using only that by (intro filter_row_save_le) blast
  have "runs_ok d'"
    unfolding runs_ok_def
  proof (intro conjI allI)
    show "distinct (map r_pk (runs d'))" using ok by (simp add: assms(3) runs_ok_def)
    show "\<forall>x \<in> set (runs d'). r_pk x < next_id d'"
      using ok assms(2,4) r by (force simp: assms(3) in_row_save runs_ok_def run_update_def)
    show "length (filter (\<lambda>r. r_target_id r = tid \<and> is_active_status (r_status r)) (runs d')) \<le> 1" for tid
      using count [of "\<lambda>r. r_target_id r = tid \<and> is_active_status (r_status r)"] ok assms(2)
      by (force simp: runs_ok_def run_update_def intro: order_trans)
    show "length (filter (\<lambda>r. r_target_id r = tid \<and> r_dedupe_key r = Some key) (runs d')) \<le> 1" for tid key
      using count [of "\<lambda>r. r_target_id r = tid \<and> r_dedupe_key r = Some key"] ok assms(2)
      by (force simp: runs_ok_def run_update_def intro: order_trans)
  qed
  moreover have "finished_kept d d'"
    unfolding finished_kept_def
  proof
    fix x assume x: "x \<in> set (runs d)"
    show "\<exists>x' \<in> set (runs d'). r_pk x' = r_pk x \<and> r_target_id x' = r_target_id x
        \<and> (is_active_status (r_status x') \<longrightarrow> is_active_status (r_status x))"
    proof (cases "r_pk x = r_pk r'")
      case True
      with only [OF x] r assms(2) show ?thesis
        by (intro bexI [of _ r']) (auto simp: assms(3) in_row_save run_update_def)
    next
      case False
      with x show ?thesis by (intro bexI [of _ x]) (auto simp: assms(3) in_row_save)
    qed
  qed
  ultimately show "runs_ok d' \<and> finished_kept d d'" ..
qed

lemma run_frame_insert:
  assumes "runs d' = runs d @ [r]" "r_pk r = next_id d" "next_id d < next_id d'"
    "\<not> has_active_run d (r_target_id r)" "\<not> dedupe_key_used d (r_target_id r) (r_dedupe_key r)"
  shows "run_frame d d'"
proof -
  have none: "filter P (runs d) = []" if "\<not> list_ex P (runs d)" for P
    using that by (simp add: filter_empty_conv list_ex_iff)
  have "length (filter P (runs d')) \<le> 1" if "length (filter P (runs d)) \<le> 1" "P r \<Longrightarrow> \<not> list_ex P (runs d)" for P
    using that none [of P] by (auto simp: assms(1))
  then show ?thesis
    using assms
    by (auto simp: run_frame_def runs_ok_def finished_kept_def has_active_run_def dedupe_key_used_def list_ex_iff)
qed

lemma next_id_saves [simp]:
  "next_id (save_target t d) = next_id d" "next_id (save_run r d) = next_id d"
  "next_id (recovered_event rt b k d) = next_id d" "runs (save_run r d) = row_save r_pk r (runs d)"
  by (simp_all add: save_target_def save_run_def recovered_event_def queue_event_def)

lemma mark_target_success_next_id:
  "mark_target_success rt t rid f c d = Inr d' \<Longrightarrow> next_id d' = next_id d"
  by (auto simp: mark_target_success_def Let_def result_simps dest!: save_target_checked_Inr)

text \<open>Every bookkeeping operation of the repository writes one run.\<close>

definition writes_run :: "int \<Rightarrow> db \<Rightarrow> db \<Rightarrow> bool" where
  "writes_run k d d' \<longleftrightarrow> (\<exists>r r'. get_run d k = Inr r \<and> run_update r r' \<and> runs d' = row_save r_pk r' (runs d)
     \<and> next_id d \<le> next_id d')"

lemma writes_run_frame: "writes_run k d d' \<Longrightarrow> run_frame d d'"
  by (auto simp: writes_run_def intro: run_frame_save)

lemma mark_running_writes:
  assumes "mark_running k t d = Inr (u, d')"
  shows "writes_run k d d'"
  using assms
proof (rule mark_running_Inr)
  fix run
  assume "get_run d k = Inr run" "r_status run = RQueued"
    "d' = save_run (run\<lparr>r_status := RRunning, r_started_at := Some t, r_error_code := [], r_error_message := []\<rparr>) d"
  then show ?thesis
    unfolding writes_run_def
    by (intro exI [of _ run] exI [of _ "run\<lparr>r_status := RRunning, r_started_at := Some t, r_error_code := [],
          r_error_message := []\<rparr>"]) (simp add: run_update_def is_active_status_def)
qed

lemma commit_unchanged_writes:
  assumes "commit_unchanged rt k raw f d = Inr (rid, d')"
  shows "writes_run k d d'"
proof -
  from assms obtain run t d2 where r: "get_run d k = Inr run" and
    m: "mark_target_success rt t rid f False (save_run (run\<lparr>r_status := RSuccessUnchanged,
       r_finished_at := Some f, r_changed := False, r_raw_changed := raw, r_revision := rid\<rparr>) d) = Inr d2"
    and d': "d' = recovered_event rt (target_was_unhealthy t) (r_pk run) d2"
    by (auto simp: commit_unchanged_def Let_def result_simps)
  show ?thesis
    unfolding writes_run_def
    using r mark_target_success_Inr [OF m] mark_target_success_next_id [OF m]
    by (intro exI [of _ run] exI [of _ "run\<lparr>r_status := RSuccessUnchanged,
       r_finished_at := Some f, r_changed := False, r_raw_changed := raw, r_revision := rid\<rparr>"])
      (simp add: run_update_def is_active_status_def d')
qed

lemma commit_revision_writes:
  assumes "commit_revision rt k u nh nv drv cc rc items cr f d = Inr (rid, d')"
  shows "writes_run k d d'"
proof -
  from assms obtain run t where r: "get_run d k = Inr run" and t: "get_target d (r_target_id run) = Inr t"
    and ins: "revision_insertable u items d"
    by (auto simp: commit_revision_def result_simps split: if_splits)
  let ?run = "run\<lparr>r_status := (if cc then RSuccessChanged else RSuccessUnchanged), r_finished_at := Some f,
       r_changed := cc, r_raw_changed := rc, r_revision := Some (next_id d)\<rparr>"
  define run' where "run' = ?run"
  define d1 where "d1 = d\<lparr>revisions := revisions d @ [\<lparr>rev_pk = next_id d, rev_target_id = t_pk t, rev_uuid = u,
                    rev_normalized_hash = nh, rev_normalizer_version = nv,
                    rev_driver_id = drv, rev_content_changed = cc, rev_protected = False,
                    rev_previous_revision = map_option rev_pk (latest_revision d (t_pk t)), rev_created = cr\<rparr>],
                     artifacts := artifacts d @ new_artifacts (next_id d + 1) (next_id d) items,
                     next_id := next_id d + 1 + int (length items)\<rparr>"
  from assms r t ins obtain d3 where m: "mark_target_success rt t (Some (next_id d)) f cc (save_run run' d1) = Inr d3"
    and d': "d' = recovered_event rt (target_was_unhealthy t) (r_pk run) d3"
    by (auto simp: commit_revision_def Let_def result_simps d1_def run'_def)
  show ?thesis
    unfolding writes_run_def
    using r mark_target_success_Inr [OF m] mark_target_success_next_id [OF m]
    by (intro exI [of _ run] exI [of _ run'])
      (simp add: run_update_def is_active_status_def d' d1_def run'_def)
qed

lemma queue_event_rows [simp]: "next_id (queue_event b ty k d) = next_id d" "jobs (queue_event b ty k d) = jobs d"
  by (simp_all add: queue_event_def)

lemma mark_failed_shape:
  assumes "mark_failed rt k st code msg f d = Inr (u, d')"
  obtains run t d2 b ty where "get_run d k = Inr run"
    "save_target_checked rt t (save_run (run\<lparr>r_status := st, r_finished_at := Some f,
      r_error_code := code, r_error_message := msg\<rparr>) d) = Inr d2"
    "d' = queue_event b ty (r_pk run) d2 \<or> d' = d2"
proof -
  from assms obtain run t nx d2 b ty g where "get_run d k = Inr run"
    "save_target_checked rt (t\<lparr>t_next_run_at := nx\<rparr>) (save_run (run\<lparr>r_status := st, r_finished_at := Some f,
      r_error_code := code, r_error_message := msg\<rparr>) d) = Inr d2"
    "d' = (if g then queue_event b ty (r_pk run) d2 else d2)"
    unfolding mark_failed_def Let_def bindE_eq_Inr by auto
  then show thesis by (intro that [of run "t\<lparr>t_next_run_at := nx\<rparr>" d2 b ty]) simp_all
qed

lemma mark_failed_writes:
  assumes "mark_failed rt k st code msg f d = Inr (u, d')" "\<not> is_active_status st"
  shows "writes_run k d d'"
  using assms(1)
proof (rule mark_failed_shape)
  fix run :: backup_run and t d2 b ty
  let ?run = "run\<lparr>r_status := st, r_finished_at := Some f, r_error_code := code, r_error_message := msg\<rparr>"
  assume r: "get_run d k = Inr run" and m: "save_target_checked rt t (save_run ?run d) = Inr d2"
    and d': "d' = queue_event b ty (r_pk run) d2 \<or> d' = d2"
  then have "runs d' = runs d2" "next_id d' = next_id d2" by auto
  then show ?thesis
    unfolding writes_run_def
    using r save_target_checked_Inr [OF m] assms(2)
    by (intro exI [of _ run] exI [of _ ?run]) (simp add: run_update_def)
qed

lemma cancel_writes:
  assumes "cancel_queued_backup_run qv k now d = Inr (res, d')"
  shows "writes_run k d d' \<and> (\<exists>run. get_run d k = Inr run \<and> r_status run = RQueued)"
proof -
  from assms obtain run where r: "get_run d k = Inr run" "r_status run = RQueued"
    and d': "runs d' = row_save r_pk (cancelled_row now run) (runs d)" "next_id d' = next_id d"
    by (auto simp: cancel_queued_backup_run_def delete_job_def drop_job_def result_simps
        split: if_splits option.splits sum.splits)
  then show ?thesis
    unfolding writes_run_def
    by (auto intro!: exI [of _ run] exI [of _ "cancelled_row now run"]
        simp: run_update_def cancelled_row_def is_active_status_def)
qed

lemma enqueue_backup_run_Inr:
  assumes "enqueue_backup_run tid src sf dk q d = Inr (run, d')" "runs_ok d"
  shows "runs d' = runs d @ [run] \<and> r_pk run = next_id d \<and> r_target_id run = tid \<and> r_dedupe_key run = dk
    \<and> r_status run = RQueued \<and> r_scheduled_for run = sf \<and> r_source run = src \<and> next_id d < next_id d'
    \<and> \<not> has_active_run d tid \<and> \<not> dedupe_key_used d tid dk
    \<and> targets d' = targets d \<and> (\<exists>j \<in> set (jobs d'). Some (j_id j) = r_job_id run \<and> j_status j = JPending)"
proof -
  let ?run = "new_run (next_id d) tid src sf dk q" and ?j = "next_id d + 1"
  let ?run' = "?run\<lparr>r_job_id := Some ?j\<rparr>"
  have "\<forall>r \<in> set (runs d). r_pk r \<noteq> next_id d" using assms(2) by (auto simp: runs_ok_def)
  then have "row_save r_pk ?run' (runs d) = runs d"
    by (intro row_save_absent) (simp add: new_run_def)
  then have saved: "row_save r_pk ?run' (runs d @ [?run]) = runs d @ [?run']"
    by (simp add: row_save_def new_run_def)
  from assms(1) have free: "\<not> has_active_run d tid" "\<not> dedupe_key_used d tid dk" and run: "run = ?run'"
    and d': "runs d' = row_save r_pk ?run' (runs d @ [?run])" "next_id d' = next_id d + 2" "targets d' = targets d"
      "jobs d' = jobs d @ [\<lparr>j_id = ?j, j_name = ''Config backup'', j_object_id = None, j_status = JPending, j_data = []\<rparr>]"
    by (auto simp: enqueue_backup_run_def Let_def enqueue_job_def save_run_def split: if_splits)
  show ?thesis unfolding d' run saved using free by (simp add: new_run_def)
qed

lemma enqueue_backup_run_frame: "enqueue_backup_run tid src sf dk q d = Inr (run, d') \<Longrightarrow> run_frame d d'"
proof -
  assume e: "enqueue_backup_run tid src sf dk q d = Inr (run, d')"
  have "runs_ok d \<Longrightarrow> run_frame d d'"
    using enqueue_backup_run_Inr [OF e] by (intro run_frame_insert [of d' d run]) auto
  then show ?thesis by (simp add: run_frame_def)
qed

section \<open>Runs as a transition system\<close>

text \<open>
  One committed transaction. Workers, the dispatcher and the web process interleave at this
  granularity, so a sequence of steps is any concurrent execution. The last rule is every
  transaction that leaves the run table alone.
\<close>

inductive run_step :: "db \<Rightarrow> db \<Rightarrow> bool" where
  enqueue: "enqueue_backup_run tid src sf dk q d = Inr (run, d') \<Longrightarrow> run_step d d'"
| dispatch: "dispatch_target rt now q tid d = Inr (res, d') \<Longrightarrow> run_step d d'"
| cancel: "cancel_queued_backup_run qv k now d = Inr (cres, d') \<Longrightarrow> run_step d d'"
| start: "mark_running k now d = Inr (u, d') \<Longrightarrow> run_step d d'"
| commit_same: "commit_unchanged rt k raw f d = Inr (rid, d') \<Longrightarrow> run_step d d'"
| commit_new: "commit_revision rt k u nh nv drv cc rc items cr f d = Inr (nid, d') \<Longrightarrow> run_step d d'"
| fail: "mark_failed rt k st code msg f d = Inr (v, d') \<Longrightarrow> st = RFailed \<or> st = RErrored \<Longrightarrow> run_step d d'"
| other: "runs d' = runs d \<Longrightarrow> next_id d \<le> next_id d' \<Longrightarrow> run_step d d'"

lemma dispatch_target_Inr:
  assumes "dispatch_target rt now q tid d = Inr (res, d')"
  obtains (same) "d' = d" "res \<noteq> DQueued"
  | (queued) t pol sf nx d1 run where "res = DQueued" "get_target d tid = Inr t" "t_policy_override t = Some pol"
      "t_next_run_at t = Some sf" "sf \<le> now" "t_enabled t" "bp_enabled pol" "\<not> has_active_run d (t_pk t)"
      "calculate_next_run (rt_env rt) pol (Aware sf) (t_pk t) (target_timezone_name (rt_env rt) t)
         (Some (Aware now)) = Inr nx"
      "d1 = save_target (t\<lparr>t_next_run_at := Some nx\<rparr>) d"
      "enqueue_backup_run (t_pk t) (dispatch_source t) (Some sf) (Some (run_dedupe_key (dispatch_source t) sf)) q d1
         = Inr (run, d')"
proof -
  from assms obtain t where t: "get_target d tid = Inr t"
    by (auto simp: dispatch_target_def result_simps)
  show thesis
  proof (cases "\<exists>pol sf. t_policy_override t = Some pol \<and> t_next_run_at t = Some sf \<and> t_enabled t \<and> bp_enabled pol
      \<and> sf \<le> now \<and> \<not> has_active_run d (t_pk t)")
    case True
    then obtain pol sf where p: "t_policy_override t = Some pol" "t_next_run_at t = Some sf" "t_enabled t"
      "bp_enabled pol" "sf \<le> now" "\<not> has_active_run d (t_pk t)" by blast
    from assms t p obtain nx d1 run where "res = DQueued"
      "calculate_next_run (rt_env rt) pol (Aware sf) (t_pk t) (target_timezone_name (rt_env rt) t)
         (Some (Aware now)) = Inr nx"
      "save_target_checked rt (t\<lparr>t_next_run_at := Some nx\<rparr>) d = Inr d1"
      "enqueue_backup_run (t_pk t) (dispatch_source t) (Some sf) (Some (run_dedupe_key (dispatch_source t) sf)) q d1
         = Inr (run, d')"
      by (auto simp: dispatch_target_def Let_def result_simps)
    with t p show thesis by (intro queued) (auto dest: save_target_checked_Inr)
  next
    case False
    with assms t have "d' = d \<and> res \<noteq> DQueued"
      by (cases "t_policy_override t"; cases "t_next_run_at t")
        (auto simp: dispatch_target_def split: if_splits)
    then show thesis using same by blast
  qed
qed

lemma dispatch_target_frame: "dispatch_target rt now q tid d = Inr (res, d') \<Longrightarrow> run_frame d d'"
proof (erule dispatch_target_Inr)
  fix t nx d1 sf run
  assume d1: "d1 = save_target (t\<lparr>t_next_run_at := Some nx\<rparr>) d"
    and e: "enqueue_backup_run (t_pk t) (dispatch_source t) (Some sf) (Some (run_dedupe_key (dispatch_source t) sf)) q d1
         = Inr (run, d')"
  have "run_frame d d1" by (rule run_frame_same) (simp_all add: d1)
  with enqueue_backup_run_frame [OF e] show "run_frame d d'" by (blast intro: run_frames.step_trans)
qed (simp add: run_frames.step_refl)

lemma run_step_frame: "run_step d d' \<Longrightarrow> run_frame d d'"
proof (induction rule: run_step.induct)
  case (fail rt k st code msg f d v d')
  then have "\<not> is_active_status st" by (auto simp: is_active_status_def)
  with fail(1) show ?case by (blast intro: writes_run_frame mark_failed_writes)
qed (blast intro: enqueue_backup_run_frame dispatch_target_frame writes_run_frame mark_running_writes
    commit_unchanged_writes commit_revision_writes cancel_writes [THEN conjunct1] run_frame_same)+

lemma run_steps_frame: "run_step\<^sup>*\<^sup>* d d' \<Longrightarrow> run_frame d d'"
  by (induction rule: rtranclp_induct)
    (auto intro: run_frames.step_refl run_frames.step_trans run_step_frame)

inductive_cases run_stepE: "run_step d d'"

section \<open>Composed services as sequences of transactions\<close>

interpretation run_steps: step_relation "run_step\<^sup>*\<^sup>*"
  by unfold_locales auto

context step_relation
begin

lemma within_mapS: "(\<And>x. within R (f x)) \<Longrightarrow> within R (mapS f xs)"
  by (induction xs) (simp_all add: within_returnS within_bindS)

end

lemma run_atomic: "(\<And>d x d'. f d = Inr (x, d') \<Longrightarrow> run_step d d') \<Longrightarrow> within run_step\<^sup>*\<^sup>* (atomic f)"
  by (rule within_atomic) auto

lemmas run_within = run_steps.within_intros run_steps.within_mapS

lemma schedule_target_steps: "within run_step\<^sup>*\<^sup>* (schedule_target rt now t)"
  unfolding schedule_target_def
  by (rule run_atomic) (auto simp: result_simps dest!: save_target_checked_Inr intro!: run_step.other)

lemma initialize_steps: "within run_step\<^sup>*\<^sup>* (initialize_target_schedules rt now)"
  unfolding within_def
proof (intro allI impI)
  fix d r d'
  assume i: "initialize_target_schedules rt now d = (r, d')"
  let ?ts = "filter (\<lambda>t. t_enabled t \<and> policy_active t \<and> t_next_run_at t = None) (targets (clear_inactive d))"
  have "within run_step\<^sup>*\<^sup>* (bindS (forS (schedule_target rt now) ?ts) (\<lambda>_. returnS (length ?ts)))"
    by (intro run_within schedule_target_steps)
  then have "run_step\<^sup>*\<^sup>* (clear_inactive d) d'"
    by (rule withinD) (use i in \<open>simp add: initialize_target_schedules_def Let_def\<close>)
  moreover have "run_step d (clear_inactive d)" by (rule run_step.other) (simp_all add: clear_inactive_def)
  ultimately show "run_step\<^sup>*\<^sup>* d d'" by (rule converse_rtranclp_into_rtranclp [rotated])
qed

lemma dispatch_candidate_steps: "within run_step\<^sup>*\<^sup>* (dispatch_candidate rt now q tid)"
  unfolding dispatch_candidate_def
  by (intro run_within run_atomic run_step.dispatch) (auto intro: run_within)

lemma dispatch_due_targets_steps: "within run_step\<^sup>*\<^sup>* (dispatch_due_targets rt workers now q limit)"
  unfolding dispatch_due_targets_def Let_def
  by (intro run_steps.within_bindS initialize_steps)
    (auto intro!: run_within dispatch_candidate_steps split: sum.splits bool.splits)

lemma delete_job_steps: "within run_step\<^sup>*\<^sup>* (delete_job qv j)"
  unfolding within_def
  by (auto simp: delete_job_def drop_job_def split: sum.splits if_splits intro!: r_into_rtranclp run_step.other)

lemma release_stale_job_steps: "within run_step\<^sup>*\<^sup>* (release_stale_job qv run)"
proof -
  have c: "within run_step\<^sup>*\<^sup>* (catchS (bindS (delete_job qv j) (\<lambda>_. returnS True)) (\<lambda>_. returnS False))" for j
    by (intro run_within delete_job_steps)
  show ?thesis
    unfolding within_def release_stale_job_def
    by (auto simp: returnS_def split: option.splits if_splits sum.splits intro: withinD [OF c])
qed

lemma reconcile_stale_runs_steps: "within run_step\<^sup>*\<^sup>* (reconcile_stale_runs rt qv now m)"
  unfolding reconcile_stale_runs_def reconcile_run_def
  by (intro run_within release_stale_job_steps)
    (auto intro!: run_within run_atomic intro: run_step.fail)

lemma refresh_health_steps: "within run_step\<^sup>*\<^sup>* (atomic (refresh_target_health e rc now g))"
  by (rule run_atomic)
    (auto simp: refresh_target_health_def Let_def result_simps foldl_queue_event intro!: run_step.other)

lemma scheduled_backup_dispatcher_steps:
  "within run_step\<^sup>*\<^sup>* (scheduled_backup_dispatcher rt qv workers now q m b g)"
  unfolding scheduled_backup_dispatcher_def
  by (intro run_within reconcile_stale_runs_steps dispatch_due_targets_steps refresh_health_steps)

text \<open>The pipeline, on the database part of its state.\<close>

definition run_steps_db :: "'s pstate \<Rightarrow> 's pstate \<Rightarrow> bool" where
  "run_steps_db s s' \<longleftrightarrow> run_step\<^sup>*\<^sup>* (ps_db s) (ps_db s')"

interpretation pipeline_steps: step_relation run_steps_db
  by unfold_locales (auto simp: run_steps_db_def)

lemma within_on_db: "within run_step\<^sup>*\<^sup>* m \<Longrightarrow> within run_steps_db (on_db m)"
  unfolding within_def by (auto simp: on_db_eq run_steps_db_def)

lemma within_db_eq: "(\<And>s r s'. m s = (r, s') \<Longrightarrow> ps_db s' = ps_db s) \<Longrightarrow> within run_steps_db m"
  unfolding within_def by (simp add: run_steps_db_def)

lemma within_core: "within core_same m \<Longrightarrow> within run_step\<^sup>*\<^sup>* m"
  unfolding within_def by (auto simp: core_same_def intro!: r_into_rtranclp run_step.other)

lemma within_robust: "within run_step\<^sup>*\<^sup>* m \<Longrightarrow> within run_step\<^sup>*\<^sup>* (robust m)"
  unfolding within_def by (auto simp: robust_eq intro: prod.collapse [symmetric])

lemma read_db_steps: "within run_steps_db (read_db f)"
  unfolding within_def by (auto simp: read_db_eq run_steps_db_def)

lemma collect_stage_steps: "within run_steps_db (collect_stage rt pl t k)"
  unfolding collect_stage_def
  by (intro pipeline_steps.within_bindS read_db_steps within_on_db run_atomic)
    (auto intro: run_step.start pipeline_steps.within_intros split: prod.splits)

lemma unchanged_stage_steps: "within run_steps_db (unchanged_stage rt pl ck k raw)"
  unfolding unchanged_stage_def
  by (intro pipeline_steps.within_bindS within_on_db run_atomic within_robust within_core)
    (auto intro: run_step.commit_same pipeline_steps.within_intros core_steps.within_intros
      ensure_revision_replicas_core split: option.splits)

lemma store_stage_steps: "within run_steps_db (store_stage rt pl u ck k ctx drv prepared h cc raw)"
  unfolding store_stage_def
  by (intro pipeline_steps.within_bindS pipeline_steps.within_returnS within_db_eq [OF store_artifacts_db]
      within_on_db run_atomic within_robust within_core create_revision_replicas_core)
    (auto intro: run_step.commit_new)

lemma execute_steps: "within run_steps_db (execute rt pl u ck k)"
proof -
  have f: "within run_step\<^sup>*\<^sup>* (atomic (mark_failed rt k st code msg f))" if "st = RFailed \<or> st = RErrored" for st code msg f
    using that by (intro run_atomic) (blast intro: run_step.fail)
  have "within run_steps_db (handle_failure rt pl (ck_finished ck) k e)" for e
    unfolding handle_failure_def
  proof (rule pipeline_steps.within_bindS)
    show "within run_steps_db (rollback_storage (pl_storage pl))" by (rule within_db_eq) (rule rollback_storage_db)
  qed (auto intro!: pipeline_steps.within_bindS within_on_db f pipeline_steps.within_returnS pipeline_steps.within_raiseS
        split: option.splits)
  moreover have "within run_steps_db (execute_body rt pl u ck k)"
    unfolding execute_body_def Let_def
    by (intro pipeline_steps.within_bindS collect_stage_steps)
      (auto intro!: pipeline_steps.within_bindS read_db_steps unchanged_stage_steps store_stage_steps split: prod.splits)
  ultimately show ?thesis unfolding execute_def by (intro pipeline_steps.within_catchS)
qed

section \<open>Properties\<close>

text \<open>
  C1. At most one active run per target, under any interleaving of the transactions of workers, web
  processes and dispatchers: the unique constraints of the run table hold throughout, no run row is
  lost, and a run that has finished is never queued or running again. The bookkeeping updates never
  run into these constraints, only an insert can.
\<close>

theorem one_active_run_per_target:
  assumes "run_step\<^sup>*\<^sup>* d d'" "runs_ok d"
  shows "runs_ok d' \<and> (\<forall>r \<in> set (runs d). \<exists>r' \<in> set (runs d'). r_pk r' = r_pk r \<and> r_target_id r' = r_target_id r
     \<and> (is_active_status (r_status r') \<longrightarrow> is_active_status (r_status r)))"
  using run_steps_frame [OF assms(1)] assms(2) by (simp add: run_frame_def finished_kept_def)


definition sample_queue :: queue_view where
  "sample_queue = \<lparr>qv_status = (\<lambda>_. Inr (Some RqQueued)), qv_workers = (\<lambda>_. Inr True), qv_delete = (\<lambda>_. Inr ()),
     qv_row_lost = (\<lambda>_. False)\<rparr>"

definition sample_tick :: "(nat \<times> dispatch_summary \<times> target_health_refresh_summary) result \<times> db" where
  "sample_tick = scheduled_backup_dispatcher sample_runtime sample_queue (Inr True) 5000000000 5000000000 60 10 30
     ((sample_db [])\<lparr>runs := [sample_run 5 RSuccessChanged]\<rparr>)"


theorem one_active_run_per_target_witness: "runs_ok (snd sample_tick)"
proof -
  let ?d = "(sample_db [])\<lparr>runs := [sample_run 5 RSuccessChanged]\<rparr>"
  have "scheduled_backup_dispatcher sample_runtime sample_queue (Inr True) 5000000000 5000000000 60 10 30 ?d
      = (fst sample_tick, snd sample_tick)"
    by (simp add: sample_tick_def)
  then have steps: "run_step\<^sup>*\<^sup>* ?d (snd sample_tick)" by (rule withinD [OF scheduled_backup_dispatcher_steps])
  have ok: "runs_ok ?d" by (simp add: runs_ok_def sample_db_def sample_run_def is_active_status_def)
  from one_active_run_per_target [OF steps ok] show ?thesis ..
qed

lemma get_target_save_same:
  "get_target d k = Inr t \<Longrightarrow> t_pk t' = t_pk t \<Longrightarrow> get_target (save_target t' d) k = Inr t'"
  unfolding get_target_def save_target_def
  using row_get_row_save_same [of _ t_pk k "targets d" t t'] row_get_Inr [of _ t_pk k "targets d" t] by simp

lemma run_constraints_save_target [simp]:
  "has_active_run (save_target t d) k = has_active_run d k" "dedupe_key_used (save_target t d) k key = dedupe_key_used d k key"
  "runs_ok (save_target t d) = runs_ok d"
  by (simp_all add: has_active_run_def dedupe_key_used_def runs_ok_def)

text \<open>
  C13. A due target is dispatched exactly once per slot. When its next run can be calculated and its
  row saved, the slot has not been used and no run is active, the transaction appends one queued run
  that carries the slot, its source and a pending job, and moves the target on; for an interval
  policy the new time lies after now, so the same tick never queues the target twice.
\<close>

theorem dispatch_target_queues:
  assumes "runs_ok d" "get_target d tid = Inr t" "t_policy_override t = Some pol" "t_next_run_at t = Some sf"
    "target_due now t" "\<not> has_active_run d tid" "\<not> dedupe_key_used d tid (Some (run_dedupe_key (dispatch_source t) sf))"
    "calculate_next_run (rt_env rt) pol (Aware sf) tid (target_timezone_name (rt_env rt) t) (Some (Aware now)) = Inr nx"
    "driver_is_enabled (t_driver_override t) (rt_disabled_drivers rt)"
  shows "\<exists>run d'. dispatch_candidate rt now queued_at tid d = (Inr DQueued, d') \<and> runs d' = runs d @ [run]
    \<and> r_target_id run = tid \<and> r_status run = RQueued \<and> r_scheduled_for run = Some sf \<and> r_source run = dispatch_source t
    \<and> (\<exists>j \<in> set (jobs d'). Some (j_id j) = r_job_id run \<and> j_status j = JPending)
    \<and> get_target d' tid = Inr (t\<lparr>t_next_run_at := Some nx\<rparr>) \<and> has_active_run d' tid
    \<and> (bp_schedule_type pol = ''interval'' \<longrightarrow> now < nx)"
proof -
  have pk: "t_pk t = tid" using assms(2) unfolding get_target_def by (blast dest: row_get_Inr)
  let ?d1 = "save_target (t\<lparr>t_next_run_at := Some nx\<rparr>) d" and ?key = "run_dedupe_key (dispatch_source t) sf"
  have s: "save_target_checked rt (t\<lparr>t_next_run_at := Some nx\<rparr>) d = Inr ?d1"
    using assms(9) by (simp add: save_target_checked_def validate_driver_assignment_def)
  obtain run d' where e: "enqueue_backup_run tid (dispatch_source t) (Some sf) (Some ?key) queued_at ?d1 = Inr (run, d')"
    using assms(6,7) by (simp add: enqueue_backup_run_def Let_def enqueue_job_def)
  from assms(3-5) have due: "t_enabled t" "bp_enabled pol" "sf \<le> now"
    by (simp_all add: target_due_def policy_active_def sql_le_def)
  have "dispatch_target rt now queued_at tid d = Inr (DQueued, d')"
    using assms(2-4,6,8) due e s pk by (simp add: dispatch_target_def Let_def)
  then have c: "dispatch_candidate rt now queued_at tid d = (Inr DQueued, d')"
    by (simp add: dispatch_candidate_def catchS_def atomic_def)
  note q = enqueue_backup_run_Inr [OF e, simplified, OF assms(1)]
  have t': "get_target d' tid = Inr (t\<lparr>t_next_run_at := Some nx\<rparr>)"
    using get_target_save_same [OF assms(2), of "t\<lparr>t_next_run_at := Some nx\<rparr>"] q by (simp add: get_target_def)
  have i: "bp_schedule_type pol = ''interval'' \<longrightarrow> now < nx"
  proof
    assume i: "bp_schedule_type pol = ''interval''"
    with assms(8) obtain m where m: "bp_interval_minutes pol = Some m"
      by (auto simp: calculate_next_run_def Let_def split: option.splits)
    note n = calculate_next_run_interval [OF i m assms(8)]
    then have "0 < m * minute_us" by (simp add: minute_us_def)
    then show "now < nx" by (rule first_slot_after(1)) (use n(2) in \<open>simp add: Let_def\<close>)
  qed
  have "has_active_run d' tid" using q by (simp add: has_active_run_def is_active_status_def)
  with c q t' i show ?thesis by auto
qed

definition sample_due_db :: db where
  "sample_due_db = (sample_db [])\<lparr>runs := [sample_run 5 RSuccessChanged]\<rparr>"

theorem dispatch_target_queues_witness:
  "\<exists>run d'. dispatch_candidate sample_runtime 5000000000 5000000001 1 sample_due_db = (Inr DQueued, d')
     \<and> runs d' = [sample_run 5 RSuccessChanged, run] \<and> r_scheduled_for run = Some 0"
proof -
  have 1: "runs_ok sample_due_db" "get_target sample_due_db 1 = Inr sample_target" "\<not> has_active_run sample_due_db 1"
    by (simp_all add: sample_due_db_def runs_ok_def sample_db_def sample_run_def is_active_status_def get_target_def
        row_get_def sample_target_def has_active_run_def empty_db_def)
  have 2: "t_policy_override sample_target = Some sample_policy" "t_next_run_at sample_target = Some 0"
    "target_due 5000000000 sample_target"
    by (simp_all add: sample_target_def target_due_def policy_active_def sql_le_def sample_policy_def)
  have 3: "\<not> dedupe_key_used sample_due_db 1 (Some (run_dedupe_key (dispatch_source sample_target) 0))"
    by (simp add: dedupe_key_used_def sample_due_db_def sample_db_def sample_run_def)
  have 4: "calculate_next_run (rt_env sample_runtime) sample_policy (Aware 0) 1
      (target_timezone_name (rt_env sample_runtime) sample_target) (Some (Aware 5000000000)) = Inr 7200000000"
    by (simp add: calculate_next_run_def sample_policy_def time_defs)
  have 5: "driver_is_enabled (t_driver_override sample_target) (rt_disabled_drivers sample_runtime)"
    by (simp add: driver_is_enabled_def sample_runtime_def)
  from dispatch_target_queues [OF 1(1,2) 2 1(3) 3 4 5, where queued_at = 5000000001] show ?thesis
    by (auto simp: sample_due_db_def)
qed

text \<open>
  A slot whose key is already taken blocks its target for good. Every later tick fails on the
  unique key, the transaction is rolled back together with the new next run, and the target is due
  again with the same slot: whatever the time, dispatching changes nothing. The end of summer time
  leads there when the dispatcher is late: the daily run is then scheduled for the slot it has just
  served.
\<close>

theorem used_slot_blocks_target:
  assumes "get_target d tid = Inr t" "t_next_run_at t = Some sf"
    "dedupe_key_used d tid (Some (run_dedupe_key (dispatch_source t) sf))"
  shows "\<exists>r. dispatch_candidate rt now queued_at tid d = (r, d) \<and> r \<noteq> Inr DQueued"
proof -
  have pk: "t_pk t = tid" using assms(1) unfolding get_target_def by (blast dest: row_get_Inr)
  have "dispatch_target rt now queued_at tid d \<noteq> Inr (DQueued, d')" for d'
  proof
    assume "dispatch_target rt now queued_at tid d = Inr (DQueued, d')"
    then show False
    proof (cases rule: dispatch_target_Inr)
      case (queued t' pol sf' nx d1 run)
      with assms pk show False by (simp add: enqueue_backup_run_def)
    qed simp
  qed
  then have "dispatch_target rt now queued_at tid d = Inr (res, d') \<Longrightarrow> res \<noteq> DQueued \<and> d' = d" for res d'
    by (auto elim: dispatch_target_Inr)
  then show ?thesis
    by (cases "dispatch_target rt now queued_at tid d")
      (auto simp: dispatch_candidate_def catchS_def atomic_def returnS_def raiseS_def)
qed

definition autumn_runtime :: runtime where
  "autumn_runtime = sample_runtime\<lparr>rt_env := autumn_env (1000 * day_us + 60 * minute_us)\<rparr>"

definition autumn_target :: backup_target where
  "autumn_target = sample_target\<lparr>t_policy_override := Some (sample_policy\<lparr>bp_schedule_type := ''daily'',
     bp_time_of_day := Some (165 * minute_us)\<rparr>), t_next_run_at := Some (1000 * day_us + 45 * minute_us)\<rparr>"

text \<open>The late tick, the start of the run it queued and its successful end.\<close>

definition autumn_day :: "db result" where
  "autumn_day =
     bindE (dispatch_target autumn_runtime (1000 * day_us + 90 * minute_us) 0 1
              (empty_db\<lparr>targets := [autumn_target], next_id := 100\<rparr>)) (\<lambda>(_, d1).
     bindE (mark_running 100 (1000 * day_us + 91 * minute_us) d1) (\<lambda>(_, d2).
     bindE (commit_unchanged autumn_runtime 100 False (1000 * day_us + 92 * minute_us) d2) (\<lambda>(_, d3).
     Inr d3)))"

theorem used_slot_blocks_target_witness:
  "\<exists>d. autumn_day = Inr d \<and> map r_status (runs d) = [RSuccessUnchanged]
     \<and> (\<forall>now. \<exists>r. dispatch_candidate autumn_runtime now 0 1 d = (r, d) \<and> r \<noteq> Inr DQueued)"
proof -
  have "case autumn_day of Inl e \<Rightarrow> False
     | Inr d \<Rightarrow> map r_status (runs d) = [RSuccessUnchanged]
         \<and> map t_next_run_at (targets d) = [Some (1000 * day_us + 45 * minute_us)] \<and> map t_pk (targets d) = [1]
         \<and> map dispatch_source (targets d) = [SScheduled]
         \<and> dedupe_key_used d 1 (Some (run_dedupe_key SScheduled (1000 * day_us + 45 * minute_us)))"
    by code_simp
  then obtain d where d: "autumn_day = Inr d" "map r_status (runs d) = [RSuccessUnchanged]"
    "map t_next_run_at (targets d) = [Some (1000 * day_us + 45 * minute_us)]" "map t_pk (targets d) = [1]"
    "map dispatch_source (targets d) = [SScheduled]"
    "dedupe_key_used d 1 (Some (run_dedupe_key SScheduled (1000 * day_us + 45 * minute_us)))"
    by (auto split: sum.splits)
  from d(3-5) obtain t where t: "targets d = [t]" "t_pk t = 1" "t_next_run_at t = Some (1000 * day_us + 45 * minute_us)"
    "dispatch_source t = SScheduled" by auto
  then have g: "get_target d 1 = Inr t" by (simp add: get_target_def row_get_def)
  have "dedupe_key_used d 1 (Some (run_dedupe_key (dispatch_source t) (1000 * day_us + 45 * minute_us)))"
    using d(6) t by simp
  from used_slot_blocks_target [OF g t(3) this] have
    "\<forall>now. \<exists>r. dispatch_candidate autumn_runtime now 0 1 d = (r, d) \<and> r \<noteq> Inr DQueued" by blast
  with d(1,2) show ?thesis by (intro exI [of _ d]) simp
qed

lemma mark_failed_jobs:
  assumes "mark_failed rt k st code msg f d = Inr (u, d')"
  shows "jobs d' = jobs d"
  using assms by (rule mark_failed_shape) (auto simp: save_target_def save_run_def dest!: save_target_checked_Inr)

lemma job_of_cong: "jobs d' = jobs d \<Longrightarrow> job_of d' k = job_of d k"
  by (simp add: job_of_def split: option.split)

lemma release_stale_job_True:
  assumes "release_stale_job qv run d = (Inr True, d')"
  shows "\<not> job_is_enqueued d' (r_job_id run) \<and> runs d' = runs d"
proof (cases "job_of d (r_job_id run)")
  case None
  with assms show ?thesis by (simp add: release_stale_job_def returnS_def job_is_enqueued_def)
next
  case (Some j)
  then obtain i where i: "r_job_id run = Some i" "find (\<lambda>j. j_id j = i) (jobs d) = Some j" "j_id j = i"
    by (auto simp: job_of_def find_Some_iff split: option.splits)
  show ?thesis
  proof (cases "enqueued_state (j_status j)")
    case False
    with Some assms show ?thesis by (simp add: release_stale_job_def returnS_def job_is_enqueued_def)
  next
    case True
    with Some assms have "d' = drop_job j d"
      by (auto simp: release_stale_job_def delete_job_def prog_simps split: sum.splits if_splits prod.splits)
    moreover have "find (\<lambda>x. j_id x = i) (filter (\<lambda>x. j_id x \<noteq> j_id j) (jobs d)) = None"
      using i(3) by (simp add: find_None_iff)
    ultimately show ?thesis using i by (simp add: job_is_enqueued_def job_of_def drop_job_def)
  qed
qed

text \<open>
  Releasing a stale run is safe. While the queue reports the job as waiting or started and a
  worker serves the queue, or the queue cannot be asked, the run is left alone. A run that is
  released is recorded as errored, and its job is gone from the queue, so it cannot be executed
  afterwards.
\<close>

theorem reconcile_run_safe:
  assumes "reconcile_run rt qv now run d = (r, d')"
  shows "(\<forall>j. job_of d (r_job_id run) = Some j \<and> enqueued_state (j_status j)
       \<and> (qv_status qv j = Inl e \<or> qv_workers qv j = Inl e \<or> (\<exists>st. qv_status qv j = Inr st \<and> rq_live st \<and> qv_workers qv j = Inr True))
       \<longrightarrow> r = Inr 0 \<and> d' = d)
    \<and> (\<forall>n. r = Inr (Suc n) \<longrightarrow> \<not> job_is_enqueued d' (r_job_id run)
         \<and> (\<exists>run'. get_run d' (r_pk run) = Inr run' \<and> r_status run' = RErrored \<and> r_error_code run' = ''STALE_RUN''))"
proof (intro conjI allI impI)
  fix j
  assume j: "job_of d (r_job_id run) = Some j \<and> enqueued_state (j_status j)
       \<and> (qv_status qv j = Inl e \<or> qv_workers qv j = Inl e \<or> (\<exists>st. qv_status qv j = Inr st \<and> rq_live st \<and> qv_workers qv j = Inr True))"
  then have "release_stale_job qv run d = (Inr False, d)"
    by (auto simp: release_stale_job_def returnS_def bindE_def split: sum.splits)
  with assms show "r = Inr 0" "d' = d"
    by (simp_all add: reconcile_run_def bindS_def returnS_def)
next
  fix n assume n: "r = Inr (Suc n)"
  with assms obtain d1 u where 1: "release_stale_job qv run d = (Inr True, d1)"
    and 2: "mark_failed rt (r_pk run) RErrored ''STALE_RUN'' ''Backup job ended without completing its run record.'' now d1
      = Inr (u, d')"
    by (auto simp: reconcile_run_def prog_simps split: if_splits)
  show "\<not> job_is_enqueued d' (r_job_id run)"
    using release_stale_job_True [OF 1] job_of_cong [OF mark_failed_jobs [OF 2]] by (simp add: job_is_enqueued_def)
  from 2 show "\<exists>run'. get_run d' (r_pk run) = Inr run' \<and> r_status run' = RErrored \<and> r_error_code run' = ''STALE_RUN''"
    by (rule mark_failed_run) simp
qed

definition sample_stale_db :: db where
  "sample_stale_db = (sample_db [])\<lparr>runs := [(sample_run 5 RRunning)\<lparr>r_job_id := Some 6\<rparr>],
     jobs := [\<lparr>j_id = 6, j_name = ''Config backup'', j_object_id = None, j_status = JRunning, j_data = []\<rparr>]\<rparr>"

theorem reconcile_run_safe_witness:
  "reconcile_run sample_runtime sample_queue 9 ((sample_run 5 RRunning)\<lparr>r_job_id := Some 6\<rparr>) sample_stale_db
     = (Inr 0, sample_stale_db)
   \<and> (\<exists>d' run'. reconcile_run sample_runtime (sample_queue\<lparr>qv_workers := (\<lambda>_. Inr False)\<rparr>) 9
        ((sample_run 5 RRunning)\<lparr>r_job_id := Some 6\<rparr>) sample_stale_db = (Inr 1, d')
        \<and> get_run d' 5 = Inr run' \<and> r_status run' = RErrored \<and> \<not> job_is_enqueued d' (Some 6))"
proof -
  let ?run = "(sample_run 5 RRunning)\<lparr>r_job_id := Some 6\<rparr>"
  let ?qv = "sample_queue\<lparr>qv_workers := (\<lambda>_. Inr False)\<rparr>"
  have j: "job_of sample_stale_db (r_job_id ?run) = Some \<lparr>j_id = 6, j_name = ''Config backup'', j_object_id = None, j_status = JRunning, j_data = []\<rparr>"
    by (simp add: job_of_def sample_stale_db_def)
  obtain r d' where 1: "reconcile_run sample_runtime sample_queue 9 ?run sample_stale_db = (r, d')" by fastforce
  have "fst (reconcile_run sample_runtime ?qv 9 ?run sample_stale_db) = Inr 1" by code_simp
  then obtain d2 where 2: "reconcile_run sample_runtime ?qv 9 ?run sample_stale_db = (Inr (Suc 0), d2)"
    by (cases "reconcile_run sample_runtime ?qv 9 ?run sample_stale_db") simp
  have "r = Inr 0 \<and> d' = sample_stale_db"
    using reconcile_run_safe [OF 1, THEN conjunct1] j by (auto simp: sample_queue_def rq_live_def enqueued_state_def)
  moreover have "\<not> job_is_enqueued d2 (r_job_id ?run) \<and> (\<exists>run'. get_run d2 (r_pk ?run) = Inr run' \<and> r_status run' = RErrored)"
    using reconcile_run_safe [OF 2, THEN conjunct2] by blast
  ultimately show ?thesis using 1 2 by (auto simp: sample_run_def)
qed

end
