(* ===== verification/Revision_Chain.thy ===== *)
theory Revision_Chain
  imports Dispatcher
begin

text \<open>
  \<open>services/revision_chain.py\<close>, and what deleting rows means in this database: revisions take their
  artifacts and replicas with them (\<open>CASCADE\<close>), while references from other revisions, targets and
  runs are cleared (\<open>SET_NULL\<close>).
\<close>

section \<open>Relinking and deleting\<close>

definition save_revision :: "config_revision \<Rightarrow> db \<Rightarrow> db" where
  "save_revision r d = d\<lparr>revisions := row_save rev_pk r (revisions d)\<rparr>"

fun relink_rows :: "int option \<Rightarrow> config_revision list \<Rightarrow> db \<Rightarrow> db" where
  "relink_rows previous [] d = d"
| "relink_rows previous (r # rs) d =
     relink_rows (Some (rev_pk r)) rs
       (if rev_previous_revision r \<noteq> previous
        then save_revision (r\<lparr>rev_previous_revision := previous\<rparr>) d else d)"

definition kept_revisions :: "config_revision list \<Rightarrow> int list \<Rightarrow> config_revision list" where
  "kept_revisions revs deleted_ids =
     sort_key (\<lambda>r. (rev_created r, rev_pk r)) (filter (\<lambda>r. rev_pk r \<notin> set deleted_ids) revs)"

definition latest_id :: "config_revision list \<Rightarrow> int option" where
  "latest_id kept = (if kept = [] then None else Some (rev_pk (last kept)))"

definition relink_kept_revisions ::
  "runtime \<Rightarrow> backup_target \<Rightarrow> config_revision list \<Rightarrow> int list \<Rightarrow> db \<Rightarrow> db result" where
  "relink_kept_revisions rt t revs deleted_ids d =
     (let kept = kept_revisions revs deleted_ids; d1 = relink_rows None kept d in
      if t_last_revision t \<noteq> latest_id kept
      then save_target_checked rt (t\<lparr>t_last_revision := latest_id kept\<rparr>) d1
      else Inr d1)"

definition clear_reference :: "int list \<Rightarrow> int option \<Rightarrow> int option" where
  "clear_reference ids x = (case x of None \<Rightarrow> None | Some k \<Rightarrow> if k \<in> set ids then None else Some k)"

definition delete_revisions :: "int list \<Rightarrow> db \<Rightarrow> db" where
  "delete_revisions ids d = d\<lparr>
     revisions := map (\<lambda>r. r\<lparr>rev_previous_revision := clear_reference ids (rev_previous_revision r)\<rparr>)
                    (filter (\<lambda>r. rev_pk r \<notin> set ids) (revisions d)),
     artifacts := filter (\<lambda>a. a_revision_id a \<notin> set ids) (artifacts d),
     replicas := filter (\<lambda>p. p_revision_id p \<notin> set ids) (replicas d),
     runs := map (\<lambda>r. r\<lparr>r_revision := clear_reference ids (r_revision r)\<rparr>) (runs d),
     targets := map (\<lambda>t. t\<lparr>t_last_revision := clear_reference ids (t_last_revision t)\<rparr>) (targets d)\<rparr>"

definition delete_runs :: "int list \<Rightarrow> db \<Rightarrow> db" where
  "delete_runs ids d = d\<lparr>runs := filter (\<lambda>r. r_pk r \<notin> set ids) (runs d)\<rparr>"

section \<open>Facts\<close>

text \<open>The chain the code builds: each kept revision points at its predecessor.\<close>

fun chained :: "int option \<Rightarrow> config_revision list \<Rightarrow> bool" where
  "chained previous [] \<longleftrightarrow> True"
| "chained previous (r # rs) \<longleftrightarrow> rev_previous_revision r = previous \<and> chained (Some (rev_pk r)) rs"

fun link :: "int option \<Rightarrow> config_revision list \<Rightarrow> config_revision list" where
  "link previous [] = []"
| "link previous (r # rs) = r\<lparr>rev_previous_revision := previous\<rparr> # link (Some (rev_pk r)) rs"

lemma chained_link: "chained previous (link previous rs)"
  by (induction rs arbitrary: previous) simp_all

lemma map_pk_link [simp]: "map rev_pk (link previous rs) = map rev_pk rs"
  by (induction rs arbitrary: previous) simp_all

lemma relink_rows_tables [simp]:
  "targets (relink_rows p rs d) = targets d" "runs (relink_rows p rs d) = runs d"
  "artifacts (relink_rows p rs d) = artifacts d" "replicas (relink_rows p rs d) = replicas d"
  "destinations (relink_rows p rs d) = destinations d" "next_id (relink_rows p rs d) = next_id d"
  by (induction rs arbitrary: p d) (simp_all add: save_revision_def)

lemma get_revision_save:
  "get_revision (save_revision r d) k = (if rev_pk r = k
     then (case get_revision d k of Inl e \<Rightarrow> Inl e | Inr _ \<Rightarrow> Inr r) else get_revision d k)"
  unfolding get_revision_def save_revision_def
  by (auto simp: row_get_row_save_other row_get_row_save_same row_get_Inl in_row_save split: sum.splits)

text \<open>Relinking rows that are as the code has read them.\<close>

lemma relink_rows_get:
  assumes "distinct (map rev_pk rs)" "\<forall>r \<in> set rs. get_revision d (rev_pk r) = Inr r"
  shows "(\<forall>r' \<in> set (link p rs). get_revision (relink_rows p rs d) (rev_pk r') = Inr r')
    \<and> (\<forall>k. k \<notin> rev_pk ` set rs \<longrightarrow> get_revision (relink_rows p rs d) k = get_revision d k)"
  using assms
proof (induction rs arbitrary: p d)
  case (Cons r rs)
  let ?d = "if rev_previous_revision r \<noteq> p then save_revision (r\<lparr>rev_previous_revision := p\<rparr>) d else d"
  have r: "get_revision ?d (rev_pk r) = Inr (r\<lparr>rev_previous_revision := p\<rparr>)"
    using Cons.prems(2) by (auto simp: get_revision_save)
  have "\<forall>x \<in> set rs. get_revision ?d (rev_pk x) = Inr x"
    using Cons.prems by (auto simp: get_revision_save)
  with Cons.prems(1) have IH: "(\<forall>r' \<in> set (link (Some (rev_pk r)) rs).
        get_revision (relink_rows (Some (rev_pk r)) rs ?d) (rev_pk r') = Inr r')
      \<and> (\<forall>k. k \<notin> rev_pk ` set rs \<longrightarrow> get_revision (relink_rows (Some (rev_pk r)) rs ?d) k = get_revision ?d k)"
    by (intro Cons.IH) simp_all
  then have "get_revision (relink_rows p (r # rs) d) (rev_pk r) = Inr (r\<lparr>rev_previous_revision := p\<rparr>)"
    using Cons.prems(1) r by (simp del: if_split_asm)
  moreover have "get_revision ?d k = get_revision d k" if "k \<noteq> rev_pk r" for k
    using that by (simp add: get_revision_save)
  ultimately show ?case using IH by simp
qed simp

lemma link_last: "rs \<noteq> [] \<Longrightarrow> rev_pk (last (link p rs)) = rev_pk (last rs)"
  by (metis last_map length_map length_0_conv map_pk_link)

lemma map_revisions_relink: "map rev_pk (revisions (relink_rows p rs d)) = map rev_pk (revisions d)"
  by (induction rs arbitrary: p d) (simp_all add: save_revision_def)

lemma row_get_map:
  "(\<And>r. key (f r) = key r) \<Longrightarrow>
     row_get m key k (map f rows) = (case row_get m key k rows of Inl e \<Rightarrow> Inl e | Inr r \<Rightarrow> Inr (f r))"
  by (induction rows) (auto simp: row_get_def split: option.splits)

lemma get_revision_delete:
  "k \<notin> set ids \<Longrightarrow> get_revision (delete_revisions ids d) k =
     (case get_revision d k of Inl e \<Rightarrow> Inl e
      | Inr r \<Rightarrow> Inr (r\<lparr>rev_previous_revision := clear_reference ids (rev_previous_revision r)\<rparr>))"
proof -
  assume k: "k \<notin> set ids"
  have "row_get m rev_pk k (filter (\<lambda>r. rev_pk r \<notin> set ids) rows) = row_get m rev_pk k rows" for m and rows :: "config_revision list"
    using k by (induction rows) (auto simp: row_get_def)
  then show ?thesis by (simp add: get_revision_def delete_revisions_def row_get_map)
qed

lemma chained_clear:
  "chained p rs \<Longrightarrow> rev_pk ` set rs \<inter> set ids = {} \<Longrightarrow> clear_reference ids p = p \<Longrightarrow> r \<in> set rs \<Longrightarrow>
     r\<lparr>rev_previous_revision := clear_reference ids (rev_previous_revision r)\<rparr> = r"
proof (induction rs arbitrary: p)
  case (Cons x xs)
  have "clear_reference ids (Some (rev_pk x)) = Some (rev_pk x)"
    using Cons.prems(2) by (simp add: clear_reference_def)
  with Cons.IH [of "Some (rev_pk x)"] Cons.prems show ?case by auto
qed simp

lemma get_target_relink:
  assumes "relink_kept_revisions rt t revs ids d = Inr d1" "get_target d tid = Inr t"
  shows "get_target d1 tid = Inr (t\<lparr>t_last_revision := latest_id (kept_revisions revs ids)\<rparr>)"
    "revisions d1 = revisions (relink_rows None (kept_revisions revs ids) d)"
proof -
  let ?kept = "kept_revisions revs ids" and ?t = "t\<lparr>t_last_revision := latest_id (kept_revisions revs ids)\<rparr>"
  have g: "get_target (relink_rows None ?kept d) tid = Inr t" using assms(2) by (simp add: get_target_def)
  show "get_target d1 tid = Inr ?t"
  proof (cases "t_last_revision t = latest_id ?kept")
    case True
    then have "?t = t" by simp
    with True assms(1) g show ?thesis by (simp add: relink_kept_revisions_def Let_def)
  next
    case False
    with assms(1) have "d1 = save_target ?t (relink_rows None ?kept d)"
      by (auto simp: relink_kept_revisions_def Let_def dest: save_target_checked_Inr)
    with get_target_save_same [OF g, of ?t] show ?thesis by simp
  qed
  show "revisions d1 = revisions (relink_rows None ?kept d)"
    using assms(1) by (auto simp: relink_kept_revisions_def Let_def dest: save_target_checked_Inr split: if_splits)
qed

section \<open>Properties\<close>

text \<open>
  C21. Deleting revisions keeps the history of a target linked. After relinking the revisions the code
  has read and deleting some of those it was told to leave out, the remaining ones are still in the
  table, in order of creation each points at its predecessor, the first at nothing, and the target
  points at the newest.
\<close>

theorem deletion_keeps_chain:
  assumes "get_target d tid = Inr t" "distinct (map rev_pk revs)" "\<forall>r \<in> set revs. get_revision d (rev_pk r) = Inr r"
    "relink_kept_revisions rt t revs ids d = Inr d1" "set deleted \<subseteq> set ids"
  shows "\<exists>kept. mset (map rev_pk kept) = mset (map rev_pk (filter (\<lambda>r. rev_pk r \<notin> set ids) revs))
    \<and> sorted (map (\<lambda>r. (rev_created r, rev_pk r)) kept) \<and> chained None kept
    \<and> (\<forall>r \<in> set kept. get_revision (delete_revisions deleted d1) (rev_pk r) = Inr r)
    \<and> get_target (delete_revisions deleted d1) tid = Inr (t\<lparr>t_last_revision := latest_id kept\<rparr>)"
proof -
  let ?kept = "kept_revisions revs ids" and ?d = "delete_revisions deleted d1"
  let ?rows = "link None ?kept"
  have key: "map (\<lambda>r. (rev_created r, rev_pk r)) (link p rs) = map (\<lambda>r. (rev_created r, rev_pk r)) rs" for p rs
    by (induction rs arbitrary: p) simp_all
  have kept: "set ?kept = {r \<in> set revs. rev_pk r \<notin> set ids}"
    "mset ?kept = mset (filter (\<lambda>r. rev_pk r \<notin> set ids) revs)" by (auto simp: kept_revisions_def)
  have dist: "distinct (map rev_pk ?kept)"
    using assms(2) kept(2) by (metis distinct_map_filter mset_eq_imp_distinct_iff mset_map)
  have "rev_pk ` set ?rows = rev_pk ` set ?kept" by (metis list.set_map map_pk_link)
  then have out: "rev_pk ` set ?rows \<inter> set deleted = {}" using kept(1) assms(5) by auto
  have get: "get_revision d1 (rev_pk r) = Inr r" if "r \<in> set ?rows" for r
    using relink_rows_get [OF dist, of d None] kept(1) assms(3) that get_target_relink(2) [OF assms(4,1)]
    by (simp add: get_revision_def)
  have rows: "get_revision ?d (rev_pk r) = Inr r" if r: "r \<in> set ?rows" for r
    using get [OF r] get_revision_delete [of "rev_pk r" deleted d1] out r
      chained_clear [OF chained_link out _ r] by (auto simp: clear_reference_def)
  have latest: "latest_id ?rows = latest_id ?kept"
    by (cases "?kept") (auto simp: latest_id_def link_last [of "_ # _", simplified])
  have "clear_reference deleted (latest_id ?kept) = latest_id ?kept"
    using out \<open>rev_pk ` set ?rows = rev_pk ` set ?kept\<close>
    by (auto simp: latest_id_def clear_reference_def dest: last_in_set)
  moreover have "get_target (delete_revisions deleted d1) tid = (case get_target d1 tid of Inl e \<Rightarrow> Inl e
      | Inr t \<Rightarrow> Inr (t\<lparr>t_last_revision := clear_reference deleted (t_last_revision t)\<rparr>))"
    unfolding get_target_def delete_revisions_def by (simp add: row_get_map)
  ultimately have "get_target ?d tid = Inr (t\<lparr>t_last_revision := latest_id ?rows\<rparr>)"
    using get_target_relink(1) [OF assms(4,1)] latest by simp
  moreover have "sorted (map (\<lambda>r. (rev_created r, rev_pk r)) ?rows)"
    unfolding key by (simp add: kept_revisions_def)
  moreover have "mset (map rev_pk ?rows) = mset (map rev_pk (filter (\<lambda>r. rev_pk r \<notin> set ids) revs))"
    using kept(2) by (simp only: map_pk_link mset_map)
  ultimately show ?thesis using rows chained_link by blast
qed

definition sample_chain :: db where
  "sample_chain = (sample_db [])\<lparr>revisions := [sample_revision 1 None, sample_revision 2 (Some 1), sample_revision 3 (Some 2)],
     targets := [sample_target\<lparr>t_last_revision := Some 3\<rparr>]\<rparr>"

theorem deletion_keeps_chain_witness:
  "\<exists>d1 kept. relink_kept_revisions sample_runtime (sample_target\<lparr>t_last_revision := Some 3\<rparr>) (revisions sample_chain) [2]
       sample_chain = Inr d1
     \<and> chained None kept \<and> (\<forall>r \<in> set kept. get_revision (delete_revisions [2] d1) (rev_pk r) = Inr r)
     \<and> mset (map rev_pk kept) = {#1, 3#}"
proof -
  let ?t = "sample_target\<lparr>t_last_revision := Some 3\<rparr>"
  have "case relink_kept_revisions sample_runtime ?t (revisions sample_chain) [2] sample_chain of Inl e \<Rightarrow> False | Inr d \<Rightarrow> True"
    by code_simp
  then obtain d1 where r: "relink_kept_revisions sample_runtime ?t (revisions sample_chain) [2] sample_chain = Inr d1"
    by (auto split: sum.splits)
  have g: "get_target sample_chain 1 = Inr ?t" by (simp add: get_target_def row_get_def sample_chain_def sample_target_def)
  have d: "distinct (map rev_pk (revisions sample_chain))" by (simp add: sample_chain_def sample_revision_def)
  have a: "\<forall>r \<in> set (revisions sample_chain). get_revision sample_chain (rev_pk r) = Inr r"
    by (simp add: sample_chain_def sample_revision_def get_revision_def row_get_def)
  have m: "mset (map rev_pk (filter (\<lambda>r. rev_pk r \<notin> set [2]) (revisions sample_chain))) = {#1, 3#}"
    by (simp add: sample_chain_def sample_revision_def)
  from deletion_keeps_chain [OF g d a r subset_refl] obtain kept where
    "mset (map rev_pk kept) = mset (map rev_pk (filter (\<lambda>r. rev_pk r \<notin> set [2]) (revisions sample_chain)))"
    "chained None kept" "\<forall>r \<in> set kept. get_revision (delete_revisions [2] d1) (rev_pk r) = Inr r" by blast
  with r m show ?thesis by (intro exI [of _ d1] exI [of _ kept]) simp
qed

end
