(* ===== verification/Staging.thy ===== *)
theory Staging
  imports Revision_Chain
begin

text \<open>
  The reversible file deletion that retention cleanup, revision deletion and target deletion share:
  files are moved to a quarantine inside the database transaction, put back when anything fails, and
  purged after the commit. The three services repeat this code; it is modelled once, with their
  messages as arguments. Copies on external destinations are a separate state that no rollback
  reaches.
\<close>

section \<open>State and programs\<close>

record ('s, 'r) cstate =
  cs_db :: db
  cs_store :: 's
  cs_staged :: "(string \<times> string) list"
  cs_remote :: 'r

definition on_cstore :: "('s, 'a) prog \<Rightarrow> (('s, 'r) cstate, 'a) prog" where
  "on_cstore m s = (case m (cs_store s) of (r, st) \<Rightarrow> (r, s\<lparr>cs_store := st\<rparr>))"

definition on_remote :: "('r, 'a) prog \<Rightarrow> (('s, 'r) cstate, 'a) prog" where
  "on_remote m s = (case m (cs_remote s) of (r, w) \<Rightarrow> (r, s\<lparr>cs_remote := w\<rparr>))"

definition read_cdb :: "(db \<Rightarrow> 'a result) \<Rightarrow> (('s, 'r) cstate, 'a) prog" where
  "read_cdb f = readS (\<lambda>s. f (cs_db s))"

definition write_cdb :: "(db \<Rightarrow> db result) \<Rightarrow> (('s, 'r) cstate, unit) prog" where
  "write_cdb f s = (case f (cs_db s) of Inl e \<Rightarrow> (Inl e, s) | Inr d \<Rightarrow> (Inr (), s\<lparr>cs_db := d\<rparr>))"

definition note_staged :: "string \<times> string \<Rightarrow> (('s, 'r) cstate, unit) prog" where
  "note_staged x s = (Inr (), s\<lparr>cs_staged := cs_staged s @ [x]\<rparr>)"

text \<open>\<open>with transaction.atomic()\<close> around code with other effects: only the database is rolled back.\<close>

definition db_atomic :: "(('s, 'r) cstate, 'a) prog \<Rightarrow> (('s, 'r) cstate, 'a) prog" where
  "db_atomic m s = (case m s of (Inl e, s') \<Rightarrow> (Inl e, s'\<lparr>cs_db := cs_db s\<rparr>) | (Inr x, s') \<Rightarrow> (Inr x, s'))"

text \<open>Stage every key; the number of keys without a file is returned.\<close>

fun stage_all :: "'s config_storage \<Rightarrow> string \<Rightarrow> string list \<Rightarrow> (('s, 'r) cstate, nat) prog" where
  "stage_all ops ns [] = returnS 0"
| "stage_all ops ns (key # keys) =
     bindS (on_cstore (st_stage_delete ops key ns)) (\<lambda>staged_key.
     case staged_key of
       None \<Rightarrow> bindS (stage_all ops ns keys) (\<lambda>n. returnS (Suc n))
     | Some sk \<Rightarrow> bindS (note_staged (key, sk)) (\<lambda>_. stage_all ops ns keys))"

text \<open>\<open>_restore_staged\<close> on the reversed list; the result says whether something could not be restored.\<close>

fun restore_list :: "'s config_storage \<Rightarrow> (string \<times> string) list \<Rightarrow> (('s, 'r) cstate, bool) prog" where
  "restore_list ops [] = returnS False"
| "restore_list ops ((key, sk) # xs) =
     bindS (catchS (bindS (on_cstore (st_restore_staged_delete ops key sk)) (\<lambda>_. returnS False))
              (\<lambda>e. if is_storage_error e then returnS True else raiseS e)) (\<lambda>failed.
     bindS (restore_list ops xs) (\<lambda>rest. returnS (failed \<or> rest)))"

definition restore_staged :: "'s config_storage \<Rightarrow> (('s, 'r) cstate, bool) prog" where
  "restore_staged ops s = restore_list ops (rev (cs_staged s)) s"

fun purge_list :: "'s config_storage \<Rightarrow> (string \<times> string) list \<Rightarrow> (('s, 'r) cstate, nat) prog" where
  "purge_list ops [] = returnS 0"
| "purge_list ops ((key, sk) # xs) =
     bindS (catchS (bindS (on_cstore (st_purge_staged_delete ops sk)) (\<lambda>_. returnS 0))
              (\<lambda>e. if is_storage_error e then returnS 1 else raiseS e)) (\<lambda>n.
     bindS (purge_list ops xs) (\<lambda>m. returnS (n + m)))"

definition purge_staged :: "'s config_storage \<Rightarrow> (('s, 'r) cstate, nat) prog" where
  "purge_staged ops s = purge_list ops (cs_staged s) s"

text \<open>
  The transaction with its handler: \<open>not_restored\<close> is raised when quarantined files could not be put
  back, otherwise the exception is translated.
\<close>

definition staged_transaction ::
  "'s config_storage \<Rightarrow> exn \<Rightarrow> (exn \<Rightarrow> exn) \<Rightarrow> (('s, 'r) cstate, 'a) prog \<Rightarrow> (('s, 'r) cstate, 'a) prog" where
  "staged_transaction ops not_restored translate body s =
     catchS (db_atomic body) (\<lambda>exc.
       bindS (restore_staged ops) (\<lambda>failed.
       raiseS (if failed then not_restored else translate exc))) (s\<lparr>cs_staged := []\<rparr>)"

section \<open>Facts\<close>

lemma on_cstore_eq [prog_simps]:
  "on_cstore m s = (r, s') \<longleftrightarrow> (\<exists>st. m (cs_store s) = (r, st) \<and> s' = s\<lparr>cs_store := st\<rparr>)"
  by (auto simp: on_cstore_def split: prod.splits)

lemma on_remote_eq [prog_simps]:
  "on_remote m s = (r, s') \<longleftrightarrow> (\<exists>w. m (cs_remote s) = (r, w) \<and> s' = s\<lparr>cs_remote := w\<rparr>)"
  by (auto simp: on_remote_def split: prod.splits)

lemma read_cdb_eq [prog_simps]: "read_cdb f s = (r, s') \<longleftrightarrow> f (cs_db s) = r \<and> s' = s"
  by (auto simp: read_cdb_def readS_def)

lemma write_cdb_eq_Inr [prog_simps]:
  "write_cdb f s = (Inr u, s') \<longleftrightarrow> (\<exists>d. f (cs_db s) = Inr d \<and> s' = s\<lparr>cs_db := d\<rparr>)"
  by (auto simp: write_cdb_def split: sum.splits)

lemma note_staged_eq [prog_simps]:
  "note_staged x s = (r, s') \<longleftrightarrow> r = Inr () \<and> s' = s\<lparr>cs_staged := cs_staged s @ [x]\<rparr>"
  by (auto simp: note_staged_def)

lemma db_atomic_eq_Inr [prog_simps]: "db_atomic m s = (Inr x, s') \<longleftrightarrow> m s = (Inr x, s')"
  by (auto simp: db_atomic_def split: prod.splits sum.splits)

text \<open>What staging does to the objects: one move into the quarantine after the other.\<close>

definition move_object :: "(string list \<Rightarrow> string option) \<Rightarrow> string \<Rightarrow> string \<Rightarrow> string list \<Rightarrow> string option" where
  "move_object ob k sk = ob(path_parts k := None, path_parts sk := ob (path_parts k))"

fun moved :: "(string list \<Rightarrow> string option) \<Rightarrow> (string \<times> string) list \<Rightarrow> string list \<Rightarrow> string option" where
  "moved ob [] = ob"
| "moved ob ((k, sk) # xs) = moved (move_object ob k sk) xs"

fun movable :: "(string list \<Rightarrow> string option) \<Rightarrow> (string \<times> string) list \<Rightarrow> bool" where
  "movable ob [] \<longleftrightarrow> True"
| "movable ob ((k, sk) # xs) \<longleftrightarrow> path_parts sk \<noteq> path_parts k \<and> ob (path_parts sk) = None
     \<and> hd (path_parts sk) = ''.retention-trash'' \<and> movable (move_object ob k sk) xs"

lemma moved_append: "moved ob (xs @ ys) = moved (moved ob xs) ys"
  by (induction xs arbitrary: ob) auto

lemma movable_append: "movable ob (xs @ ys) \<longleftrightarrow> movable ob xs \<and> movable (moved ob xs) ys"
  by (induction xs arbitrary: ob) auto

lemma moved_other:
  "movable ob xs \<Longrightarrow> p \<notin> path_parts ` fst ` set xs \<Longrightarrow> hd p \<noteq> ''.retention-trash'' \<Longrightarrow> moved ob xs p = ob p"
proof (induction xs arbitrary: ob)
  case (Cons x xs)
  obtain k sk where x: "x = (k, sk)" by (cases x)
  with Cons.prems have "p \<noteq> path_parts k" "p \<noteq> path_parts sk" by auto
  then have "move_object ob k sk p = ob p" by (simp add: move_object_def)
  with Cons x show ?case by simp
qed simp

text \<open>The relation all code inside the transaction stays within.\<close>

definition staging :: "('s \<Rightarrow> bool) \<Rightarrow> ('s \<Rightarrow> string list \<Rightarrow> string option) \<Rightarrow> ('s, 'r) cstate \<Rightarrow> ('s, 'r) cstate \<Rightarrow> bool" where
  "staging good objs s s' \<longleftrightarrow> good (cs_store s) \<longrightarrow> good (cs_store s') \<and>
     (\<exists>xs. cs_staged s' = cs_staged s @ xs \<and> movable (objs (cs_store s)) xs
        \<and> objs (cs_store s') = moved (objs (cs_store s)) xs)"

interpretation staging_steps: step_relation "staging good objs" for good objs
proof
  show "staging good objs s s" for s by (auto simp: staging_def intro: exI [of _ "[]"])
  show "staging good objs s s''" if "staging good objs s s'" "staging good objs s' s''" for s s' s'' :: "('a, 'b) cstate"
    using that unfolding staging_def by (metis append_assoc moved_append movable_append)
qed

lemma within_staging_same:
  assumes "\<And>s r s'. m s = (r, s') \<Longrightarrow> cs_store s' = cs_store s \<and> cs_staged s' = cs_staged s"
  shows "within (staging good objs) m"
  unfolding within_def staging_def using assms by (metis append_Nil2 moved.simps(1) movable.simps(1))

lemma staging_read_cdb: "within (staging good objs) (read_cdb f)"
  by (rule within_staging_same) (simp add: read_cdb_eq)

lemma staging_write_cdb: "within (staging good objs) (write_cdb f)"
  by (rule within_staging_same) (auto simp: write_cdb_def split: sum.splits)

lemma staging_on_remote: "within (staging good objs) (on_remote m)"
  by (rule within_staging_same) (auto simp: on_remote_eq)

lemmas staging_within = staging_steps.within_intros staging_read_cdb staging_write_cdb staging_on_remote

interpretation cdb_steps: step_relation "\<lambda>(s :: ('s, 'r) cstate) s'. cs_db s' = cs_db s"
  by unfold_locales simp_all

lemma within_on_cstore: "within (\<lambda>s s'. cs_db s' = cs_db s) (on_cstore m)"
  by (auto simp: within_def on_cstore_eq)

context storage_contract
begin

lemma stage_one:
  assumes "wf st" "st_stage_delete ops key ns st = (r, st')"
  shows "wf st' \<and> (case r of Inr (Some sk) \<Rightarrow> movable (objs st) [(key, sk)] \<and> objs st' = moved (objs st) [(key, sk)]
     | _ \<Rightarrow> objs st' = objs st)"
proof (cases r)
  case (Inl e)
  with stage_Inl [OF assms(1), of key ns e st'] assms(2) show ?thesis by simp
next
  case (Inr x)
  show ?thesis
  proof (cases x)
    case None
    with Inr stage_None [OF assms(1), of key ns st'] assms(2) show ?thesis by simp
  next
    case (Some sk)
    with Inr stage_Some [OF assms(1), of key ns sk st'] assms(2) have st: "wf st'" "objs st' = move_object (objs st) key sk"
      "objs st (path_parts sk) = None" and sk: "path_parts sk = ''.retention-trash'' # ns # path_parts key"
      by (auto simp: move_object_def)
    from sk have "length (path_parts sk) \<noteq> length (path_parts key)" by simp
    then have "path_parts sk \<noteq> path_parts key" by metis
    with st sk show ?thesis using Inr Some by simp
  qed
qed

lemma stage_all_staging: "within (staging wf objs) (stage_all ops ns keys :: (('s, 'r) cstate, nat) prog)"
proof (induction keys)
  case (Cons key keys)
  show ?case
    unfolding within_def
  proof (intro allI impI)
    fix s s' :: "('s, 'r) cstate" and r
    assume run: "stage_all ops ns (key # keys) s = (r, s')"
    obtain r1 st where st: "st_stage_delete ops key ns (cs_store s) = (r1, st)" by fastforce
    show "staging wf objs s s'"
    proof (cases "\<exists>sk. r1 = Inr (Some sk)")
      case True
      then obtain sk where r1: "r1 = Inr (Some sk)" by blast
      let ?s1 = "s\<lparr>cs_store := st, cs_staged := cs_staged s @ [(key, sk)]\<rparr>"
      have "staging wf objs s ?s1"
        using stage_one [of "cs_store s" key ns r1 st] st r1
        by (auto simp: staging_def intro!: exI [of _ "[(key, sk)]"])
      moreover have "stage_all ops ns keys ?s1 = (r, s')"
        using run st r1 by (simp add: bindS_def on_cstore_def note_staged_def)
      from withinD [OF Cons.IH this] have "staging wf objs ?s1 s'" .
      ultimately show ?thesis by (rule staging_steps.step_trans)
    next
      case False
      let ?s1 = "s\<lparr>cs_store := st\<rparr>"
      have 1: "staging wf objs s ?s1"
        using stage_one [of "cs_store s" key ns r1 st] st False
        by (cases r1) (auto simp: staging_def intro!: exI [of _ "[]"] split: option.splits)
      show ?thesis
      proof (cases r1)
        case (Inl e)
        with run st have "s' = ?s1" by (simp add: bindS_def on_cstore_def)
        with 1 show ?thesis by simp
      next
        case (Inr x)
        with False have "x = None" by (cases x) auto
        with run st Inr obtain r2 where "stage_all ops ns keys ?s1 = (r2, s')"
          by (auto simp: bindS_def on_cstore_def returnS_def split: prod.splits sum.splits)
        from withinD [OF Cons.IH this] have "staging wf objs ?s1 s'" .
        with 1 show ?thesis by (rule staging_steps.step_trans)
      qed
    qed
  qed
qed (simp add: staging_steps.within_returnS)

text \<open>Restoring in reverse order undoes the moves, when nothing is reported as failed.\<close>

lemma restore_list_undoes:
  assumes "wf (cs_store s)" "movable ob xs" "objs (cs_store s) = moved ob xs"
    "restore_list ops (rev xs) s = (Inr False, s')"
  shows "wf (cs_store s') \<and> objs (cs_store s') = ob \<and> cs_db s' = cs_db s"
  using assms
proof (induction xs arbitrary: s rule: rev_induct)
  case Nil
  then show ?case by (simp add: returnS_def)
next
  case (snoc x xs)
  obtain k sk where x: "x = (k, sk)" by (cases x)
  from snoc.prems(4) obtain u st where
    res: "st_restore_staged_delete ops k sk (cs_store s) = (Inr u, st)"
    and rest: "restore_list ops (rev xs) (s\<lparr>cs_store := st\<rparr>) = (Inr False, s')"
    by (auto simp: x prog_simps split: if_splits)
  let ?o = "moved ob xs"
  from snoc.prems(2,3) have mv: "movable ob xs" "path_parts sk \<noteq> path_parts k" "?o (path_parts sk) = None"
    "objs (cs_store s) = move_object ?o k sk"
    by (simp_all add: x movable_append moved_append)
  note re = restore_Inr [OF snoc.prems(1) res]
  have "objs st = ?o" using re mv by (auto simp: fun_eq_iff move_object_def)
  with re snoc.IH [OF _ mv(1) _ rest] show ?case by simp
qed

lemma restore_list_Inl:
  assumes "restore_list ops xs s = (Inl e, s')"
  shows "\<exists>k sk st st'. st_restore_staged_delete ops k sk st = (Inl e, st') \<and> \<not> is_storage_error e"
  using assms by (induction ops xs arbitrary: s rule: restore_list.induct) (auto simp: prog_simps split: if_splits)

lemma restore_list_db: "restore_list ops xs s = (r, s') \<Longrightarrow> cs_db s' = cs_db s"
proof -
  have "within (\<lambda>s s'. cs_db s' = cs_db s) (restore_list ops xs)"
    by (induction ops xs rule: restore_list.induct) (auto intro!: cdb_steps.within_intros within_on_cstore)
  then show "restore_list ops xs s = (r, s') \<Longrightarrow> cs_db s' = cs_db s" by (rule withinD)
qed

text \<open>
  A failed transaction leaves the database as it was, and the store too, unless the handler says that
  files could not be restored or the store raised something else than a storage error while restoring.
\<close>

lemma staged_transaction_Inl:
  assumes "wf (cs_store s)" "within (staging wf objs) body"
    "staged_transaction ops not_restored translate body s = (Inl e, s')"
  shows "cs_db s' = cs_db s"
    "objs (cs_store s') = objs (cs_store s) \<or> e = not_restored
     \<or> (\<exists>k sk st st'. st_restore_staged_delete ops k sk st = (Inl e, st') \<and> \<not> is_storage_error e)"
proof -
  let ?s = "s\<lparr>cs_staged := []\<rparr>"
  obtain r s1 where body: "body ?s = (r, s1)" by fastforce
  with assms(3) obtain exc where r: "r = Inl exc"
    by (cases r) (auto simp: staged_transaction_def catchS_def db_atomic_def)
  from withinD [OF assms(2) body] assms(1) have st: "wf (cs_store s1)" "movable (objs (cs_store s)) (cs_staged s1)"
    "objs (cs_store s1) = moved (objs (cs_store s)) (cs_staged s1)"
    by (auto simp: staging_def)
  let ?s1 = "s1\<lparr>cs_db := cs_db s\<rparr>"
  obtain r2 s2 where res: "restore_list ops (rev (cs_staged s1)) ?s1 = (r2, s2)" by fastforce
  with assms(3) body r have s': "s' = s2" "r2 = Inl e \<or> (\<exists>b. r2 = Inr b \<and> e = (if b then not_restored else translate exc))"
    by (cases r2; simp add: staged_transaction_def catchS_def db_atomic_def restore_staged_def bindS_def raiseS_def)+
  from restore_list_db [OF res] s' show "cs_db s' = cs_db s" by simp
  show "objs (cs_store s') = objs (cs_store s) \<or> e = not_restored
     \<or> (\<exists>k sk st st'. st_restore_staged_delete ops k sk st = (Inl e, st') \<and> \<not> is_storage_error e)"
  proof (cases r2)
    case (Inl e2)
    with s' restore_list_Inl res show ?thesis by auto
  next
    case (Inr failed)
    with s' restore_list_undoes [of ?s1 "objs (cs_store s)" "cs_staged s1" s2] st res show ?thesis
      by (cases failed) auto
  qed
qed

text \<open>A committed transaction has moved the staged files, and nothing else.\<close>

lemma staged_transaction_Inr:
  assumes "wf (cs_store s)" "within (staging wf objs) body"
    "staged_transaction ops not_restored translate body s = (Inr x, s')"
  shows "wf (cs_store s')" "movable (objs (cs_store s)) (cs_staged s')"
    "objs (cs_store s') = moved (objs (cs_store s)) (cs_staged s')" "body (s\<lparr>cs_staged := []\<rparr>) = (Inr x, s')"
proof -
  from assms(3) show body: "body (s\<lparr>cs_staged := []\<rparr>) = (Inr x, s')"
    by (auto simp: staged_transaction_def prog_simps)
  from withinD [OF assms(2) body] assms(1) show "wf (cs_store s')" "movable (objs (cs_store s)) (cs_staged s')"
    "objs (cs_store s') = moved (objs (cs_store s)) (cs_staged s')" by (auto simp: staging_def)
qed

text \<open>Purging touches only the quarantine.\<close>

lemma purge_list_objs:
  assumes "wf (cs_store s)" "purge_list ops xs s = (r, s')" "p \<notin> path_parts ` snd ` set xs"
  shows "wf (cs_store s') \<and> objs (cs_store s') p = objs (cs_store s) p \<and> cs_db s' = cs_db s"
  using assms
proof (induction xs arbitrary: s r)
  case (Cons x xs)
  obtain k sk where x: "x = (k, sk)" by (cases x)
  obtain r1 st where del: "st_delete ops sk (cs_store s) = (r1, st)" by fastforce
  have st: "wf st \<and> objs st p = objs (cs_store s) p"
    using Cons.prems(1,3) del delete_Inr [of "cs_store s" sk _ st] delete_Inl [of "cs_store s" sk _ st]
    by (cases r1) (auto simp: x)
  let ?s1 = "s\<lparr>cs_store := st\<rparr>"
  have "s' = ?s1 \<or> (\<exists>r2. purge_list ops xs ?s1 = (r2, s'))"
    using Cons.prems(2) del
    by (cases r1) (auto simp: x purge_delete bindS_def catchS_def on_cstore_def returnS_def raiseS_def
        split: prod.splits sum.splits if_splits)
  with Cons.IH [of ?s1] Cons.prems(3) st show ?case by auto
qed (simp add: returnS_def)

end

end
