(* ===== verification/Retention.thy ===== *)
theory Retention
  imports Models
begin

text \<open>
  The retention planner \<open>services/retention.py\<close>: settings, candidates and decisions, the
  resolution of the policy in force for a target and a storage, and \<open>build_retention_plan\<close> with
  its helpers in the order of the source. Reasons are the source's strings; the dictionary of
  reasons is the function from object identifiers to reason lists it denotes. Below the model:
  a declarative description of what is kept, and the lemmas that the planner computes it.
\<close>

section \<open>Settings, candidates, decisions\<close>

definition active_run_statuses :: "string list" where
  "active_run_statuses = [''queued'', ''running'']"

definition unchanged_run_statuses :: "string list" where
  "unchanged_run_statuses = [''success_unchanged'']"

definition changed_run_statuses :: "string list" where
  "changed_run_statuses = [''success_changed'']"

definition failed_run_statuses :: "string list" where
  "failed_run_statuses = [''partial'', ''failed'', ''errored'', ''skipped'']"

definition known_run_statuses :: "string list" where
  "known_run_statuses =
     active_run_statuses @ unchanged_run_statuses @ changed_run_statuses @ failed_run_statuses"

record retention_settings =
  keep_all_days :: int
  daily_days :: int
  weekly_weeks :: int
  monthly_months :: int
  minimum_changed_revisions :: int
  unchanged_run_days :: int
  changed_run_days :: int
  failed_run_days :: int
  max_runs_per_target :: int
  max_revisions_per_target :: "int option"

record revision_candidate =
  rc_object_id :: int
  rc_created :: datetime
  rc_protected :: bool
  rc_content_changed :: bool

record run_candidate =
  nc_object_id :: int
  nc_timestamp :: datetime
  nc_status :: string

record retention_decision =
  rd_object_id :: int
  rd_timestamp :: datetime
  rd_keep :: bool
  rd_reasons :: "string list"

record retention_plan =
  generated_at :: datetime
  revision_decisions :: "retention_decision list"
  run_decisions :: "retention_decision list"

definition revisions_to_keep :: "retention_plan \<Rightarrow> nat" where
  "revisions_to_keep p = length (filter rd_keep (revision_decisions p))"

definition revisions_to_delete :: "retention_plan \<Rightarrow> nat" where
  "revisions_to_delete p = length (revision_decisions p) - revisions_to_keep p"

definition runs_to_keep :: "retention_plan \<Rightarrow> nat" where
  "runs_to_keep p = length (filter rd_keep (run_decisions p))"

definition runs_to_delete :: "retention_plan \<Rightarrow> nat" where
  "runs_to_delete p = length (run_decisions p) - runs_to_keep p"

definition settings_from_policy :: "retention_policy \<Rightarrow> retention_settings" where
  "settings_from_policy p =
     \<lparr>keep_all_days = rp_keep_all_days p, daily_days = rp_daily_days p,
      weekly_weeks = rp_weekly_weeks p, monthly_months = rp_monthly_months p,
      minimum_changed_revisions = rp_minimum_changed_revisions p,
      unchanged_run_days = rp_unchanged_run_days p, changed_run_days = rp_changed_run_days p,
      failed_run_days = rp_failed_run_days p, max_runs_per_target = rp_max_runs_per_target p,
      max_revisions_per_target = None\<rparr>"

definition settings_from_remote_policy :: "remote_retention_policy \<Rightarrow> retention_settings" where
  "settings_from_remote_policy p =
     \<lparr>keep_all_days = rrp_keep_all_days p, daily_days = rrp_daily_days p,
      weekly_weeks = rrp_weekly_weeks p, monthly_months = rrp_monthly_months p,
      minimum_changed_revisions = rrp_minimum_changed_revisions p,
      unchanged_run_days = 0, changed_run_days = 0, failed_run_days = 0,
      max_runs_per_target = 1,
      max_revisions_per_target = Some (rrp_max_copies_per_target p)\<rparr>"

section \<open>Which policy is in force\<close>

definition effective_retention_policy ::
  "backup_target \<Rightarrow> backup_destination option \<Rightarrow> retention_policy option" where
  "effective_retention_policy t storage =
     (case storage of
        Some s \<Rightarrow>
          if dst_enforce_retention_policy s \<and> dst_local_retention_policy s \<noteq> None
          then dst_local_retention_policy s
          else if t_retention_override t \<noteq> None then t_retention_override t
          else if t_policy_override t \<noteq> None
          then map_option bp_retention_policy (t_policy_override t)
          else if dst_local_retention_policy s \<noteq> None then dst_local_retention_policy s
          else None
      | None \<Rightarrow>
          if t_retention_override t \<noteq> None then t_retention_override t
          else if t_policy_override t \<noteq> None
          then map_option bp_retention_policy (t_policy_override t)
          else None)"

definition effective_local_retention_policy ::
  "backup_target \<Rightarrow> backup_destination \<Rightarrow> retention_policy option" where
  "effective_local_retention_policy t s = effective_retention_policy t (Some s)"

definition effective_remote_retention_policy ::
  "backup_target \<Rightarrow> backup_destination \<Rightarrow> remote_retention_policy option" where
  "effective_remote_retention_policy t s =
     (if dst_enforce_retention_policy s \<and> dst_remote_retention_policy s \<noteq> None
      then dst_remote_retention_policy s
      else if t_remote_retention_policy t \<noteq> None then t_remote_retention_policy t
      else if dst_remote_retention_policy s \<noteq> None then dst_remote_retention_policy s
      else None)"

definition effective_remote_retention_policy_id ::
  "backup_target \<Rightarrow> backup_destination \<Rightarrow> int option" where
  "effective_remote_retention_policy_id t s =
     (if dst_enforce_retention_policy s \<and> dst_remote_retention_policy s \<noteq> None
      then map_option rrp_pk (dst_remote_retention_policy s)
      else if t_remote_retention_policy t \<noteq> None then map_option rrp_pk (t_remote_retention_policy t)
      else map_option rrp_pk (dst_remote_retention_policy s))"

definition local_retention_policy_source :: "backup_target \<Rightarrow> backup_destination \<Rightarrow> string" where
  "local_retention_policy_source t s =
     (if dst_enforce_retention_policy s \<and> dst_local_retention_policy s \<noteq> None
      then ''Storage enforced''
      else if t_retention_override t \<noteq> None then ''Device override''
      else if t_policy_override t \<noteq> None then ''Backup policy''
      else if dst_local_retention_policy s \<noteq> None then ''Storage default''
      else ''Keep indefinitely'')"

definition remote_retention_policy_source :: "backup_target \<Rightarrow> backup_destination \<Rightarrow> string" where
  "remote_retention_policy_source t s =
     (if dst_enforce_retention_policy s \<and> dst_remote_retention_policy s \<noteq> None
      then ''Storage enforced''
      else if t_remote_retention_policy t \<noteq> None then ''Device override''
      else if dst_remote_retention_policy s \<noteq> None then ''Storage default''
      else ''Keep indefinitely'')"

definition has_recorded_remote_copy :: "revision_replica list \<Rightarrow> bool" where
  "has_recorded_remote_copy ps \<longleftrightarrow>
     (\<exists>p \<in> set ps. p_remote_deleted_at p = None \<and> (p_remote_available p \<or> p_remote_path p \<noteq> []))"

section \<open>Windows\<close>

definition require_aware :: "datetime \<Rightarrow> unit result" where
  "require_aware d =
     (if is_aware d then Inr ()
      else Inl (ValueError ''Retention planning requires timezone-aware datetimes.''))"

definition within_exact_days :: "int \<Rightarrow> int \<Rightarrow> int \<Rightarrow> bool result" where
  "within_exact_days ts now days =
     (if days = 0 then Inr False else bindE (minus_days now days) (\<lambda>c. Inr (c \<le> ts)))"

definition within_days :: "int \<Rightarrow> int \<Rightarrow> int \<Rightarrow> bool" where
  "within_days ts now days =
     (if days \<le> 0 then False
      else let age = utc_date now - utc_date ts in 0 \<le> age \<and> age < days)"

definition within_weeks :: "int \<Rightarrow> int \<Rightarrow> int \<Rightarrow> bool" where
  "within_weeks ts now weeks =
     (if weeks \<le> 0 then False
      else let age = monday_of (utc_date now) - monday_of (utc_date ts)
           in 0 \<le> age \<and> age < weeks * 7)"

definition within_months :: "int \<Rightarrow> int \<Rightarrow> int \<Rightarrow> bool" where
  "within_months ts now months =
     (if months \<le> 0 then False
      else let age = (year_of (utc_date now) - year_of (utc_date ts)) * 12
                     + month_of (utc_date now) - month_of (utc_date ts)
           in 0 \<le> age \<and> age < months)"

section \<open>Reasons\<close>

type_synonym reasons = "int \<Rightarrow> string list"

definition add_reason :: "string \<Rightarrow> int \<Rightarrow> reasons \<Rightarrow> reasons" where
  "add_reason reason i rs = rs(i := rs i @ [reason])"

definition mark_all :: "string \<Rightarrow> revision_candidate list \<Rightarrow> reasons \<Rightarrow> reasons" where
  "mark_all reason xs rs = fold (\<lambda>x. add_reason reason (rc_object_id x)) xs rs"

fun mark_latest_per_bucket ::
  "string \<Rightarrow> (revision_candidate \<Rightarrow> bool) \<Rightarrow> (revision_candidate \<Rightarrow> 'k) \<Rightarrow> 'k list
    \<Rightarrow> revision_candidate list \<Rightarrow> reasons \<Rightarrow> reasons" where
  "mark_latest_per_bucket reason eligible bucket seen [] rs = rs"
| "mark_latest_per_bucket reason eligible bucket seen (x # xs) rs =
     (if \<not> eligible x then mark_latest_per_bucket reason eligible bucket seen xs rs
      else if bucket x \<in> set seen then mark_latest_per_bucket reason eligible bucket seen xs rs
      else mark_latest_per_bucket reason eligible bucket (bucket x # seen) xs
             (add_reason reason (rc_object_id x) rs))"

abbreviation rc_time :: "revision_candidate \<Rightarrow> int" where
  "rc_time x \<equiv> dt_value (rc_created x)"

definition day_bucket :: "revision_candidate \<Rightarrow> int" where
  "day_bucket x = utc_date (rc_time x)"

definition week_bucket :: "revision_candidate \<Rightarrow> int \<times> int" where
  "week_bucket x = isocalendar2 (utc_date (rc_time x))"

definition month_bucket :: "revision_candidate \<Rightarrow> int \<times> int" where
  "month_bucket x = (year_of (utc_date (rc_time x)), month_of (utc_date (rc_time x)))"

definition collect_reasons ::
  "retention_settings \<Rightarrow> revision_candidate list \<Rightarrow> int \<Rightarrow> int \<Rightarrow> reasons" where
  "collect_reasons st ordered now cutoff =
     (let r0 = (\<lambda>_. []);
          r1 = (case ordered of [] \<Rightarrow> r0 | x # _ \<Rightarrow> add_reason ''Latest revision'' (rc_object_id x) r0);
          r2 = mark_all ''Protected revision'' (filter rc_protected ordered) r1;
          r3 = mark_all ''Minimum changed revisions''
                 (py_take (minimum_changed_revisions st) (filter rc_content_changed ordered)) r2;
          r4 = (if keep_all_days st \<noteq> 0
                then mark_all ''Recent revision'' (filter (\<lambda>x. cutoff \<le> rc_time x) ordered) r3
                else r3);
          r5 = mark_latest_per_bucket ''Daily sample''
                 (\<lambda>x. within_days (rc_time x) now (daily_days st)) day_bucket [] ordered r4;
          r6 = mark_latest_per_bucket ''Weekly sample''
                 (\<lambda>x. within_weeks (rc_time x) now (weekly_weeks st)) week_bucket [] ordered r5
      in mark_latest_per_bucket ''Monthly sample''
           (\<lambda>x. within_months (rc_time x) now (monthly_months st)) month_bucket [] ordered r6)"

definition decide :: "reasons \<Rightarrow> revision_candidate \<Rightarrow> retention_decision" where
  "decide rs x =
     \<lparr>rd_object_id = rc_object_id x, rd_timestamp = rc_created x,
      rd_keep = (rs (rc_object_id x) \<noteq> []),
      rd_reasons = (if rs (rc_object_id x) \<noteq> [] then rs (rc_object_id x)
                    else [''Outside retention windows''])\<rparr>"

text \<open>The hard cap of a remote storage.\<close>

definition mandatory_ids :: "retention_decision list \<Rightarrow> int list" where
  "mandatory_ids ds =
     remdups (map rd_object_id
       (filter (\<lambda>d. ''Latest revision'' \<in> set (rd_reasons d) \<or> ''Protected revision'' \<in> set (rd_reasons d)) ds))"

fun apply_cap :: "int list \<Rightarrow> int \<Rightarrow> retention_decision list \<Rightarrow> retention_decision list" where
  "apply_cap mandatory remaining [] = []"
| "apply_cap mandatory remaining (d # ds) =
     (if \<not> rd_keep d \<or> rd_object_id d \<in> set mandatory then d # apply_cap mandatory remaining ds
      else if remaining \<noteq> 0 then d # apply_cap mandatory (remaining - 1) ds
      else d\<lparr>rd_keep := False, rd_reasons := [''Per-target revision limit exceeded'']\<rparr>
             # apply_cap mandatory remaining ds)"

text \<open>
  Sorting by creation time compares every naive datetime with an aware one when both occur, which
  Python refuses; the check for awareness comes after the sort.
\<close>

definition sort_by_time :: "('a \<Rightarrow> datetime) \<Rightarrow> ('a \<Rightarrow> int) \<Rightarrow> 'a list \<Rightarrow> 'a list result" where
  "sort_by_time time ident xs =
     (if (\<exists>x \<in> set xs. is_aware (time x)) \<and> (\<exists>x \<in> set xs. \<not> is_aware (time x))
      then Inl (TypeError ''can't compare offset-naive and offset-aware datetimes'')
      else Inr (sorted_desc (\<lambda>x. dt_value (time x)) ident xs))"

definition plan_revisions ::
  "retention_settings \<Rightarrow> revision_candidate list \<Rightarrow> int \<Rightarrow> retention_decision list result" where
  "plan_revisions st revs now =
     bindE (sort_by_time rc_created rc_object_id revs) (\<lambda>ordered.
     bindE (traverse (\<lambda>x. require_aware (rc_created x)) ordered) (\<lambda>_.
     bindE (minus_days now (keep_all_days st)) (\<lambda>cutoff.
     let decisions = map (decide (collect_reasons st ordered now cutoff)) ordered
     in case max_revisions_per_target st of
          None \<Rightarrow> Inr decisions
        | Some cap \<Rightarrow>
            if cap = 0 then Inr decisions
            else Inr (apply_cap (mandatory_ids decisions)
                        (max (cap - int (length (mandatory_ids decisions))) 0) decisions))))"

section \<open>Runs\<close>

definition run_verdict ::
  "retention_settings \<Rightarrow> int \<Rightarrow> run_candidate \<Rightarrow> (bool \<times> string) result" where
  "run_verdict st now r =
     (let s = nc_status r; ts = dt_value (nc_timestamp r) in
      if s \<in> set active_run_statuses then Inr (True, ''Active run'')
      else if s \<notin> set known_run_statuses then Inr (True, ''Unknown status (kept safely)'')
      else if s \<in> set unchanged_run_statuses
      then bindE (within_exact_days ts now (unchanged_run_days st)) (\<lambda>k.
             Inr (k, if k then ''Unchanged run retention'' else ''Unchanged run expired''))
      else if s \<in> set changed_run_statuses
      then bindE (within_exact_days ts now (changed_run_days st)) (\<lambda>k.
             Inr (k, if k then ''Changed run retention'' else ''Changed run expired''))
      else bindE (within_exact_days ts now (failed_run_days st)) (\<lambda>k.
             Inr (k, if k then ''Failed run retention'' else ''Failed run expired'')))"

definition completed_status :: "string \<Rightarrow> bool" where
  "completed_status s \<longleftrightarrow> s \<in> set known_run_statuses \<and> s \<notin> set active_run_statuses"

fun plan_run_loop ::
  "retention_settings \<Rightarrow> int \<Rightarrow> int \<Rightarrow> run_candidate list \<Rightarrow> retention_decision list result" where
  "plan_run_loop st now retained [] = Inr []"
| "plan_run_loop st now retained (r # rs) =
     bindE (require_aware (nc_timestamp r)) (\<lambda>_.
     bindE (run_verdict st now r) (\<lambda>(keep, reason).
     let counted = completed_status (nc_status r) \<and> keep;
         full = counted \<and> max_runs_per_target st \<le> retained;
         d = \<lparr>rd_object_id = nc_object_id r, rd_timestamp = nc_timestamp r,
              rd_keep = (if full then False else keep),
              rd_reasons = [if full then ''Per-target run limit exceeded'' else reason]\<rparr>
     in bindE (plan_run_loop st now (if counted \<and> \<not> full then retained + 1 else retained) rs)
          (\<lambda>ds. Inr (d # ds))))"

definition plan_runs ::
  "retention_settings \<Rightarrow> run_candidate list \<Rightarrow> int \<Rightarrow> retention_decision list result" where
  "plan_runs st rs now =
     bindE (sort_by_time nc_timestamp nc_object_id rs) (\<lambda>ordered. plan_run_loop st now 0 ordered)"

definition build_retention_plan ::
  "retention_settings \<Rightarrow> revision_candidate list \<Rightarrow> run_candidate list \<Rightarrow> datetime
    \<Rightarrow> retention_plan result" where
  "build_retention_plan st revs rs now =
     bindE (require_aware now) (\<lambda>_.
     bindE (plan_revisions st revs (dt_value now)) (\<lambda>rds.
     bindE (plan_runs st rs (dt_value now)) (\<lambda>nds.
     Inr \<lparr>generated_at = now, revision_decisions = rds, run_decisions = nds\<rparr>)))"

section \<open>What the planner computes\<close>

text \<open>
  The declarative reading, independent of the order of evaluation: candidates are compared by
  creation time and identifier.
\<close>

definition newer :: "revision_candidate \<Rightarrow> revision_candidate \<Rightarrow> bool" where
  "newer y x \<longleftrightarrow> (rc_time x, rc_object_id x) < (rc_time y, rc_object_id y)"

definition is_latest :: "revision_candidate list \<Rightarrow> revision_candidate \<Rightarrow> bool" where
  "is_latest revs x \<longleftrightarrow> (\<forall>y \<in> set revs. \<not> newer y x)"

definition newest_changed :: "int \<Rightarrow> revision_candidate list \<Rightarrow> revision_candidate \<Rightarrow> bool" where
  "newest_changed n revs x \<longleftrightarrow>
     rc_content_changed x \<and> int (length (filter (\<lambda>y. rc_content_changed y \<and> newer y x) revs)) < n"

definition newest_in_bucket ::
  "(revision_candidate \<Rightarrow> bool) \<Rightarrow> (revision_candidate \<Rightarrow> 'k) \<Rightarrow> revision_candidate list
    \<Rightarrow> revision_candidate \<Rightarrow> bool" where
  "newest_in_bucket el b revs x \<longleftrightarrow>
     el x \<and> (\<forall>y \<in> set revs. newer y x \<and> el y \<longrightarrow> b y \<noteq> b x)"

definition retained :: "retention_settings \<Rightarrow> revision_candidate list \<Rightarrow> int \<Rightarrow> revision_candidate \<Rightarrow> bool" where
  "retained st revs now x \<longleftrightarrow>
     is_latest revs x
     \<or> rc_protected x
     \<or> newest_changed (minimum_changed_revisions st) revs x
     \<or> (keep_all_days st \<noteq> 0 \<and> now - keep_all_days st * day_us \<le> rc_time x)
     \<or> newest_in_bucket (\<lambda>x. within_days (rc_time x) now (daily_days st)) day_bucket revs x
     \<or> newest_in_bucket (\<lambda>x. within_weeks (rc_time x) now (weekly_weeks st)) week_bucket revs x
     \<or> newest_in_bucket (\<lambda>x. within_months (rc_time x) now (monthly_months st)) month_bucket revs x"

subsection \<open>Reason bookkeeping\<close>

lemma in_add_reason: "s \<in> set (add_reason r i rs j) \<longleftrightarrow> s \<in> set (rs j) \<or> (s = r \<and> j = i)"
  by (auto simp: add_reason_def)

lemma in_mark_all:
  "s \<in> set (mark_all r xs rs i) \<longleftrightarrow> s \<in> set (rs i) \<or> (s = r \<and> i \<in> rc_object_id ` set xs)"
  by (induction xs arbitrary: rs) (auto simp: mark_all_def in_add_reason)

definition bucket_head ::
  "(revision_candidate \<Rightarrow> bool) \<Rightarrow> (revision_candidate \<Rightarrow> 'k) \<Rightarrow> 'k list \<Rightarrow> revision_candidate list
    \<Rightarrow> revision_candidate \<Rightarrow> bool" where
  "bucket_head el b seen xs x \<longleftrightarrow>
     (\<exists>ys zs. xs = ys @ x # zs \<and> el x \<and> b x \<notin> set seen \<and> (\<forall>y \<in> set ys. el y \<longrightarrow> b y \<noteq> b x))"

lemma bucket_head_Nil [simp]: "\<not> bucket_head el b seen [] x"
  by (simp add: bucket_head_def)

lemma bucket_head_Cons:
  "bucket_head el b seen (z # xs) x \<longleftrightarrow>
     (x = z \<and> el z \<and> b z \<notin> set seen)
     \<or> bucket_head el b (if el z then b z # seen else seen) xs x"
  (is "?L \<longleftrightarrow> ?R")
proof
  assume ?L
  then obtain ys zs where *: "z # xs = ys @ x # zs" "el x" "b x \<notin> set seen"
    "\<forall>y \<in> set ys. el y \<longrightarrow> b y \<noteq> b x"
    by (auto simp: bucket_head_def)
  show ?R
  proof (cases ys)
    case Nil
    with * show ?thesis by simp
  next
    case (Cons w ws)
    with * have "xs = ws @ x # zs" "b x \<notin> set (if el z then b z # seen else seen)"
      "\<forall>y \<in> set ws. el y \<longrightarrow> b y \<noteq> b x"
      by auto
    with * show ?thesis unfolding bucket_head_def by blast
  qed
next
  assume ?R
  then show ?L
  proof
    assume "x = z \<and> el z \<and> b z \<notin> set seen"
    then have "z # xs = [] @ x # xs \<and> el x \<and> b x \<notin> set seen" by simp
    then show ?L unfolding bucket_head_def by fastforce
  next
    assume "bucket_head el b (if el z then b z # seen else seen) xs x"
    then obtain ys zs where *: "xs = ys @ x # zs" "el x"
      "b x \<notin> set (if el z then b z # seen else seen)" "\<forall>y \<in> set ys. el y \<longrightarrow> b y \<noteq> b x"
      by (auto simp: bucket_head_def)
    then have "z # xs = (z # ys) @ x # zs" "b x \<notin> set seen"
      "\<forall>y \<in> set (z # ys). el y \<longrightarrow> b y \<noteq> b x"
      by (auto split: if_splits)
    with * show ?L unfolding bucket_head_def by blast
  qed
qed

lemma in_mark_latest:
  "s \<in> set (mark_latest_per_bucket r el b seen xs rs i) \<longleftrightarrow>
     s \<in> set (rs i) \<or> (s = r \<and> (\<exists>x. bucket_head el b seen xs x \<and> rc_object_id x = i))"
proof (induction r el b seen xs rs rule: mark_latest_per_bucket.induct)
  case (2 r el b seen x xs rs)
  have drop: "bucket_head el b (b x # seen) xs y \<longleftrightarrow> bucket_head el b seen xs y"
    if "b x \<in> set seen" for y
    using that by (auto simp: bucket_head_def)
  consider "\<not> el x" | "el x" "b x \<in> set seen" | "el x" "b x \<notin> set seen" by blast
  then show ?case
  proof cases
    case 1
    with "2.IH"(1) show ?thesis by (simp add: bucket_head_Cons)
  next
    case 2
    with "2.IH"(2) show ?thesis by (simp add: bucket_head_Cons drop)
  next
    case 3
    with "2.IH"(3) show ?thesis by (auto simp: bucket_head_Cons in_add_reason)
  qed
qed simp

subsection \<open>Positions in the sorted list are ages\<close>

lemma newer_irrefl [simp]: "\<not> newer x x"
  by (simp add: newer_def)

lemma newer_asym: "newer x y \<Longrightarrow> \<not> newer y x"
  by (auto simp: newer_def)

abbreviation by_age :: "revision_candidate list \<Rightarrow> revision_candidate list" where
  "by_age revs \<equiv> sorted_desc (\<lambda>x. rc_time x) rc_object_id revs"

lemma sorted_wrt_distinct_strict:
  assumes "sorted_wrt P xs" "distinct (map f xs)" "\<And>x y. P x y \<Longrightarrow> f x \<noteq> f y \<Longrightarrow> Q x y"
  shows "sorted_wrt Q xs"
  using assms(1,2)
proof (induction xs)
  case (Cons x xs)
  have "Q x y" if "y \<in> set xs" for y
    using Cons.prems that assms(3) [of x y] by force
  with Cons show ?case by simp
qed simp

lemma by_age_newer:
  assumes "distinct (map rc_object_id revs)"
  shows "sorted_wrt newer (by_age revs)"
  by (rule sorted_wrt_distinct_strict [where f = rc_object_id, OF sorted_desc_wrt])
    (use assms in \<open>auto simp: newer_def less_le\<close>)

lemma newer_iff_before:
  assumes "sorted_wrt newer (ys @ x # zs)" "y \<in> set (ys @ x # zs)"
  shows "newer y x \<longleftrightarrow> y \<in> set ys"
  using assms by (auto simp: sorted_wrt_append dest: newer_asym)

lemma bucket_head_newest:
  assumes "sorted_wrt newer xs"
  shows "bucket_head el b [] xs x \<longleftrightarrow> x \<in> set xs \<and> newest_in_bucket el b xs x"
proof
  assume "bucket_head el b [] xs x"
  then obtain ys zs where xs: "xs = ys @ x # zs" and *: "el x" "\<forall>y \<in> set ys. el y \<longrightarrow> b y \<noteq> b x"
    by (auto simp: bucket_head_def)
  show "x \<in> set xs \<and> newest_in_bucket el b xs x"
    using * newer_iff_before [OF assms [unfolded xs]] unfolding xs newest_in_bucket_def by simp
next
  assume *: "x \<in> set xs \<and> newest_in_bucket el b xs x"
  then obtain ys zs where xs: "xs = ys @ x # zs" by (auto simp: in_set_conv_decomp)
  have "newer y x" if "y \<in> set ys" for y
    using assms that newer_iff_before [of ys x zs y] unfolding xs by auto
  with * show "bucket_head el b [] xs x"
    unfolding bucket_head_def newest_in_bucket_def xs
    by (intro exI [of _ ys] exI [of _ zs]) auto
qed

lemma in_take_filter:
  assumes "sorted_wrt newer xs"
  shows "x \<in> set (take n (filter P xs)) \<longleftrightarrow>
     x \<in> set xs \<and> P x \<and> length (filter (\<lambda>y. P y \<and> newer y x) xs) < n"
proof (cases "x \<in> set xs \<and> P x")
  case True
  then obtain ys zs where xs: "xs = ys @ x # zs" by (auto simp: in_set_conv_decomp)
  have newer_ys: "newer y x" if "y \<in> set ys" for y
    using assms that newer_iff_before [of ys x zs y] unfolding xs by auto
  have not_newer: "\<not> newer y x" if "y \<in> set (x # zs)" for y
    using assms that unfolding xs by (auto simp: sorted_wrt_append dest: newer_asym)
  have "filter (\<lambda>y. P y \<and> newer y x) xs = filter P ys"
    using newer_ys not_newer unfolding xs by (auto simp: filter_empty_conv intro: filter_cong)
  moreover have "x \<notin> set ys" using newer_ys newer_irrefl by blast
  ultimately show ?thesis
    using True unfolding xs by (auto simp: take_Cons' dest: in_set_takeD)
next
  case False
  then show ?thesis by (auto dest: in_set_takeD)
qed

lemma newest_changed_by_age:
  "newest_changed n (by_age revs) x = newest_changed n revs x"
proof -
  have "mset (filter Q (by_age revs)) = mset (filter Q revs)" for Q
    by (simp add: mset_filter)
  then have "length (filter Q (by_age revs)) = length (filter Q revs)" for Q
    by (metis size_mset)
  then show ?thesis by (simp add: newest_changed_def)
qed

lemma newest_in_bucket_by_age: "newest_in_bucket el b (by_age revs) x = newest_in_bucket el b revs x"
  by (simp add: newest_in_bucket_def)

lemma hd_is_latest:
  assumes "sorted_wrt newer xs"
  shows "(\<exists>ys. xs = x # ys) \<longleftrightarrow> x \<in> set xs \<and> is_latest xs x"
proof
  assume "\<exists>ys. xs = x # ys"
  with assms show "x \<in> set xs \<and> is_latest xs x"
    using newer_asym by (auto simp: is_latest_def)
next
  assume *: "x \<in> set xs \<and> is_latest xs x"
  then obtain y ys where xs: "xs = y # ys" by (cases xs) auto
  with assms * have "x = y" by (auto simp: is_latest_def)
  with xs show "\<exists>ys. xs = x # ys" by simp
qed

text \<open>The windows of the planner, named.\<close>

abbreviation day_el where "day_el st now \<equiv> (\<lambda>x. within_days (rc_time x) now (daily_days st))"
abbreviation week_el where "week_el st now \<equiv> (\<lambda>x. within_weeks (rc_time x) now (weekly_weeks st))"
abbreviation month_el where "month_el st now \<equiv> (\<lambda>x. within_months (rc_time x) now (monthly_months st))"

lemma in_latest_reason:
  "s \<in> set ((case ordered of [] \<Rightarrow> \<lambda>_. [] | x # _ \<Rightarrow> add_reason r (rc_object_id x) (\<lambda>_. [])) i) \<longleftrightarrow>
     s = r \<and> (\<exists>x ys. ordered = x # ys \<and> rc_object_id x = i)"
  by (cases ordered) (auto simp: in_add_reason)

lemma in_optional_mark:
  "s \<in> set ((if c then mark_all r xs rs else rs) i) \<longleftrightarrow>
     s \<in> set (rs i) \<or> (s = r \<and> c \<and> i \<in> rc_object_id ` set xs)"
  by (simp add: in_mark_all)

lemma in_collect_reasons:
  "s \<in> set (collect_reasons st ordered now cutoff i) \<longleftrightarrow>
     (s = ''Latest revision'' \<and> (\<exists>x ys. ordered = x # ys \<and> rc_object_id x = i))
   \<or> (s = ''Protected revision'' \<and> i \<in> rc_object_id ` set (filter rc_protected ordered))
   \<or> (s = ''Minimum changed revisions'' \<and>
        i \<in> rc_object_id ` set (py_take (minimum_changed_revisions st) (filter rc_content_changed ordered)))
   \<or> (s = ''Recent revision'' \<and> keep_all_days st \<noteq> 0
        \<and> i \<in> rc_object_id ` set (filter (\<lambda>x. cutoff \<le> rc_time x) ordered))
   \<or> (s = ''Daily sample'' \<and> (\<exists>x. bucket_head (day_el st now) day_bucket [] ordered x \<and> rc_object_id x = i))
   \<or> (s = ''Weekly sample'' \<and> (\<exists>x. bucket_head (week_el st now) week_bucket [] ordered x \<and> rc_object_id x = i))
   \<or> (s = ''Monthly sample'' \<and> (\<exists>x. bucket_head (month_el st now) month_bucket [] ordered x \<and> rc_object_id x = i))"
  unfolding collect_reasons_def Let_def
  by (simp only: in_mark_latest in_mark_all in_optional_mark in_latest_reason disj_assoc)

subsection \<open>The planner's output\<close>

lemma sort_by_time_Inr:
  "sort_by_time t i xs = Inr ys \<Longrightarrow> ys = sorted_desc (\<lambda>x. dt_value (t x)) i xs"
  by (auto simp: sort_by_time_def split: if_splits)

lemma require_aware_Inr [simp]: "require_aware d = Inr u \<longleftrightarrow> is_aware d"
  by (auto simp: require_aware_def)

lemma traverse_aware: "traverse (\<lambda>x. require_aware (t x)) xs = Inr us \<Longrightarrow> x \<in> set xs \<Longrightarrow> is_aware (t x)"
  by (induction xs arbitrary: us) (auto simp: result_simps)

definition raw_decisions ::
  "retention_settings \<Rightarrow> revision_candidate list \<Rightarrow> int \<Rightarrow> retention_decision list" where
  "raw_decisions st revs now =
     map (decide (collect_reasons st (by_age revs) now (now - keep_all_days st * day_us))) (by_age revs)"

lemma plan_revisions_Inr:
  assumes "plan_revisions st revs now = Inr ds"
  shows "ds = (case max_revisions_per_target st of
            None \<Rightarrow> raw_decisions st revs now
          | Some cap \<Rightarrow>
              if cap = 0 then raw_decisions st revs now
              else apply_cap (mandatory_ids (raw_decisions st revs now))
                     (max (cap - int (length (mandatory_ids (raw_decisions st revs now)))) 0)
                     (raw_decisions st revs now))"
    and "\<forall>x \<in> set revs. is_aware (rc_created x)"
  using assms unfolding plan_revisions_def
  by (auto simp: bindE_eq_Inr raw_decisions_def Let_def
      dest!: sort_by_time_Inr minus_days_Inr dest: traverse_aware split: option.splits if_splits)

lemma collect_reasons_nonempty:
  assumes "distinct (map rc_object_id revs)" "0 \<le> minimum_changed_revisions st" "x \<in> set revs"
  shows "collect_reasons st (by_age revs) now (now - keep_all_days st * day_us) (rc_object_id x) \<noteq> []
     \<longleftrightarrow> retained st revs now x"
proof -
  let ?xs = "by_age revs"
  have sorted: "sorted_wrt newer ?xs" using assms(1) by (rule by_age_newer)
  have uniq: "y = x" if "y \<in> set revs" "rc_object_id y = rc_object_id x" for y
    using assms(1,3) that by (auto simp: distinct_map inj_on_def)
  have img: "rc_object_id x \<in> rc_object_id ` A \<longleftrightarrow> x \<in> A" if "A \<subseteq> set revs" for A
    using uniq that by (auto 0 4)
  have latest: "(\<exists>y ys. ?xs = y # ys \<and> rc_object_id y = rc_object_id x) \<longleftrightarrow> is_latest revs x"
  proof -
    have "(\<exists>y ys. ?xs = y # ys \<and> rc_object_id y = rc_object_id x) \<longleftrightarrow> (\<exists>ys. ?xs = x # ys)"
      using uniq by (metis list.set_intros(1) set_sorted_desc)
    also have "\<dots> \<longleftrightarrow> is_latest revs x"
      using hd_is_latest [OF sorted] assms(3) by (simp add: is_latest_def)
    finally show ?thesis .
  qed
  have bucket: "(\<exists>y. bucket_head el b [] ?xs y \<and> rc_object_id y = rc_object_id x)
      \<longleftrightarrow> newest_in_bucket el b revs x" for el and b :: "revision_candidate \<Rightarrow> 'k"
    unfolding bucket_head_newest [OF sorted] newest_in_bucket_by_age
    using uniq assms(3) by auto
  have changed: "rc_object_id x \<in> rc_object_id ` set (py_take (minimum_changed_revisions st)
      (filter rc_content_changed ?xs)) \<longleftrightarrow> newest_changed (minimum_changed_revisions st) revs x"
  proof -
    have "set (py_take (minimum_changed_revisions st) (filter rc_content_changed ?xs)) \<subseteq> set revs"
      using set_py_take_subset by fastforce
    then have "?thesis \<longleftrightarrow>
        (x \<in> set (take (nat (minimum_changed_revisions st)) (filter rc_content_changed ?xs))
         \<longleftrightarrow> newest_changed (minimum_changed_revisions st) (by_age revs) x)"
      using assms(2) by (simp add: img newest_changed_by_age py_take_def)
    then show ?thesis
      using assms(2,3) in_take_filter [OF sorted, of x _ rc_content_changed]
      by (auto simp: newest_changed_def zless_nat_eq_int_zless)
  qed
  have ne: "xs \<noteq> [] \<longleftrightarrow> (\<exists>s. s \<in> set xs)" for xs :: "string list"
    by (cases xs) auto
  show ?thesis
    unfolding ne in_collect_reasons latest bucket changed retained_def
    using img [of "set (filter rc_protected ?xs)"]
      img [of "set (filter (\<lambda>y. now - keep_all_days st * day_us \<le> rc_time y) ?xs)"] assms(3)
    by (simp only: ex_disj_distrib simp_thms ex_simps) auto
qed

lemma map_id_raw_decisions:
  "map rd_object_id (raw_decisions st revs now) = map rc_object_id (by_age revs)"
  by (simp add: raw_decisions_def decide_def comp_def)

lemma map_id_apply_cap [simp]: "map rd_object_id (apply_cap m n ds) = map rd_object_id ds"
  by (induction m n ds rule: apply_cap.induct) auto

lemma length_apply_cap [simp]: "length (apply_cap m n ds) = length ds"
  by (induction m n ds rule: apply_cap.induct) auto

lemma plan_revisions_ids:
  assumes "plan_revisions st revs now = Inr ds"
  shows "map rd_object_id ds = map rc_object_id (by_age revs)"
  using plan_revisions_Inr(1) [OF assms]
  by (auto simp: map_id_raw_decisions split: option.splits if_splits)

lemma raw_kept_iff:
  assumes "distinct (map rc_object_id revs)" "0 \<le> minimum_changed_revisions st"
  shows "d \<in> set (raw_decisions st revs now) \<and> rd_keep d \<longleftrightarrow>
     (\<exists>x \<in> set revs. retained st revs now x
        \<and> d = decide (collect_reasons st (by_age revs) now (now - keep_all_days st * day_us)) x)"
  using collect_reasons_nonempty [OF assms] by (auto simp: raw_decisions_def decide_def)

lemma raw_kept_ids:
  assumes "distinct (map rc_object_id revs)" "0 \<le> minimum_changed_revisions st"
  shows "rd_object_id ` {d \<in> set (raw_decisions st revs now). rd_keep d} =
     rc_object_id ` {x \<in> set revs. retained st revs now x}"
proof -
  have "{d \<in> set (raw_decisions st revs now). rd_keep d} =
      decide (collect_reasons st (by_age revs) now (now - keep_all_days st * day_us))
        ` {x \<in> set revs. retained st revs now x}"
    using raw_kept_iff [OF assms] by (auto simp: image_def)
  then show ?thesis by (auto simp: image_image decide_def)
qed

text \<open>Which revisions the cap may not touch.\<close>

definition mandatory :: "revision_candidate list \<Rightarrow> revision_candidate \<Rightarrow> bool" where
  "mandatory revs x \<longleftrightarrow> is_latest revs x \<or> rc_protected x"

lemma mandatory_ids_raw:
  assumes "distinct (map rc_object_id revs)"
  shows "set (mandatory_ids (raw_decisions st revs now)) = rc_object_id ` {x \<in> set revs. mandatory revs x}"
proof -
  let ?R = "collect_reasons st (by_age revs) now (now - keep_all_days st * day_us)"
  have key: "''Latest revision'' \<in> set (rd_reasons (decide ?R x)) \<or>
        ''Protected revision'' \<in> set (rd_reasons (decide ?R x)) \<longleftrightarrow> mandatory revs x"
    if x: "x \<in> set revs" for x
  proof -
    have uniq: "y = x" if "y \<in> set revs" "rc_object_id y = rc_object_id x" for y
      using assms x that by (auto simp: distinct_map inj_on_def)
    have "(\<exists>y ys. by_age revs = y # ys \<and> rc_object_id y = rc_object_id x) \<longleftrightarrow> is_latest revs x"
      using hd_is_latest [OF by_age_newer [OF assms]] x uniq
      by (metis (no_types, lifting) is_latest_def list.set_intros(1) set_sorted_desc)
    moreover have "rc_object_id x \<in> rc_object_id ` set (filter rc_protected (by_age revs)) \<longleftrightarrow> rc_protected x"
      using uniq x by (auto simp: image_def)
    moreover have "s \<in> set (rd_reasons (decide ?R x)) \<longleftrightarrow> s \<in> set (?R (rc_object_id x))"
      if "s \<noteq> ''Outside retention windows''" for s
      using that by (auto simp: decide_def)
    ultimately show ?thesis
      by (simp add: in_collect_reasons mandatory_def)
  qed
  have ident: "rd_object_id (decide ?R x) = rc_object_id x" for x
    by (simp add: decide_def)
  have "set (filter (\<lambda>d. ''Latest revision'' \<in> set (rd_reasons d) \<or> ''Protected revision'' \<in> set (rd_reasons d))
           (raw_decisions st revs now)) = decide ?R ` {x \<in> set revs. mandatory revs x}"
    using key by (simp add: raw_decisions_def) blast
  then show ?thesis
    by (simp add: mandatory_ids_def image_image ident)
qed

lemma apply_cap_keeps_mandatory:
  "d \<in> set ds \<Longrightarrow> rd_object_id d \<in> set m \<Longrightarrow> d \<in> set (apply_cap m n ds)"
  by (induction m n ds rule: apply_cap.induct) auto

lemma apply_cap_kept_subset:
  "d \<in> set (apply_cap m n ds) \<Longrightarrow> rd_keep d \<Longrightarrow> d \<in> set ds"
  by (induction m n ds rule: apply_cap.induct) (auto split: if_splits)

lemma apply_cap_count:
  "0 \<le> n \<Longrightarrow>
   int (length (filter (\<lambda>d. rd_keep d \<and> rd_object_id d \<notin> set m) (apply_cap m n ds))) \<le> n"
  by (induction m n ds rule: apply_cap.induct) auto

lemma apply_cap_id:
  "int (length (filter (\<lambda>d. rd_keep d \<and> rd_object_id d \<notin> set m) ds)) \<le> n \<Longrightarrow> apply_cap m n ds = ds"
  by (induction m n ds rule: apply_cap.induct) (auto split: if_splits)

lemma mandatory_retained: "mandatory revs x \<Longrightarrow> retained st revs now x"
  by (auto simp: mandatory_def retained_def)

subsection \<open>Planning again after the deletions\<close>

definition kept_ids :: "retention_decision list \<Rightarrow> int set" where
  "kept_ids ds = rd_object_id ` {d \<in> set ds. rd_keep d}"

definition survivors :: "revision_candidate list \<Rightarrow> retention_decision list \<Rightarrow> revision_candidate list" where
  "survivors revs ds = filter (\<lambda>x. rc_object_id x \<in> kept_ids ds) revs"

lemma retained_antimono:
  assumes "retained st revs now x"
  shows "retained st (filter K revs) now x"
proof -
  have "newest_changed n (filter K revs) x" if "newest_changed n revs x" for n
  proof -
    have "length (filter P (filter K revs)) \<le> length (filter P revs)" for P
      by (induction revs) auto
    then have "int (length (filter (\<lambda>y. rc_content_changed y \<and> newer y x) (filter K revs)))
        \<le> int (length (filter (\<lambda>y. rc_content_changed y \<and> newer y x) revs))"
      by (simp only: of_nat_le_iff)
    with that show ?thesis unfolding newest_changed_def by linarith
  qed
  with assms show ?thesis
    by (auto simp: retained_def is_latest_def newest_in_bucket_def)
qed

lemma kept_ids_subset:
  assumes "plan_revisions st revs now = Inr ds"
    and "distinct (map rc_object_id revs)" "0 \<le> minimum_changed_revisions st"
  shows "kept_ids ds \<subseteq> rc_object_id ` {x \<in> set revs. retained st revs now x}"
proof -
  have "kept_ids ds \<subseteq> kept_ids (raw_decisions st revs now)"
    using plan_revisions_Inr(1) [OF assms(1)]
    by (auto simp: kept_ids_def dest: apply_cap_kept_subset split: option.splits if_splits)
  also have "\<dots> = rc_object_id ` {x \<in> set revs. retained st revs now x}"
    using raw_kept_ids [OF assms(2,3)] by (simp add: kept_ids_def)
  finally show ?thesis .
qed

lemma kept_ids_mandatory:
  assumes "plan_revisions st revs now = Inr ds"
    and "distinct (map rc_object_id revs)" "0 \<le> minimum_changed_revisions st"
    and "x \<in> set revs" "mandatory revs x"
  shows "rc_object_id x \<in> kept_ids ds"
proof -
  let ?raw = "raw_decisions st revs now"
  have "rc_object_id x \<in> kept_ids ?raw"
    using raw_kept_ids [OF assms(2,3), of now] mandatory_retained [OF assms(5)] assms(4)
    by (simp add: kept_ids_def)
  then obtain d where d: "d \<in> set ?raw" "rd_keep d" "rd_object_id d = rc_object_id x"
    by (auto simp: kept_ids_def)
  have "rd_object_id d \<in> set (mandatory_ids ?raw)"
    using mandatory_ids_raw [OF assms(2), of st now] assms(4,5) d(3) by auto
  then have "d \<in> set ds"
    using plan_revisions_Inr(1) [OF assms(1)] d(1) apply_cap_keeps_mandatory
    by (auto split: option.splits if_splits)
  with d(2) have "rd_object_id d \<in> kept_ids ds" by (auto simp: kept_ids_def)
  with d(3) show ?thesis by simp
qed

lemma distinct_survivors:
  "distinct (map rc_object_id revs) \<Longrightarrow> distinct (map rc_object_id (survivors revs ds))"
  by (simp add: survivors_def distinct_map_filter)

lemma raw_survivors_kept:
  assumes "plan_revisions st revs now = Inr ds"
    and "distinct (map rc_object_id revs)" "0 \<le> minimum_changed_revisions st"
    and "d \<in> set (raw_decisions st (survivors revs ds) now)"
  shows "rd_keep d"
proof -
  let ?S = "survivors revs ds"
  obtain x where x: "x \<in> set ?S"
    "d = decide (collect_reasons st (by_age ?S) now (now - keep_all_days st * day_us)) x"
    using assms(4) by (auto simp: raw_decisions_def)
  then have "x \<in> set revs" "rc_object_id x \<in> kept_ids ds" by (auto simp: survivors_def)
  then obtain y where y: "y \<in> set revs" "retained st revs now y" "rc_object_id y = rc_object_id x"
    using kept_ids_subset [OF assms(1-3)] by auto
  with \<open>x \<in> set revs\<close> assms(2) have "y = x" by (auto simp: distinct_map inj_on_def)
  with y have "retained st ?S now x" by (simp add: survivors_def retained_antimono)
  then show ?thesis
    using collect_reasons_nonempty [OF distinct_survivors [OF assms(2)] assms(3) x(1)] x(2)
    by (simp add: decide_def)
qed

lemma mandatory_survivors:
  assumes "plan_revisions st revs now = Inr ds"
    and "distinct (map rc_object_id revs)" "0 \<le> minimum_changed_revisions st"
  shows "{x \<in> set (survivors revs ds). mandatory (survivors revs ds) x} = {x \<in> set revs. mandatory revs x}"
    (is "?L = ?R")
proof
  have keep: "x \<in> set (survivors revs ds)" if "x \<in> set revs" "mandatory revs x" for x
    using kept_ids_mandatory [OF assms that] that by (simp add: survivors_def)
  then show "?R \<subseteq> ?L"
    by (auto simp: mandatory_def is_latest_def survivors_def)
  show "?L \<subseteq> ?R"
  proof
    fix x assume x: "x \<in> ?L"
    then have xr: "x \<in> set revs" by (simp add: survivors_def)
    obtain z zs where z: "by_age revs = z # zs"
      using xr by (metis list.exhaust list.set_cases set_sorted_desc)
    then have zl: "z \<in> set revs \<and> is_latest revs z"
      using hd_is_latest [OF by_age_newer [OF assms(2)], of z]
      unfolding is_latest_def set_sorted_desc by blast
    then have zs: "z \<in> set (survivors revs ds)" using keep by (auto simp: mandatory_def)
    have "is_latest revs x" if "is_latest (survivors revs ds) x"
    proof -
      have "\<not> newer z x" "\<not> newer x z" using that zs zl xr by (auto simp: is_latest_def)
      then have "rc_object_id x = rc_object_id z" by (auto simp: newer_def)
      with xr zl assms(2) have "x = z" by (auto simp: distinct_map inj_on_def)
      with zl show ?thesis by simp
    qed
    with x xr show "x \<in> ?R" by (auto simp: mandatory_def)
  qed
qed

subsection \<open>Runs\<close>

text \<open>One iteration of the run loop that succeeds, with the rest of the loop.\<close>

lemma plan_run_loop_ConsE:
  assumes "plan_run_loop st now n (r # rs) = Inr ds"
  obtains d ds' keep reason where
    "ds = d # ds'" "run_verdict st now r = Inr (keep, reason)" "is_aware (nc_timestamp r)"
    "rd_object_id d = nc_object_id r"
    "rd_keep d \<longleftrightarrow> keep \<and> (completed_status (nc_status r) \<longrightarrow> n < max_runs_per_target st)"
    "plan_run_loop st now (if completed_status (nc_status r) \<and> rd_keep d then n + 1 else n) rs = Inr ds'"
proof -
  from assms obtain keep reason ds' where
    aware: "is_aware (nc_timestamp r)" and v: "run_verdict st now r = Inr (keep, reason)" and
    rest: "plan_run_loop st now (if (completed_status (nc_status r) \<and> keep)
             \<and> \<not> max_runs_per_target st \<le> n then n + 1 else n) rs = Inr ds'" and
    ds: "ds = \<lparr>rd_object_id = nc_object_id r, rd_timestamp = nc_timestamp r,
              rd_keep = (if (completed_status (nc_status r) \<and> keep) \<and> max_runs_per_target st \<le> n
                         then False else keep),
              rd_reasons = [if (completed_status (nc_status r) \<and> keep) \<and> max_runs_per_target st \<le> n
                            then ''Per-target run limit exceeded'' else reason]\<rparr> # ds'"
    by (auto simp: bindE_eq_Inr Let_def split: prod.splits if_splits)
  show thesis
    by (rule that [OF ds v aware]) (use rest in \<open>auto split: if_splits\<close>)
qed

lemma run_verdict_not_completed:
  "run_verdict st now r = Inr (keep, reason) \<Longrightarrow> \<not> completed_status (nc_status r) \<Longrightarrow> keep"
  by (auto simp: run_verdict_def completed_status_def Let_def split: if_splits)

lemma plan_run_loop_pairs:
  "plan_run_loop st now n rs = Inr ds \<Longrightarrow>
   list_all2 (\<lambda>r d. rd_object_id d = nc_object_id r
      \<and> (\<not> completed_status (nc_status r) \<longrightarrow> rd_keep d)
      \<and> (rd_keep d \<longrightarrow> (\<exists>reason. run_verdict st now r = Inr (True, reason)))) rs ds"
proof (induction rs arbitrary: n ds)
  case (Cons r rs)
  from Cons.prems show ?case
    by (rule plan_run_loop_ConsE) (auto dest: run_verdict_not_completed Cons.IH)
qed simp

definition completed_kept :: "run_candidate list \<Rightarrow> retention_decision list \<Rightarrow> nat" where
  "completed_kept rs ds =
     length (filter (\<lambda>(r, d). completed_status (nc_status r) \<and> rd_keep d) (zip rs ds))"

lemma plan_run_loop_count:
  "plan_run_loop st now n rs = Inr ds \<Longrightarrow> n \<le> max_runs_per_target st \<Longrightarrow>
   n + int (completed_kept rs ds) \<le> max_runs_per_target st"
proof (induction rs arbitrary: n ds)
  case (Cons r rs)
  from Cons.prems(1) show ?case
  proof (rule plan_run_loop_ConsE)
    fix d ds' keep reason
    assume *: "ds = d # ds'" "rd_keep d \<longleftrightarrow> keep \<and> (completed_status (nc_status r) \<longrightarrow> n < max_runs_per_target st)"
      "plan_run_loop st now (if completed_status (nc_status r) \<and> rd_keep d then n + 1 else n) rs = Inr ds'"
    show ?thesis
      using Cons.IH [OF *(3)] * Cons.prems(2) by (auto simp: completed_kept_def split: if_splits)
  qed
qed (simp add: completed_kept_def)

lemma plan_run_loop_drop:
  assumes "plan_run_loop st now n rs = Inr ds" "(r, d) \<in> set (zip rs ds)" "\<not> rd_keep d"
    "run_verdict st now r = Inr (True, reason)"
  shows "max_runs_per_target st \<le> n + int (completed_kept rs ds)"
  using assms
proof (induction rs arbitrary: n ds)
  case (Cons r' rs)
  from Cons.prems(1) show ?case
  proof (rule plan_run_loop_ConsE)
    fix d' ds' keep reason'
    assume *: "ds = d' # ds'" "run_verdict st now r' = Inr (keep, reason')"
      "rd_keep d' \<longleftrightarrow> keep \<and> (completed_status (nc_status r') \<longrightarrow> n < max_runs_per_target st)"
      "plan_run_loop st now (if completed_status (nc_status r') \<and> rd_keep d' then n + 1 else n) rs = Inr ds'"
    show ?thesis
      using Cons.IH [OF *(4)] * Cons.prems(2-4) by (auto simp: completed_kept_def split: if_splits)
  qed
qed simp

subsection \<open>When planning succeeds\<close>

lemma traverse_require_aware:
  "(\<exists>us. traverse (\<lambda>x. require_aware (t x)) xs = Inr us) \<longleftrightarrow> (\<forall>x \<in> set xs. is_aware (t x))"
  by (induction xs) (auto simp: bindE_eq_Inr)

lemma plan_revisions_total:
  "(\<exists>ds. plan_revisions st revs now = Inr ds) \<longleftrightarrow>
     (\<forall>x \<in> set revs. is_aware (rc_created x)) \<and> minus_days now (keep_all_days st) \<noteq> Inl OverflowError"
proof -
  have "minus_days now (keep_all_days st) \<noteq> Inl OverflowError \<longleftrightarrow>
      (\<exists>c. minus_days now (keep_all_days st) = Inr c)"
    by (auto simp: minus_days_def)
  moreover have "(\<exists>ds. plan_revisions st revs now = Inr ds) \<longleftrightarrow>
      (\<exists>ys us c. sort_by_time rc_created rc_object_id revs = Inr ys
        \<and> traverse (\<lambda>x. require_aware (rc_created x)) ys = Inr us
        \<and> minus_days now (keep_all_days st) = Inr c)"
    unfolding plan_revisions_def bindE_eq_Inr Let_def
    by (cases "max_revisions_per_target st"; cases "the (max_revisions_per_target st) = 0") auto
  ultimately show ?thesis
    using traverse_require_aware [of rc_created "by_age revs"]
    by (auto simp: sort_by_time_def split: if_splits)
qed

lemma length_mandatory_ids:
  assumes "distinct (map rc_object_id revs)"
  shows "length (mandatory_ids (raw_decisions st revs now)) = card {x \<in> set revs. mandatory revs x}"
proof -
  have "distinct (mandatory_ids (raw_decisions st revs now))"
    by (simp add: mandatory_ids_def)
  then have "length (mandatory_ids (raw_decisions st revs now))
      = card (rc_object_id ` {x \<in> set revs. mandatory revs x})"
    by (simp add: distinct_card [symmetric] mandatory_ids_raw [OF assms])
  also have "\<dots> = card {x \<in> set revs. mandatory revs x}"
    using assms by (intro card_image) (auto simp: distinct_map inj_on_def)
  finally show ?thesis .
qed

lemma length_filter_ids:
  assumes "distinct (map f xs)"
  shows "length (filter (\<lambda>x. P x \<and> f x \<in> set m) xs) \<le> length m"
proof -
  let ?ys = "filter (\<lambda>x. P x \<and> f x \<in> set m) xs"
  have "distinct (map f ?ys)" using assms by (simp add: distinct_map_filter)
  then have "length ?ys = card (set (map f ?ys))" by (metis distinct_card length_map)
  also have "\<dots> \<le> card (set m)" by (rule card_mono) auto
  also have "\<dots> \<le> length m" by (rule card_length)
  finally show ?thesis .
qed

section \<open>A concrete plan\<close>

definition example_settings :: "int option \<Rightarrow> retention_settings" where
  "example_settings cap =
     \<lparr>keep_all_days = 1, daily_days = 3, weekly_weeks = 2, monthly_months = 2,
      minimum_changed_revisions = 1, unchanged_run_days = 90, changed_run_days = 180,
      failed_run_days = 180, max_runs_per_target = 1, max_revisions_per_target = cap\<rparr>"

definition example_revision :: "int \<Rightarrow> int \<Rightarrow> bool \<Rightarrow> revision_candidate" where
  "example_revision i t p =
     \<lparr>rc_object_id = i, rc_created = Aware t, rc_protected = p, rc_content_changed = True\<rparr>"

text \<open>
  2026-08-12 (ordinal 739475) and three revisions: one of that morning, one of the day before and
  one of 2020 that no window reaches.
\<close>

definition example_now :: int where "example_now = 739474 * day_us + 12 * 60 * minute_us"

definition example_revisions :: "revision_candidate list" where
  "example_revisions =
     [example_revision 1 (737424 * day_us) False, example_revision 2 (example_now - 20 * 60 * minute_us) False,
      example_revision 3 (example_now - 60 * minute_us) False]"

definition example_decisions :: "int option \<Rightarrow> retention_decision list" where
  "example_decisions cap =
     (case plan_revisions (example_settings cap) example_revisions example_now of
        Inl _ \<Rightarrow> [] | Inr ds \<Rightarrow> ds)"

lemma example_plan_total:
  "\<exists>ds. plan_revisions (example_settings cap) example_revisions example_now = Inr ds"
  unfolding plan_revisions_total
  by (simp add: example_revisions_def example_revision_def example_settings_def minus_days_def
      example_now_def day_us_def minute_us_def timedelta_ok_def in_range_def max_instant_def)

lemma example_plan:
  "plan_revisions (example_settings cap) example_revisions example_now = Inr (example_decisions cap)"
  using example_plan_total [of cap] by (auto simp: example_decisions_def)

lemma example_distinct: "distinct (map rc_object_id example_revisions)"
  by code_simp

section \<open>Properties\<close>

text \<open>
  C6. Without a copy cap the planner implements its specification: the revisions it keeps are
  exactly those that are the newest of all, protected, among the configured number of newest
  changed revisions, inside the keep-all window, or the newest of their UTC day, ISO week or
  month inside the corresponding window.
\<close>

theorem plan_revisions_refines:
  assumes "distinct (map rc_object_id revs)" "0 \<le> minimum_changed_revisions st"
    "max_revisions_per_target st = None \<or> max_revisions_per_target st = Some 0"
    "plan_revisions st revs now = Inr ds"
  shows "kept_ids ds = rc_object_id ` {x \<in> set revs. retained st revs now x}"
  using raw_kept_ids [OF assms(1,2), of now] plan_revisions_Inr(1) [OF assms(4)] assms(3)
  by (auto simp: kept_ids_def)

theorem plan_revisions_refines_witness:
  "kept_ids (example_decisions None) = {2, 3}
   \<and> rc_object_id ` {x \<in> set example_revisions.
        retained (example_settings None) example_revisions example_now x} = {2, 3}"
proof -
  have kept: "kept_ids (example_decisions None) = {2, 3}" by code_simp
  have "0 \<le> minimum_changed_revisions (example_settings None)"
    "max_revisions_per_target (example_settings None) = None
     \<or> max_revisions_per_target (example_settings None) = Some 0"
    by (simp_all add: example_settings_def)
  from plan_revisions_refines [OF example_distinct this example_plan] kept show ?thesis by simp
qed

text \<open>
  C7. The newest revision and every protected revision are kept, whatever the windows and however
  small the copy cap is.
\<close>

theorem plan_revisions_safe:
  assumes "distinct (map rc_object_id revs)" "0 \<le> minimum_changed_revisions st"
    "plan_revisions st revs now = Inr ds" "x \<in> set revs" "is_latest revs x \<or> rc_protected x"
  shows "rc_object_id x \<in> kept_ids ds"
  using kept_ids_mandatory [OF assms(3,1,2,4)] assms(5) by (simp add: mandatory_def)

definition protected_revisions :: "revision_candidate list" where
  "protected_revisions =
     [example_revision 1 (737424 * day_us) True, example_revision 2 example_now False]"

theorem plan_revisions_safe_witness:
  "\<exists>ds. plan_revisions (example_settings (Some 1)) protected_revisions example_now = Inr ds
      \<and> 1 \<in> kept_ids ds"
proof -
  have d: "distinct (map rc_object_id protected_revisions)" by code_simp
  have m: "0 \<le> minimum_changed_revisions (example_settings (Some 1))"
    by (simp add: example_settings_def)
  obtain ds where ds: "plan_revisions (example_settings (Some 1)) protected_revisions example_now = Inr ds"
    using plan_revisions_total [of "example_settings (Some 1)" protected_revisions example_now]
    by (auto simp: protected_revisions_def example_revision_def example_settings_def minus_days_def
        example_now_def day_us_def minute_us_def timedelta_ok_def in_range_def max_instant_def)
  have x: "example_revision 1 (737424 * day_us) True \<in> set protected_revisions"
    by (simp add: protected_revisions_def)
  have "rc_object_id (example_revision 1 (737424 * day_us) True) \<in> kept_ids ds"
    by (rule plan_revisions_safe [OF d m ds x]) (simp add: example_revision_def)
  with ds show ?thesis by (auto simp: example_revision_def)
qed



text \<open>
  Every revision gets exactly one decision, and the decisions are listed from the newest
  revision to the oldest.
\<close>

theorem plan_revisions_decides_all:
  assumes "plan_revisions st revs now = Inr ds"
  shows "mset (map rd_object_id ds) = mset (map rc_object_id revs)
     \<and> map rd_object_id ds = map rc_object_id (by_age revs)
     \<and> sorted_wrt (\<lambda>x y. (rc_time y, rc_object_id y) \<le> (rc_time x, rc_object_id x)) (by_age revs)"
  unfolding plan_revisions_ids [OF assms]
  using sorted_desc_wrt [of "\<lambda>x. rc_time x" rc_object_id revs] by simp

theorem plan_revisions_decides_all_witness:
  "map rd_object_id (example_decisions None) = map rc_object_id (by_age example_revisions)
   \<and> map rc_object_id (by_age example_revisions) = [3, 2, 1]"
proof
  show "map rd_object_id (example_decisions None) = map rc_object_id (by_age example_revisions)"
    using plan_revisions_decides_all [OF example_plan] by blast
  show "map rc_object_id (by_age example_revisions) = [3, 2, 1]"
    by code_simp
qed

lemma survivors_count:
  assumes "plan_revisions st revs now = Inr ds" "distinct (map rc_object_id revs)"
  shows "length (filter (\<lambda>d. rd_keep d \<and> rd_object_id d \<notin> M) (raw_decisions st (survivors revs ds) now))
     \<le> length (filter (\<lambda>d. rd_keep d \<and> rd_object_id d \<notin> M) ds)"
proof -
  let ?P = "\<lambda>d. rd_keep d \<and> rd_object_id d \<notin> M"
  let ?raw = "raw_decisions st (survivors revs ds) now"
  have raw: "distinct (map rd_object_id ?raw)"
    unfolding map_id_raw_decisions using distinct_survivors [OF assms(2)] by simp
  have ds: "distinct (map rd_object_id ds)"
    using plan_revisions_ids [OF assms(1)] assms(2) by simp
  have "set (map rd_object_id ?raw) \<subseteq> kept_ids ds"
    unfolding map_id_raw_decisions by (auto simp: survivors_def)
  then have "set (map rd_object_id (filter ?P ?raw)) \<subseteq> set (map rd_object_id (filter ?P ds))"
    by (fastforce simp: kept_ids_def)
  then have "card (set (map rd_object_id (filter ?P ?raw))) \<le> card (set (map rd_object_id (filter ?P ds)))"
    by (rule card_mono [rotated]) simp
  moreover have "card (set (map rd_object_id (filter ?P ?raw))) = length (filter ?P ?raw)"
    using distinct_card [OF distinct_map_filter [OF raw, of ?P]] by simp
  moreover have "card (set (map rd_object_id (filter ?P ds))) = length (filter ?P ds)"
    using distinct_card [OF distinct_map_filter [OF ds, of ?P]] by simp
  ultimately show ?thesis by simp
qed

text \<open>
  Retention converges in one pass: planning again at the same time over the revisions that
  survive a plan succeeds and deletes nothing.
\<close>

theorem plan_revisions_idempotent:
  assumes "distinct (map rc_object_id revs)" "0 \<le> minimum_changed_revisions st"
    "case max_revisions_per_target st of None \<Rightarrow> True | Some cap \<Rightarrow> 0 \<le> cap"
    "plan_revisions st revs now = Inr ds"
  shows "\<exists>ds'. plan_revisions st (survivors revs ds) now = Inr ds' \<and> (\<forall>d \<in> set ds'. rd_keep d)"
proof -
  let ?S = "survivors revs ds"
  let ?raw = "raw_decisions st ?S now"
  note plan = assms(4) and d = assms(1) and m = assms(2)
  have "\<exists>ds'. plan_revisions st ?S now = Inr ds'"
    using plan unfolding plan_revisions_total
    by (metis filter_is_subset plan_revisions_total subset_iff survivors_def)
  then obtain ds' where ds': "plan_revisions st ?S now = Inr ds'" by blast
  have "ds' = ?raw"
  proof (cases "max_revisions_per_target st = None \<or> max_revisions_per_target st = Some 0")
    case True
    then show ?thesis using plan_revisions_Inr(1) [OF ds'] by auto
  next
    case False
    then obtain cap where cap: "max_revisions_per_target st = Some cap" "0 < cap"
      using assms(3) by (auto simp: less_le)
    let ?n = "max (cap - int (length (mandatory_ids (raw_decisions st revs now)))) 0"
    have same: "set (mandatory_ids ?raw) = set (mandatory_ids (raw_decisions st revs now))"
      "length (mandatory_ids ?raw) = length (mandatory_ids (raw_decisions st revs now))"
      by (simp_all add: mandatory_ids_raw [OF d] mandatory_ids_raw [OF distinct_survivors [OF d]]
          length_mandatory_ids [OF d] length_mandatory_ids [OF distinct_survivors [OF d]]
          mandatory_survivors [OF plan d m])
    let ?P = "\<lambda>d. rd_keep d \<and> rd_object_id d \<notin> set (mandatory_ids (raw_decisions st revs now))"
    have "int (length (filter ?P ds)) \<le> ?n"
      using plan_revisions_Inr(1) [OF plan] cap apply_cap_count by auto
    moreover have "length (filter ?P ?raw) \<le> length (filter ?P ds)"
      by (rule survivors_count [OF plan d])
    ultimately have "apply_cap (mandatory_ids ?raw) ?n ?raw = ?raw"
      by (intro apply_cap_id) (simp add: same)
    then show ?thesis using plan_revisions_Inr(1) [OF ds'] cap same by simp
  qed
  with ds' show ?thesis using raw_survivors_kept [OF plan d m] by blast
qed

theorem plan_revisions_idempotent_witness:
  "\<exists>ds'. plan_revisions (example_settings (Some 1)) (survivors example_revisions (example_decisions (Some 1)))
        example_now = Inr ds' \<and> (\<forall>d \<in> set ds'. rd_keep d)"
  by (rule plan_revisions_idempotent [OF example_distinct _ _ example_plan])
    (simp_all add: example_settings_def)

text \<open>
  Run history: a queued or running run and a run of unknown status are always kept; at most
  \<open>max_runs_per_target\<close> completed runs are kept; and a completed run still inside its window is
  dropped only when that many completed runs are kept. Every run gets one decision.
\<close>

theorem plan_runs_safe:
  assumes "plan_runs st rs now = Inr ds" "0 \<le> max_runs_per_target st"
  shows "let ordered = sorted_desc (\<lambda>r. dt_value (nc_timestamp r)) nc_object_id rs in
     map rd_object_id ds = map nc_object_id ordered
     \<and> (\<forall>(r, d) \<in> set (zip ordered ds). \<not> completed_status (nc_status r) \<longrightarrow> rd_keep d)
     \<and> int (completed_kept ordered ds) \<le> max_runs_per_target st
     \<and> (\<forall>(r, d) \<in> set (zip ordered ds). \<not> rd_keep d \<and> (\<exists>reason. run_verdict st now r = Inr (True, reason))
           \<longrightarrow> int (completed_kept ordered ds) = max_runs_per_target st)"
proof -
  let ?o = "sorted_desc (\<lambda>r. dt_value (nc_timestamp r)) nc_object_id rs"
  have loop: "plan_run_loop st now 0 ?o = Inr ds"
    using assms(1) by (auto simp: plan_runs_def bindE_eq_Inr dest!: sort_by_time_Inr)
  have pairs: "list_all2 (\<lambda>r d. rd_object_id d = nc_object_id r
      \<and> (\<not> completed_status (nc_status r) \<longrightarrow> rd_keep d)
      \<and> (rd_keep d \<longrightarrow> (\<exists>reason. run_verdict st now r = Inr (True, reason)))) ?o ds"
    by (rule plan_run_loop_pairs [OF loop])
  have count: "int (completed_kept ?o ds) \<le> max_runs_per_target st"
    using plan_run_loop_count [OF loop assms(2)] by simp
  have ids: "map rd_object_id ds = map nc_object_id ?o"
    using pairs by (auto simp: list_all2_conv_all_nth intro: nth_equalityI)
  have kept: "\<forall>(r, d) \<in> set (zip ?o ds). \<not> completed_status (nc_status r) \<longrightarrow> rd_keep d"
    using pairs by (auto simp: list_all2_iff)
  have full: "\<forall>(r, d) \<in> set (zip ?o ds). \<not> rd_keep d \<and> (\<exists>reason. run_verdict st now r = Inr (True, reason))
      \<longrightarrow> int (completed_kept ?o ds) = max_runs_per_target st"
    using plan_run_loop_drop [OF loop] count by force
  show ?thesis unfolding Let_def using ids kept count full by blast
qed

definition example_runs :: "run_candidate list" where
  "example_runs =
     [\<lparr>nc_object_id = 1, nc_timestamp = Aware (example_now - 1), nc_status = ''failed''\<rparr>,
      \<lparr>nc_object_id = 2, nc_timestamp = Aware (example_now - 2), nc_status = ''success_changed''\<rparr>,
      \<lparr>nc_object_id = 3, nc_timestamp = Aware 5, nc_status = ''queued''\<rparr>]"

theorem plan_runs_safe_witness:
  "\<exists>ds. plan_runs (example_settings None) example_runs example_now = Inr ds
     \<and> map rd_object_id ds = [1, 2, 3] \<and> map rd_keep ds = [True, False, True]
     \<and> int (completed_kept (sorted_desc (\<lambda>r. dt_value (nc_timestamp r)) nc_object_id example_runs) ds) \<le> 1"
proof -
  obtain ds where ds: "plan_runs (example_settings None) example_runs example_now = Inr ds"
    "map rd_object_id ds = [1, 2, 3]" "map rd_keep ds = [True, False, True]"
  proof -
    have "case plan_runs (example_settings None) example_runs example_now of
        Inl _ \<Rightarrow> False
      | Inr ds \<Rightarrow> map rd_object_id ds = [1, 2, 3] \<and> map rd_keep ds = [True, False, True]"
      by code_simp
    with that show thesis by (auto split: sum.splits)
  qed
  have "0 \<le> max_runs_per_target (example_settings None)" by (simp add: example_settings_def)
  from plan_runs_safe [OF ds(1) this] ds show ?thesis
    by (auto simp: Let_def example_settings_def)
qed

text \<open>
  Planning fails exactly on a naive timestamp or when a window reaches before the first
  representable date; with aware timestamps and windows of at most 2000 years, counted from any
  date after the year 2001, a plan is produced.
\<close>

theorem build_retention_plan_total:
  assumes "\<forall>x \<in> set revs. is_aware (rc_created x)" "\<forall>r \<in> set rs. is_aware (nc_timestamp r)"
    "730485 * day_us \<le> now" "now \<le> max_instant"
    "\<forall>w \<in> {keep_all_days st, unchanged_run_days st, changed_run_days st, failed_run_days st}.
       0 \<le> w \<and> w \<le> 730485"
  shows "\<exists>plan. build_retention_plan st revs rs (Aware now) = Inr plan"
proof -
  have days: "\<exists>c. minus_days now w = Inr c" if "0 \<le> w" "w \<le> 730485" for w
  proof -
    have "w * day_us \<le> 730485 * day_us" "0 \<le> w * day_us"
      using that by (simp_all add: day_us_def)
    then show ?thesis
      using assms(3,4) by (auto simp: minus_days_def timedelta_ok_def in_range_def day_us_def)
  qed
  have window: "\<exists>b. within_exact_days ts now w = Inr b" if "0 \<le> w" "w \<le> 730485" for ts w
    using days [OF that] by (auto simp: within_exact_days_def)
  have verdict: "\<exists>k. run_verdict st now r = Inr k" for r
  proof -
    obtain a b c where
      "within_exact_days (dt_value (nc_timestamp r)) now (unchanged_run_days st) = Inr a"
      "within_exact_days (dt_value (nc_timestamp r)) now (changed_run_days st) = Inr b"
      "within_exact_days (dt_value (nc_timestamp r)) now (failed_run_days st) = Inr c"
      using window assms(5) by (meson insertI1 insertI2)
    then show ?thesis by (auto simp: run_verdict_def Let_def)
  qed
  have loop: "\<exists>ds. plan_run_loop st now n xs = Inr ds" if "\<forall>r \<in> set xs. is_aware (nc_timestamp r)" for n xs
    using that
  proof (induction xs arbitrary: n)
    case (Cons r xs)
    obtain k reason where "run_verdict st now r = Inr (k, reason)" using verdict [of r] by auto
    with Cons show ?case by (auto simp: Let_def require_aware_def bindE_eq_Inr)
  qed simp
  have "\<exists>ds. plan_runs st rs now = Inr ds"
    using assms(2) loop by (auto simp: plan_runs_def sort_by_time_def)
  moreover have "\<exists>ds. plan_revisions st revs now = Inr ds"
    unfolding plan_revisions_total using days [of "keep_all_days st"] assms(1,5) by auto
  ultimately show ?thesis
    by (auto simp: build_retention_plan_def require_aware_def)
qed

theorem build_retention_plan_total_witness:
  "\<exists>plan. build_retention_plan (example_settings None) example_revisions example_runs (Aware example_now) = Inr plan"
  by (rule build_retention_plan_total)
    (auto simp: example_revisions_def example_revision_def example_runs_def example_settings_def
      example_now_def day_us_def minute_us_def max_instant_def)

text \<open>
  The three resolvers of the remote policy agree: the identifier that cleanup locks is the
  primary key of the policy the dispatcher plans with, and the label shown for its origin is
  "Keep indefinitely" exactly when there is no policy.
\<close>

theorem effective_remote_policy_agrees:
  "effective_remote_retention_policy_id t s = map_option rrp_pk (effective_remote_retention_policy t s)
   \<and> (remote_retention_policy_source t s = ''Keep indefinitely''
        \<longleftrightarrow> effective_remote_retention_policy t s = None)
   \<and> (local_retention_policy_source t s = ''Keep indefinitely''
        \<longleftrightarrow> effective_local_retention_policy t s = None)"
  by (auto simp: effective_remote_retention_policy_id_def effective_remote_retention_policy_def
      remote_retention_policy_source_def local_retention_policy_source_def
      effective_local_retention_policy_def effective_retention_policy_def)

end
