(* ===== verification/Cleanup.thy ===== *)
theory Cleanup
  imports Staging Retention
begin

text \<open>
  \<open>services/retention_cleanup.py\<close>: the retention plan of a target is computed again under locks and
  carried out. Revisions whose upload is still owed are deferred, the files of the others are staged,
  revisions that exist on no remote storage lose their rows, and the chain is relinked.
\<close>

section \<open>Planning\<close>

record retention_cleanup_summary =
  cls_target_id :: int
  cls_run_count :: nat
  cls_revision_count :: nat
  cls_artifact_count :: nat
  cls_artifact_bytes :: int
  cls_missing_artifact_count :: nat
  cls_quarantine_purge_failures :: nat
  cls_deferred_revision_count :: nat

definition default_local_storage :: "db \<Rightarrow> backup_destination result" where
  "default_local_storage d =
     (case filter (\<lambda>x. dst_protocol x = PLocal \<and> dst_is_default x) (destinations d) of
        [] \<Rightarrow> Inl (DoesNotExist ''BackupDestination'')
      | [x] \<Rightarrow> Inr x
      | _ \<Rightarrow> Inl (OtherException ''MultipleObjectsReturned''))"

definition get_policy :: "db \<Rightarrow> int \<Rightarrow> retention_policy result" where
  "get_policy d k = row_get ''RetentionPolicy'' rp_pk k (policies d)"

text \<open>\<open>order_by("-created", "-pk")\<close> and \<open>order_by("-queued_at", "-pk")\<close>.\<close>

definition target_revisions :: "db \<Rightarrow> int \<Rightarrow> config_revision list" where
  "target_revisions d tid = sorted_desc rev_created rev_pk (filter (\<lambda>r. rev_target_id r = tid) (revisions d))"

definition target_runs :: "db \<Rightarrow> int \<Rightarrow> backup_run list" where
  "target_runs d tid = sorted_desc r_queued_at r_pk (filter (\<lambda>r. r_target_id r = tid) (runs d))"

definition revision_replicas :: "db \<Rightarrow> int \<Rightarrow> revision_replica list" where
  "revision_replicas d rid = sort_key p_pk (filter (\<lambda>p. p_revision_id p = rid) (replicas d))"

definition locally_available :: "db \<Rightarrow> config_revision \<Rightarrow> bool" where
  "locally_available d r \<longleftrightarrow> list_ex (\<lambda>a. a_revision_id a = rev_pk r \<and> a_local_available a) (artifacts d)"

definition revision_candidate_of :: "config_revision \<Rightarrow> revision_candidate" where
  "revision_candidate_of r = \<lparr>rc_object_id = rev_pk r, rc_created = Aware (rev_created r),
     rc_protected = rev_protected r, rc_content_changed = rev_content_changed r\<rparr>"

definition run_candidate_of :: "backup_run \<Rightarrow> run_candidate" where
  "run_candidate_of r = \<lparr>nc_object_id = r_pk r,
     nc_timestamp = Aware (case r_finished_at r of Some i \<Rightarrow> i | None \<Rightarrow> r_queued_at r),
     nc_status = run_status_value (r_status r)\<rparr>"

definition dropped_ids :: "retention_decision list \<Rightarrow> int list" where
  "dropped_ids ds = map rd_object_id (filter (\<lambda>d. \<not> rd_keep d) ds)"

definition destination_enabled :: "db \<Rightarrow> int \<Rightarrow> bool" where
  "destination_enabled d k \<longleftrightarrow> list_ex (\<lambda>x. dst_pk x = k \<and> dst_enabled x) (destinations d)"

text \<open>A replica that still needs the local file as its upload source.\<close>

definition upload_owed :: "db \<Rightarrow> revision_replica \<Rightarrow> bool" where
  "upload_owed d p \<longleftrightarrow> p_remote_deleted_at p = None
     \<and> (p_status p = PQueued \<or> p_status p = PRunning
        \<or> (destination_enabled d (p_destination_id p) \<and> p_status p = PPending)
        \<or> (destination_enabled d (p_destination_id p) \<and> p_status p = PFailed \<and> p_next_retry_at p \<noteq> None))"

record cleanup_plan =
  cl_target :: backup_target
  cl_revisions :: "config_revision list"
  cl_run_ids :: "int list"
  cl_revision_ids :: "int list"
  cl_deferred_ids :: "int list"
  cl_artifacts :: "config_artifact list"

definition plan_cleanup :: "int \<Rightarrow> int \<Rightarrow> db \<Rightarrow> cleanup_plan result" where
  "plan_cleanup target_id now d =
     bindE (get_target d target_id) (\<lambda>t.
     if has_active_run d (t_pk t)
     then Inl (RetentionCleanupError ''Retention cleanup cannot run while the target has an active backup.'')
     else bindE (default_local_storage d) (\<lambda>local_storage.
     case effective_local_retention_policy t local_storage of
       None \<Rightarrow> Inl (RetentionCleanupError ''The backup target has no effective Local retention profile.'')
     | Some effective \<Rightarrow>
         bindE (get_policy d (rp_pk effective)) (\<lambda>policy.
         let revs = target_revisions d (t_pk t);
             available = filter (locally_available d) revs
         in bindE (build_retention_plan (settings_from_policy policy) (map revision_candidate_of available)
                     (map run_candidate_of (target_runs d (t_pk t))) (Aware now)) (\<lambda>plan.
            let planned = dropped_ids (revision_decisions plan);
                deferred = map rev_pk (filter (\<lambda>r. rev_pk r \<in> set planned
                             \<and> list_ex (upload_owed d) (revision_replicas d (rev_pk r))) available);
                ids = filter (\<lambda>k. k \<notin> set deferred) planned
            in Inr \<lparr>cl_target = t, cl_revisions = revs, cl_run_ids = dropped_ids (run_decisions plan),
                    cl_revision_ids = ids, cl_deferred_ids = deferred,
                    cl_artifacts = filter (\<lambda>a. a_revision_id a \<in> set ids \<and> a_local_available a) (artifacts d)\<rparr>))))"

section \<open>Execution\<close>

definition mark_local_deleted :: "int \<Rightarrow> int list \<Rightarrow> db \<Rightarrow> db" where
  "mark_local_deleted now ids d = d\<lparr>artifacts := map (\<lambda>a. if a_pk a \<in> set ids
     then a\<lparr>a_local_available := False, a_local_deleted_at := Some now\<rparr> else a) (artifacts d)\<rparr>"

text \<open>
  \<open>d\<close> is the database the plan was read from: the artifacts of the revisions were prefetched before
  the update, and the replica rows before the deletion.
\<close>

definition database_revision_ids :: "db \<Rightarrow> cleanup_plan \<Rightarrow> int list" where
  "database_revision_ids d pl =
     filter (\<lambda>k. \<not> (k \<in> rev_pk ` set (cl_revisions pl) \<and> has_recorded_remote_copy (revision_replicas d k)))
       (cl_revision_ids pl)"

definition locally_unavailable_ids :: "db \<Rightarrow> cleanup_plan \<Rightarrow> int list" where
  "locally_unavailable_ids d pl =
     map rev_pk (filter (\<lambda>r. rev_pk r \<in> set (cl_revision_ids pl) \<or> \<not> locally_available d r) (cl_revisions pl))"

definition apply_cleanup :: "runtime \<Rightarrow> int \<Rightarrow> cleanup_plan \<Rightarrow> db \<Rightarrow> db result" where
  "apply_cleanup rt now pl d =
     bindE (relink_kept_revisions rt (cl_target pl) (cl_revisions pl) (locally_unavailable_ids d pl)
              (mark_local_deleted now (map a_pk (cl_artifacts pl)) d)) (\<lambda>d1.
     Inr (delete_revisions (database_revision_ids d pl) (delete_runs (cl_run_ids pl) d1)))"

definition cleanup_summary :: "cleanup_plan \<Rightarrow> nat \<Rightarrow> retention_cleanup_summary" where
  "cleanup_summary pl missing =
     \<lparr>cls_target_id = t_pk (cl_target pl), cls_run_count = length (remdups (cl_run_ids pl)),
      cls_revision_count = length (remdups (cl_revision_ids pl)), cls_artifact_count = length (cl_artifacts pl),
      cls_artifact_bytes = sum_list (map a_size (cl_artifacts pl)), cls_missing_artifact_count = missing,
      cls_quarantine_purge_failures = 0, cls_deferred_revision_count = length (remdups (cl_deferred_ids pl))\<rparr>"

definition cleanup_body ::
  "runtime \<Rightarrow> 's config_storage \<Rightarrow> string \<Rightarrow> int \<Rightarrow> int \<Rightarrow> (('s, 'r) cstate, retention_cleanup_summary) prog" where
  "cleanup_body rt ops ns target_id now =
     bindS (read_cdb (plan_cleanup target_id now)) (\<lambda>pl.
     bindS (stage_all ops ns (map a_storage_key (cl_artifacts pl))) (\<lambda>missing.
     bindS (write_cdb (apply_cleanup rt now pl)) (\<lambda>_.
     returnS (cleanup_summary pl missing))))"

fun is_retention_cleanup_error :: "exn \<Rightarrow> bool" where
  "is_retention_cleanup_error (RetentionCleanupError _) = True"
| "is_retention_cleanup_error _ = False"

definition cleanup_not_restored :: exn where
  "cleanup_not_restored =
     RetentionCleanupError ''Retention cleanup failed and quarantined files could not be fully restored.''"

definition cleanup_error :: "exn \<Rightarrow> exn" where
  "cleanup_error exc =
     (if is_retention_cleanup_error exc then exc
      else if is_storage_error exc
      then RetentionCleanupError
             ''Retention cleanup could not stage stored configuration files. Nothing was deleted.''
      else RetentionCleanupError ''Retention cleanup failed before the database transaction committed.'')"

definition cleanup_transaction ::
  "runtime \<Rightarrow> 's config_storage \<Rightarrow> string \<Rightarrow> int \<Rightarrow> int \<Rightarrow> (('s, 'r) cstate, retention_cleanup_summary) prog" where
  "cleanup_transaction rt ops ns target_id now =
     staged_transaction ops cleanup_not_restored cleanup_error (cleanup_body rt ops ns target_id now)"

text \<open>\<open>namespace\<close> carries the random part of the quarantine name.\<close>

definition execute_retention_cleanup ::
  "runtime \<Rightarrow> 's config_storage \<Rightarrow> string \<Rightarrow> int \<Rightarrow> int \<Rightarrow> (('s, 'r) cstate, retention_cleanup_summary) prog" where
  "execute_retention_cleanup rt ops ns target_id now =
     bindS (cleanup_transaction rt ops ns target_id now) (\<lambda>summary.
     bindS (purge_staged ops) (\<lambda>failures.
     returnS (summary\<lparr>cls_quarantine_purge_failures := failures\<rparr>)))"

section \<open>Facts\<close>

context storage_contract
begin

lemma cleanup_body_staging: "within (staging wf objs) (cleanup_body rt ops ns tid now :: (('s, 'r) cstate, _) prog)"
  unfolding cleanup_body_def by (intro staging_within stage_all_staging)

end

lemma stage_all_Inr:
  assumes "stage_all ops ns keys s = (r, s')"
  shows "cs_db s' = cs_db s \<and> (\<exists>xs. cs_staged s' = cs_staged s @ xs \<and> fst ` set xs \<subseteq> set keys)"
  using assms
proof (induction keys arbitrary: s r)
  case (Cons key keys)
  obtain r1 st where st: "st_stage_delete ops key ns (cs_store s) = (r1, st)" by fastforce
  let ?s1 = "\<lambda>ys. s\<lparr>cs_store := st, cs_staged := cs_staged s @ ys\<rparr>"
  have "s' = ?s1 [] \<or> (\<exists>ys r2. fst ` set ys \<subseteq> {key} \<and> stage_all ops ns keys (?s1 ys) = (r2, s'))"
  proof (cases r1)
    case (Inl e)
    with Cons.prems st show ?thesis by (cases s) (auto simp: bindS_def on_cstore_def)
  next
    case (Inr x)
    show ?thesis
    proof (cases x)
      case None
      with Cons.prems st Inr obtain r2 where "stage_all ops ns keys (?s1 []) = (r2, s')"
        by (cases s) (auto simp: bindS_def on_cstore_def returnS_def split: prod.splits sum.splits)
      then show ?thesis by (intro disjI2 exI [of _ "[]"]) auto
    next
      case (Some sk)
      with Cons.prems st Inr have "stage_all ops ns keys (?s1 [(key, sk)]) = (r, s')"
        by (simp add: bindS_def on_cstore_def note_staged_def)
      then show ?thesis by (intro disjI2 exI [of _ "[(key, sk)]"]) auto
    qed
  qed
  then show ?case
  proof (elim disjE exE conjE)
    assume "s' = ?s1 []"
    then show ?thesis by simp
  next
    fix ys r2
    assume ys: "fst ` set ys \<subseteq> {key}" and rest: "stage_all ops ns keys (?s1 ys) = (r2, s')"
    from Cons.IH [OF rest] obtain xs where "cs_staged s' = cs_staged s @ ys @ xs" "fst ` set xs \<subseteq> set keys" "cs_db s' = cs_db s"
      by auto
    with ys show ?thesis by (auto intro!: exI [of _ "ys @ xs"])
  qed
qed (simp add: returnS_def)

lemma relink_tables:
  assumes "relink_kept_revisions rt t revs ids d = Inr d1"
  shows "artifacts d1 = artifacts d" "map rev_pk (revisions d1) = map rev_pk (revisions d)" "runs d1 = runs d"
    "replicas d1 = replicas d"
  using assms map_revisions_relink [of None "kept_revisions revs ids" d]
  by (auto simp: relink_kept_revisions_def Let_def save_target_def split: if_splits dest!: save_target_checked_Inr)

lemma rev_pk_delete:
  "rev_pk ` set (revisions (delete_revisions ids (delete_runs ks d))) = rev_pk ` set (revisions d) - set ids"
  by (auto simp: delete_revisions_def delete_runs_def image_iff)

lemma in_mark_local_deleted:
  "a \<in> set (artifacts d) \<Longrightarrow> a_pk a \<notin> set ids \<Longrightarrow> a \<in> set (artifacts (mark_local_deleted now ids d))"
  by (auto simp: mark_local_deleted_def image_iff intro!: bexI [of _ a])

lemma movable_trash: "movable ob xs \<Longrightarrow> x \<in> set xs \<Longrightarrow> hd (path_parts (snd x)) = ''.retention-trash''"
proof (induction xs arbitrary: ob)
  case (Cons y ys)
  then show ?case by (cases y) auto
qed simp

lemma candidate_inject: "rc_object_id (revision_candidate_of r) = rev_pk r"
  by (simp add: revision_candidate_of_def)

lemma dropped_not_kept: "distinct (map rd_object_id ds) \<Longrightarrow> k \<in> set (dropped_ids ds) \<Longrightarrow> k \<notin> kept_ids ds"
  by (auto simp: dropped_ids_def kept_ids_def distinct_map dest: inj_onD)

lemma dropped_not_mandatory:
  assumes "build_retention_plan st (map revision_candidate_of rs) ns (Aware now) = Inr plan"
    "distinct (map rev_pk rs)" "0 \<le> minimum_changed_revisions st" "k \<in> set (dropped_ids (revision_decisions plan))"
  obtains r x where "r \<in> set rs" "rev_pk r = k" "\<not> rev_protected r" "x \<in> set rs"
    "(rev_created r, rev_pk r) < (rev_created x, rev_pk x)"
proof -
  let ?cs = "map revision_candidate_of rs"
  from assms(1) have dec: "plan_revisions st ?cs now = Inr (revision_decisions plan)"
    by (auto simp: build_retention_plan_def result_simps)
  have dist: "distinct (map rc_object_id ?cs)" using assms(2) by (simp add: comp_def candidate_inject)
  have ids: "map rd_object_id (revision_decisions plan) = map rc_object_id (by_age ?cs)" by (rule plan_revisions_ids [OF dec])
  then have dd: "distinct (map rd_object_id (revision_decisions plan))" using dist by simp
  have "k \<in> set (map rd_object_id (revision_decisions plan))" using assms(4) by (auto simp: dropped_ids_def)
  then have "k \<in> rc_object_id ` set ?cs" unfolding ids by simp
  then obtain r where r: "r \<in> set rs" "rev_pk r = k" by (auto simp: candidate_inject)
  have "k \<notin> kept_ids (revision_decisions plan)" by (rule dropped_not_kept [OF dd assms(4)])
  then have "\<not> mandatory ?cs (revision_candidate_of r)"
    using kept_ids_mandatory [OF dec dist assms(3), of "revision_candidate_of r"] r by (auto simp: candidate_inject)
  then have "\<not> rev_protected r" "\<exists>x \<in> set rs. (rev_created r, rev_pk r) < (rev_created x, rev_pk x)"
    by (auto simp: mandatory_def is_latest_def newer_def revision_candidate_of_def)
  with r that show thesis by blast
qed

text \<open>What a plan may contain: nothing that is newest, protected or still owed to a destination.\<close>

lemma plan_cleanup_Inr:
  assumes "plan_cleanup tid now d = Inr pl" "distinct (map rev_pk (revisions d))"
    "\<forall>p \<in> set (policies d). 0 \<le> rp_minimum_changed_revisions p"
  obtains "get_target d tid = Inr (cl_target pl)" "\<not> has_active_run d tid"
    "cl_revisions pl = target_revisions d tid"
    "cl_artifacts pl = filter (\<lambda>a. a_revision_id a \<in> set (cl_revision_ids pl) \<and> a_local_available a) (artifacts d)"
    "\<And>r. r \<in> set (target_revisions d tid) \<Longrightarrow> locally_available d r \<Longrightarrow>
       rev_protected r \<or> list_ex (upload_owed d) (revision_replicas d (rev_pk r))
       \<or> (\<forall>x \<in> set (target_revisions d tid). locally_available d x \<longrightarrow> (rev_created x, rev_pk x) \<le> (rev_created r, rev_pk r))
       \<Longrightarrow> rev_pk r \<notin> set (cl_revision_ids pl)"
proof -
  from assms(1) obtain t policy plan where t: "get_target d tid = Inr t" and active: "\<not> has_active_run d (t_pk t)"
    and pol: "policy \<in> set (policies d)"
    and plan: "build_retention_plan (settings_from_policy policy)
        (map revision_candidate_of (filter (locally_available d) (target_revisions d (t_pk t))))
        (map run_candidate_of (target_runs d (t_pk t))) (Aware now) = Inr plan"
    and pl: "cl_target pl = t" "cl_revisions pl = target_revisions d (t_pk t)"
      "cl_artifacts pl = filter (\<lambda>a. a_revision_id a \<in> set (cl_revision_ids pl) \<and> a_local_available a) (artifacts d)"
      "cl_deferred_ids pl = map rev_pk (filter (\<lambda>r. rev_pk r \<in> set (dropped_ids (revision_decisions plan))
         \<and> list_ex (upload_owed d) (revision_replicas d (rev_pk r))) (filter (locally_available d) (target_revisions d (t_pk t))))"
      "cl_revision_ids pl = filter (\<lambda>k. k \<notin> set (cl_deferred_ids pl)) (dropped_ids (revision_decisions plan))"
    by (auto simp: plan_cleanup_def Let_def result_simps get_policy_def split: if_splits option.splits dest!: row_get_Inr)
  have pk: "t_pk t = tid" using t unfolding get_target_def by (blast dest: row_get_Inr)
  let ?av = "filter (locally_available d) (target_revisions d tid)" and ?st = "settings_from_policy policy"
  have dist: "distinct (map rev_pk ?av)"
    using assms(2) by (simp add: target_revisions_def distinct_map_filter)
  have min: "0 \<le> minimum_changed_revisions ?st" using pol assms(3) by (simp add: settings_from_policy_def)
  have safe: "rev_pk r \<notin> set (cl_revision_ids pl)"
    if r: "r \<in> set (target_revisions d tid)" "locally_available d r" and
      c: "rev_protected r \<or> list_ex (upload_owed d) (revision_replicas d (rev_pk r))
       \<or> (\<forall>x \<in> set (target_revisions d tid). locally_available d x \<longrightarrow> (rev_created x, rev_pk x) \<le> (rev_created r, rev_pk r))" for r
  proof (cases "list_ex (upload_owed d) (revision_replicas d (rev_pk r))")
    case True
    with r pk pl(4,5) show ?thesis by auto
  next
    case False
    have "rev_pk r \<notin> set (dropped_ids (revision_decisions plan))"
    proof
      assume k: "rev_pk r \<in> set (dropped_ids (revision_decisions plan))"
      obtain r' x where x: "r' \<in> set ?av" "rev_pk r' = rev_pk r" "\<not> rev_protected r'" "x \<in> set ?av"
        "(rev_created r', rev_pk r') < (rev_created x, rev_pk x)"
        by (rule dropped_not_mandatory [OF plan [unfolded pk] dist min k])
      have "r' = r" using x(1,2) r dist by (auto simp: distinct_map dest: inj_onD)
      with x False c show False by (auto simp: less_le_not_le)
    qed
    with pl(5) show ?thesis by simp
  qed
  show thesis
    by (rule that) (use t active pk pl safe in auto)
qed

text \<open>What carrying out a plan leaves in the database.\<close>

lemma apply_cleanup_keeps:
  assumes "apply_cleanup rt now pl d = Inr d'" "distinct (map a_pk (artifacts d))"
    "cl_artifacts pl = filter (\<lambda>a. a_revision_id a \<in> set (cl_revision_ids pl) \<and> a_local_available a) (artifacts d)"
    "k \<notin> set (cl_revision_ids pl)"
  shows "k \<in> rev_pk ` set (revisions d) \<Longrightarrow> k \<in> rev_pk ` set (revisions d')"
    "a \<in> set (artifacts d) \<Longrightarrow> a_revision_id a = k \<Longrightarrow> a \<in> set (artifacts d')"
proof -
  from assms(1) obtain d1 where rl: "relink_kept_revisions rt (cl_target pl) (cl_revisions pl) (locally_unavailable_ids d pl)
              (mark_local_deleted now (map a_pk (cl_artifacts pl)) d) = Inr d1"
    and d': "d' = delete_revisions (database_revision_ids d pl) (delete_runs (cl_run_ids pl) d1)"
    by (auto simp: apply_cleanup_def result_simps)
  have tables: "artifacts d1 = artifacts (mark_local_deleted now (map a_pk (cl_artifacts pl)) d)"
    "map rev_pk (revisions d1) = map rev_pk (revisions d)"
    using relink_tables(1,2) [OF rl] by (simp_all add: mark_local_deleted_def)
  have out: "k \<notin> set (database_revision_ids d pl)" using assms(4) by (auto simp: database_revision_ids_def)
  show "k \<in> rev_pk ` set (revisions d')" if "k \<in> rev_pk ` set (revisions d)"
  proof -
    have "rev_pk ` set (revisions d1) = rev_pk ` set (revisions d)" using tables(2) by (metis list.set_map)
    with that out show ?thesis unfolding d' by (simp add: rev_pk_delete)
  qed
  show "a \<in> set (artifacts d')" if a: "a \<in> set (artifacts d)" "a_revision_id a = k"
  proof -
    have inj: "inj_on a_pk (set (artifacts d))" using assms(2) by (simp add: distinct_map)
    have "a_pk a \<notin> set (map a_pk (cl_artifacts pl))"
    proof
      assume "a_pk a \<in> set (map a_pk (cl_artifacts pl))"
      then obtain b where b: "b \<in> set (cl_artifacts pl)" "a_pk a = a_pk b" by auto
      with assms(3) have "b \<in> set (artifacts d)" "a_revision_id b \<in> set (cl_revision_ids pl)" by simp_all
      with inj_onD [OF inj b(2) a(1)] a(2) assms(4) show False by simp
    qed
    with a have "a \<in> set (artifacts d1)" unfolding tables(1) by (intro in_mark_local_deleted)
    with out a(2) show ?thesis unfolding d' by (simp add: delete_revisions_def delete_runs_def)
  qed
qed

text \<open>The path of an artifact that was not staged is none of the paths involved.\<close>

lemma staged_elsewhere:
  assumes "fst ` set xs \<subseteq> a_storage_key ` set picked" "set picked \<subseteq> set arts" "a \<in> set arts" "a \<notin> set picked"
    "distinct (map (\<lambda>a. path_parts (a_storage_key a)) arts)"
  shows "path_parts (a_storage_key a) \<notin> path_parts ` fst ` set xs"
proof
  assume "path_parts (a_storage_key a) \<in> path_parts ` fst ` set xs"
  then have "path_parts (a_storage_key a) \<in> path_parts ` a_storage_key ` set picked"
    by (rule subsetD [OF image_mono [OF assms(1)]])
  then have "path_parts (a_storage_key a) \<in> (\<lambda>b. path_parts (a_storage_key b)) ` set picked" by (simp only: image_image)
  then obtain b where b: "path_parts (a_storage_key a) = path_parts (a_storage_key b)" "b \<in> set picked" by (rule imageE)
  have inj: "inj_on (\<lambda>a. path_parts (a_storage_key a)) (set arts)" using assms(5) by (simp add: distinct_map)
  have "a = b" by (rule inj_onD [OF inj b(1) assms(3) subsetD [OF assms(2) b(2)]])
  with assms(4) b(2) show False by simp
qed

lemma not_trashed:
  assumes "movable ob xs" "hd p \<noteq> ''.retention-trash''"
  shows "p \<notin> path_parts ` snd ` set xs"
proof
  assume "p \<in> path_parts ` snd ` set xs"
  then have "p \<in> (\<lambda>x. path_parts (snd x)) ` set xs" by (simp only: image_image)
  then obtain x where x: "p = path_parts (snd x)" "x \<in> set xs" by (rule imageE)
  from movable_trash [OF assms(1) x(2)] assms(2) x(1) show False by simp
qed

text \<open>Artifact paths are all different and outside the quarantine.\<close>

definition artifact_paths_ok :: "db \<Rightarrow> bool" where
  "artifact_paths_ok d \<longleftrightarrow> distinct (map a_pk (artifacts d))
     \<and> distinct (map (\<lambda>a. path_parts (a_storage_key a)) (artifacts d))
     \<and> (\<forall>a \<in> set (artifacts d). hd (path_parts (a_storage_key a)) \<noteq> ''.retention-trash'')"

context storage_contract
begin

lemma execute_cleanup_Inr:
  assumes "wf (cs_store s)" "execute_retention_cleanup rt ops ns tid now s = (Inr summary, s')"
  obtains pl xs where "plan_cleanup tid now (cs_db s) = Inr pl" "apply_cleanup rt now pl (cs_db s) = Inr (cs_db s')"
    "fst ` set xs \<subseteq> a_storage_key ` set (cl_artifacts pl)" "movable (objs (cs_store s)) xs"
    "\<And>p. p \<notin> path_parts ` fst ` set xs \<Longrightarrow> hd p \<noteq> ''.retention-trash'' \<Longrightarrow>
       objs (cs_store s') p = objs (cs_store s) p"
proof -
  from assms(2) obtain sum0 s1 f where tr: "cleanup_transaction rt ops ns tid now s = (Inr sum0, s1)"
    and pu: "purge_list ops (cs_staged s1) s1 = (Inr f, s')"
    by (auto simp: execute_retention_cleanup_def purge_staged_def prog_simps)
  note st = staged_transaction_Inr [OF assms(1) cleanup_body_staging tr [unfolded cleanup_transaction_def]]
  from st(4) obtain pl missing s2 d' where pl: "plan_cleanup tid now (cs_db s) = Inr pl"
    and stg: "stage_all ops ns (map a_storage_key (cl_artifacts pl)) (s\<lparr>cs_staged := []\<rparr>) = (Inr missing, s2)"
    and ap: "apply_cleanup rt now pl (cs_db s2) = Inr d'" and s1: "s1 = s2\<lparr>cs_db := d'\<rparr>"
    by (auto simp: cleanup_body_def prog_simps)
  from stage_all_Inr [OF stg] have db: "cs_db s2 = cs_db s"
    and keys: "fst ` set (cs_staged s1) \<subseteq> a_storage_key ` set (cl_artifacts pl)"
    by (auto simp: s1)
  have pg: "objs (cs_store s') p = objs (cs_store s1) p \<and> cs_db s' = d'" if "hd p \<noteq> ''.retention-trash''" for p
    using purge_list_objs [OF st(1) pu not_trashed [OF st(2) that]] by (simp add: s1)
  have "cs_db s' = d'" using pg [of "[[]]"] by simp
  with pl ap db keys st(2,3) moved_other [OF st(2)] pg show thesis by (intro that) auto
qed

lemma cleanup_keeps_needed:
  assumes "wf (cs_store s)" "execute_retention_cleanup rt ops ns tid now s = (Inr summary, s')"
    "distinct (map rev_pk (revisions (cs_db s)))" "artifact_paths_ok (cs_db s)"
    "\<forall>p \<in> set (policies (cs_db s)). 0 \<le> rp_minimum_changed_revisions p"
    "r \<in> set (target_revisions (cs_db s) tid)" "locally_available (cs_db s) r"
    "rev_protected r \<or> list_ex (upload_owed (cs_db s)) (revision_replicas (cs_db s) (rev_pk r))
       \<or> (\<forall>x \<in> set (target_revisions (cs_db s) tid). locally_available (cs_db s) x \<longrightarrow>
            (rev_created x, rev_pk x) \<le> (rev_created r, rev_pk r))"
    "a \<in> set (artifacts (cs_db s))" "a_revision_id a = rev_pk r"
  shows "rev_pk r \<in> rev_pk ` set (revisions (cs_db s')) \<and> a \<in> set (artifacts (cs_db s'))
    \<and> objs (cs_store s') (path_parts (a_storage_key a)) = objs (cs_store s) (path_parts (a_storage_key a))"
  using assms(1,2)
proof (rule execute_cleanup_Inr)
  let ?d = "cs_db s"
  fix pl xs
  assume pl: "plan_cleanup tid now ?d = Inr pl" and ap: "apply_cleanup rt now pl ?d = Inr (cs_db s')"
    and xs: "fst ` set xs \<subseteq> a_storage_key ` set (cl_artifacts pl)"
    and same: "\<And>p. p \<notin> path_parts ` fst ` set xs \<Longrightarrow> hd p \<noteq> ''.retention-trash'' \<Longrightarrow>
       objs (cs_store s') p = objs (cs_store s) p"
  have facts: "cl_artifacts pl = filter (\<lambda>a. a_revision_id a \<in> set (cl_revision_ids pl) \<and> a_local_available a) (artifacts ?d)"
    and kept: "rev_pk r \<notin> set (cl_revision_ids pl)"
    using pl assms(3,5-8) by (blast elim: plan_cleanup_Inr)+
  from assms(4) have ok: "distinct (map a_pk (artifacts ?d))"
    "distinct (map (\<lambda>a. path_parts (a_storage_key a)) (artifacts ?d))"
    "hd (path_parts (a_storage_key a)) \<noteq> ''.retention-trash''"
    using assms(9) by (simp_all add: artifact_paths_ok_def)
  have "set (cl_artifacts pl) \<subseteq> set (artifacts ?d)" "a \<notin> set (cl_artifacts pl)"
    using facts kept assms(10) by auto
  from staged_elsewhere [OF xs this(1) assms(9) this(2) ok(2)] ok(3) same
  have "objs (cs_store s') (path_parts (a_storage_key a)) = objs (cs_store s) (path_parts (a_storage_key a))" by simp
  moreover have "rev_pk r \<in> rev_pk ` set (revisions ?d)" using assms(6) by (simp add: target_revisions_def)
  ultimately show ?thesis
    using apply_cleanup_keeps [OF ap ok(1) facts kept] assms(9,10) by blast
qed

end

end
