(* ===== verification/Deletion.thy ===== *)
theory Deletion
  imports Cleanup
begin

text \<open>
  \<open>services/revision_deletion.py\<close>, \<open>services/target_deletion.py\<close> and \<open>services/target_deletion_ftp.py\<close>:
  deleting one revision or a whole target with its local files and its copies on external
  destinations. How one remote copy is removed is a pair of functions of the destination's protocol;
  what they do to the remote systems is not undone by a rollback.
\<close>

section \<open>Remote copies\<close>

record remote_deletion_result =
  rdr_deleted_file_count :: nat
  rdr_missing_file_count :: nat
  rdr_deleted_bytes :: int
  rdr_directory_removed :: bool

record 'r remote_ops =
  ro_delete_ftp :: "backup_destination \<Rightarrow> revision_replica \<Rightarrow> ('r, remote_deletion_result) prog"
  ro_delete_mounted :: "backup_destination \<Rightarrow> revision_replica \<Rightarrow> ('r, remote_deletion_result) prog"

definition delete_revision_replica ::
  "'r remote_ops \<Rightarrow> backup_destination \<Rightarrow> revision_replica \<Rightarrow> ('r, remote_deletion_result) prog" where
  "delete_revision_replica ro dst p =
     (if dst_protocol dst = PFtp then ro_delete_ftp ro dst p
      else if mounted_protocol (dst_protocol dst) then ro_delete_mounted ro dst p
      else raiseS (DestinationError ''DELETE_PROTOCOL_UNSUPPORTED''
             ''This storage type does not support managed revision deletion.''))"

text \<open>\<open>replica.remote_available or replica.remote_path\<close>, and the replicas with their locked destinations.\<close>

definition recorded_copy :: "revision_replica \<Rightarrow> bool" where
  "recorded_copy p \<longleftrightarrow> p_remote_available p \<or> p_remote_path p \<noteq> []"

definition with_destination :: "db \<Rightarrow> revision_replica \<Rightarrow> (revision_replica \<times> backup_destination) result" where
  "with_destination d p =
     (case find (\<lambda>x. dst_pk x = p_destination_id p) (destinations d) of
        None \<Rightarrow> Inl KeyError | Some dst \<Rightarrow> Inr (p, dst))"

section \<open>Deleting a revision\<close>

record revision_deletion_summary =
  rds_revision_id :: int
  rds_artifact_count :: nat
  rds_artifact_bytes :: int
  rds_local_file_count :: nat
  rds_missing_local_file_count :: nat
  rds_replica_count :: nat
  rds_remote_file_count :: nat
  rds_missing_remote_file_count :: nat
  rds_detached_run_count :: nat
  rds_quarantine_purge_failures :: nat

definition validate_replica :: "revision_replica \<times> backup_destination \<Rightarrow> unit result" where
  "validate_replica x = (case x of (p, dst) \<Rightarrow>
     if p_status p = PQueued \<or> p_status p = PRunning \<or> (p_status p = PFailed \<and> p_next_retry_at p \<noteq> None)
     then Inl (RevisionDeletionError
            ''The revision has an active or scheduled remote transfer and cannot be deleted.'')
     else if \<not> recorded_copy p \<or> p_remote_deleted_at p \<noteq> None then Inr ()
     else if \<not> replicated_protocol (dst_protocol dst)
     then Inl (RevisionDeletionError
            ''The revision has an external copy which this version cannot remove safely.'')
     else if \<not> dst_enabled dst
     then Inl (RevisionDeletionError
            ''A remote storage containing this revision is disabled. Enable it before deleting the revision so its copy can be removed safely.'')
     else if p_remote_path p = []
     then Inl (RevisionDeletionError
            ''A remote copy has inconsistent path metadata. The revision was not deleted.'')
     else Inr ())"

definition validate_replicas :: "(revision_replica \<times> backup_destination) list \<Rightarrow> unit result" where
  "validate_replicas xs = bindE (traverse validate_replica xs) (\<lambda>_. Inr ())"

record deletion_plan =
  dp_target :: backup_target
  dp_revision :: config_revision
  dp_artifacts :: "config_artifact list"
  dp_replicas :: "(revision_replica \<times> backup_destination) list"

definition plan_deletion :: "int \<Rightarrow> db \<Rightarrow> deletion_plan result" where
  "plan_deletion revision_id d =
     bindE (get_revision d revision_id) (\<lambda>rv.
     bindE (get_target d (rev_target_id rv)) (\<lambda>t.
     if rev_protected rv
     then Inl (RevisionDeletionError ''The revision is protected. Unprotect it before deleting it.'')
     else if has_active_run d (t_pk t)
     then Inl (RevisionDeletionError
            ''The target has an active backup run. Wait for it to finish before deleting the revision.'')
     else bindE (traverse (with_destination d) (revision_replicas d (rev_pk rv))) (\<lambda>ps.
          bindE (validate_replicas ps) (\<lambda>_.
          Inr \<lparr>dp_target = t, dp_revision = rv,
               dp_artifacts = sort_key a_pk (filter (\<lambda>a. a_revision_id a = rev_pk rv) (artifacts d)),
               dp_replicas = ps\<rparr>))))"

fun destination_error_code :: "exn \<Rightarrow> string option" where
  "destination_error_code (DestinationError code msg) = Some code"
| "destination_error_code _ = None"

text \<open>\<open>except DestinationError as exc: raise ...\<close> around one remote deletion.\<close>

definition translate_destination :: "(string \<Rightarrow> exn) \<Rightarrow> ('s, 'a) prog \<Rightarrow> ('s, 'a) prog" where
  "translate_destination f m = catchS m (\<lambda>e. raiseS (case destination_error_code e of None \<Rightarrow> e | Some code \<Rightarrow> f code))"

text \<open>The number of copies, of deleted and of missing remote files.\<close>

fun delete_copies ::
  "'r remote_ops \<Rightarrow> (revision_replica \<times> backup_destination) list \<Rightarrow> ('r, nat \<times> nat \<times> nat) prog" where
  "delete_copies ro [] = returnS (0, 0, 0)"
| "delete_copies ro ((p, dst) # xs) =
     (if p_remote_deleted_at p \<noteq> None \<or> \<not> recorded_copy p then delete_copies ro xs
      else bindS (translate_destination (\<lambda>code. RevisionDeletionError
                    (''A remote copy could not be removed safely ('' @ code @ ''). The revision was not deleted.''))
                    (delete_revision_replica ro dst p)) (\<lambda>res.
           bindS (delete_copies ro xs) (\<lambda>(n, f, g).
           returnS (Suc n, rdr_deleted_file_count res + f, rdr_missing_file_count res + g))))"

definition apply_deletion :: "runtime \<Rightarrow> deletion_plan \<Rightarrow> db \<Rightarrow> db result" where
  "apply_deletion rt pl d =
     bindE (relink_kept_revisions rt (dp_target pl)
              (sort_key (\<lambda>r. (rev_created r, rev_pk r))
                 (filter (\<lambda>r. rev_target_id r = t_pk (dp_target pl)) (revisions d)))
              [rev_pk (dp_revision pl)] d) (\<lambda>d1.
     Inr (delete_revisions [rev_pk (dp_revision pl)] d1))"

definition detached_runs :: "int \<Rightarrow> db \<Rightarrow> nat" where
  "detached_runs rid d = length (filter (\<lambda>r. r_revision r = Some rid) (runs d))"

definition revision_deletion_body ::
  "runtime \<Rightarrow> 's config_storage \<Rightarrow> 'r remote_ops \<Rightarrow> string \<Rightarrow> int \<Rightarrow> (('s, 'r) cstate, revision_deletion_summary) prog" where
  "revision_deletion_body rt ops ro ns revision_id =
     bindS (read_cdb (plan_deletion revision_id)) (\<lambda>pl.
     bindS (stage_all ops ns (map a_storage_key (dp_artifacts pl))) (\<lambda>missing.
     bindS (on_remote (delete_copies ro (dp_replicas pl))) (\<lambda>(copies, files, missing_files).
     bindS (read_cdb (\<lambda>d. Inr (detached_runs (rev_pk (dp_revision pl)) d))) (\<lambda>detached.
     bindS (write_cdb (apply_deletion rt pl)) (\<lambda>_.
     bindS (readS (\<lambda>s. Inr (length (cs_staged s)))) (\<lambda>local_files.
     returnS \<lparr>rds_revision_id = rev_pk (dp_revision pl), rds_artifact_count = length (dp_artifacts pl),
              rds_artifact_bytes = sum_list (map a_size (dp_artifacts pl)), rds_local_file_count = local_files,
              rds_missing_local_file_count = missing, rds_replica_count = copies,
              rds_remote_file_count = files, rds_missing_remote_file_count = missing_files,
              rds_detached_run_count = detached, rds_quarantine_purge_failures = 0\<rparr>))))))"

definition deletion_not_restored :: exn where
  "deletion_not_restored = RevisionDeletionError
     ''Revision deletion failed and quarantined local files could not be fully restored.''"

fun deletion_error :: "exn \<Rightarrow> exn" where
  "deletion_error (RevisionDeletionError msg) = RevisionDeletionError msg"
| "deletion_error (DoesNotExist model) = RevisionDeletionError
     (if model = ''ConfigRevision'' then ''The revision no longer exists.''
      else ''Revision deletion failed before commit.'')"
| "deletion_error (StorageError msg) = RevisionDeletionError
     ''Stored configuration files could not be quarantined. Nothing was deleted.''"
| "deletion_error _ = RevisionDeletionError ''Revision deletion failed before commit.''"

definition revision_deletion_transaction ::
  "runtime \<Rightarrow> 's config_storage \<Rightarrow> 'r remote_ops \<Rightarrow> string \<Rightarrow> int \<Rightarrow> (('s, 'r) cstate, revision_deletion_summary) prog" where
  "revision_deletion_transaction rt ops ro ns revision_id =
     staged_transaction ops deletion_not_restored deletion_error (revision_deletion_body rt ops ro ns revision_id)"

definition delete_config_revision_everywhere ::
  "runtime \<Rightarrow> 's config_storage \<Rightarrow> 'r remote_ops \<Rightarrow> string \<Rightarrow> int \<Rightarrow> (('s, 'r) cstate, revision_deletion_summary) prog" where
  "delete_config_revision_everywhere rt ops ro ns revision_id =
     bindS (revision_deletion_transaction rt ops ro ns revision_id) (\<lambda>summary.
     bindS (purge_staged ops) (\<lambda>failures.
     returnS (summary\<lparr>rds_quarantine_purge_failures := failures\<rparr>)))"

section \<open>Deleting a target\<close>

record target_deletion_summary =
  tds_run_count :: nat
  tds_revision_count :: nat
  tds_artifact_count :: nat
  tds_quick_connection :: bool
  tds_quick_credential :: bool

definition is_quick :: "string \<Rightarrow> bool" where
  "is_quick name \<longleftrightarrow> take 7 name = ''[Quick]''"

definition target_revision_ids :: "db \<Rightarrow> int \<Rightarrow> int list" where
  "target_revision_ids d tid = map rev_pk (filter (\<lambda>r. rev_target_id r = tid) (revisions d))"

definition summarize_target_deletion :: "db \<Rightarrow> backup_target \<Rightarrow> target_deletion_summary" where
  "summarize_target_deletion d t =
     \<lparr>tds_run_count = length (filter (\<lambda>r. r_target_id r = t_pk t) (runs d)),
      tds_revision_count = length (target_revision_ids d (t_pk t)),
      tds_artifact_count = length (filter (\<lambda>a. a_revision_id a \<in> set (target_revision_ids d (t_pk t))) (artifacts d)),
      tds_quick_connection = (case t_connection_override t of None \<Rightarrow> False | Some c \<Rightarrow> is_quick (cp_name c)),
      tds_quick_credential = (case t_credential_override t of None \<Rightarrow> False | Some c \<Rightarrow> is_quick (crp_name c))\<rparr>"

definition validate_target_external_copies :: "(revision_replica \<times> backup_destination) list \<Rightarrow> unit result" where
  "validate_target_external_copies xs =
     (if list_ex (\<lambda>(p, dst). p_status p = PQueued \<or> p_status p = PRunning) xs
      then Inl (ValueError ''The target has an active remote transfer and cannot be deleted.'')
      else if list_ex (\<lambda>(p, dst). replicated_protocol (dst_protocol dst) \<and> \<not> dst_enabled dst \<and> recorded_copy p) xs
      then Inl (ValueError ''A remote storage containing this target is disabled. Enable it before deleting the target so its external copies can be removed safely.'')
      else if list_ex (\<lambda>(p, dst). \<not> replicated_protocol (dst_protocol dst) \<and> recorded_copy p) xs
      then Inl (ValueError ''The target still has an external copy which this version cannot remove safely. Delete that copy before removing the target.'')
      else Inr ())"

fun delete_target_ftp_copies ::
  "'r remote_ops \<Rightarrow> (revision_replica \<times> backup_destination) list \<Rightarrow> ('r, unit) prog" where
  "delete_target_ftp_copies ro [] = returnS ()"
| "delete_target_ftp_copies ro ((p, dst) # xs) =
     (if \<not> replicated_protocol (dst_protocol dst) \<or> \<not> recorded_copy p then delete_target_ftp_copies ro xs
      else if p_remote_path p = []
      then raiseS (ValueError ''A remote copy has inconsistent path metadata. The target was not deleted.'')
      else bindS (translate_destination (\<lambda>code. ValueError
                    (''A remote copy could not be removed safely ('' @ code @ ''). The target was not deleted.''))
                    (if dst_protocol dst = PFtp then ro_delete_ftp ro dst p else ro_delete_mounted ro dst p)) (\<lambda>_.
           delete_target_ftp_copies ro xs))"

text \<open>\<open>except ValueError as exc: raise TargetDeletionError(str(exc))\<close>.\<close>

fun value_error_message :: "exn \<Rightarrow> string option" where
  "value_error_message (ValueError msg) = Some msg"
| "value_error_message _ = None"

definition as_target_error :: "exn \<Rightarrow> exn" where
  "as_target_error e = (case value_error_message e of None \<Rightarrow> e | Some msg \<Rightarrow> TargetDeletionError msg)"

record target_plan =
  tp_target :: backup_target
  tp_replicas :: "(revision_replica \<times> backup_destination) list"
  tp_summary :: target_deletion_summary
  tp_keys :: "string list"

definition plan_target_deletion :: "int \<Rightarrow> db \<Rightarrow> target_plan result" where
  "plan_target_deletion tid d =
     bindE (get_target d tid) (\<lambda>t.
     if has_active_run d (t_pk t)
     then Inl (TargetDeletionError ''The target has an active backup run and cannot be deleted.'')
     else let ids = target_revision_ids d (t_pk t) in
       bindE (traverse (with_destination d) (sort_key p_pk (filter (\<lambda>p. p_revision_id p \<in> set ids
                \<and> p_remote_deleted_at p = None) (replicas d)))) (\<lambda>ps.
       bindE (case validate_target_external_copies ps of Inl e \<Rightarrow> Inl (as_target_error e) | Inr u \<Rightarrow> Inr u) (\<lambda>_.
       Inr \<lparr>tp_target = t, tp_replicas = ps, tp_summary = summarize_target_deletion d t,
            tp_keys = map a_storage_key (filter (\<lambda>a. a_revision_id a \<in> set ids) (artifacts d))\<rparr>)))"

text \<open>The rows that go: runs, revisions with their artifacts and replicas, the target and its host keys.\<close>

definition remove_target :: "int \<Rightarrow> db \<Rightarrow> db" where
  "remove_target tid d =
     (let d1 = delete_revisions (target_revision_ids d tid)
                 (d\<lparr>runs := filter (\<lambda>r. r_target_id r \<noteq> tid) (runs d)\<rparr>)
      in d1\<lparr>targets := filter (\<lambda>t. t_pk t \<noteq> tid) (targets d1),
            host_keys := filter (\<lambda>k. hk_target_id k \<noteq> tid) (host_keys d1)\<rparr>)"

text \<open>
  The connection and credential profiles quick setup made for the target go too, unless another target
  or a platform mapping uses them. A credential that a destination or a receiver profile refers to is
  protected, and one that goes takes its stored secret along.
\<close>

definition connection_shared :: "db \<Rightarrow> int \<Rightarrow> bool" where
  "connection_shared d k \<longleftrightarrow>
     list_ex (\<lambda>t. map_option cp_pk (t_connection_override t) = Some k) (targets d)
     \<or> list_ex (\<lambda>m. map_option cp_pk (pm_connection_profile m) = Some k) (mappings d)"

definition credential_shared :: "db \<Rightarrow> int \<Rightarrow> bool" where
  "credential_shared d k \<longleftrightarrow>
     list_ex (\<lambda>t. map_option crp_pk (t_credential_override t) = Some k) (targets d)
     \<or> list_ex (\<lambda>m. map_option crp_pk (pm_credential_profile m) = Some k) (mappings d)"

definition credential_protected :: "db \<Rightarrow> int \<Rightarrow> bool" where
  "credential_protected d k \<longleftrightarrow>
     list_ex (\<lambda>x. map_option crp_pk (dst_credential_profile x) = Some k) (destinations d)
     \<or> list_ex (\<lambda>x. crp_pk (rcp_credential_profile x) = k) (receiver_profiles d)"

definition remove_quick_connection :: "int option \<Rightarrow> db \<Rightarrow> db" where
  "remove_quick_connection ref d = (case ref of None \<Rightarrow> d | Some k \<Rightarrow>
     (case find (\<lambda>c. cp_pk c = k) (connection_profiles d) of None \<Rightarrow> d | Some c \<Rightarrow>
        if is_quick (cp_name c) \<and> \<not> connection_shared d k
        then d\<lparr>connection_profiles := filter (\<lambda>c. cp_pk c \<noteq> k) (connection_profiles d)\<rparr> else d))"

definition remove_quick_credential :: "int option \<Rightarrow> db \<Rightarrow> db result" where
  "remove_quick_credential ref d = (case ref of None \<Rightarrow> Inr d | Some k \<Rightarrow>
     (case find (\<lambda>c. crp_pk c = k) (credential_profiles d) of None \<Rightarrow> Inr d | Some c \<Rightarrow>
        if is_quick (crp_name c) \<and> \<not> credential_shared d k
        then if credential_protected d k then Inl ProtectedError
             else Inr (d\<lparr>credential_profiles := filter (\<lambda>c. crp_pk c \<noteq> k) (credential_profiles d),
                        stored_credentials := filter (\<lambda>x. sc_profile_id x \<noteq> k) (stored_credentials d)\<rparr>)
        else Inr d))"

definition apply_target_deletion :: "backup_target \<Rightarrow> db \<Rightarrow> db result" where
  "apply_target_deletion t d =
     remove_quick_credential (map_option crp_pk (t_credential_override t))
       (remove_quick_connection (map_option cp_pk (t_connection_override t)) (remove_target (t_pk t) d))"

definition target_deletion_body ::
  "'s config_storage \<Rightarrow> 'r remote_ops \<Rightarrow> string \<Rightarrow> int \<Rightarrow> (('s, 'r) cstate, target_deletion_summary) prog" where
  "target_deletion_body ops ro ns tid =
     bindS (read_cdb (plan_target_deletion tid)) (\<lambda>pl.
     bindS (stage_all ops ns (tp_keys pl)) (\<lambda>_.
     bindS (catchS (on_remote (delete_target_ftp_copies ro (tp_replicas pl))) (\<lambda>e. raiseS (as_target_error e))) (\<lambda>_.
     bindS (write_cdb (apply_target_deletion (tp_target pl))) (\<lambda>_.
     returnS (tp_summary pl)))))"

definition target_not_restored :: exn where
  "target_not_restored = TargetDeletionError
     ''Target deletion failed and quarantined files could not be fully restored.''"

fun target_error :: "exn \<Rightarrow> exn" where
  "target_error (TargetDeletionError msg) = TargetDeletionError msg"
| "target_error (StorageError msg) = TargetDeletionError
     ''Stored configuration files could not be quarantined. Nothing was deleted.''"
| "target_error _ = TargetDeletionError ''Target deletion failed before commit.''"

definition target_deletion_transaction ::
  "'s config_storage \<Rightarrow> 'r remote_ops \<Rightarrow> string \<Rightarrow> int \<Rightarrow> (('s, 'r) cstate, target_deletion_summary) prog" where
  "target_deletion_transaction ops ro ns tid =
     staged_transaction ops target_not_restored target_error (target_deletion_body ops ro ns tid)"

definition delete_backup_target ::
  "'s config_storage \<Rightarrow> 'r remote_ops \<Rightarrow> string \<Rightarrow> int \<Rightarrow> (('s, 'r) cstate, target_deletion_summary) prog" where
  "delete_backup_target ops ro ns tid =
     bindS (target_deletion_transaction ops ro ns tid) (\<lambda>summary.
     bindS (purge_staged ops) (\<lambda>_. returnS summary))"

section \<open>Facts\<close>

context storage_contract
begin

lemma revision_deletion_staging:
  "within (staging wf objs) (revision_deletion_body rt ops ro ns rid :: (('s, 'r) cstate, _) prog)"
  unfolding revision_deletion_body_def
  by (intro staging_steps.within_bindS stage_all_staging staging_read_cdb staging_on_remote)
    (auto intro!: staging_within split: prod.splits)

lemma target_deletion_staging:
  "within (staging wf objs) (target_deletion_body ops ro ns tid :: (('s, 'r) cstate, _) prog)"
  unfolding target_deletion_body_def by (intro staging_within stage_all_staging)

end

lemma traverse_Inr_in: "traverse f xs = Inr ys \<Longrightarrow> x \<in> set xs \<Longrightarrow> \<exists>y \<in> set ys. f x = Inr y"
  by (induction xs arbitrary: ys) (auto simp: result_simps)

text \<open>The failed transaction on the local store.\<close>

lemma local_transaction_Inl:
  assumes "local_wf (cs_store s)" "within (staging local_wf local_objs) body"
    "staged_transaction LocalConfigStorage not_restored translate body s = (Inl e, s')"
  shows "cs_db s' = cs_db s \<and> (local_objs (cs_store s') = local_objs (cs_store s) \<or> e = not_restored
     \<or> (\<exists>k sk st st'. local_restore_staged_delete k sk st = (Inl e, st') \<and> \<not> is_storage_error e))"
proof -
  have "st_restore_staged_delete LocalConfigStorage = local_restore_staged_delete" by (simp add: LocalConfigStorage_def)
  with local_store.staged_transaction_Inl [OF assms] show ?thesis by simp
qed

lemma plan_deletion_Inr:
  assumes "plan_deletion rid d = Inr pl"
  shows "get_revision d rid = Inr (dp_revision pl)" "rev_pk (dp_revision pl) = rid" "\<not> rev_protected (dp_revision pl)"
    "get_target d (rev_target_id (dp_revision pl)) = Inr (dp_target pl)"
    "t_pk (dp_target pl) = rev_target_id (dp_revision pl)" "\<not> has_active_run d (rev_target_id (dp_revision pl))"
    "set (dp_artifacts pl) = {a \<in> set (artifacts d). a_revision_id a = rid}"
    "\<And>p. p \<in> set (replicas d) \<Longrightarrow> p_revision_id p = rid \<Longrightarrow> p_status p \<noteq> PQueued \<and> p_status p \<noteq> PRunning"
proof -
  from assms obtain rv t ps where rv: "get_revision d rid = Inr rv" and t: "get_target d (rev_target_id rv) = Inr t"
    and c: "\<not> rev_protected rv" "\<not> has_active_run d (t_pk t)"
    and ps: "traverse (with_destination d) (revision_replicas d (rev_pk rv)) = Inr ps"
    and v: "\<exists>us. traverse validate_replica ps = Inr us"
    and pl: "dp_target pl = t" "dp_revision pl = rv"
      "dp_artifacts pl = sort_key a_pk (filter (\<lambda>a. a_revision_id a = rev_pk rv) (artifacts d))"
    by (auto simp: plan_deletion_def validate_replicas_def result_simps split: if_splits)
  have pk: "rev_pk rv = rid" using rv unfolding get_revision_def by (blast dest: row_get_Inr)
  have tk: "t_pk t = rev_target_id rv" using t unfolding get_target_def by (blast dest: row_get_Inr)
  show "get_revision d rid = Inr (dp_revision pl)" "rev_pk (dp_revision pl) = rid" "\<not> rev_protected (dp_revision pl)"
    "get_target d (rev_target_id (dp_revision pl)) = Inr (dp_target pl)"
    "t_pk (dp_target pl) = rev_target_id (dp_revision pl)" "\<not> has_active_run d (rev_target_id (dp_revision pl))"
    "set (dp_artifacts pl) = {a \<in> set (artifacts d). a_revision_id a = rid}"
    using rv t c pk tk pl by auto
  fix p assume p: "p \<in> set (replicas d)" "p_revision_id p = rid"
  then have "p \<in> set (revision_replicas d (rev_pk rv))" by (simp add: revision_replicas_def pk)
  from traverse_Inr_in [OF ps this] obtain x where x: "x \<in> set ps" "with_destination d p = Inr x" by blast
  then have "fst x = p" by (auto simp: with_destination_def split: option.splits)
  moreover have "\<exists>u. validate_replica x = Inr u" using v x(1) by (simp add: traverse_Inr_iff)
  ultimately show "p_status p \<noteq> PQueued \<and> p_status p \<noteq> PRunning"
    by (auto simp: validate_replica_def split: prod.splits if_splits)
qed

section \<open>Properties\<close>



lemma purge_list_db: "purge_list ops xs s = (r, s') \<Longrightarrow> cs_db s' = cs_db s"
proof -
  have "within (\<lambda>s s'. cs_db s' = cs_db s) (purge_list ops xs)"
    by (induction ops xs rule: purge_list.induct) (auto intro!: cdb_steps.within_intros within_on_cstore)
  then show "purge_list ops xs s = (r, s') \<Longrightarrow> cs_db s' = cs_db s" by (rule withinD)
qed

lemma delete_revision_db:
  assumes "delete_config_revision_everywhere rt ops ro ns rid s = (Inr summary, s')"
  obtains pl where "plan_deletion rid (cs_db s) = Inr pl" "apply_deletion rt pl (cs_db s) = Inr (cs_db s')"
proof -
  from assms obtain sum0 s1 f where tr: "revision_deletion_transaction rt ops ro ns rid s = (Inr sum0, s1)"
    and pu: "purge_list ops (cs_staged s1) s1 = (Inr f, s')"
    by (auto simp: delete_config_revision_everywhere_def purge_staged_def prog_simps)
  from tr have "revision_deletion_body rt ops ro ns rid (s\<lparr>cs_staged := []\<rparr>) = (Inr sum0, s1)"
    by (auto simp: revision_deletion_transaction_def staged_transaction_def prog_simps)
  then obtain pl n s2 where pl: "plan_deletion rid (cs_db s) = Inr pl"
    and stg: "stage_all ops ns (map a_storage_key (dp_artifacts pl)) (s\<lparr>cs_staged := []\<rparr>) = (Inr n, s2)"
    and ap: "apply_deletion rt pl (cs_db s2) = Inr (cs_db s1)"
    by (auto simp: revision_deletion_body_def prog_simps split: prod.splits)
  from stage_all_Inr [OF stg] ap purge_list_db [OF pu] pl show thesis by (intro that) simp_all
qed

text \<open>
  C20. Deleting a revision deletes that revision and nothing else. It succeeds only for an unprotected
  revision of a target without an active run and without a running transfer; afterwards neither its
  row nor its artifact and replica rows exist, all other artifacts and revisions are still there,
  every run is kept as audit history, and no run refers to the deleted revision.
\<close>

theorem revision_deletion_exact:
  assumes "delete_config_revision_everywhere rt ops ro ns rid s = (Inr summary, s')"
  shows "\<exists>rv. get_revision (cs_db s) rid = Inr rv \<and> \<not> rev_protected rv \<and> \<not> has_active_run (cs_db s) (rev_target_id rv)
    \<and> (\<forall>p \<in> set (replicas (cs_db s)). p_revision_id p = rid \<longrightarrow> p_status p \<noteq> PQueued \<and> p_status p \<noteq> PRunning)
    \<and> rev_pk ` set (revisions (cs_db s')) = rev_pk ` set (revisions (cs_db s)) - {rid}
    \<and> set (artifacts (cs_db s')) = {a \<in> set (artifacts (cs_db s)). a_revision_id a \<noteq> rid}
    \<and> set (replicas (cs_db s')) = {p \<in> set (replicas (cs_db s)). p_revision_id p \<noteq> rid}
    \<and> map r_pk (runs (cs_db s')) = map r_pk (runs (cs_db s)) \<and> (\<forall>r \<in> set (runs (cs_db s')). r_revision r \<noteq> Some rid)"
  using assms
proof (rule delete_revision_db)
  let ?d = "cs_db s" and ?d' = "cs_db s'"
  fix pl
  assume pl: "plan_deletion rid ?d = Inr pl" and ap: "apply_deletion rt pl ?d = Inr ?d'"
  note facts = plan_deletion_Inr [OF pl]
  from ap obtain revs d1 where rl: "relink_kept_revisions rt (dp_target pl) revs [rid] ?d = Inr d1"
    and d': "?d' = delete_revisions [rid] d1"
    using facts(2) by (auto simp: apply_deletion_def result_simps)
  note t = relink_tables [OF rl]
  have pks: "rev_pk ` set (revisions d1) = rev_pk ` set (revisions ?d)" using t(2) by (metis list.set_map)
  have "rev_pk ` set (revisions ?d') = rev_pk ` set (revisions ?d) - {rid}"
    using rev_pk_delete [of "[rid]" "[]" d1] pks unfolding d' by (simp add: delete_runs_def)
  moreover have "set (artifacts ?d') = {a \<in> set (artifacts ?d). a_revision_id a \<noteq> rid}"
    "set (replicas ?d') = {p \<in> set (replicas ?d). p_revision_id p \<noteq> rid}"
    "map r_pk (runs ?d') = map r_pk (runs ?d)" "\<forall>r \<in> set (runs ?d'). r_revision r \<noteq> Some rid"
    unfolding d' by (auto simp: delete_revisions_def t clear_reference_def split: option.splits if_splits)
  ultimately show ?thesis using facts(1,3,6) facts(8) by (intro exI [of _ "dp_revision pl"]) simp
qed

definition sample_artifact :: "int \<Rightarrow> int \<Rightarrow> config_artifact" where
  "sample_artifact k rid = \<lparr>a_pk = k, a_revision_id = rid, a_artifact_type = ''running_config'', a_format = ''text'',
     a_storage_key = ''devices/11/revisions/u'' @ show_int rid @ ''/c.txt'', a_size = 3, a_raw_hash = ''x'',
     a_normalized_hash = ''h'', a_is_primary = True, a_local_available = True, a_local_deleted_at = None\<rparr>"

definition sample_path :: "int \<Rightarrow> string list" where
  "sample_path k = path_parts (''devices/11/revisions/u'' @ show_int k @ ''/c.txt'')"

definition sample_cleanup_state :: "(local_fs, unit) cstate" where
  "sample_cleanup_state = \<lparr>cs_db = (sample_db [])\<lparr>revisions := [sample_revision 1 None, sample_revision 2 (Some 1)],
       artifacts := [sample_artifact 31 1, sample_artifact 32 2],
       destinations := [sample_destination\<lparr>dst_pk := 9, dst_protocol := PLocal\<rparr>], policies := [sample_retention]\<rparr>,
     cs_store = sample_fs\<lparr>fs_files := Map.empty(''srv'' # sample_path 1 \<mapsto> ''old'', ''srv'' # sample_path 2 \<mapsto> ''new'')\<rparr>,
     cs_staged = [], cs_remote = ()\<rparr>"

definition sample_remote :: "unit remote_ops" where
  "sample_remote = \<lparr>ro_delete_ftp = (\<lambda>_ _. raiseS (DestinationError ''DOWN'' [])),
     ro_delete_mounted = (\<lambda>_ _. raiseS (DestinationError ''DOWN'' []))\<rparr>"

theorem revision_deletion_exact_witness:
  "\<exists>summary s'. delete_config_revision_everywhere sample_runtime LocalConfigStorage sample_remote ''delete-1'' 1
       sample_cleanup_state = (Inr summary, s') \<and> rds_local_file_count summary = 1
     \<and> rev_pk ` set (revisions (cs_db s')) = {2}"
proof -
  let ?x = "delete_config_revision_everywhere sample_runtime LocalConfigStorage sample_remote ''delete-1'' 1 sample_cleanup_state"
  have "case ?x of (Inl e, _) \<Rightarrow> False | (Inr summary, _) \<Rightarrow> rds_local_file_count summary = 1" by code_simp
  then obtain summary s' where x: "?x = (Inr summary, s')" "rds_local_file_count summary = 1"
    by (auto split: prod.splits sum.splits)
  have "rev_pk ` set (revisions (cs_db s')) = {2}"
    using revision_deletion_exact [OF x(1)] by (auto simp: sample_cleanup_state_def sample_revision_def)
  with x show ?thesis by blast
qed



lemma delete_target_db:
  assumes "delete_backup_target ops ro ns tid s = (Inr summary, s')"
  obtains pl where "plan_target_deletion tid (cs_db s) = Inr pl" "apply_target_deletion (tp_target pl) (cs_db s) = Inr (cs_db s')"
    "summary = tp_summary pl"
proof -
  from assms obtain s1 f where tr: "target_deletion_transaction ops ro ns tid s = (Inr summary, s1)"
    and pu: "purge_list ops (cs_staged s1) s1 = (Inr f, s')"
    by (auto simp: delete_backup_target_def purge_staged_def prog_simps)
  from tr have "target_deletion_body ops ro ns tid (s\<lparr>cs_staged := []\<rparr>) = (Inr summary, s1)"
    by (auto simp: target_deletion_transaction_def staged_transaction_def prog_simps)
  then obtain pl n s2 where pl: "plan_target_deletion tid (cs_db s) = Inr pl" "summary = tp_summary pl"
    and stg: "stage_all ops ns (tp_keys pl) (s\<lparr>cs_staged := []\<rparr>) = (Inr n, s2)"
    and rm: "apply_target_deletion (tp_target pl) (cs_db s2) = Inr (cs_db s1)"
    by (auto simp: target_deletion_body_def prog_simps)
  from stage_all_Inr [OF stg] rm purge_list_db [OF pu] pl show thesis by (intro that) simp_all
qed

lemma image_key_filter:
  assumes "\<And>x. key (f x) = key x"
  shows "key ` {x \<in> f ` T. key x \<noteq> k} = key ` T - {k}"
proof -
  have "{x \<in> f ` T. key x \<noteq> k} = f ` {x \<in> T. key x \<noteq> k}" using assms by auto
  then have "key ` {x \<in> f ` T. key x \<noteq> k} = key ` {x \<in> T. key x \<noteq> k}" by (simp add: image_image assms)
  then show ?thesis by auto
qed

lemma remove_target_rows:
  assumes "\<forall>r \<in> set (revisions d). \<forall>r' \<in> set (revisions d). rev_pk r = rev_pk r' \<longrightarrow> r = r'"
  shows "r_pk ` set (runs (remove_target tid d)) = r_pk ` {r \<in> set (runs d). r_target_id r \<noteq> tid}"
    "rev_pk ` set (revisions (remove_target tid d)) = rev_pk ` {r \<in> set (revisions d). rev_target_id r \<noteq> tid}"
    "set (artifacts (remove_target tid d)) = {a \<in> set (artifacts d). a_revision_id a \<notin> set (target_revision_ids d tid)}"
    "set (replicas (remove_target tid d)) = {p \<in> set (replicas d). p_revision_id p \<notin> set (target_revision_ids d tid)}"
    "t_pk ` set (targets (remove_target tid d)) = t_pk ` set (targets d) - {tid}"
    "set (host_keys (remove_target tid d)) = {k \<in> set (host_keys d). hk_target_id k \<noteq> tid}"
proof -
  have "rev_pk ` set (revisions (remove_target tid d)) = rev_pk ` {r \<in> set (revisions d). rev_pk r \<notin> set (target_revision_ids d tid)}"
    by (simp add: remove_target_def Let_def delete_revisions_def image_image)
  also have "{r \<in> set (revisions d). rev_pk r \<notin> set (target_revision_ids d tid)} = {r \<in> set (revisions d). rev_target_id r \<noteq> tid}"
    using assms by (auto simp: target_revision_ids_def)
  finally show "rev_pk ` set (revisions (remove_target tid d)) = rev_pk ` {r \<in> set (revisions d). rev_target_id r \<noteq> tid}" .
  show "t_pk ` set (targets (remove_target tid d)) = t_pk ` set (targets d) - {tid}"
    unfolding remove_target_def Let_def delete_revisions_def by (simp add: image_key_filter)
qed (simp_all add: remove_target_def Let_def delete_revisions_def image_image)

lemma remove_quick_connection_rows:
  fixes d :: db and ref :: "int option"
  defines "d' \<equiv> remove_quick_connection ref d"
  shows "targets d' = targets d" "runs d' = runs d" "revisions d' = revisions d" "artifacts d' = artifacts d"
    "replicas d' = replicas d" "host_keys d' = host_keys d" "destinations d' = destinations d" "mappings d' = mappings d"
    "credential_profiles d' = credential_profiles d" "stored_credentials d' = stored_credentials d"
    "c \<in> set (connection_profiles d) \<Longrightarrow> c \<notin> set (connection_profiles d') \<Longrightarrow>
       ref = Some (cp_pk c) \<and> \<not> connection_shared d (cp_pk c)"
  unfolding d'_def remove_quick_connection_def by (auto split: option.splits if_split_asm)

lemma remove_quick_credential_rows:
  fixes d d' :: db
  assumes "remove_quick_credential ref d = Inr d'"
  shows "targets d' = targets d" "runs d' = runs d" "revisions d' = revisions d" "artifacts d' = artifacts d"
    "replicas d' = replicas d" "host_keys d' = host_keys d" "connection_profiles d' = connection_profiles d"
    "mappings d' = mappings d"
    "c \<in> set (credential_profiles d) \<Longrightarrow> c \<notin> set (credential_profiles d') \<Longrightarrow>
       ref = Some (crp_pk c) \<and> \<not> credential_shared d (crp_pk c) \<and> \<not> credential_protected d (crp_pk c)"
  using assms unfolding remove_quick_credential_def by (auto split: option.splits if_splits)



interpretation store_steps: step_relation "\<lambda>(s :: ('s, 'r) cstate) s'. cs_db s' = cs_db s \<and> cs_remote s' = cs_remote s"
  by unfold_locales simp_all

lemma on_cstore_keeps: "within (\<lambda>s s'. cs_db s' = cs_db s \<and> cs_remote s' = cs_remote s) (on_cstore m)"
  by (auto simp: within_def on_cstore_eq)

lemma restore_list_keeps: "within (\<lambda>s s'. cs_db s' = cs_db s \<and> cs_remote s' = cs_remote s) (restore_list ops xs)"
  by (induction ops xs rule: restore_list.induct) (auto intro!: store_steps.within_intros on_cstore_keeps)

lemma remove_target_credentials:
  "credential_profiles (remove_quick_connection ref (remove_target tid d)) = credential_profiles d"
  "credential_shared (remove_quick_connection ref (remove_target tid d)) k = credential_shared (remove_target tid d) k"
  "credential_protected (remove_quick_connection ref (remove_target tid d)) k = credential_protected d k"
  by (auto simp: remove_quick_connection_rows credential_shared_def credential_protected_def remove_quick_connection_def
      remove_target_def Let_def delete_revisions_def split: option.splits)

lemma protected_credential_error:
  assumes "t_credential_override t = Some c0" "find (\<lambda>x. crp_pk x = crp_pk c0) (credential_profiles d) = Some c"
    "is_quick (crp_name c)" "\<not> credential_shared (remove_target (t_pk t) d) (crp_pk c0)" "credential_protected d (crp_pk c0)"
  shows "apply_target_deletion t d = Inl ProtectedError"
  using assms by (simp add: apply_target_deletion_def remove_quick_credential_def remove_target_credentials)

text \<open>
  A quick-setup credential that a destination or a receiver profile also uses makes its target
  undeletable, and each attempt loses the remote copies: the row is protected, so the transaction
  fails and every row stays, but the copies of the target's revisions on the external storages have
  been deleted by then and stay deleted, while their replica rows still record them.
\<close>

theorem protected_credential_loses_remote_copies:
  assumes "plan_target_deletion tid (cs_db s) = Inr pl"
    and "stage_all ops ns (tp_keys pl) (s\<lparr>cs_staged := []\<rparr>) = (Inr n, s1)"
    and "delete_target_ftp_copies ro (tp_replicas pl) (cs_remote s1) = (Inr (), r')"
    and "t_credential_override (tp_target pl) = Some c0"
    and "find (\<lambda>x. crp_pk x = crp_pk c0) (credential_profiles (cs_db s)) = Some c" "is_quick (crp_name c)"
    and "\<not> credential_shared (remove_target tid (cs_db s)) (crp_pk c0)" "credential_protected (cs_db s) (crp_pk c0)"
  shows "\<exists>e s'. delete_backup_target ops ro ns tid s = (Inl e, s') \<and> cs_db s' = cs_db s \<and> cs_remote s' = r'"
proof -
  from assms(1) have "get_target (cs_db s) tid = Inr (tp_target pl)"
    by (auto simp: plan_target_deletion_def Let_def result_simps split: if_splits)
  then have pk: "t_pk (tp_target pl) = tid" unfolding get_target_def by (blast dest: row_get_Inr)
  have db: "cs_db s1 = cs_db s" using stage_all_Inr [OF assms(2)] by simp
  have "apply_target_deletion (tp_target pl) (cs_db s) = Inl ProtectedError"
    using assms(4-8) pk by (intro protected_credential_error) simp_all
  then have "target_deletion_body ops ro ns tid (s\<lparr>cs_staged := []\<rparr>) = (Inl ProtectedError, s1\<lparr>cs_remote := r'\<rparr>)"
    using assms(1-3) db by (simp add: target_deletion_body_def bindS_def read_cdb_def write_cdb_def readS_def on_remote_def catchS_def)
  moreover obtain res s2 where r: "restore_list ops (rev (cs_staged s1)) (s1\<lparr>cs_remote := r', cs_db := cs_db s\<rparr>) = (res, s2)"
    by (cases "restore_list ops (rev (cs_staged s1)) (s1\<lparr>cs_remote := r', cs_db := cs_db s\<rparr>)")
  ultimately have "\<exists>e. delete_backup_target ops ro ns tid s = (Inl e, s2)"
    by (cases res) (auto simp: delete_backup_target_def target_deletion_transaction_def staged_transaction_def bindS_def
        catchS_def db_atomic_def restore_staged_def raiseS_def db)
  moreover have "cs_db s2 = cs_db s" using withinD [OF restore_list_keeps r] by simp
  moreover have "cs_remote s2 = r'" using withinD [OF restore_list_keeps r] by simp
  ultimately show ?thesis by blast
qed

definition quick_credential :: credential_profile where
  "quick_credential = \<lparr>crp_pk = 5, crp_name = ''[Quick] r1'', crp_provider_id = ''database'', crp_secret_reference = ''s''\<rparr>"

definition listing_remote :: "string list remote_ops" where
  "listing_remote = \<lparr>ro_delete_ftp = (\<lambda>dst p files. (Inr \<lparr>rdr_deleted_file_count = 1, rdr_missing_file_count = 0,
       rdr_deleted_bytes = 3, rdr_directory_removed = True\<rparr>, filter (\<lambda>f. f \<noteq> p_remote_path p) files)),
     ro_delete_mounted = (\<lambda>_ _. raiseS (DestinationError ''DOWN'' []))\<rparr>"

definition sample_shared_state :: "(local_fs, string list) cstate" where
  "sample_shared_state = \<lparr>cs_db = empty_db\<lparr>targets := [sample_target\<lparr>t_credential_override := Some quick_credential\<rparr>],
       revisions := [sample_revision 1 None], artifacts := [sample_artifact 31 1],
       replicas := [(sample_replica 7 1 PSuccess)\<lparr>p_remote_path := ''/backups/u1'', p_remote_available := True\<rparr>],
       destinations := [sample_destination\<lparr>dst_credential_profile := Some quick_credential\<rparr>],
       credential_profiles := [quick_credential]\<rparr>,
     cs_store = sample_fs\<lparr>fs_files := Map.empty(''srv'' # sample_path 1 \<mapsto> ''old'')\<rparr>,
     cs_staged = [], cs_remote = [''/backups/u1'']\<rparr>"

theorem protected_credential_loses_remote_copies_witness:
  "\<exists>e s'. delete_backup_target LocalConfigStorage listing_remote ''d'' 1 sample_shared_state = (Inl e, s')
     \<and> cs_db s' = cs_db sample_shared_state \<and> cs_remote s' = []"
proof -
  let ?s = sample_shared_state
  have "case plan_target_deletion 1 (cs_db ?s) of Inl e \<Rightarrow> False | Inr pl \<Rightarrow>
      (case stage_all LocalConfigStorage ''d'' (tp_keys pl) (?s\<lparr>cs_staged := []\<rparr>) of (Inl e, _) \<Rightarrow> False | (Inr n, s1) \<Rightarrow>
        delete_target_ftp_copies listing_remote (tp_replicas pl) (cs_remote s1) = (Inr (), [])
        \<and> map_option crp_pk (t_credential_override (tp_target pl)) = Some 5)"
    by code_simp
  then obtain pl where pl: "plan_target_deletion 1 (cs_db ?s) = Inr pl" and
    st: "case stage_all LocalConfigStorage ''d'' (tp_keys pl) (?s\<lparr>cs_staged := []\<rparr>) of (Inl e, _) \<Rightarrow> False | (Inr n, s1) \<Rightarrow>
        delete_target_ftp_copies listing_remote (tp_replicas pl) (cs_remote s1) = (Inr (), [])
        \<and> map_option crp_pk (t_credential_override (tp_target pl)) = Some 5"
    by (cases "plan_target_deletion 1 (cs_db ?s)") simp_all
  obtain r s1 where "stage_all LocalConfigStorage ''d'' (tp_keys pl) (?s\<lparr>cs_staged := []\<rparr>) = (r, s1)" by fastforce
  with pl st obtain n c0 where a: "plan_target_deletion 1 (cs_db ?s) = Inr pl"
    "stage_all LocalConfigStorage ''d'' (tp_keys pl) (?s\<lparr>cs_staged := []\<rparr>) = (Inr n, s1)"
    "delete_target_ftp_copies listing_remote (tp_replicas pl) (cs_remote s1) = (Inr (), [])"
    "t_credential_override (tp_target pl) = Some c0" "crp_pk c0 = 5"
    by (cases r) auto
  have b: "find (\<lambda>x. crp_pk x = crp_pk c0) (credential_profiles (cs_db ?s)) = Some quick_credential"
    "is_quick (crp_name quick_credential)"
    by (simp_all add: a(5) sample_shared_state_def quick_credential_def is_quick_def)
  have "\<not> credential_shared (remove_target 1 (cs_db ?s)) 5" "credential_protected (cs_db ?s) 5" by code_simp+
  then show ?thesis
    using protected_credential_loses_remote_copies [OF a(1-4) b] unfolding a(5) by blast
qed

end
