(* ===== verification/Remote_Retention.thy ===== *)
theory Remote_Retention
  imports Deletion
begin

text \<open>
  \<open>services/remote_retention_cleanup.py\<close>: the remote counterpart of the local cleanup. For each enabled
  destination with an effective policy the copies of one target are planned by the same planner, the
  expired ones are deleted from the destination and become tombstones, and a revision that exists
  nowhere any more loses its row. Python iterates over the set of expired identifiers in an order of
  its own, which is the parameter \<open>set_order\<close>.
\<close>

section \<open>Planning\<close>

record remote_cleanup_summary =
  rcs_target_id :: int
  rcs_revision_count :: nat
  rcs_replica_count :: nat
  rcs_cancelled_replica_count :: nat
  rcs_deleted_file_count :: nat
  rcs_missing_file_count :: nat
  rcs_deleted_bytes :: int
  rcs_removed_directory_count :: nat
  rcs_deferred_revision_count :: nat
  rcs_metadata_revision_count :: nat

text \<open>The database rows a cleanup locks before it deletes anything.\<close>

record remote_plan =
  rm_target :: backup_target
  rm_replicas :: "revision_replica list"
  rm_destinations :: "backup_destination list"
  rm_policies :: "remote_retention_policy list"
  rm_revisions :: "config_revision list"

definition replica_protocol_ok :: "db \<Rightarrow> revision_replica \<Rightarrow> bool" where
  "replica_protocol_ok d p \<longleftrightarrow>
     list_ex (\<lambda>x. dst_pk x = p_destination_id p \<and> replicated_protocol (dst_protocol x)) (destinations d)"

definition locked_replicas :: "db \<Rightarrow> int \<Rightarrow> revision_replica list" where
  "locked_replicas d tid = sort_key p_pk (filter (\<lambda>p. p_revision_id p \<in> set (target_revision_ids d tid)
     \<and> replica_protocol_ok d p \<and> p_remote_deleted_at p = None) (replicas d))"

definition locked_destinations :: "db \<Rightarrow> revision_replica list \<Rightarrow> backup_destination list" where
  "locked_destinations d ps = sort_key dst_pk (filter (\<lambda>x. dst_pk x \<in> set (map p_destination_id ps)
     \<and> replicated_protocol (dst_protocol x)) (destinations d))"

definition plan_remote_cleanup :: "int \<Rightarrow> db \<Rightarrow> remote_plan result" where
  "plan_remote_cleanup tid d =
     bindE (get_target d tid) (\<lambda>t.
     if has_active_run d (t_pk t)
     then Inl (RemoteRetentionCleanupError ''Remote retention cannot run while the target has an active backup.'')
     else let ps = locked_replicas d (t_pk t);
              dsts = locked_destinations d ps;
              ids = List.map_filter (effective_remote_retention_policy_id t) dsts
          in Inr \<lparr>rm_target = t, rm_replicas = ps, rm_destinations = dsts,
                  rm_policies = filter (\<lambda>x. rrp_pk x \<in> set ids) (remote_policies d),
                  rm_revisions = filter (\<lambda>r. rev_pk r \<in> set (map p_revision_id ps)) (target_revisions d (t_pk t))\<rparr>)"

section \<open>Deleting expired copies\<close>

text \<open>A confirmed copy, or one a failed and abandoned repair may have left behind.\<close>

definition remote_candidate :: "revision_replica \<Rightarrow> bool" where
  "remote_candidate p \<longleftrightarrow> (p_status p = PSuccess \<and> p_remote_available p)
     \<or> (p_status p = PFailed \<and> p_remote_path p \<noteq> [] \<and> p_next_retry_at p = None)"

definition transfer_pending :: "revision_replica \<Rightarrow> bool" where
  "transfer_pending p \<longleftrightarrow> p_status p = PQueued \<or> p_status p = PRunning
     \<or> (p_status p = PFailed \<and> p_next_retry_at p \<noteq> None)"

definition remote_candidates :: "remote_plan \<Rightarrow> backup_destination \<Rightarrow> config_revision list" where
  "remote_candidates pl dst =
     filter (\<lambda>r. list_ex (\<lambda>p. p_destination_id p = dst_pk dst \<and> p_revision_id p = rev_pk r \<and> remote_candidate p)
                   (rm_replicas pl)) (rm_revisions pl)"

record remote_totals =
  rt_replicas :: nat
  rt_deleted :: nat
  rt_missing :: nat
  rt_bytes :: int
  rt_directories :: nat
  rt_deferred :: nat
  rt_completed :: "int list"
  rt_configured :: nat

definition no_totals :: remote_totals where
  "no_totals = \<lparr>rt_replicas = 0, rt_deleted = 0, rt_missing = 0, rt_bytes = 0, rt_directories = 0,
     rt_deferred = 0, rt_completed = [], rt_configured = 0\<rparr>"

definition add_result :: "remote_deletion_result \<Rightarrow> remote_totals \<Rightarrow> remote_totals" where
  "add_result res tot = tot\<lparr>rt_replicas := rt_replicas tot + 1,
     rt_deleted := rt_deleted tot + rdr_deleted_file_count res,
     rt_missing := rt_missing tot + rdr_missing_file_count res,
     rt_bytes := rt_bytes tot + rdr_deleted_bytes res,
     rt_directories := rt_directories tot + (if rdr_directory_removed res then 1 else 0)\<rparr>"

definition tombstone_row :: "int \<Rightarrow> revision_replica \<Rightarrow> revision_replica" where
  "tombstone_row now p = p\<lparr>p_remote_available := False, p_remote_deleted_at := Some now,
     p_next_retry_at := None, p_job_id := None\<rparr>"

fun expire_replicas ::
  "'r remote_ops \<Rightarrow> int \<Rightarrow> backup_destination \<Rightarrow> revision_replica list \<Rightarrow> remote_totals
   \<Rightarrow> (('s, 'r) cstate, remote_totals) prog" where
  "expire_replicas ro now dst [] tot = returnS tot"
| "expire_replicas ro now dst (p # ps) tot =
     bindS (on_remote (delete_revision_replica ro dst p)) (\<lambda>res.
     bindS (write_cdb (\<lambda>d. Inr (save_replica (tombstone_row now p) d))) (\<lambda>_.
     expire_replicas ro now dst ps (add_result res tot)))"

fun expire_revisions ::
  "'r remote_ops \<Rightarrow> int \<Rightarrow> backup_destination \<Rightarrow> revision_replica list \<Rightarrow> int list \<Rightarrow> remote_totals
   \<Rightarrow> (('s, 'r) cstate, remote_totals) prog" where
  "expire_revisions ro now dst ps [] tot = returnS tot"
| "expire_revisions ro now dst ps (rid # rids) tot =
     (let mine = filter (\<lambda>p. p_destination_id p = dst_pk dst \<and> p_revision_id p = rid) ps in
      if list_ex transfer_pending mine
      then expire_revisions ro now dst ps rids (tot\<lparr>rt_deferred := rt_deferred tot + 1\<rparr>)
      else if filter remote_candidate mine = [] then expire_revisions ro now dst ps rids tot
      else bindS (expire_replicas ro now dst (filter remote_candidate mine) tot) (\<lambda>tot1.
           expire_revisions ro now dst ps rids (tot1\<lparr>rt_completed := List.insert rid (rt_completed tot1)\<rparr>)))"

definition clean_destination ::
  "(int list \<Rightarrow> int list) \<Rightarrow> 'r remote_ops \<Rightarrow> int \<Rightarrow> remote_plan \<Rightarrow> backup_destination \<Rightarrow> remote_totals
   \<Rightarrow> (('s, 'r) cstate, remote_totals) prog" where
  "clean_destination set_order ro now pl dst tot =
     (if \<not> dst_enabled dst then returnS tot
      else case effective_remote_retention_policy_id (rm_target pl) dst of
        None \<Rightarrow> returnS tot
      | Some k \<Rightarrow>
          (case find (\<lambda>x. rrp_pk x = k) (rm_policies pl) of
             None \<Rightarrow> raiseS (RemoteRetentionCleanupError ''The effective remote retention profile no longer exists.'')
           | Some policy \<Rightarrow>
               bindS (readS (\<lambda>_. build_retention_plan (settings_from_remote_policy policy)
                        (map revision_candidate_of (remote_candidates pl dst)) [] (Aware now))) (\<lambda>plan.
               expire_revisions ro now dst (rm_replicas pl) (set_order (dropped_ids (revision_decisions plan)))
                 (tot\<lparr>rt_configured := rt_configured tot + 1\<rparr>))))"

fun clean_destinations ::
  "(int list \<Rightarrow> int list) \<Rightarrow> 'r remote_ops \<Rightarrow> int \<Rightarrow> remote_plan \<Rightarrow> backup_destination list \<Rightarrow> remote_totals
   \<Rightarrow> (('s, 'r) cstate, remote_totals) prog" where
  "clean_destinations set_order ro now pl [] tot = returnS tot"
| "clean_destinations set_order ro now pl (dst # dsts) tot =
     bindS (clean_destination set_order ro now pl dst tot) (clean_destinations set_order ro now pl dsts)"

section \<open>Revisions that exist nowhere any more\<close>

definition exists_remotely :: "db \<Rightarrow> int \<Rightarrow> bool" where
  "exists_remotely d rid \<longleftrightarrow> list_ex (\<lambda>p. p_revision_id p = rid \<and> recorded_copy p \<and> p_remote_deleted_at p = None) (replicas d)"

definition transfer_expected :: "db \<Rightarrow> int \<Rightarrow> bool" where
  "transfer_expected d rid \<longleftrightarrow> list_ex (\<lambda>p. p_revision_id p = rid \<and> (p_status p = PPending \<or> transfer_pending p)
     \<and> p_remote_deleted_at p = None) (replicas d)"

definition metadata_revision_ids :: "remote_plan \<Rightarrow> int list \<Rightarrow> db \<Rightarrow> int list" where
  "metadata_revision_ids pl completed d = map rev_pk (filter (\<lambda>r. rev_pk r \<in> set completed
     \<and> \<not> locally_available d r \<and> \<not> exists_remotely d (rev_pk r) \<and> \<not> transfer_expected d (rev_pk r)) (rm_revisions pl))"

definition remote_cleanup_body ::
  "(int list \<Rightarrow> int list) \<Rightarrow> 'r remote_ops \<Rightarrow> int \<Rightarrow> int \<Rightarrow> (('s, 'r) cstate, remote_cleanup_summary) prog" where
  "remote_cleanup_body set_order ro tid now =
     bindS (read_cdb (plan_remote_cleanup tid)) (\<lambda>pl.
     bindS (clean_destinations set_order ro now pl (rm_destinations pl) no_totals) (\<lambda>tot.
     if rt_configured tot = 0
     then raiseS (RemoteRetentionCleanupError
            ''No enabled remote storage has an effective retention profile. Remote copies are kept indefinitely.'')
     else bindS (read_cdb (\<lambda>d. Inr (metadata_revision_ids pl (rt_completed tot) d))) (\<lambda>ids.
          bindS (write_cdb (\<lambda>d. Inr (if ids = [] then d else delete_revisions ids d))) (\<lambda>_.
          returnS \<lparr>rcs_target_id = t_pk (rm_target pl), rcs_revision_count = length (rt_completed tot),
            rcs_replica_count = rt_replicas tot, rcs_cancelled_replica_count = 0,
            rcs_deleted_file_count = rt_deleted tot, rcs_missing_file_count = rt_missing tot,
            rcs_deleted_bytes = rt_bytes tot, rcs_removed_directory_count = rt_directories tot,
            rcs_deferred_revision_count = rt_deferred tot, rcs_metadata_revision_count = length ids\<rparr>))))"

fun remote_cleanup_error :: "exn \<Rightarrow> exn" where
  "remote_cleanup_error (RemoteRetentionCleanupError msg) = RemoteRetentionCleanupError msg"
| "remote_cleanup_error (DestinationError code msg) = RemoteRetentionCleanupError
     (''Remote retention stopped safely ('' @ code @ ''). No database state was changed.'')"
| "remote_cleanup_error (DoesNotExist model) = RemoteRetentionCleanupError
     (if model = ''BackupTarget'' then ''The backup target no longer exists.''
      else ''Remote retention failed before its database state could be committed.'')"
| "remote_cleanup_error _ = RemoteRetentionCleanupError
     ''Remote retention failed before its database state could be committed.''"

definition execute_remote_retention_cleanup ::
  "(int list \<Rightarrow> int list) \<Rightarrow> 'r remote_ops \<Rightarrow> int \<Rightarrow> int \<Rightarrow> (('s, 'r) cstate, remote_cleanup_summary) prog" where
  "execute_remote_retention_cleanup set_order ro tid now =
     catchS (db_atomic (remote_cleanup_body set_order ro tid now)) (\<lambda>e. raiseS (remote_cleanup_error e))"

section \<open>What a cleanup does to the rows\<close>

text \<open>The replica table in which the rows with the keys \<open>A\<close> are tombstones.\<close>

definition expire_rows :: "int \<Rightarrow> int set \<Rightarrow> db \<Rightarrow> db" where
  "expire_rows now A d = d\<lparr>replicas := map (\<lambda>p. if p_pk p \<in> A then tombstone_row now p else p) (replicas d)\<rparr>"

lemma expire_rows_empty: "expire_rows now {} d = d"
  by (simp add: expire_rows_def)

lemma tombstone_row_columns [simp]:
  "p_pk (tombstone_row now p) = p_pk p" "p_revision_id (tombstone_row now p) = p_revision_id p"
  "p_remote_deleted_at (tombstone_row now p) = Some now"
  by (simp_all add: tombstone_row_def)

lemma save_tombstone:
  assumes "distinct (map p_pk (replicas d))" "p \<in> set (replicas d)"
  shows "save_replica (tombstone_row now p) (expire_rows now A d) = expire_rows now (insert (p_pk p) A) d"
proof -
  have "q = p" if "q \<in> set (replicas d)" "p_pk q = p_pk p" for q
    using that assms by (auto simp: distinct_map dest: inj_onD)
  then have "row_save p_pk (tombstone_row now p) (map (\<lambda>p. if p_pk p \<in> A then tombstone_row now p else p) (replicas d))
      = map (\<lambda>q. if p_pk q \<in> insert (p_pk p) A then tombstone_row now q else q) (replicas d)"
    unfolding row_save_def map_map by (intro map_cong) auto
  then show ?thesis by (simp add: save_replica_def expire_rows_def)
qed

text \<open>Expiring copies touches exactly their rows, and the local store not at all.\<close>

definition expires :: "int \<Rightarrow> db \<Rightarrow> int set \<Rightarrow> ('s, 'r) cstate \<Rightarrow> ('s, 'r) cstate \<Rightarrow> bool" where
  "expires now d B s s' \<longleftrightarrow> (\<forall>A. cs_db s = expire_rows now A d \<longrightarrow> (\<exists>C \<subseteq> B. cs_db s' = expire_rows now (A \<union> C) d))
     \<and> cs_store s' = cs_store s"

lemma expires_refl: "expires now d B s s"
  unfolding expires_def by (metis Un_empty_right empty_subsetI)

lemma expires_trans: "expires now d B s s' \<Longrightarrow> expires now d B s' s'' \<Longrightarrow> expires now d B s s''"
  unfolding expires_def by (metis Un_assoc Un_least)

lemma expires_mono: "expires now d B s s' \<Longrightarrow> B \<subseteq> B' \<Longrightarrow> expires now d B' s s'"
  unfolding expires_def by (meson subset_trans)

lemma expire_replicas_expires:
  assumes "expire_replicas ro now dst ps tot s = (Inr tot', s')" "set ps \<subseteq> set (replicas d)" "distinct (map p_pk (replicas d))"
  shows "expires now d (p_pk ` set ps) s s'"
  using assms(1,2)
proof (induction ps arbitrary: s tot)
  case (Cons p ps)
  from Cons.prems(1) obtain res w where
    rest: "expire_replicas ro now dst ps (add_result res tot)
       (s\<lparr>cs_remote := w, cs_db := save_replica (tombstone_row now p) (cs_db s)\<rparr>) = (Inr tot', s')"
    by (auto simp: prog_simps)
  let ?s1 = "s\<lparr>cs_remote := w, cs_db := save_replica (tombstone_row now p) (cs_db s)\<rparr>"
  have "cs_db ?s1 = expire_rows now (A \<union> {p_pk p}) d" if "cs_db s = expire_rows now A d" for A
    using save_tombstone [OF assms(3), of p now A] Cons.prems(2) that by simp
  then have "expires now d (p_pk ` set (p # ps)) s ?s1"
    unfolding expires_def by (intro conjI allI impI exI [of _ "{p_pk p}"]) simp_all
  moreover have "expires now d (p_pk ` set (p # ps)) ?s1 s'"
    using Cons.IH [OF rest] Cons.prems(2) by (auto intro: expires_mono)
  ultimately show ?case by (rule expires_trans)
qed (auto simp: returnS_def expires_refl)

definition expirable_ids :: "backup_destination \<Rightarrow> revision_replica list \<Rightarrow> int set \<Rightarrow> int set" where
  "expirable_ids dst ps R = p_pk ` {p \<in> set ps. p_destination_id p = dst_pk dst \<and> p_revision_id p \<in> R \<and> remote_candidate p}"

lemma expire_revisions_expires:
  assumes "expire_revisions ro now dst ps rids tot s = (Inr tot', s')" "set ps \<subseteq> set (replicas d)" "distinct (map p_pk (replicas d))"
  shows "expires now d (expirable_ids dst ps (set rids)) s s'"
  using assms(1)
proof (induction rids arbitrary: s tot)
  case (Cons rid rids)
  let ?mine = "filter (\<lambda>p. p_destination_id p = dst_pk dst \<and> p_revision_id p = rid) ps"
  let ?B = "expirable_ids dst ps (set (rid # rids))"
  have sub: "expirable_ids dst ps (set rids) \<subseteq> ?B" by (auto simp: expirable_ids_def)
  consider tot1 where "expire_revisions ro now dst ps rids tot1 s = (Inr tot', s')"
    | s1 tot1 where "expire_replicas ro now dst (filter remote_candidate ?mine) tot s = (Inr tot1, s1)"
      "expire_revisions ro now dst ps rids (tot1\<lparr>rt_completed := List.insert rid (rt_completed tot1)\<rparr>) s1 = (Inr tot', s')"
    using Cons.prems by (auto simp: Let_def prog_simps split: if_splits)
  then show ?case
  proof cases
    case 1
    from Cons.IH [OF this] sub show ?thesis by (rule expires_mono)
  next
    case 2
    have "expires now d (p_pk ` set (filter remote_candidate ?mine)) s s1"
      using expire_replicas_expires [OF 2(1) _ assms(3)] assms(2) by auto
    then have "expires now d ?B s s1" by (rule expires_mono) (auto simp: expirable_ids_def)
    with Cons.IH [OF 2(2)] sub show ?thesis by (blast intro: expires_mono expires_trans)
  qed
qed (auto simp: returnS_def expires_refl)


text \<open>
  A copy may expire only when its revision is unprotected, its destination is enabled, no transfer is
  under way, and a newer revision of the target has a copy on the same destination.
\<close>

definition newer_copy :: "db \<Rightarrow> int \<Rightarrow> int \<Rightarrow> config_revision \<Rightarrow> bool" where
  "newer_copy d tid k r \<longleftrightarrow> (\<exists>x \<in> set (revisions d). rev_target_id x = tid \<and> (rev_created r, rev_pk r) < (rev_created x, rev_pk x)
     \<and> (\<exists>q \<in> set (replicas d). p_revision_id q = rev_pk x \<and> p_destination_id q = k \<and> remote_candidate q
          \<and> p_remote_deleted_at q = None))"

definition remote_expirable :: "db \<Rightarrow> int \<Rightarrow> revision_replica \<Rightarrow> bool" where
  "remote_expirable d tid p \<longleftrightarrow> remote_candidate p \<and> destination_enabled d (p_destination_id p)
     \<and> (\<exists>r \<in> set (revisions d). rev_pk r = p_revision_id p \<and> rev_target_id r = tid \<and> \<not> rev_protected r
          \<and> newer_copy d tid (p_destination_id p) r)"

lemma plan_remote_cleanup_Inr:
  assumes "plan_remote_cleanup tid d = Inr pl"
  shows "t_pk (rm_target pl) = tid" "\<not> has_active_run d tid" "rm_replicas pl = locked_replicas d tid"
    "rm_destinations pl = locked_destinations d (locked_replicas d tid)"
    "set (rm_policies pl) \<subseteq> set (remote_policies d)"
    "rm_revisions pl = filter (\<lambda>r. rev_pk r \<in> set (map p_revision_id (rm_replicas pl))) (target_revisions d tid)"
  using assms by (auto simp: plan_remote_cleanup_def get_target_def Let_def result_simps split: if_splits dest!: row_get_Inr)

lemma remote_candidates_rows:
  assumes "plan_remote_cleanup tid d = Inr pl" "x \<in> set (remote_candidates pl dst)"
  shows "x \<in> set (revisions d)" "rev_target_id x = tid"
    "\<exists>q \<in> set (replicas d). p_revision_id q = rev_pk x \<and> p_destination_id q = dst_pk dst \<and> remote_candidate q
       \<and> p_remote_deleted_at q = None"
  using assms(2) plan_remote_cleanup_Inr [OF assms(1)]
  by (auto simp: remote_candidates_def list_ex_iff locked_replicas_def target_revisions_def)

lemma distinct_remote_candidates:
  "plan_remote_cleanup tid d = Inr pl \<Longrightarrow> distinct (map rev_pk (revisions d)) \<Longrightarrow> distinct (map rev_pk (remote_candidates pl dst))"
  by (simp add: remote_candidates_def plan_remote_cleanup_Inr target_revisions_def distinct_map_filter)

lemma clean_destination_expires:
  assumes "clean_destination set_order ro now pl dst tot s = (Inr tot', s')" "plan_remote_cleanup tid d = Inr pl"
    "dst \<in> set (rm_destinations pl)" "\<forall>xs. set (set_order xs) = set xs"
    "distinct (map p_pk (replicas d))" "distinct (map rev_pk (revisions d))"
    "\<forall>p \<in> set (remote_policies d). 0 \<le> rrp_minimum_changed_revisions p"
  shows "expires now d (p_pk ` {p \<in> set (replicas d). remote_expirable d tid p}) s s'"
proof -
  note plan = plan_remote_cleanup_Inr [OF assms(2)]
  consider "s' = s" | policy rp tot1 where "dst_enabled dst" "policy \<in> set (rm_policies pl)"
      "build_retention_plan (settings_from_remote_policy policy) (map revision_candidate_of (remote_candidates pl dst)) []
         (Aware now) = Inr rp"
      "expire_revisions ro now dst (rm_replicas pl) (set_order (dropped_ids (revision_decisions rp))) tot1 s = (Inr tot', s')"
    using assms(1) by (auto simp: clean_destination_def prog_simps split: if_splits option.splits dest!: find_SomeD)
  then show ?thesis
  proof cases
    case 1
    then show ?thesis by (simp add: expires_refl)
  next
    case 2
    have sub: "set (rm_replicas pl) \<subseteq> set (replicas d)" by (auto simp: plan locked_replicas_def)
    have min: "0 \<le> minimum_changed_revisions (settings_from_remote_policy policy)"
      using 2(2) plan(5) assms(7) by (auto simp: settings_from_remote_policy_def)
    have en: "destination_enabled d (dst_pk dst)"
      using 2(1) assms(3) by (auto simp: plan destination_enabled_def list_ex_iff locked_destinations_def)
    have "remote_expirable d tid p"
      if p: "p \<in> set (rm_replicas pl)" "p_destination_id p = dst_pk dst" "remote_candidate p"
        "p_revision_id p \<in> set (dropped_ids (revision_decisions rp))" for p
    proof -
      obtain r x where r: "r \<in> set (remote_candidates pl dst)" "rev_pk r = p_revision_id p" "\<not> rev_protected r"
        "x \<in> set (remote_candidates pl dst)" "(rev_created r, rev_pk r) < (rev_created x, rev_pk x)"
        by (rule dropped_not_mandatory [OF 2(3) distinct_remote_candidates [OF assms(2,6)] min p(4)])
      from remote_candidates_rows [OF assms(2) r(4)] r(5) have "newer_copy d tid (dst_pk dst) r"
        unfolding newer_copy_def by blast
      with remote_candidates_rows [OF assms(2) r(1)] r(2,3) p(2,3) en show ?thesis
        unfolding remote_expirable_def by auto
    qed
    then have "expirable_ids dst (rm_replicas pl) (set (set_order (dropped_ids (revision_decisions rp))))
        \<subseteq> p_pk ` {p \<in> set (replicas d). remote_expirable d tid p}"
      using sub assms(4) by (auto simp: expirable_ids_def)
    with expire_revisions_expires [OF 2(4) sub assms(5)] show ?thesis by (rule expires_mono)
  qed
qed


lemma clean_destinations_expires:
  assumes "clean_destinations set_order ro now pl dsts tot s = (Inr tot', s')" "plan_remote_cleanup tid d = Inr pl"
    "set dsts \<subseteq> set (rm_destinations pl)" "\<forall>xs. set (set_order xs) = set xs"
    "distinct (map p_pk (replicas d))" "distinct (map rev_pk (revisions d))"
    "\<forall>p \<in> set (remote_policies d). 0 \<le> rrp_minimum_changed_revisions p"
  shows "expires now d (p_pk ` {p \<in> set (replicas d). remote_expirable d tid p}) s s'"
  using assms(1,3)
proof (induction dsts arbitrary: s tot)
  case (Cons dst dsts)
  from Cons.prems(1) obtain tot1 s1 where one: "clean_destination set_order ro now pl dst tot s = (Inr tot1, s1)"
    and rest: "clean_destinations set_order ro now pl dsts tot1 s1 = (Inr tot', s')" by (auto simp: prog_simps)
  have "expires now d (p_pk ` {p \<in> set (replicas d). remote_expirable d tid p}) s s1"
    using Cons.prems(2) by (intro clean_destination_expires [OF one assms(2) _ assms(4-7)]) simp
  moreover have "expires now d (p_pk ` {p \<in> set (replicas d). remote_expirable d tid p}) s1 s'"
    using Cons.prems(2) by (intro Cons.IH [OF rest]) simp
  ultimately show ?case by (rule expires_trans)
qed (auto simp: returnS_def expires_refl)

lemma remote_cleanup_rows:
  assumes "execute_remote_retention_cleanup set_order ro tid now s = (Inr summary, s')" "\<forall>xs. set (set_order xs) = set xs"
    "distinct (map p_pk (replicas (cs_db s)))" "distinct (map rev_pk (revisions (cs_db s)))"
    "\<forall>p \<in> set (remote_policies (cs_db s)). 0 \<le> rrp_minimum_changed_revisions p"
  obtains pl completed C where "plan_remote_cleanup tid (cs_db s) = Inr pl"
    "C \<subseteq> p_pk ` {p \<in> set (replicas (cs_db s)). remote_expirable (cs_db s) tid p}"
    "cs_db s' = delete_revisions (metadata_revision_ids pl completed (expire_rows now C (cs_db s))) (expire_rows now C (cs_db s))
     \<or> cs_db s' = expire_rows now C (cs_db s)"
    "cs_store s' = cs_store s"
proof -
  from assms(1) obtain pl tot s1 where pl: "plan_remote_cleanup tid (cs_db s) = Inr pl"
    and run: "clean_destinations set_order ro now pl (rm_destinations pl) no_totals s = (Inr tot, s1)"
    and db: "cs_db s' = delete_revisions (metadata_revision_ids pl (rt_completed tot) (cs_db s1)) (cs_db s1) \<or> cs_db s' = cs_db s1"
    and st: "cs_store s' = cs_store s1"
    by (auto simp: execute_remote_retention_cleanup_def remote_cleanup_body_def prog_simps split: if_split_asm)
  have "expires now (cs_db s) (p_pk ` {p \<in> set (replicas (cs_db s)). remote_expirable (cs_db s) tid p}) s s1"
    by (rule clean_destinations_expires [OF run pl subset_refl assms(2-5)])
  moreover have "cs_db s = expire_rows now {} (cs_db s)" by (simp add: expire_rows_empty)
  ultimately obtain C where "C \<subseteq> p_pk ` {p \<in> set (replicas (cs_db s)). remote_expirable (cs_db s) tid p}"
    "cs_db s1 = expire_rows now ({} \<union> C) (cs_db s)" "cs_store s1 = cs_store s"
    unfolding expires_def by blast
  then show thesis using pl db st by (intro that [of pl C "rt_completed tot"]) auto
qed

lemma expire_rows_tables [simp]:
  "revisions (expire_rows now C d) = revisions d" "artifacts (expire_rows now C d) = artifacts d"
  by (simp_all add: expire_rows_def)

lemma metadata_ids_unneeded:
  assumes "k \<in> set (metadata_revision_ids pl completed d)"
  shows "\<not> list_ex (\<lambda>a. a_revision_id a = k \<and> a_local_available a) (artifacts d)" "\<not> exists_remotely d k"
  using assms by (auto simp: metadata_revision_ids_def locally_available_def)


definition sample_remote_policy :: remote_retention_policy where
  "sample_remote_policy = \<lparr>rrp_pk = 3, rrp_keep_all_days = 1, rrp_daily_days = 0, rrp_weekly_weeks = 0,
     rrp_monthly_months = 0, rrp_minimum_changed_revisions = 1, rrp_max_copies_per_target = 0\<rparr>"

definition sample_copy :: "int \<Rightarrow> int \<Rightarrow> string \<Rightarrow> revision_replica" where
  "sample_copy k rid path = (sample_replica k rid PSuccess)\<lparr>p_remote_path := path, p_remote_available := True\<rparr>"

definition sample_remote_state :: "(local_fs, string list) cstate" where
  "sample_remote_state = sample_shared_state\<lparr>cs_db := empty_db\<lparr>targets := [sample_target],
       revisions := [sample_revision 1 None, sample_revision 2 (Some 1)], artifacts := [sample_artifact 32 2],
       replicas := [sample_copy 7 1 ''/backups/u1'', sample_copy 8 2 ''/backups/u2''],
       destinations := [sample_destination\<lparr>dst_remote_retention_policy := Some sample_remote_policy\<rparr>],
       remote_policies := [sample_remote_policy]\<rparr>, cs_remote := [''/backups/u1'', ''/backups/u2'']\<rparr>"


text \<open>
  The remote cleanup deletes rows without relinking the chain, unlike the two other services that
  delete revisions. Starting from a target with a protected first revision, a second one that exists
  only remotely, and two newer ones, the deletion of the third links the newest to the second; when the
  copy of the second expires, the newest revision has no predecessor any more although the first exists.
\<close>

definition chain_gap_state :: "(local_fs, string list) cstate" where
  "chain_gap_state = sample_remote_state\<lparr>cs_db := (cs_db sample_remote_state)\<lparr>
       revisions := [(sample_revision 1 None)\<lparr>rev_protected := True\<rparr>, sample_revision 2 (Some 1),
                     sample_revision 3 (Some 1), sample_revision 4 (Some 3)],
       artifacts := [sample_artifact 31 1, (sample_artifact 32 2)\<lparr>a_local_available := False\<rparr>,
                     sample_artifact 33 3, sample_artifact 34 4],
       replicas := [sample_copy 7 2 ''/backups/u2'', sample_copy 8 4 ''/backups/u4'']\<rparr>\<rparr>"

definition chain_gap_run :: "((local_fs, string list) cstate, unit) prog" where
  "chain_gap_run =
     bindS (delete_config_revision_everywhere sample_runtime LocalConfigStorage listing_remote ''d'' 3) (\<lambda>_.
     bindS (execute_remote_retention_cleanup (\<lambda>xs. xs) listing_remote 1 (1000 * day_us)) (\<lambda>_. returnS ()))"

theorem remote_cleanup_breaks_chain:
  "fst (chain_gap_run chain_gap_state) = Inr ()"
  "map (\<lambda>r. (rev_pk r, rev_previous_revision r)) (revisions (cs_db (snd (chain_gap_run chain_gap_state)))) = [(1, None), (4, None)]"
  by code_simp+

end
