(* ===== verification/Retention_Dispatch.thy ===== *)
theory Retention_Dispatch
  imports Remote_Retention
begin

text \<open>
  The periodic dispatchers other than the backup dispatcher: \<open>services/retention_dispatcher.py\<close> and
  \<open>services/remote_retention_dispatcher.py\<close> queue cleanup jobs for targets with expired history,
  \<open>services/ftp_audit_dispatcher.py\<close> queues integrity audits of destinations. Each candidate is handled
  in a transaction of its own.
\<close>

section \<open>Shared parts\<close>

text \<open>Jobs of NetBox are found by their object and name; the names of the two object types are disjoint.\<close>

definition job_active :: "string list \<Rightarrow> int \<Rightarrow> db \<Rightarrow> bool" where
  "job_active names k d \<longleftrightarrow>
     list_ex (\<lambda>j. j_object_id j = Some k \<and> j_name j \<in> set names \<and> enqueued_state (j_status j)) (jobs d)"

datatype retention_outcome = TActiveBackup | TActiveCleanup | TNotExpired | TQueued | TConflict

record retention_dispatch_summary =
  rtd_considered :: int
  rtd_expired :: int
  rtd_queued :: int
  rtd_skipped_active_backup :: int
  rtd_skipped_active_cleanup :: int
  rtd_conflicts :: int

definition empty_dispatch :: retention_dispatch_summary where
  "empty_dispatch = \<lparr>rtd_considered = 0, rtd_expired = 0, rtd_queued = 0, rtd_skipped_active_backup = 0,
     rtd_skipped_active_cleanup = 0, rtd_conflicts = 0\<rparr>"

fun count_outcome :: "retention_outcome \<Rightarrow> retention_dispatch_summary \<Rightarrow> retention_dispatch_summary" where
  "count_outcome TActiveBackup s = s\<lparr>rtd_skipped_active_backup := rtd_skipped_active_backup s + 1\<rparr>"
| "count_outcome TActiveCleanup s = s\<lparr>rtd_skipped_active_cleanup := rtd_skipped_active_cleanup s + 1\<rparr>"
| "count_outcome TNotExpired s = s"
| "count_outcome TQueued s = s\<lparr>rtd_expired := rtd_expired s + 1, rtd_queued := rtd_queued s + 1\<rparr>"
| "count_outcome TConflict s = s\<lparr>rtd_conflicts := rtd_conflicts s + 1\<rparr>"

text \<open>The loop over the candidates: it stops once \<open>limit\<close> jobs have been queued.\<close>

fun dispatch_loop ::
  "(int \<Rightarrow> db \<Rightarrow> (retention_outcome \<times> db) result) \<Rightarrow> int \<Rightarrow> int list \<Rightarrow> retention_dispatch_summary
   \<Rightarrow> (db, retention_dispatch_summary) prog" where
  "dispatch_loop step limit [] s = returnS s"
| "dispatch_loop step limit (tid # tids) s =
     (if limit \<le> rtd_queued s then returnS s
      else bindS (catchS (atomic (step tid)) (\<lambda>e. if is_integrity_error e then returnS TConflict else raiseS e)) (\<lambda>outcome.
           dispatch_loop step limit tids (count_outcome outcome (s\<lparr>rtd_considered := rtd_considered s + 1\<rparr>))))"

section \<open>Local retention\<close>

definition cleanup_job_name :: string where
  "cleanup_job_name = ''Config backup retention cleanup''"

definition first_local_storage :: "db \<Rightarrow> backup_destination option" where
  "first_local_storage d = find (\<lambda>x. dst_protocol x = PLocal \<and> dst_is_default x) (destinations d)"

definition retention_candidate_ids :: "backup_destination option \<Rightarrow> db \<Rightarrow> int list" where
  "retention_candidate_ids storage d =
     (let all = (case storage of None \<Rightarrow> False | Some s \<Rightarrow> dst_local_retention_policy s \<noteq> None)
      in sort (map t_pk (filter (\<lambda>t. all \<or> t_retention_override t \<noteq> None \<or> t_policy_override t \<noteq> None) (targets d))))"

definition dispatch_retention_target ::
  "int \<Rightarrow> backup_destination option \<Rightarrow> int \<Rightarrow> db \<Rightarrow> (retention_outcome \<times> db) result" where
  "dispatch_retention_target now storage tid d =
     bindE (get_target d tid) (\<lambda>t.
     if has_active_run d (t_pk t) then Inr (TActiveBackup, d)
     else if job_active [cleanup_job_name] (t_pk t) d then Inr (TActiveCleanup, d)
     else case (case storage of Some s \<Rightarrow> effective_local_retention_policy t s
                | None \<Rightarrow> effective_retention_policy t None) of
       None \<Rightarrow> Inr (TNotExpired, d)
     | Some policy \<Rightarrow>
         bindE (build_retention_plan (settings_from_policy policy)
                  (map revision_candidate_of (filter (locally_available d) (target_revisions d (t_pk t))))
                  (map run_candidate_of (target_runs d (t_pk t))) (Aware now)) (\<lambda>plan.
         if revisions_to_delete plan = 0 \<and> runs_to_delete plan = 0 then Inr (TNotExpired, d)
         else Inr (TQueued, snd (enqueue_job cleanup_job_name (Some (t_pk t)) d))))"

definition dispatch_expired_targets :: "int \<Rightarrow> int \<Rightarrow> (db, retention_dispatch_summary) prog" where
  "dispatch_expired_targets now limit =
     (if limit \<le> 0 then raiseS (ValueError ''Retention dispatcher limit must be positive.'')
      else bindS (readS (\<lambda>d. Inr (first_local_storage d))) (\<lambda>storage.
           bindS (readS (\<lambda>d. Inr (retention_candidate_ids storage d))) (\<lambda>ids.
           dispatch_loop (dispatch_retention_target now storage) limit ids empty_dispatch)))"

section \<open>Remote retention\<close>

definition remote_cleanup_job_names :: "string list" where
  "remote_cleanup_job_names = [''Config backup remote retention cleanup'', ''Config backup FTP retention cleanup'']"

definition remote_candidate_ids :: "db \<Rightarrow> int list" where
  "remote_candidate_ids d =
     sort (map t_pk (filter (\<lambda>t. t_remote_retention_policy t \<noteq> None
       \<or> list_ex (\<lambda>p. p_revision_id p \<in> set (target_revision_ids d (t_pk t))
            \<and> list_ex (\<lambda>x. dst_pk x = p_destination_id p \<and> replicated_protocol (dst_protocol x) \<and> dst_enabled x
                         \<and> dst_remote_retention_policy x \<noteq> None) (destinations d)) (replicas d)) (targets d)))"

definition live_replica :: "db \<Rightarrow> int \<Rightarrow> backup_destination \<Rightarrow> revision_replica \<Rightarrow> bool" where
  "live_replica d tid x p \<longleftrightarrow> p_destination_id p = dst_pk x \<and> p_revision_id p \<in> set (target_revision_ids d tid)
     \<and> p_remote_deleted_at p = None"

definition remote_expired_on :: "int \<Rightarrow> backup_target \<Rightarrow> db \<Rightarrow> backup_destination \<Rightarrow> bool result" where
  "remote_expired_on now t d x =
     (case effective_remote_retention_policy t x of
        None \<Rightarrow> Inr False
      | Some policy \<Rightarrow>
          bindE (build_retention_plan (settings_from_remote_policy policy)
                   (map revision_candidate_of (filter (\<lambda>r. list_ex (\<lambda>p. p_revision_id p = rev_pk r
                        \<and> live_replica d (t_pk t) x p \<and> remote_candidate p) (replicas d)) (target_revisions d (t_pk t))))
                   [] (Aware now)) (\<lambda>plan. Inr (revisions_to_delete plan \<noteq> 0)))"

fun any_expired :: "int \<Rightarrow> backup_target \<Rightarrow> db \<Rightarrow> backup_destination list \<Rightarrow> bool result" where
  "any_expired now t d [] = Inr False"
| "any_expired now t d (x # xs) =
     bindE (remote_expired_on now t d x) (\<lambda>b. if b then Inr True else any_expired now t d xs)"

definition dispatch_remote_target :: "int \<Rightarrow> int \<Rightarrow> db \<Rightarrow> (retention_outcome \<times> db) result" where
  "dispatch_remote_target now tid d =
     bindE (get_target d tid) (\<lambda>t.
     if has_active_run d (t_pk t) then Inr (TActiveBackup, d)
     else if job_active remote_cleanup_job_names (t_pk t) d then Inr (TActiveCleanup, d)
     else bindE (any_expired now t d (filter (\<lambda>x. replicated_protocol (dst_protocol x) \<and> dst_enabled x
                   \<and> list_ex (live_replica d (t_pk t) x) (replicas d)) (destinations d))) (\<lambda>expired.
          if \<not> expired then Inr (TNotExpired, d)
          else Inr (TQueued, snd (enqueue_job ''Config backup remote retention cleanup'' (Some (t_pk t)) d))))"

definition dispatch_expired_remote_targets :: "int \<Rightarrow> int \<Rightarrow> (db, retention_dispatch_summary) prog" where
  "dispatch_expired_remote_targets now limit =
     (if limit \<le> 0 then raiseS (ValueError ''Remote retention dispatcher limit must be positive.'')
      else bindS (readS (\<lambda>d. Inr (remote_candidate_ids d))) (\<lambda>ids.
           dispatch_loop (dispatch_remote_target now) limit ids empty_dispatch))"

section \<open>Integrity audits\<close>

definition audit_job_names :: "string list" where
  "audit_job_names = [''Config backup remote integrity audit'', ''Config backup FTP integrity audit'']"

record audit_dispatch_summary =
  ads_initialized :: nat
  ads_due :: nat
  ads_queued :: nat
  ads_skipped_active :: nat
  ads_conflicts :: nat

definition audit_active :: "backup_destination \<Rightarrow> bool" where
  "audit_active x \<longleftrightarrow> dst_enabled x \<and> dst_audit_enabled x \<and> replicated_protocol (dst_protocol x)"

definition initialize_audit :: "env \<Rightarrow> string \<Rightarrow> int \<Rightarrow> backup_destination \<Rightarrow> (db, unit) prog" where
  "initialize_audit e tz now x =
     bindS (readS (\<lambda>_. calculate_destination_next_ftp_audit e x (Aware now) tz)) (\<lambda>next.
     atomic (\<lambda>d. Inr ((), save_destination (x\<lparr>dst_next_audit_at := next\<rparr>) d)))"

definition initialize_ftp_audit_schedules :: "env \<Rightarrow> string \<Rightarrow> int \<Rightarrow> (db, nat) prog" where
  "initialize_ftp_audit_schedules e tz now =
     bindS (atomic (\<lambda>d. Inr ((), d\<lparr>destinations := map (\<lambda>x. if audit_active x then x else x\<lparr>dst_next_audit_at := None\<rparr>)
                                     (destinations d)\<rparr>))) (\<lambda>_.
     bindS (readS (\<lambda>d. Inr (filter (\<lambda>x. audit_active x \<and> dst_next_audit_at x = None) (destinations d)))) (\<lambda>xs.
     bindS (forS (initialize_audit e tz now) xs) (\<lambda>_. returnS (length xs))))"

datatype audit_outcome = ANotDue | AActive | AQueued | AConflict

definition audit_due :: "int \<Rightarrow> backup_destination \<Rightarrow> bool" where
  "audit_due now x \<longleftrightarrow> audit_active x \<and> (case dst_next_audit_at x of None \<Rightarrow> False | Some t \<Rightarrow> t \<le> now)"

definition due_audit_ids :: "int \<Rightarrow> int \<Rightarrow> db \<Rightarrow> int list" where
  "due_audit_ids now limit d = take (nat limit) (map dst_pk
     (sort_key (\<lambda>x. (the (dst_next_audit_at x), dst_pk x)) (filter (audit_due now) (destinations d))))"

definition dispatch_audit :: "env \<Rightarrow> string \<Rightarrow> int \<Rightarrow> int \<Rightarrow> db \<Rightarrow> (audit_outcome \<times> db) result" where
  "dispatch_audit e tz now k d =
     bindE (get_destination d k) (\<lambda>x.
     if \<not> audit_due now x then Inr (ANotDue, d)
     else bindE (calculate_next_ftp_audit e x (Aware (the (dst_next_audit_at x))) (Some (Aware now)) tz) (\<lambda>next.
          let d1 = save_destination (x\<lparr>dst_next_audit_at := Some next\<rparr>) d in
          if job_active audit_job_names (dst_pk x) d1 then Inr (AActive, d1)
          else Inr (AQueued, snd (enqueue_job ''Config backup remote integrity audit'' (Some (dst_pk x)) d1))))"

definition audit_candidate_step :: "env \<Rightarrow> string \<Rightarrow> int \<Rightarrow> int \<Rightarrow> (db, audit_outcome) prog" where
  "audit_candidate_step e tz now k =
     catchS (atomic (dispatch_audit e tz now k)) (\<lambda>e. if is_integrity_error e then returnS AConflict else raiseS e)"

definition dispatch_due_ftp_audits :: "env \<Rightarrow> string \<Rightarrow> int \<Rightarrow> int \<Rightarrow> (db, audit_dispatch_summary) prog" where
  "dispatch_due_ftp_audits e tz now limit =
     (if limit \<le> 0 then raiseS (ValueError ''Remote audit dispatcher limit must be positive.'')
      else bindS (initialize_ftp_audit_schedules e tz now) (\<lambda>n.
           bindS (readS (\<lambda>d. Inr (due_audit_ids now limit d))) (\<lambda>ids.
           bindS (mapS (audit_candidate_step e tz now) ids) (\<lambda>os.
           returnS \<lparr>ads_initialized = n, ads_due = length ids,
             ads_queued = length (filter (\<lambda>x. x = AQueued) os),
             ads_skipped_active = length (filter (\<lambda>x. x = AActive) os),
             ads_conflicts = length (filter (\<lambda>x. x = AConflict) os)\<rparr>))))"

section \<open>The dispatcher and the cleanup plan the same\<close>

lemma length_dropped: "length ds - length (filter rd_keep ds) = length (dropped_ids ds)"
  using sum_length_filter_compl [of rd_keep ds] by (simp add: dropped_ids_def)

lemma find_filter_single: "filter P xs = [x] \<Longrightarrow> find P xs = Some x"
  by (induction xs) (auto split: if_splits)

lemma default_local_first: "default_local_storage d = Inr st \<Longrightarrow> first_local_storage d = Some st"
  unfolding first_local_storage_def
  by (rule find_filter_single) (auto simp: default_local_storage_def split: list.splits)



section \<open>One job at a time\<close>

definition active_jobs :: "string list \<Rightarrow> int \<Rightarrow> db \<Rightarrow> job list" where
  "active_jobs names k d = filter (\<lambda>j. j_object_id j = Some k \<and> j_name j \<in> set names \<and> enqueued_state (j_status j)) (jobs d)"

definition one_job_each :: "db \<Rightarrow> bool" where
  "one_job_each d \<longleftrightarrow> (\<forall>k. length (active_jobs [cleanup_job_name] k d) \<le> 1
     \<and> length (active_jobs remote_cleanup_job_names k d) \<le> 1 \<and> length (active_jobs audit_job_names k d) \<le> 1)"

lemmas job_name_defs = cleanup_job_name_def remote_cleanup_job_names_def audit_job_names_def

lemma job_active_iff: "job_active names k d \<longleftrightarrow> active_jobs names k d \<noteq> []"
  by (auto simp: job_active_def active_jobs_def list_ex_iff filter_empty_conv)

lemma active_jobs_enqueue:
  "active_jobs names k (snd (enqueue_job name (Some i) d)) =
     active_jobs names k d @ (if k = i \<and> name \<in> set names
       then [\<lparr>j_id = next_id d, j_name = name, j_object_id = Some i, j_status = JPending, j_data = []\<rparr>] else [])"
  by (auto simp: active_jobs_def enqueue_job_def enqueued_state_def)

lemma one_job_each_same: "jobs d' = jobs d \<Longrightarrow> one_job_each d \<Longrightarrow> one_job_each d'"
  unfolding one_job_each_def active_jobs_def by simp

interpretation job_steps: step_relation "\<lambda>d d'. one_job_each d \<longrightarrow> one_job_each d'"
  by unfold_locales auto

lemma dispatch_retention_target_one:
  assumes "dispatch_retention_target now st tid d = Inr (o', d')" "one_job_each d"
  shows "one_job_each d'"
proof -
  from assms(1) have "d' = d \<or> (\<exists>k. \<not> job_active [cleanup_job_name] k d \<and> d' = snd (enqueue_job cleanup_job_name (Some k) d))"
    by (auto simp: dispatch_retention_target_def result_simps split: if_splits option.splits)
  with assms(2) show ?thesis
    by (auto simp: one_job_each_def active_jobs_enqueue job_active_iff job_name_defs)
qed

lemma dispatch_remote_target_one:
  assumes "dispatch_remote_target now tid d = Inr (o', d')" "one_job_each d"
  shows "one_job_each d'"
proof -
  from assms(1) have "d' = d \<or> (\<exists>k. \<not> job_active remote_cleanup_job_names k d
      \<and> d' = snd (enqueue_job ''Config backup remote retention cleanup'' (Some k) d))"
    by (auto simp: dispatch_remote_target_def result_simps split: if_splits)
  with assms(2) show ?thesis
    by (auto simp: one_job_each_def active_jobs_enqueue job_active_iff job_name_defs)
qed

lemma dispatch_audit_one:
  assumes "dispatch_audit e tz now k d = Inr (o', d')" "one_job_each d"
  shows "one_job_each d'"
proof -
  from assms(1) obtain x where x: "get_destination d k = Inr x" by (auto simp: dispatch_audit_def result_simps)
  have "jobs d' = jobs d \<or> (\<exists>i n. \<not> job_active audit_job_names i (save_destination n d)
      \<and> d' = snd (enqueue_job ''Config backup remote integrity audit'' (Some i) (save_destination n d)))"
    using assms(1) x by (auto simp: dispatch_audit_def Let_def result_simps save_destination_def split: if_split_asm)
  then show ?thesis
  proof (elim disjE exE conjE)
    fix i n
    assume a: "\<not> job_active audit_job_names i (save_destination n d)"
      "d' = snd (enqueue_job ''Config backup remote integrity audit'' (Some i) (save_destination n d))"
    have "one_job_each (save_destination n d)" by (rule one_job_each_same [OF _ assms(2)]) (simp add: save_destination_def)
    with a show ?thesis by (auto simp: one_job_each_def active_jobs_enqueue job_active_iff job_name_defs)
  qed (rule one_job_each_same [OF _ assms(2)])
qed

lemma dispatch_loop_one:
  assumes "\<And>tid d o' d'. step tid d = Inr (o', d') \<Longrightarrow> one_job_each d \<Longrightarrow> one_job_each d'"
  shows "within (\<lambda>d d'. one_job_each d \<longrightarrow> one_job_each d') (dispatch_loop step limit tids s)"
proof -
  have a: "within (\<lambda>d d'. one_job_each d \<longrightarrow> one_job_each d') (atomic (step tid))" for tid
    by (rule within_atomic) (auto dest: assms)
  show ?thesis
    by (induction tids arbitrary: s) (auto intro!: job_steps.within_intros a)
qed

lemma mapS_within:
  assumes "step_relation R" "\<And>x. within R (f x)"
  shows "within R (mapS f xs)"
  by (induction xs) (auto intro!: step_relation.within_returnS step_relation.within_bindS assms)

lemma dispatch_due_ftp_audits_one: "within (\<lambda>d d'. one_job_each d \<longrightarrow> one_job_each d') (dispatch_due_ftp_audits e tz now limit)"
proof -
  let ?R = "\<lambda>d d'. one_job_each d \<longrightarrow> one_job_each d'"
  have same: "within ?R (atomic f)" if "\<And>d x d'. f d = Inr (x, d') \<Longrightarrow> jobs d' = jobs d" for f :: "db \<Rightarrow> ('a \<times> db) result"
    by (rule within_atomic) (auto intro: one_job_each_same dest: that)
  have a: "within ?R (audit_candidate_step e tz now k)" for k
    unfolding audit_candidate_step_def
    by (intro job_steps.within_catchS within_atomic) (auto dest: dispatch_audit_one intro: job_steps.within_intros)
  show ?thesis
    unfolding dispatch_due_ftp_audits_def initialize_ftp_audit_schedules_def initialize_audit_def
    by (auto intro!: job_steps.within_intros mapS_within same a simp: save_destination_def job_steps.step_relation_axioms)
qed

text \<open>
  C35. The periodic dispatchers never queue a job twice: while a cleanup of a target, a remote cleanup of a
  target or an audit of a destination waits or runs, no second job of that kind for that object is
  queued, by any of the three dispatchers.
\<close>

theorem dispatchers_queue_once:
  assumes "dispatch_expired_targets now limit d = (r, d') \<or> dispatch_expired_remote_targets now limit d = (r, d')
      \<or> dispatch_due_ftp_audits e tz now limit d = (q, d')" "one_job_each d"
  shows "one_job_each d'"
proof -
  have "within (\<lambda>d d'. one_job_each d \<longrightarrow> one_job_each d') (dispatch_expired_targets now limit)"
    unfolding dispatch_expired_targets_def
    by (auto intro!: job_steps.within_intros dispatch_loop_one dest: dispatch_retention_target_one)
  moreover have "within (\<lambda>d d'. one_job_each d \<longrightarrow> one_job_each d') (dispatch_expired_remote_targets now limit)"
    unfolding dispatch_expired_remote_targets_def
    by (auto intro!: job_steps.within_intros dispatch_loop_one dest: dispatch_remote_target_one)
  ultimately show ?thesis using assms dispatch_due_ftp_audits_one by (blast dest: withinD)
qed

theorem dispatchers_queue_once_witness:
  "\<exists>r d'. dispatch_expired_targets (1000 * day_us) 25 (cs_db sample_cleanup_state) = (Inr r, d')
     \<and> rtd_queued r = 1 \<and> one_job_each d'"
proof -
  let ?d = "cs_db sample_cleanup_state"
  let ?x = "dispatch_expired_targets (1000 * day_us) 25 ?d"
  have "case fst ?x of Inl e \<Rightarrow> False | Inr r \<Rightarrow> rtd_queued r = 1" by code_simp
  then obtain r d' where x: "?x = (Inr r, d')" "rtd_queued r = 1" by (cases "fst ?x") (auto simp: prod_eq_iff)
  have "one_job_each ?d" by (simp add: one_job_each_def active_jobs_def sample_cleanup_state_def sample_db_def empty_db_def)
  from dispatchers_queue_once [OF disjI1 [OF x(1)] this] x show ?thesis by blast
qed

section \<open>Audits move on\<close>

lemma audit_within_week:
  assumes "0 \<le> dst_audit_weekday x" "dst_audit_weekday x < 7" "0 \<le> dst_audit_time x" "dst_audit_time x < day_us"
    "zone_of e tz = Inr (fixed_zone off)" "calculate_next_ftp_audit e x (Aware after) (Some (Aware ref)) tz = Inr r"
  shows "ref < r \<and> r \<le> ref + 7 * day_us"
proof -
  define w where "w = ref + off"
  have w: "(utc_date w - 1) * day_us \<le> w" "w < utc_date w * day_us" using utc_date_bounds [of w] by simp_all
  show ?thesis
  proof (cases "dst_audit_frequency x = ''daily''")
    case True
    with assms(5,6) obtain c where c: "audit_candidate (utc_date w) (dst_audit_time x) w 1 = Inr c" and r: "r = c - off"
      by (auto simp: calculate_next_ftp_audit_def Let_def result_simps to_wall_def wall_to_utc_def fixed_zone_def w_def)
    from audit_candidate_Inr(1,2) [OF c assms(3,4)] w show ?thesis by (simp add: r w_def day_us_def)
  next
    case False
    define a where "a = (dst_audit_weekday x - weekday (utc_date w)) mod 7"
    have a: "0 \<le> a" "a < 7" by (simp_all add: a_def)
    from False assms(5,6) obtain c where c: "audit_candidate (utc_date w + a) (dst_audit_time x) w 7 = Inr c" and r: "r = c - off"
      by (auto simp: calculate_next_ftp_audit_def Let_def result_simps to_wall_def wall_to_utc_def fixed_zone_def w_def a_def split: if_splits)
    have "w < (utc_date w + a) * day_us" "(utc_date w + a - 7) * day_us \<le> w"
      using w a by (simp_all add: day_us_def algebra_simps)
    from audit_candidate_Inr(1,2) [OF c assms(3,4) _ this] show ?thesis by (simp add: r w_def)
  qed
qed

text \<open>
  A due audit is dispatched and moves on. When the dispatcher handles a destination whose audit is
  due, in a time zone without transitions, it queues a job unless one is waiting or running, and the
  next audit lies strictly in the future and at most a week away, so the same tick or the next one does
  not dispatch it again.
\<close>

theorem due_audit_advances:
  assumes "get_destination d k = Inr x" "audit_due now x" "dispatch_audit e tz now k d = Inr (outcome, d')"
    "0 \<le> dst_audit_weekday x" "dst_audit_weekday x < 7" "0 \<le> dst_audit_time x" "dst_audit_time x < day_us"
    "zone_of e tz = Inr (fixed_zone off)"
  shows "\<exists>x' n. get_destination d' k = Inr x' \<and> dst_next_audit_at x' = Some n \<and> now < n \<and> n \<le> now + 7 * day_us
    \<and> \<not> audit_due now x' \<and> job_active audit_job_names k d'
    \<and> length (jobs d') = length (jobs d) + (if job_active audit_job_names k d then 0 else 1)"
proof -
  have pk: "dst_pk x = k" using assms(1) unfolding get_destination_def by (blast dest: row_get_Inr)
  from assms(1-3) obtain n where
    n: "calculate_next_ftp_audit e x (Aware (the (dst_next_audit_at x))) (Some (Aware now)) tz = Inr n"
    and d': "d' = (let d1 = save_destination (x\<lparr>dst_next_audit_at := Some n\<rparr>) d in
       if job_active audit_job_names k d1 then d1 else snd (enqueue_job ''Config backup remote integrity audit'' (Some k) d1))"
    by (auto simp: dispatch_audit_def Let_def result_simps pk split: if_splits)
  let ?x = "x\<lparr>dst_next_audit_at := Some n\<rparr>"
  have b: "now < n \<and> n \<le> now + 7 * day_us" by (rule audit_within_week [OF assms(4-8) n])
  have same: "job_active audit_job_names k (save_destination ?x d) = job_active audit_job_names k d"
    "jobs (save_destination ?x d) = jobs d" by (simp_all add: job_active_def save_destination_def)
  have g: "get_destination (save_destination ?x d) k = Inr ?x"
    using assms(1) pk by (simp add: get_destination_def save_destination_def row_get_row_save_same)
  have "get_destination d' k = Inr ?x" "job_active audit_job_names k d'"
    "length (jobs d') = length (jobs d) + (if job_active audit_job_names k d then 0 else 1)"
    using g by (auto simp: d' Let_def same get_destination_def enqueue_job_def job_active_def audit_job_names_def enqueued_state_def)
  with b show ?thesis by (intro exI [of _ ?x] exI [of _ n]) (simp add: audit_due_def)
qed

definition sample_audit_db :: db where
  "sample_audit_db = empty_db\<lparr>destinations := [sample_destination\<lparr>dst_next_audit_at := Some 0\<rparr>]\<rparr>"

theorem due_audit_advances_witness:
  "\<exists>outcome d' x' n. dispatch_audit sample_env [] (1000 * day_us) 1 sample_audit_db = Inr (outcome, d')
     \<and> get_destination d' 1 = Inr x' \<and> dst_next_audit_at x' = Some n \<and> 1000 * day_us < n"
proof -
  let ?x = "sample_destination\<lparr>dst_next_audit_at := Some 0\<rparr>"
  have g: "get_destination sample_audit_db 1 = Inr ?x"
    by (simp add: get_destination_def row_get_def sample_audit_db_def sample_destination_def)
  have due: "audit_due (1000 * day_us) ?x" by code_simp
  have "case dispatch_audit sample_env [] (1000 * day_us) 1 sample_audit_db of Inl e \<Rightarrow> False | Inr _ \<Rightarrow> True" by code_simp
  then obtain y where "dispatch_audit sample_env [] (1000 * day_us) 1 sample_audit_db = Inr y" by (auto split: sum.splits)
  then obtain outcome d' where r: "dispatch_audit sample_env [] (1000 * day_us) 1 sample_audit_db = Inr (outcome, d')" by (cases y) auto
  have z: "zone_of sample_env [] = Inr (fixed_zone 0)" by (simp add: zone_of_def sample_env_def utc_zone_def fixed_zone_def)
  have c: "0 \<le> dst_audit_weekday ?x" "dst_audit_weekday ?x < 7" "0 \<le> dst_audit_time ?x" "dst_audit_time ?x < day_us" by code_simp+
  from due_audit_advances [OF g due r c z] r show ?thesis by blast
qed

end
