(* ===== verification/Host_Keys.thy ===== *)
theory Host_Keys
  imports Dispatcher
begin

text \<open>
  \<open>services/ssh_host_keys.py\<close>: the SSH identities of devices. A scan stores the key a device presents as
  a candidate; an administrator approves or rejects candidates, and a connection profile may trust the
  first key of an endpoint automatically. What the network answers is a parameter.
\<close>

section \<open>Scanning\<close>

text \<open>How the two scanners end: a key with its type, no key, or one of the exceptions the code tells apart.\<close>

datatype probe =
    ProbeKey string string
  | ProbeNoKey
  | ProbeRefused
  | ProbeTimeout
  | ProbeSSHException
  | ProbeOSError

datatype legacy_probe =
    LegacyKey string
  | LegacyNoKey
  | LegacyTimeout
  | LegacyError

record probe_env =
  pe_probe :: "string \<Rightarrow> int \<Rightarrow> int \<Rightarrow> probe"
  pe_legacy :: "string \<Rightarrow> int \<Rightarrow> int \<Rightarrow> legacy_probe"
  pe_b64decode :: "string \<Rightarrow> string option"
  pe_sha256_b64 :: "string \<Rightarrow> string"
  pe_md5 :: "string \<Rightarrow> int list"

record scanned_host_key =
  sk_candidate_id :: int
  sk_address :: string
  sk_port :: int
  sk_key_type :: string
  sk_fingerprint_sha256 :: string
  sk_fingerprint_md5 :: string
  sk_status :: host_key_status

definition hex_byte :: "int \<Rightarrow> string" where
  "hex_byte n = [hex_digit (n div 16), hex_digit n]"

definition fingerprints :: "probe_env \<Rightarrow> string \<Rightarrow> (string \<times> string) result" where
  "fingerprints e public_key =
     (case pe_b64decode e public_key of
        None \<Rightarrow> Inl (DriverError ''HOST_KEY_SCAN_FAILED'' ''The device presented an invalid SSH key.'')
      | Some raw \<Rightarrow> Inr (''SHA256:'' @ rstrip (\<lambda>c. c = CHR ''='') (pe_sha256_b64 e raw),
                        ''MD5:'' @ join_with '':'' (map hex_byte (pe_md5 e raw))))"

text \<open>\<open>str.split()\<close> on the ASCII text of an exported key.\<close>

fun split_ws_aux :: "string \<Rightarrow> string \<Rightarrow> string list" where
  "split_ws_aux acc [] = (if acc = [] then [] else [rev acc])"
| "split_ws_aux acc (c # cs) =
     (if ascii_space c then (if acc = [] then split_ws_aux [] cs else rev acc # split_ws_aux [] cs)
      else split_ws_aux (c # acc) cs)"

definition scan_legacy_host_key :: "probe_env \<Rightarrow> string \<Rightarrow> int \<Rightarrow> int \<Rightarrow> (string \<times> string) result" where
  "scan_legacy_host_key e address port timeout =
     (case pe_legacy e address port timeout of
        LegacyNoKey \<Rightarrow> Inl (DriverError ''HOST_KEY_SCAN_FAILED'' ''The device did not present an SSH host key.'')
      | LegacyKey text \<Rightarrow>
          (case split_ws_aux [] text of
             ty # key # _ \<Rightarrow> Inr (ty, key)
           | _ \<Rightarrow> Inl (DriverError ''HOST_KEY_SCAN_FAILED'' ''The device presented an invalid SSH key.''))
      | LegacyTimeout \<Rightarrow> Inl (DriverError ''TIMEOUT'' ''The SSH identity scan timed out before the device responded.'')
      | LegacyError \<Rightarrow> Inl (DriverError ''HOST_KEY_SCAN_FAILED'' ''The device SSH identity could not be scanned safely.''))"

definition probe_host_key :: "probe_env \<Rightarrow> string \<Rightarrow> int \<Rightarrow> int \<Rightarrow> (string \<times> string) result" where
  "probe_host_key e address port timeout =
     (case pe_probe e address port timeout of
        ProbeKey ty key \<Rightarrow> Inr (ty, key)
      | ProbeNoKey \<Rightarrow> Inl (DriverError ''HOST_KEY_SCAN_FAILED'' ''The device did not present an SSH host key.'')
      | ProbeRefused \<Rightarrow> Inl (DriverError ''CONNECTION_REFUSED''
          ''The device rejected the TCP connection while its SSH identity was scanned.'')
      | ProbeTimeout \<Rightarrow> Inl (DriverError ''TIMEOUT'' ''The SSH identity scan timed out before the device responded.'')
      | ProbeSSHException \<Rightarrow> scan_legacy_host_key e address port timeout
      | ProbeOSError \<Rightarrow> Inl (DriverError ''HOST_KEY_SCAN_FAILED'' ''The device SSH identity could not be scanned safely.''))"

section \<open>The table of host keys\<close>

definition get_host_key :: "db \<Rightarrow> int \<Rightarrow> ssh_host_key result" where
  "get_host_key d k = row_get ''SSHHostKey'' hk_pk k (host_keys d)"

definition save_host_key :: "ssh_host_key \<Rightarrow> db \<Rightarrow> db" where
  "save_host_key k d = d\<lparr>host_keys := row_save hk_pk k (host_keys d)\<rparr>"

definition same_endpoint :: "ssh_host_key \<Rightarrow> ssh_host_key \<Rightarrow> bool" where
  "same_endpoint a b \<longleftrightarrow> hk_target_id a = hk_target_id b \<and> hk_address a = hk_address b \<and> hk_port a = hk_port b"

definition new_host_key :: "int \<Rightarrow> int \<Rightarrow> string \<Rightarrow> int \<Rightarrow> string \<Rightarrow> string \<Rightarrow> string \<times> string \<Rightarrow> int \<Rightarrow> ssh_host_key" where
  "new_host_key k tid address port ty public_key fp now =
     \<lparr>hk_pk = k, hk_target_id = tid, hk_address = address, hk_port = port, hk_key_type = ty,
      hk_public_key = public_key, hk_fingerprint_sha256 = fst fp, hk_fingerprint_md5 = snd fp,
      hk_status = HKPending, hk_last_seen_at = now, hk_approved_at = None, hk_approved_by = None,
      hk_rejected_at = None\<rparr>"

text \<open>\<open>update_or_create\<close>: a known identity is refreshed, a new one becomes a pending candidate.\<close>

definition record_identity ::
  "int \<Rightarrow> string \<Rightarrow> int \<Rightarrow> string \<Rightarrow> string \<Rightarrow> string \<times> string \<Rightarrow> int \<Rightarrow> db \<Rightarrow> (ssh_host_key \<times> db) result" where
  "record_identity tid address port ty public_key fp now d =
     (case find (\<lambda>k. hk_target_id k = tid \<and> hk_address k = address \<and> hk_port k = port
                   \<and> hk_key_type k = ty \<and> hk_fingerprint_sha256 k = fst fp) (host_keys d) of
        Some k \<Rightarrow> let k' = k\<lparr>hk_public_key := public_key, hk_fingerprint_md5 := snd fp, hk_last_seen_at := now\<rparr>
                  in Inr (k', save_host_key k' d)
      | None \<Rightarrow> let k' = new_host_key (next_id d) tid address port ty public_key fp now
                in Inr (k', d\<lparr>host_keys := host_keys d @ [k'], next_id := next_id d + 1\<rparr>))"

definition trust_first_seen_host_key :: "int \<Rightarrow> int \<Rightarrow> db \<Rightarrow> (ssh_host_key \<times> db) result" where
  "trust_first_seen_host_key now candidate_id d =
     bindE (get_host_key d candidate_id) (\<lambda>c.
     if hk_status c \<noteq> HKPending then Inr (c, d)
     else if list_ex (\<lambda>k. same_endpoint k c \<and> hk_pk k \<noteq> hk_pk c) (host_keys d) then Inr (c, d)
     else let c' = c\<lparr>hk_status := HKTrusted, hk_approved_at := Some now, hk_approved_by := None, hk_rejected_at := None\<rparr>
          in Inr (c', save_host_key c' d))"

definition trust_host_key :: "int \<Rightarrow> string \<Rightarrow> int \<Rightarrow> db \<Rightarrow> (ssh_host_key \<times> db) result" where
  "trust_host_key now user candidate_id d =
     bindE (get_host_key d candidate_id) (\<lambda>c.
     let previous = filter (\<lambda>k. same_endpoint k c \<and> hk_status k = HKTrusted \<and> hk_pk k \<noteq> hk_pk c) (host_keys d);
         d1 = foldl (\<lambda>d k. save_host_key (k\<lparr>hk_status := HKRejected, hk_rejected_at := Some now\<rparr>) d) d previous;
         c' = c\<lparr>hk_status := HKTrusted, hk_approved_at := Some now, hk_approved_by := Some user, hk_rejected_at := None\<rparr>
     in Inr (c', save_host_key c' d1))"

definition reject_host_key :: "int \<Rightarrow> int \<Rightarrow> db \<Rightarrow> (ssh_host_key \<times> db) result" where
  "reject_host_key now candidate_id d =
     bindE (get_host_key d candidate_id) (\<lambda>c.
     let c' = c\<lparr>hk_status := HKRejected, hk_rejected_at := Some now, hk_approved_at := None, hk_approved_by := None\<rparr>
     in Inr (c', save_host_key c' d))"

section \<open>The services\<close>

definition scanned_of :: "ssh_host_key \<Rightarrow> scanned_host_key" where
  "scanned_of k = \<lparr>sk_candidate_id = hk_pk k, sk_address = hk_address k, sk_port = hk_port k,
     sk_key_type = hk_key_type k, sk_fingerprint_sha256 = hk_fingerprint_sha256 k,
     sk_fingerprint_md5 = hk_fingerprint_md5 k, sk_status = hk_status k\<rparr>"

definition scannable :: "execution_context \<Rightarrow> string result" where
  "scannable ctx =
     (case ec_address ctx of
        None \<Rightarrow> Inl (DriverError ''NO_ADDRESS'' ''The device has no usable management address.'')
      | Some address \<Rightarrow>
          if address = [] then Inl (DriverError ''NO_ADDRESS'' ''The device has no usable management address.'')
          else if \<not> cpar_verify_host_key (ec_connection ctx)
          then Inl (DriverError ''HOST_KEY_VERIFICATION_DISABLED''
                 ''SSH server identity verification is disabled for this connection profile.'')
          else if cpar_protocol (ec_connection ctx) = ''telnet''
               \<or> (cpar_protocol (ec_connection ctx) = ''auto'' \<and> cpar_port (ec_connection ctx) = 23)
          then Inl (DriverError ''NOT_SSH'' ''SSH host-key approval is not used for Telnet devices.'')
          else Inr address)"

definition scan_target_host_key ::
  "runtime \<Rightarrow> probe_env \<Rightarrow> int \<Rightarrow> int \<Rightarrow> int \<Rightarrow> (db, scanned_host_key) prog" where
  "scan_target_host_key rt e now later tid =
     bindS (readS (\<lambda>d. get_target_execution_context rt d tid)) (\<lambda>ctx.
     bindS (readS (\<lambda>_. scannable ctx)) (\<lambda>address.
     let con = ec_connection ctx in
     bindS (readS (\<lambda>_. probe_host_key e address (cpar_port con) (cpar_connect_timeout con))) (\<lambda>(ty, public_key).
     bindS (readS (\<lambda>_. fingerprints e public_key)) (\<lambda>fp.
     bindS (atomic (record_identity tid address (cpar_port con) ty public_key fp now)) (\<lambda>candidate.
     bindS (if cpar_verify_host_key con \<and> cpar_auto_trust_first_host_key con \<and> hk_status candidate = HKPending
            then atomic (trust_first_seen_host_key later (hk_pk candidate)) else returnS candidate) (\<lambda>candidate.
     returnS (scanned_of candidate)))))))"

definition ensure_first_host_key_trusted ::
  "runtime \<Rightarrow> probe_env \<Rightarrow> int \<Rightarrow> int \<Rightarrow> int \<Rightarrow> (db, scanned_host_key option) prog" where
  "ensure_first_host_key_trusted rt e now later tid =
     bindS (readS (\<lambda>d. get_target_execution_context rt d tid)) (\<lambda>ctx.
     if \<not> cpar_verify_host_key (ec_connection ctx) \<or> \<not> cpar_auto_trust_first_host_key (ec_connection ctx)
     then returnS None
     else if cpar_trusted_host_keys (ec_connection ctx) \<noteq> [] then returnS None
     else bindS (scan_target_host_key rt e now later tid) (\<lambda>k. returnS (Some k)))"

section \<open>The life of a host key\<close>

text \<open>What happens without a person, and what a person decides.\<close>

inductive auto_key_step :: "db \<Rightarrow> db \<Rightarrow> bool" where
  seen: "record_identity tid address port ty public_key fp now d = Inr (k, d') \<Longrightarrow> auto_key_step d d'"
| first_use: "trust_first_seen_host_key now k d = Inr (c, d') \<Longrightarrow> auto_key_step d d'"

inductive key_step :: "db \<Rightarrow> db \<Rightarrow> bool" where
  auto: "auto_key_step d d' \<Longrightarrow> key_step d d'"
| approve: "trust_host_key now user k d = Inr (c, d') \<Longrightarrow> key_step d d'"
| reject: "reject_host_key now k d = Inr (c, d') \<Longrightarrow> key_step d d'"
| other: "host_keys d' = host_keys d \<Longrightarrow> next_id d \<le> next_id d' \<Longrightarrow> key_step d d'"

section \<open>Facts\<close>

lemma fold_row_save:
  assumes "distinct (map key R)" "set ps \<subseteq> set R" "\<And>x. key (f x) = key x"
  shows "foldl (\<lambda>R x. row_save key (f x) R) R ps = map (\<lambda>x. if x \<in> set ps then f x else x) R"
  using assms(2)
proof (induction ps rule: rev_induct)
  case (snoc p ps)
  have "x = p" if "x \<in> set R" "key x = key p" for x
    using that snoc.prems assms(1) by (auto simp: distinct_map dest: inj_onD)
  with snoc show ?case by (auto simp: row_save_def assms(3) intro!: map_cong)
qed simp

lemma get_host_key_Inr: "get_host_key d k = Inr c \<Longrightarrow> c \<in> set (host_keys d) \<and> hk_pk c = k"
  unfolding get_host_key_def by (rule row_get_Inr)

definition keys_ok :: "db \<Rightarrow> bool" where
  "keys_ok d \<longleftrightarrow> distinct (map hk_pk (host_keys d)) \<and> (\<forall>k \<in> set (host_keys d). hk_pk k < next_id d)
     \<and> (\<forall>a \<in> set (host_keys d). \<forall>b \<in> set (host_keys d). same_endpoint a b \<and> hk_status a = HKTrusted \<and> hk_status b = HKTrusted
          \<longrightarrow> a = b)"

definition same_identity :: "ssh_host_key \<Rightarrow> ssh_host_key \<Rightarrow> bool" where
  "same_identity a b \<longleftrightarrow> hk_pk a = hk_pk b \<and> same_endpoint a b \<and> hk_key_type a = hk_key_type b
     \<and> hk_fingerprint_sha256 a = hk_fingerprint_sha256 b"

lemma keys_ok_pk: "keys_ok d \<Longrightarrow> a \<in> set (host_keys d) \<Longrightarrow> b \<in> set (host_keys d) \<Longrightarrow> hk_pk a = hk_pk b \<Longrightarrow> a = b"
  by (auto simp: keys_ok_def distinct_map dest: inj_onD)

lemma keys_ok_save:
  assumes "keys_ok d" "c \<in> set (host_keys d)" "hk_pk c' = hk_pk c" "same_endpoint c' c"
    "hk_status c' = HKTrusted \<Longrightarrow> \<forall>k \<in> set (host_keys d). same_endpoint k c \<and> hk_status k = HKTrusted \<longrightarrow> hk_pk k = hk_pk c"
  shows "keys_ok (save_host_key c' d)"
proof -
  have "distinct (map hk_pk (host_keys (save_host_key c' d)))" "\<forall>k \<in> set (host_keys (save_host_key c' d)). hk_pk k < next_id d"
    using assms(1-3) by (auto simp: keys_ok_def save_host_key_def in_row_save)
  moreover have "a = b" if a: "a \<in> set (host_keys (save_host_key c' d))" "b \<in> set (host_keys (save_host_key c' d))"
    "same_endpoint a b" "hk_status a = HKTrusted" "hk_status b = HKTrusted" for a b
  proof -
    have old: "x = c' \<or> (x \<in> set (host_keys d) \<and> hk_pk x \<noteq> hk_pk c)" if "x \<in> set (host_keys (save_host_key c' d))" for x
      using that assms(3) by (auto simp: save_host_key_def in_row_save)
    show ?thesis
      using old [OF a(1)] old [OF a(2)] a(3-5) assms(1,4,5)
      by (auto simp: keys_ok_def same_endpoint_def)
  qed
  ultimately show ?thesis by (auto simp: keys_ok_def save_host_key_def)
qed

lemma keys_ok_insert:
  assumes "keys_ok d" "hk_pk k = next_id d" "hk_status k \<noteq> HKTrusted"
  shows "keys_ok (d\<lparr>host_keys := host_keys d @ [k], next_id := next_id d + 1\<rparr>)"
  using assms by (fastforce simp: keys_ok_def)

lemma record_identity_cases:
  assumes "record_identity tid address port ty public_key fp now d = Inr (k', d')"
  shows "(\<exists>k \<in> set (host_keys d). same_identity k' k \<and> hk_status k' = hk_status k \<and> d' = save_host_key k' d)
    \<or> (hk_pk k' = next_id d \<and> hk_status k' = HKPending \<and> d' = d\<lparr>host_keys := host_keys d @ [k'], next_id := next_id d + 1\<rparr>)"
proof (cases "find (\<lambda>k. hk_target_id k = tid \<and> hk_address k = address \<and> hk_port k = port
    \<and> hk_key_type k = ty \<and> hk_fingerprint_sha256 k = fst fp) (host_keys d)")
  case None
  with assms have "k' = new_host_key (next_id d) tid address port ty public_key fp now"
    "d' = d\<lparr>host_keys := host_keys d @ [k'], next_id := next_id d + 1\<rparr>"
    by (auto simp: record_identity_def Let_def)
  then show ?thesis by (intro disjI2) (simp add: new_host_key_def)
next
  case (Some k)
  with assms have "k' = k\<lparr>hk_public_key := public_key, hk_fingerprint_md5 := snd fp, hk_last_seen_at := now\<rparr>" "d' = save_host_key k' d"
    by (auto simp: record_identity_def Let_def)
  with find_SomeD [OF Some] show ?thesis
    by (intro disjI1 bexI [of _ k]) (simp_all add: same_identity_def same_endpoint_def)
qed

lemma trust_first_cases:
  assumes "trust_first_seen_host_key now k d = Inr (c', d')"
  shows "d' = d \<or> (\<exists>c \<in> set (host_keys d). same_identity c' c \<and> hk_status c = HKPending \<and> hk_status c' = HKTrusted
    \<and> (\<forall>x \<in> set (host_keys d). same_endpoint x c \<longrightarrow> hk_pk x = hk_pk c) \<and> d' = save_host_key c' d)"
proof -
  from assms obtain c where c: "get_host_key d k = Inr c" by (auto simp: trust_first_seen_host_key_def result_simps)
  show ?thesis
  proof (cases "hk_status c \<noteq> HKPending \<or> list_ex (\<lambda>k. same_endpoint k c \<and> hk_pk k \<noteq> hk_pk c) (host_keys d)")
    case True
    with assms c have "d' = d" by (auto simp: trust_first_seen_host_key_def split: if_split_asm)
    then show ?thesis ..
  next
    case False
    with assms c have "c' = c\<lparr>hk_status := HKTrusted, hk_approved_at := Some now, hk_approved_by := None, hk_rejected_at := None\<rparr>"
      "d' = save_host_key c' d" by (auto simp: trust_first_seen_host_key_def Let_def)
    with False get_host_key_Inr [OF c] show ?thesis
      by (intro disjI2 bexI [of _ c]) (auto simp: same_identity_def same_endpoint_def list_ex_iff)
  qed
qed

lemma auto_key_step_ok: "auto_key_step d d' \<Longrightarrow> keys_ok d \<Longrightarrow> keys_ok d'"
proof (induction rule: auto_key_step.induct)
  case (seen tid address port ty public_key fp now d k' d')
  from record_identity_cases [OF seen.hyps] show ?case
  proof (elim disjE bexE conjE)
    fix k assume k: "k \<in> set (host_keys d)" "same_identity k' k" "hk_status k' = hk_status k" "d' = save_host_key k' d"
    have "hk_pk x = hk_pk k" if "x \<in> set (host_keys d)" "same_endpoint x k" "hk_status x = HKTrusted" "hk_status k' = HKTrusted" for x
      using that k(1,3) seen.prems unfolding keys_ok_def by metis
    with k seen.prems show ?thesis unfolding k(4) by (intro keys_ok_save [of d k]) (auto simp: same_identity_def)
  qed (use seen.prems in \<open>auto simp: keys_ok_insert\<close>)
next
  case (first_use now k d c' d')
  from trust_first_cases [OF first_use.hyps] first_use.prems show ?case
    by (elim disjE bexE conjE) (auto simp: same_identity_def intro!: keys_ok_save)
qed

lemma foldl_save_host_key:
  "foldl (\<lambda>d k. save_host_key (f k) d) d ps = d\<lparr>host_keys := foldl (\<lambda>R x. row_save hk_pk (f x) R) (host_keys d) ps\<rparr>"
  by (induction ps arbitrary: d) (simp_all add: save_host_key_def)

lemma trust_host_key_ok:
  assumes "trust_host_key now user k d = Inr (c', d')" "keys_ok d"
  shows "keys_ok d'"
proof -
  from assms(1) obtain c where c: "get_host_key d k = Inr c"
    and c': "c' = c\<lparr>hk_status := HKTrusted, hk_approved_at := Some now, hk_approved_by := Some user, hk_rejected_at := None\<rparr>"
    by (auto simp: trust_host_key_def Let_def result_simps)
  let ?prev = "filter (\<lambda>k. same_endpoint k c \<and> hk_status k = HKTrusted \<and> hk_pk k \<noteq> hk_pk c) (host_keys d)"
  let ?rej = "\<lambda>k. k\<lparr>hk_status := HKRejected, hk_rejected_at := Some now\<rparr>"
  define d1 where "d1 = d\<lparr>host_keys := map (\<lambda>x. if x \<in> set ?prev then ?rej x else x) (host_keys d)\<rparr>"
  have dist: "distinct (map hk_pk (host_keys d))" using assms(2) by (simp add: keys_ok_def)
  have "foldl (\<lambda>d k. save_host_key (?rej k) d) d ?prev = d1"
    unfolding foldl_save_host_key d1_def by (subst fold_row_save [OF dist]) auto
  with assms(1) c c' have d': "d' = save_host_key c' d1" by (auto simp: trust_host_key_def Let_def)
  have cin: "c \<in> set (host_keys d)" using get_host_key_Inr [OF c] by simp
  then have in1: "c \<in> set (host_keys d1)" by (auto simp: d1_def intro!: image_eqI [of _ _ c])
  have t1: "x \<in> set (host_keys d)" "\<not> (same_endpoint x c \<and> hk_pk x \<noteq> hk_pk c)"
    if "x \<in> set (host_keys d1)" "hk_status x = HKTrusted" for x
    using that by (auto simp: d1_def split: if_splits)
  have "map hk_pk (host_keys d1) = map hk_pk (host_keys d)" by (simp add: d1_def)
  moreover have "next_id d1 = next_id d" by (simp add: d1_def)
  ultimately have "keys_ok d1" using assms(2) t1 unfolding keys_ok_def by (metis (no_types, lifting) list.set_map image_iff)
  then show ?thesis
    unfolding d' using in1 t1 c' by (intro keys_ok_save [of d1 c]) (auto simp: same_endpoint_def)
qed

lemma reject_host_key_ok: "reject_host_key now k d = Inr (c', d') \<Longrightarrow> keys_ok d \<Longrightarrow> keys_ok d'"
  by (auto simp: reject_host_key_def Let_def result_simps same_endpoint_def dest!: get_host_key_Inr intro!: keys_ok_save)

lemma key_step_ok: "key_step d d' \<Longrightarrow> keys_ok d \<Longrightarrow> keys_ok d'"
  by (induction rule: key_step.induct)
    (auto simp: keys_ok_def dest: trust_host_key_ok reject_host_key_ok auto_key_step_ok [unfolded keys_ok_def])

text \<open>What may happen to the keys without a person's decision.\<close>

definition auto_frame :: "db \<Rightarrow> db \<Rightarrow> bool" where
  "auto_frame d d' \<longleftrightarrow> (keys_ok d \<longrightarrow> keys_ok d'
     \<and> (\<forall>y \<in> set (host_keys d). \<exists>y' \<in> set (host_keys d'). same_identity y' y
          \<and> (hk_status y' = hk_status y \<or> hk_status y = HKPending))
     \<and> (\<forall>x \<in> set (host_keys d'). hk_status x = HKTrusted \<longrightarrow>
          (\<exists>y \<in> set (host_keys d). same_identity x y \<and> hk_status y = HKTrusted)
          \<or> (\<forall>y \<in> set (host_keys d). same_endpoint x y \<longrightarrow> same_identity x y \<and> hk_status y = HKPending)))"

lemma same_identity_sym: "same_identity a b \<Longrightarrow> same_identity b a"
  and same_identity_trans: "same_identity a b \<Longrightarrow> same_identity b c \<Longrightarrow> same_identity a c"
  and same_identity_endpoint: "same_identity a b \<Longrightarrow> same_endpoint a c \<longleftrightarrow> same_endpoint b c"
  by (simp_all add: same_identity_def same_endpoint_def)

interpretation auto_frames: step_relation auto_frame
proof
  show "auto_frame d d" for d by (auto simp: auto_frame_def same_identity_def same_endpoint_def)
next
  fix d d' d''
  assume 1: "auto_frame d d'" and 2: "auto_frame d' d''"
  show "auto_frame d d''"
    unfolding auto_frame_def
  proof (intro impI conjI ballI)
    assume ok: "keys_ok d"
    with 1 have ok': "keys_ok d'" by (simp add: auto_frame_def)
    with 2 show "keys_ok d''" by (simp add: auto_frame_def)
    fix y assume "y \<in> set (host_keys d)"
    with 1 ok obtain y' where y': "y' \<in> set (host_keys d')" "same_identity y' y" "hk_status y' = hk_status y \<or> hk_status y = HKPending"
      by (auto simp: auto_frame_def)
    with 2 ok' obtain y'' where "y'' \<in> set (host_keys d'')" "same_identity y'' y'" "hk_status y'' = hk_status y' \<or> hk_status y' = HKPending"
      by (auto simp: auto_frame_def)
    with y' show "\<exists>y'' \<in> set (host_keys d''). same_identity y'' y \<and> (hk_status y'' = hk_status y \<or> hk_status y = HKPending)"
      by (auto dest: same_identity_trans)
  next
    fix x assume ok: "keys_ok d" and x: "x \<in> set (host_keys d'')" "hk_status x = HKTrusted"
    from 1 ok have ok': "keys_ok d'" by (simp add: auto_frame_def)
    let ?goal = "(\<exists>z \<in> set (host_keys d). same_identity x z \<and> hk_status z = HKTrusted)
      \<or> (\<forall>z \<in> set (host_keys d). same_endpoint x z \<longrightarrow> same_identity x z \<and> hk_status z = HKPending)"
    from 2 ok' x consider y where "y \<in> set (host_keys d')" "same_identity x y" "hk_status y = HKTrusted"
      | "\<forall>y \<in> set (host_keys d'). same_endpoint x y \<longrightarrow> same_identity x y \<and> hk_status y = HKPending"
      by (auto simp: auto_frame_def)
    then show ?goal
    proof cases
      case 1
      with \<open>auto_frame d d'\<close> ok have "(\<exists>z \<in> set (host_keys d). same_identity y z \<and> hk_status z = HKTrusted)
          \<or> (\<forall>z \<in> set (host_keys d). same_endpoint y z \<longrightarrow> same_identity y z \<and> hk_status z = HKPending)"
        by (auto simp: auto_frame_def)
      with 1(2) show ?thesis using same_identity_trans same_identity_endpoint by blast
    next
      case 2
      have "same_identity x z \<and> hk_status z = HKPending" if z: "z \<in> set (host_keys d)" "same_endpoint x z" for z
      proof -
        from z(1) \<open>auto_frame d d'\<close> ok obtain z' where z': "z' \<in> set (host_keys d')" "same_identity z' z"
          "hk_status z' = hk_status z \<or> hk_status z = HKPending" by (auto simp: auto_frame_def)
        from z(2) z'(2) have "same_endpoint x z'" by (simp add: same_identity_def same_endpoint_def)
        with 2 z' show ?thesis by (auto dest: same_identity_trans)
      qed
      then show ?thesis by blast
    qed
  qed
qed

lemma save_host_key_rows:
  assumes "keys_ok d" "c \<in> set (host_keys d)" "hk_pk c' = hk_pk c"
  shows "set (host_keys (save_host_key c' d)) = insert c' (set (host_keys d) - {c})"
  using assms keys_ok_pk [OF assms(1) _ assms(2)] by (auto simp: save_host_key_def in_row_save)

lemma auto_frameI:
  assumes "keys_ok d \<Longrightarrow> keys_ok d'"
    "\<And>y. keys_ok d \<Longrightarrow> y \<in> set (host_keys d) \<Longrightarrow>
       \<exists>y' \<in> set (host_keys d'). same_identity y' y \<and> (hk_status y' = hk_status y \<or> hk_status y = HKPending)"
    "\<And>x. keys_ok d \<Longrightarrow> x \<in> set (host_keys d') \<Longrightarrow> hk_status x = HKTrusted \<Longrightarrow>
       (\<exists>y \<in> set (host_keys d). same_identity x y \<and> hk_status y = HKTrusted)
       \<or> (\<forall>y \<in> set (host_keys d). same_endpoint x y \<longrightarrow> same_identity x y \<and> hk_status y = HKPending)"
  shows "auto_frame d d'"
  using assms unfolding auto_frame_def by blast

lemma same_identity_refl: "same_identity a a"
  by (simp add: same_identity_def same_endpoint_def)

lemma record_identity_frame:
  assumes "record_identity tid address port ty public_key fp now d = Inr (k', d')"
  shows "auto_frame d d'"
proof (rule auto_frameI)
  show "keys_ok d'" if "keys_ok d" using auto_key_step_ok [OF auto_key_step.seen [OF assms] that] .
  have rows: "(\<exists>k \<in> set (host_keys d). same_identity k' k \<and> hk_status k' = hk_status k
        \<and> set (host_keys d') = insert k' (set (host_keys d) - {k}))
      \<or> (hk_status k' = HKPending \<and> set (host_keys d') = insert k' (set (host_keys d)))" if "keys_ok d"
    using record_identity_cases [OF assms] save_host_key_rows [OF that] by (auto simp: same_identity_def)
  show "\<exists>y' \<in> set (host_keys d'). same_identity y' y \<and> (hk_status y' = hk_status y \<or> hk_status y = HKPending)"
    if "keys_ok d" "y \<in> set (host_keys d)" for y
    using rows [OF that(1)] that(2) same_identity_refl by blast
  show "(\<exists>y \<in> set (host_keys d). same_identity x y \<and> hk_status y = HKTrusted)
      \<or> (\<forall>y \<in> set (host_keys d). same_endpoint x y \<longrightarrow> same_identity x y \<and> hk_status y = HKPending)"
    if "keys_ok d" "x \<in> set (host_keys d')" "hk_status x = HKTrusted" for x
    using rows [OF that(1)] that(2,3) same_identity_refl by auto
qed

lemma trust_first_frame:
  assumes "trust_first_seen_host_key now k d = Inr (c', d')"
  shows "auto_frame d d'"
proof (cases "d' = d")
  case True
  then show ?thesis by (simp add: auto_frames.step_refl)
next
  case False
  with trust_first_cases [OF assms] obtain c where
    c: "c \<in> set (host_keys d)" "same_identity c' c" "hk_status c = HKPending"
      "\<forall>x \<in> set (host_keys d). same_endpoint x c \<longrightarrow> hk_pk x = hk_pk c" "d' = save_host_key c' d" by blast
  have pk: "hk_pk c' = hk_pk c" using c(2) by (simp add: same_identity_def)
  have rows: "set (host_keys d') = insert c' (set (host_keys d) - {c})" if "keys_ok d"
    unfolding c(5) by (rule save_host_key_rows [OF that c(1) pk])
  have only: "y = c" if "keys_ok d" "y \<in> set (host_keys d)" "same_endpoint c' y" for y
  proof -
    have "same_endpoint y c" using that(3) c(2) by (simp add: same_identity_def same_endpoint_def)
    with c(4) that(2) have "hk_pk y = hk_pk c" by blast
    with keys_ok_pk [OF that(1,2) c(1)] show ?thesis .
  qed
  show ?thesis
  proof (rule auto_frameI)
    show "keys_ok d'" if "keys_ok d" using auto_key_step_ok [OF auto_key_step.first_use [OF assms] that] .
    show "\<exists>y' \<in> set (host_keys d'). same_identity y' y \<and> (hk_status y' = hk_status y \<or> hk_status y = HKPending)"
      if "keys_ok d" "y \<in> set (host_keys d)" for y
      using rows [OF that(1)] that(2) c(2,3) same_identity_refl by blast
    show "(\<exists>y \<in> set (host_keys d). same_identity x y \<and> hk_status y = HKTrusted)
        \<or> (\<forall>y \<in> set (host_keys d). same_endpoint x y \<longrightarrow> same_identity x y \<and> hk_status y = HKPending)"
      if "keys_ok d" "x \<in> set (host_keys d')" "hk_status x = HKTrusted" for x
    proof (cases "x = c'")
      case True
      with only [OF that(1)] c(2,3) show ?thesis by blast
    next
      case False
      with rows [OF that(1)] that(2,3) same_identity_refl show ?thesis by blast
    qed
  qed
qed

lemma auto_key_step_frame: "auto_key_step d d' \<Longrightarrow> auto_frame d d'"
  by (erule auto_key_step.cases) (auto intro: record_identity_frame trust_first_frame)

lemma scan_target_host_key_auto: "within auto_frame (scan_target_host_key rt e now later tid)"
proof -
  have r: "within auto_frame (atomic (record_identity tid address port ty public_key fp now))" for address port ty public_key fp
    by (rule within_atomic) (auto intro: auto_frames.step_refl auto_key_step_frame auto_key_step.seen)
  have t: "within auto_frame (atomic (trust_first_seen_host_key later k))" for k
    by (rule within_atomic) (auto intro: auto_frames.step_refl auto_key_step_frame auto_key_step.first_use)
  show ?thesis
    unfolding scan_target_host_key_def Let_def
    by (auto intro!: auto_frames.within_intros r t split: prod.split)
qed

lemma ensure_first_host_key_trusted_auto: "within auto_frame (ensure_first_host_key_trusted rt e now later tid)"
  unfolding ensure_first_host_key_trusted_def by (auto intro!: auto_frames.within_intros scan_target_host_key_auto)

section \<open>Properties\<close>


text \<open>
  C34. Trust on first use is only that. When a device presents whatever key it likes to a scan, of a job
  or before a backup, a key is trusted afterwards only if it was trusted before, or if it is the only
  key ever seen at its endpoint: a changed or a rejected identity is never trusted without a person.
\<close>

theorem first_use_only:
  assumes "scan_target_host_key rt e now later tid d = (r, d') \<or> ensure_first_host_key_trusted rt e now later tid d = (q, d')"
    "keys_ok d" "x \<in> set (host_keys d')" "hk_status x = HKTrusted"
  shows "(\<exists>y \<in> set (host_keys d). same_identity x y \<and> hk_status y = HKTrusted)
    \<or> (\<forall>y \<in> set (host_keys d). same_endpoint x y \<longrightarrow> same_identity x y \<and> hk_status y = HKPending)"
proof -
  have "auto_frame d d'"
    using assms(1) withinD [OF scan_target_host_key_auto] withinD [OF ensure_first_host_key_trusted_auto] by blast
  with assms(2-4) show ?thesis unfolding auto_frame_def by blast
qed

definition sample_probe :: probe_env where
  "sample_probe = \<lparr>pe_probe = (\<lambda>_ _ _. ProbeKey ''ssh-ed25519'' ''BBBB''), pe_legacy = (\<lambda>_ _ _. LegacyError),
     pe_b64decode = Some, pe_sha256_b64 = (\<lambda>s. s @ ''=''), pe_md5 = (\<lambda>_. [18, 255])\<rparr>"

definition first_use_profile :: connection_profile where
  "first_use_profile = \<lparr>cp_pk = 4, cp_name = ''tofu'', cp_protocol = ''ssh'', cp_address_preference = ''primary4_first'', cp_port = 22,
     cp_connect_timeout = 10, cp_command_timeout = 10, cp_keepalive = 0, cp_verify_host_key = True,
     cp_auto_trust_first_host_key = True, cp_known_hosts_path = []\<rparr>"

definition sample_host_key :: "int \<Rightarrow> string \<Rightarrow> host_key_status \<Rightarrow> ssh_host_key" where
  "sample_host_key k key st = (new_host_key k 1 ''192.0.2.1'' 22 ''ssh-ed25519'' key (''SHA256:'' @ key, ''MD5:'') 0)\<lparr>hk_status := st\<rparr>"

definition sample_keys_db :: "ssh_host_key list \<Rightarrow> db" where
  "sample_keys_db ks = empty_db\<lparr>targets := [sample_target\<lparr>t_connection_override := Some first_use_profile\<rparr>], host_keys := ks, next_id := 100\<rparr>"

text \<open>A device whose trusted key has changed: the new key stays pending.\<close>

theorem first_use_only_witness:
  "\<exists>r d'. scan_target_host_key sample_runtime sample_probe 5 6 1 (sample_keys_db [sample_host_key 1 ''AAAA'' HKTrusted]) = (Inr r, d')
     \<and> sk_status r = HKPending
     \<and> (\<forall>x \<in> set (host_keys d'). hk_status x = HKTrusted \<longrightarrow> hk_fingerprint_sha256 x = ''SHA256:AAAA'')"
proof -
  let ?d = "sample_keys_db [sample_host_key 1 ''AAAA'' HKTrusted]"
  let ?x = "scan_target_host_key sample_runtime sample_probe 5 6 1 ?d"
  have "case fst ?x of Inl e \<Rightarrow> False | Inr r \<Rightarrow> sk_status r = HKPending" by code_simp
  then obtain r d' where x: "?x = (Inr r, d')" "sk_status r = HKPending"
    by (cases "fst ?x") (auto simp: prod_eq_iff)
  have ok: "keys_ok ?d" by (simp add: keys_ok_def sample_keys_db_def sample_host_key_def new_host_key_def)
  have "hk_fingerprint_sha256 x = ''SHA256:AAAA''" if "x \<in> set (host_keys d')" "hk_status x = HKTrusted" for x
  proof -
    have "list_all (\<lambda>k. same_endpoint k (sample_host_key 1 ''AAAA'' HKTrusted)) (host_keys (snd ?x))" by code_simp
    then have "same_endpoint x (sample_host_key 1 ''AAAA'' HKTrusted)" using x(1) that(1) by (auto simp: list_all_iff)
    with first_use_only [OF disjI1 [OF x(1)] ok that] show ?thesis
      by (auto simp: sample_keys_db_def same_identity_def sample_host_key_def new_host_key_def)
  qed
  with x show ?thesis by blast
qed


end
