(* ===== verification/Remote_Files.thy ===== *)
theory Remote_Files
  imports Dispatcher
begin

text \<open>
  What a remote copy of a revision consists of: the pure part of \<open>services/destination_ftp.py\<close> that the FTP
  and the mounted destinations share. A copy is a directory with one file per artifact and a manifest in
  JSON. \<open>json.loads\<close>, applied to the bytes of a file, is a parameter; \<open>json.dumps\<close> is written out.
\<close>

section \<open>JSON text\<close>

text \<open>\<open>json.dumps(..., sort_keys=True, separators=(",", ":"))\<close> with its default \<open>ensure_ascii\<close>.\<close>

definition json_escape :: "char \<Rightarrow> string" where
  "json_escape c =
     (let n = of_char c :: int in
      if c = CHR 0x22 then [CHR 0x5C, CHR 0x22]
      else if c = CHR 0x5C then [CHR 0x5C, CHR 0x5C]
      else if n = 10 then CHR 0x5C # ''n''
      else if n = 13 then CHR 0x5C # ''r''
      else if n = 9 then CHR 0x5C # ''t''
      else if n = 12 then CHR 0x5C # ''f''
      else if n = 8 then CHR 0x5C # ''b''
      else if n < 32 \<or> 126 < n then CHR 0x5C # ''u00'' @ [hex_digit (n div 16), hex_digit n]
      else [c])"

definition json_string :: "string \<Rightarrow> string" where
  "json_string s = CHR 0x22 # concat (map json_escape s) @ [CHR 0x22]"

fun str_less :: "string \<Rightarrow> string \<Rightarrow> bool" where
  "str_less [] [] = False"
| "str_less [] (_ # _) = True"
| "str_less (_ # _) [] = False"
| "str_less (a # as) (b # bs) = ((of_char a :: nat) < of_char b \<or> (a = b \<and> str_less as bs))"

fun insert_member :: "string \<times> string \<Rightarrow> (string \<times> string) list \<Rightarrow> (string \<times> string) list" where
  "insert_member m [] = [m]"
| "insert_member m (x # xs) = (if str_less (fst x) (fst m) then x # insert_member m xs else m # x # xs)"

fun json_dumps :: "json \<Rightarrow> string"
  and dumps_list :: "json list \<Rightarrow> string list"
  and dumps_members :: "(string \<times> json) list \<Rightarrow> (string \<times> string) list" where
  "json_dumps JNull = ''null''"
| "json_dumps (JBool b) = (if b then ''true'' else ''false'')"
| "json_dumps (JInt n) = show_int n"
| "json_dumps (JFloat s) = s"
| "json_dumps (JStr s) = json_string s"
| "json_dumps (JList xs) = ''['' @ join_with '','' (dumps_list xs) @ '']''"
| "json_dumps (JObj ms) = ''{'' @ join_with '','' (map (\<lambda>(k, t). json_string k @ '':'' @ t)
     (foldr insert_member (dumps_members ms) [])) @ ''}''"
| "dumps_list [] = []"
| "dumps_list (x # xs) = json_dumps x # dumps_list xs"
| "dumps_members [] = []"
| "dumps_members ((k, v) # ms) = (k, json_dumps v) # dumps_members ms"

text \<open>Python's \<open>==\<close> on JSON values, for which \<open>True == 1\<close>, and \<open>dict.get\<close>.\<close>

fun json_eq :: "json \<Rightarrow> json \<Rightarrow> bool"
  and json_list_eq :: "json list \<Rightarrow> json list \<Rightarrow> bool"
  and json_members_eq :: "(string \<times> json) list \<Rightarrow> (string \<times> json) list \<Rightarrow> bool" where
  "json_eq (JInt n) (JBool b) = (n = (if b then 1 else 0))"
| "json_eq (JBool b) (JInt n) = (n = (if b then 1 else 0))"
| "json_eq (JList xs) (JList ys) = json_list_eq xs ys"
| "json_eq (JObj xs) (JObj ys) = (length xs = length ys \<and> json_members_eq xs ys)"
| "json_eq x y = (x = y)"
| "json_list_eq [] [] = True"
| "json_list_eq (x # xs) (y # ys) = (json_eq x y \<and> json_list_eq xs ys)"
| "json_list_eq _ _ = False"
| "json_members_eq [] ys = True"
| "json_members_eq ((k, x) # xs) ys =
     ((case map_of ys k of None \<Rightarrow> False | Some y \<Rightarrow> json_eq x y) \<and> json_members_eq xs ys)"

text \<open>\<open>unique_json_object\<close>, the hook that refuses repeated keys.\<close>

definition unique_json_object :: "(string \<times> json) list \<Rightarrow> (string \<times> json) list result" where
  "unique_json_object pairs =
     (if distinct (map fst pairs) then Inr pairs else Inl (ValueError ''Duplicate JSON key''))"

section \<open>Expected files\<close>

text \<open>The columns of a revision, its target and its device that the code reads; a device need not have a name.\<close>

record revision_view =
  rv_pk :: int
  rv_uuid :: string
  rv_device_id :: int
  rv_device_name :: "string option"
  rv_driver_id :: string
  rv_created :: int
  rv_artifacts :: "config_artifact list"

record expected_file =
  xf_filename :: string
  xf_size :: int
  xf_sha256 :: string
  xf_artifact_type :: string

definition manifest_name :: string where
  "manifest_name = ''_netbox_manifest.json''"

definition remote_filename ::
  "(string \<Rightarrow> string) \<Rightarrow> revision_view \<Rightarrow> bool \<Rightarrow> string option \<Rightarrow> config_artifact \<Rightarrow> string" where
  "remote_filename asc rv readable_names readable_stem a =
     (if readable_names
      then readable_artifact_filename asc (rv_device_name rv) (rv_device_id rv) (Aware (rv_created rv)) a readable_stem
      else artifact_filename (a_storage_key a) (a_artifact_type a))"

definition manifest_artifact :: "config_artifact \<Rightarrow> string \<Rightarrow> json" where
  "manifest_artifact a filename =
     JObj [(''artifact_type'', JStr (a_artifact_type a)), (''format'', JStr (a_format a)), (''filename'', JStr filename),
           (''size'', JInt (a_size a)), (''sha256'', JStr (a_raw_hash a)), (''primary'', JBool (a_is_primary a))]"

definition optional_string :: "string option \<Rightarrow> json" where
  "optional_string s = (case s of None \<Rightarrow> JNull | Some s \<Rightarrow> JStr s)"

definition or_string :: "string option \<Rightarrow> string \<Rightarrow> string" where
  "or_string a b = (case a of None \<Rightarrow> b | Some s \<Rightarrow> if s = [] then b else s)"

definition manifest_payload ::
  "(string \<Rightarrow> string) \<Rightarrow> revision_view \<Rightarrow> bool \<Rightarrow> string option \<Rightarrow> string option \<Rightarrow> json" where
  "manifest_payload asc rv readable_names readable_stem device_directory_override =
     JObj [(''schema'', JInt (if readable_names then 2 else 1)), (''revision_uuid'', JStr (rv_uuid rv)),
           (''device_id'', JInt (rv_device_id rv)), (''device_name'', optional_string (rv_device_name rv)),
           (''device_directory'', JStr (or_string device_directory_override
              (device_directory_name asc (rv_device_name rv) (rv_device_id rv)))),
           (''driver_id'', JStr (rv_driver_id rv)), (''created'', JStr (dt_isoformat (rv_created rv))),
           (''artifacts'', JList (map (\<lambda>a. manifest_artifact a (remote_filename asc rv readable_names readable_stem a))
              (rv_artifacts rv)))]"

definition build_manifest ::
  "(string \<Rightarrow> string) \<Rightarrow> revision_view \<Rightarrow> bool \<Rightarrow> string option \<Rightarrow> string option \<Rightarrow> string" where
  "build_manifest asc rv readable_names readable_stem device_directory_override =
     json_dumps (manifest_payload asc rv readable_names readable_stem device_directory_override)"

fun expected_artifact_files ::
  "(string \<Rightarrow> string) \<Rightarrow> revision_view \<Rightarrow> bool \<Rightarrow> string option \<Rightarrow> string list \<Rightarrow> config_artifact list \<Rightarrow> expected_file list result" where
  "expected_artifact_files asc rv readable_names readable_stem seen [] = Inr []"
| "expected_artifact_files asc rv readable_names readable_stem seen (a # as) =
     (let filename = remote_filename asc rv readable_names readable_stem a in
      if filename \<in> set seen
      then Inl (DestinationError ''ARTIFACT_NAME_CONFLICT'' ''Two revision artifacts resolve to the same FTP filename.'')
      else bindE (expected_artifact_files asc rv readable_names readable_stem (filename # seen) as) (\<lambda>xs.
           Inr (\<lparr>xf_filename = filename, xf_size = a_size a, xf_sha256 = a_raw_hash a,
                 xf_artifact_type = a_artifact_type a\<rparr> # xs)))"

definition expected_revision_files ::
  "env \<Rightarrow> (string \<Rightarrow> string) \<Rightarrow> revision_view \<Rightarrow> bool \<Rightarrow> string option \<Rightarrow> string option \<Rightarrow> expected_file list result" where
  "expected_revision_files e asc rv readable_names readable_stem manifest_device_directory =
     bindE (expected_artifact_files asc rv readable_names readable_stem [] (rv_artifacts rv)) (\<lambda>xs.
     let manifest = build_manifest asc rv readable_names readable_stem manifest_device_directory in
     Inr (xs @ [\<lparr>xf_filename = manifest_name, xf_size = int (length manifest), xf_sha256 = sha256_hex e manifest,
                 xf_artifact_type = ''manifest''\<rparr>]))"

section \<open>Recorded paths\<close>

text \<open>\<open>posixpath.normpath\<close>.\<close>

fun norm_step :: "bool \<Rightarrow> string list \<Rightarrow> string \<Rightarrow> string list" where
  "norm_step rooted acc seg =
     (if seg = [] \<or> seg = ''.'' then acc
      else if seg \<noteq> ''..'' \<or> (\<not> rooted \<and> acc = []) \<or> (acc \<noteq> [] \<and> last acc = ''..'') then acc @ [seg]
      else butlast acc)"

definition normpath :: "string \<Rightarrow> string" where
  "normpath p =
     (if p = [] then ''.''
      else let rooted = is_absolute p;
               slashes = (if rooted then root_part p else []);
               r = slashes @ join_with ''/'' (foldl (norm_step rooted) [] (split_on (CHR ''/'') p))
           in if r = [] then ''.'' else r)"

definition unsafe_text :: "string \<Rightarrow> bool" where
  "unsafe_text s \<longleftrightarrow> CHR 0x5C \<in> set s \<or> CHR 0x00 \<in> set s \<or> list_ex (\<lambda>c. (of_char c :: nat) < 32) s"

definition canonical_base :: "string \<Rightarrow> string" where
  "canonical_base base = (let b = strip slash base in if b = [] then ''/'' else ''/'' @ b)"

definition path_invalid :: "string \<Rightarrow> string \<Rightarrow> bool" where
  "path_invalid base remote_path \<longleftrightarrow> remote_path = [] \<or> \<not> is_absolute remote_path \<or> remote_path \<noteq> normpath remote_path
     \<or> canonical_base base \<noteq> normpath (canonical_base base) \<or> unsafe_text remote_path \<or> unsafe_text (strip slash base)"

definition valid_leaf :: "revision_view \<Rightarrow> string \<Rightarrow> string list \<Rightarrow> bool option" where
  "valid_leaf rv layout leaf =
     (let ts = backup_creation_timestamp (Aware (rv_created rv)) in
      if layout = ''revisions'' \<and> length leaf = 1 then Some (leaf ! 0 = rv_uuid rv)
      else if layout = ''backups'' \<and> length leaf = 1 then Some (leaf ! 0 = ts \<or> leaf ! 0 = ts @ ''-r'' @ show_int (rv_pk rv))
      else if layout = ''backups'' \<and> length leaf = 2 then Some (leaf ! 0 = ts \<and> leaf ! 1 = rv_uuid rv)
      else None)"

definition validate_recorded_revision_path ::
  "(string \<Rightarrow> string) \<Rightarrow> string \<Rightarrow> revision_view \<Rightarrow> string \<Rightarrow> string \<Rightarrow> (string \<times> string) result" where
  "validate_recorded_revision_path asc base rv remote_path error_code =
     (let prefix = (''/'' # path_parts (canonical_base base)) @ [''devices''];
          parts = all_parts remote_path;
          suffix = drop (length prefix) parts
      in if path_invalid base remote_path \<or> take (length prefix) parts \<noteq> prefix \<or> (length suffix \<noteq> 3 \<and> length suffix \<noteq> 4)
         then Inl (DestinationError error_code ''The recorded FTP revision path is not safe or does not match this revision.'')
         else let device_segment = suffix ! 0; layout = suffix ! 1 in
           if device_directory_name asc (Some device_segment) (rv_device_id rv) \<noteq> device_segment
           then Inl (DestinationError error_code ''The recorded FTP revision path contains an invalid device directory.'')
           else case valid_leaf rv layout (drop 2 suffix) of
             None \<Rightarrow> Inl (DestinationError error_code ''The recorded FTP revision path uses an unsupported layout.'')
           | Some False \<Rightarrow> Inl (DestinationError error_code ''The recorded FTP revision path does not match this revision.'')
           | Some True \<Rightarrow> Inr (layout, device_segment))"

definition readable_stem_from_revision_path :: "(string \<Rightarrow> string) \<Rightarrow> string \<Rightarrow> revision_view \<Rightarrow> string option" where
  "readable_stem_from_revision_path asc revision_path rv =
     (let parts = rev (all_parts revision_path); n = length parts in
      if 4 \<le> n \<and> parts ! 2 = ''backups''
      then Some (backup_filename_stem asc (Some (parts ! 3)) (rv_device_id rv) (Aware (rv_created rv)))
      else if 3 \<le> n \<and> parts ! 1 = ''backups''
      then Some (backup_filename_stem asc (Some (parts ! 2)) (rv_device_id rv) (Aware (rv_created rv)))
      else None)"

section \<open>Recognising a manifest\<close>

definition jget :: "string \<Rightarrow> (string \<times> json) list \<Rightarrow> json" where
  "jget k ms = (case map_of ms k of None \<Rightarrow> JNull | Some v \<Rightarrow> v)"

definition manifest_keys :: "string list" where
  "manifest_keys = [''schema'', ''revision_uuid'', ''device_id'', ''device_name'', ''device_directory'', ''driver_id'',
     ''created'', ''artifacts'']"

fun is_string :: "json \<Rightarrow> bool" where
  "is_string (JStr _) = True"
| "is_string _ = False"

definition expected_manifest_artifacts :: "revision_view \<Rightarrow> expected_file list \<Rightarrow> json list option" where
  "expected_manifest_artifacts rv files =
     (let by_type = (\<lambda>ty. find (\<lambda>x. xf_artifact_type x = ty) (rev (filter (\<lambda>x. xf_artifact_type x \<noteq> ''manifest'') files)))
      in if list_all (\<lambda>a. by_type (a_artifact_type a) \<noteq> None) (rv_artifacts rv)
         then Some (map (\<lambda>a. manifest_artifact a (xf_filename (the (by_type (a_artifact_type a))))) (rv_artifacts rv))
         else None)"

definition manifest_fields_match :: "revision_view \<Rightarrow> string \<Rightarrow> expected_file list \<Rightarrow> (string \<times> json) list \<Rightarrow> bool" where
  "manifest_fields_match rv revision_path files ms =
     (let parts = rev (all_parts revision_path);
          device_segment = (if 4 \<le> length parts \<and> parts ! 2 = ''backups'' then parts ! 3 else parts ! 2)
      in 3 \<le> length parts \<and> set (map fst ms) = set manifest_keys \<and> is_string (jget ''device_name'' ms)
         \<and> json_eq (jget ''schema'' ms) (JInt (if uses_readable_ftp_layout revision_path then 2 else 1))
         \<and> json_eq (jget ''revision_uuid'' ms) (JStr (rv_uuid rv))
         \<and> json_eq (jget ''device_id'' ms) (JInt (rv_device_id rv))
         \<and> json_eq (jget ''device_directory'' ms) (JStr device_segment)
         \<and> json_eq (jget ''driver_id'' ms) (JStr (rv_driver_id rv))
         \<and> json_eq (jget ''created'' ms) (JStr (dt_isoformat (rv_created rv)))
         \<and> (case expected_manifest_artifacts rv files of
              None \<Rightarrow> False | Some xs \<Rightarrow> json_eq (jget ''artifacts'' ms) (JList xs)))"

definition manifest_matches_revision ::
  "(string \<Rightarrow> json option) \<Rightarrow> string \<Rightarrow> revision_view \<Rightarrow> string \<Rightarrow> expected_file list \<Rightarrow> bool" where
  "manifest_matches_revision loads content rv revision_path files =
     (case loads content of
        Some (JObj ms) \<Rightarrow> manifest_fields_match rv revision_path files ms
      | _ \<Rightarrow> False)"

section \<open>Device directories are stable\<close>

lemma split_on_split:
  "split_on c (x @ y) = butlast (split_on c x) @ (last (split_on c x) @ hd (split_on c y)) # tl (split_on c y)"
proof (induction x)
  case Nil
  then show ?case by (cases "split_on c y") auto
next
  case (Cons a x)
  obtain v vs where v: "split_on c x = v # vs" by (cases "split_on c x") auto
  show ?case using Cons v by (cases vs) auto
qed

lemma join_split_on: "join_with [c] (split_on c s) = s"
proof (induction s)
  case (Cons a s)
  obtain v vs where v: "split_on c s = v # vs" by (cases "split_on c s") auto
  with Cons show ?case by (cases vs) auto
qed simp

abbreviation dot :: "char \<Rightarrow> bool" where "dot c \<equiv> c = CHR ''.''"
abbreviation dash :: "char \<Rightarrow> bool" where "dash c \<equiv> c = CHR ''-''"

lemma strip_eq_Nil: "strip P s = [] \<longleftrightarrow> (\<forall>c \<in> set s. P c)"
proof -
  have "(\<forall>c \<in> set (dropWhile P s). P c) \<longleftrightarrow> (\<forall>c \<in> set s. P c)"
    by (induction s) auto
  then show ?thesis by (simp add: strip_def rstrip_def lstrip_def)
qed

lemma rstrip_id: "s = [] \<or> \<not> P (last s) \<Longrightarrow> rstrip P s = s"
  by (cases s rule: rev_cases) (auto simp: rstrip_def)

lemma strip_id: "s = [] \<or> \<not> P (hd s) \<Longrightarrow> s = [] \<or> \<not> P (last s) \<Longrightarrow> strip P s = s"
  by (cases s) (auto simp: strip_def lstrip_def rstrip_id)

lemma sub_runs_id: "\<forall>c \<in> set s. \<not> P c \<Longrightarrow> sub_runs P s = s"
  by (induction s) auto

lemma sub_runs_dash_id: "\<forall>p \<in> set (tl (split_on (CHR ''-'') s)). p \<noteq> [] \<Longrightarrow> sub_runs dash s = s"
proof (induction s)
  case (Cons a s)
  obtain v vs where v: "split_on (CHR ''-'') s = v # vs" by (cases "split_on (CHR ''-'') s") auto
  show ?case
  proof (cases "a = CHR ''-''")
    case True
    with Cons.prems v have ne: "v \<noteq> []" "\<forall>p \<in> set vs. p \<noteq> []" by auto
    then have "dropWhile dash s = s" using v by (cases s) (auto split: if_splits)
    with True ne Cons.IH v show ?thesis by simp
  next
    case False
    with Cons v show ?thesis by simp
  qed
qed simp

definition stable_segment :: "string \<Rightarrow> bool" where
  "stable_segment s \<longleftrightarrow> s \<noteq> [] \<and> list_all segment_char s \<and> \<not> edge_char (hd s) \<and> \<not> edge_char (last s)
     \<and> (\<forall>p \<in> set (split_on (CHR ''-'') s). strip dot p \<noteq> []) \<and> length s \<le> 128"

lemma segment_not_space: "segment_char c \<Longrightarrow> \<not> ascii_space c"
  by (auto simp: segment_char_def ascii_alnum_def ascii_space_def Let_def)

lemma stable_segment_fixed:
  assumes "stable_segment s" "asc s = s"
  shows "device_directory_name asc (Some s) i = s"
proof -
  have ne: "s \<noteq> []" and seg: "\<forall>c \<in> set s. segment_char c"
    and pieces: "\<forall>p \<in> set (split_on (CHR ''-'') s). strip dot p \<noteq> []"
    and edges: "\<not> edge_char (hd s)" "\<not> edge_char (last s)" and len: "length s \<le> 128"
    using assms(1) by (auto simp: stable_segment_def list_all_iff)
  have 1: "strip ascii_space s = s"
    using ne seg by (intro strip_id) (auto simp: segment_not_space)
  have 2: "sub_runs (\<lambda>c. \<not> segment_char c) s = s"
    using seg by (intro sub_runs_id) auto
  have 3: "sub_runs dash s = s"
    using pieces by (intro sub_runs_dash_id) (metis list.set_sel(2) split_on_nonempty strip_eq_Nil empty_iff list.set(1))
  have 4: "filter (\<lambda>p. strip dot p \<noteq> []) (split_on (CHR ''-'') s) = split_on (CHR ''-'') s"
    using pieces by (intro filter_True) auto
  show ?thesis
    unfolding device_directory_name_def
    using ne edges len
    by (simp add: assms(2) 1 2 3 4 strip_id join_split_on max_device_segment_length_def rstrip_id del: filter_True)
qed

lemma prefix_pieces:
  assumes "\<forall>p \<in> set (split_on (CHR ''-'') (x @ y)). strip dot p \<noteq> []" "x \<noteq> []" "\<not> edge_char (last x)"
  shows "\<forall>p \<in> set (split_on (CHR ''-'') x). strip dot p \<noteq> []"
proof -
  let ?ps = "split_on (CHR ''-'') x"
  have "strip dot (last ?ps) \<noteq> []"
  proof -
    obtain x' a where x: "x = x' @ [a]" using assms(2) by (cases x rule: rev_cases) auto
    with assms(3) have a: "a \<noteq> CHR ''-''" "a \<noteq> CHR ''.''" by (auto simp: edge_char_def)
    then have "last ?ps = last (split_on (CHR ''-'') x') @ [a]"
      by (simp add: x split_on_split)
    with a show ?thesis by (simp add: strip_eq_Nil)
  qed
  moreover have "\<forall>p \<in> set (butlast ?ps). strip dot p \<noteq> []"
    using assms(1) by (simp add: split_on_split)
  moreover have "set ?ps \<subseteq> insert (last ?ps) (set (butlast ?ps))"
    by (metis append_butlast_last_id split_on_nonempty set_append list.set(1) list.set(2) Un_insert_right
        sup_bot.right_neutral subset_refl)
  ultimately show ?thesis by blast
qed

lemma split_on_join:
  "ps \<noteq> [] \<Longrightarrow> \<forall>p \<in> set ps. c \<notin> set p \<Longrightarrow> split_on c (join_with [c] ps) = ps"
proof (induction "[c]" ps rule: join_with.induct)
  case (2 p)
  then show ?case by (simp add: split_on_no_sep)
next
  case (3 p q ps)
  then show ?case by (simp add: split_on_append)
qed simp

lemma length_show_nat: "n < 10 ^ k \<Longrightarrow> 0 < k \<Longrightarrow> length (show_nat n) \<le> k"
proof (induction k arbitrary: n)
  case (Suc k)
  show ?case
  proof (cases "n < 10")
    case True
    then show ?thesis by (subst show_nat.simps) simp
  next
    case False
    then have "0 < k" using Suc.prems by (cases k) auto
    moreover have "n div 10 < 10 ^ k" using Suc.prems(1) by (simp add: less_mult_imp_div_less mult.commute)
    ultimately show ?thesis using False Suc.IH [of "n div 10"] by (subst show_nat.simps) simp
  qed
qed simp

lemma hd_lstrip: "lstrip P s \<noteq> [] \<Longrightarrow> \<not> P (hd (lstrip P s))"
  by (simp add: lstrip_def hd_dropWhile)

lemma rstrip_prefix: "\<exists>y. s = rstrip P s @ y"
  unfolding rstrip_def by (metis rev_append rev_rev_ident takeWhile_dropWhile_id)

lemma hd_rstrip: "rstrip P s \<noteq> [] \<Longrightarrow> hd (rstrip P s) = hd s"
  using rstrip_prefix [of s P] by (metis hd_append)

lemma hd_strip: "strip P s \<noteq> [] \<Longrightarrow> \<not> P (hd (strip P s))"
  using hd_lstrip [of P s] hd_rstrip [of P "lstrip P s"]
  by (metis strip_def rstrip_prefix append_Nil2 rstrip_id Nil_is_append_conv)

lemma joined_pieces:
  assumes "s = [] \<or> \<not> edge_char (hd s)"
  defines "t \<equiv> join_with ''-'' (filter (\<lambda>p. strip dot p \<noteq> []) (split_on (CHR ''-'') s))"
  shows "t = [] \<or> (\<not> edge_char (hd t) \<and> (\<forall>p \<in> set (split_on (CHR ''-'') t). strip dot p \<noteq> []))"
proof (cases s)
  case Nil
  then show ?thesis by (simp add: t_def strip_eq_Nil)
next
  case (Cons a s')
  with assms have a: "\<not> edge_char a" "a \<noteq> CHR ''-''" "a \<noteq> CHR ''.''" by (auto simp: edge_char_def)
  obtain v vs where v: "split_on (CHR ''-'') s' = v # vs" by (cases "split_on (CHR ''-'') s'") auto
  let ?ps = "(a # v) # filter (\<lambda>p. strip dot p \<noteq> []) vs"
  have ps: "filter (\<lambda>p. strip dot p \<noteq> []) (split_on (CHR ''-'') s) = ?ps"
    using Cons a v by (simp add: strip_eq_Nil)
  have "\<forall>p \<in> set ?ps. CHR ''-'' \<notin> set p"
    using ps set_split_on [of _ "CHR ''-''" s] by (metis (no_types, lifting) Diff_iff filter_is_subset insertI1 subset_iff)
  then have "split_on (CHR ''-'') t = ?ps"
    unfolding t_def ps by (intro split_on_join) auto
  moreover have "hd t = a"
    unfolding t_def ps by (cases "filter (\<lambda>p. strip dot p \<noteq> []) vs") auto
  ultimately show ?thesis using a ps by (auto simp: strip_eq_Nil)
qed

lemma safe_name_stable:
  assumes "safe_name asc n \<noteq> []"
  shows "stable_segment (safe_name asc n)"
proof -
  define s where "s = strip edge_char (sub_runs dash (sub_runs (\<lambda>c. \<not> segment_char c)
    (strip ascii_space (asc (case n of None \<Rightarrow> [] | Some n \<Rightarrow> n)))))"
  define t where "t = join_with ''-'' (filter (\<lambda>p. strip dot p \<noteq> []) (split_on (CHR ''-'') s))"
  have safe: "safe_name asc n = rstrip edge_char (take 128 t)"
    by (simp add: safe_name_def s_def t_def max_device_segment_length_def)
  have "s = [] \<or> \<not> edge_char (hd s)" unfolding s_def using hd_strip by blast
  note pieces = joined_pieces [OF this, folded t_def]
  have "t \<noteq> []" using assms by (auto simp: safe rstrip_def)
  with pieces have t: "t \<noteq> []" "\<not> edge_char (hd t)"
    "\<forall>p \<in> set (split_on (CHR ''-'') t). strip dot p \<noteq> []"
    by simp_all
  obtain y where y: "t = safe_name asc n @ y"
    using rstrip_prefix [of "take 128 t" edge_char] unfolding safe by (metis append_assoc append_take_drop_id)
  have l: "\<not> edge_char (last (safe_name asc n))" by (metis assms last_rstrip safe)
  have "\<forall>p \<in> set (split_on (CHR ''-'') (safe_name asc n)). strip dot p \<noteq> []"
    by (rule prefix_pieces [OF t(3) [unfolded y] assms l])
  moreover have "hd (safe_name asc n) = hd t"
    using assms t(1) unfolding safe by (simp add: hd_rstrip)
  ultimately show ?thesis
    using assms t(2) l safe_name_chars [of _ asc n] length_safe_name [of asc n]
    by (simp add: stable_segment_def list_all_iff)
qed

lemma ascii_alnum_edge: "ascii_alnum c \<Longrightarrow> \<not> edge_char c"
  by (auto simp: ascii_alnum_def edge_char_def)

lemma device_number_stable:
  assumes "0 \<le> i" "i < 2 ^ 63"
  shows "stable_segment (''device-'' @ show_int i)"
proof -
  have n: "show_int i = show_nat (nat i)" using assms(1) by (simp add: show_int_def)
  have al: "c \<in> set (show_nat (nat i)) \<Longrightarrow> ascii_alnum c" for c by (rule show_nat_segment)
  have l: "length (show_nat (nat i)) \<le> 20"
    using assms by (intro length_show_nat) (simp_all add: nat_less_iff)
  have nodash: "CHR ''-'' \<notin> set (show_nat (nat i))" "CHR ''.'' \<notin> set (show_nat (nat i))"
    using al [of "CHR ''-''"] al [of "CHR ''.''"] by (auto simp: ascii_alnum_def)
  have named: "strip dot (show_nat (nat i)) \<noteq> []"
    using nodash(2) last_in_set [OF show_nat_nonempty [of "nat i"]] unfolding strip_eq_Nil by metis
  have "split_on (CHR ''-'') (''device'' @ CHR ''-'' # show_nat (nat i)) = [''device'', show_nat (nat i)]"
    using nodash by (subst split_on_append) (auto simp: split_on_no_sep)
  then have "\<forall>p \<in> set (split_on (CHR ''-'') (''device-'' @ show_int i)). strip dot p \<noteq> []"
    using named by (simp add: n strip_eq_Nil)
  moreover have "list_all segment_char (''device-'' @ show_int i)"
    using al by (simp add: n list_all_iff segment_char_def ascii_alnum_def)
  moreover have "\<not> edge_char (last (show_nat (nat i)))"
    by (intro ascii_alnum_edge al) simp
  ultimately show ?thesis using l by (simp add: stable_segment_def n edge_char_def)
qed

lemma device_directory_stable: "0 \<le> i \<Longrightarrow> i < 2 ^ 63 \<Longrightarrow> stable_segment (device_directory_name asc n i)"
  using device_number_stable [of i] by (simp add: device_directory_name_alt safe_name_stable)

section \<open>Recorded paths stay below the destination\<close>

definition clean_segment :: "string \<Rightarrow> bool" where
  "clean_segment p \<longleftrightarrow> p \<noteq> [] \<and> p \<noteq> ''.'' \<and> p \<noteq> ''..'' \<and> CHR ''/'' \<notin> set p"

definition abs_path :: "string list \<Rightarrow> string" where
  "abs_path segs = ''/'' @ join_with ''/'' segs"

lemma split_abs_path:
  assumes "list_all clean_segment segs"
  shows "split_on (CHR ''/'') (abs_path segs) = [] # (if segs = [] then [[]] else segs)"
proof (cases "segs = []")
  case False
  moreover have "\<forall>p \<in> set segs. CHR ''/'' \<notin> set p" using assms by (auto simp: list_all_iff clean_segment_def)
  ultimately have "split_on (CHR ''/'') (join_with ''/'' segs) = segs" by (rule split_on_join)
  with False show ?thesis by (simp add: abs_path_def)
qed (simp add: abs_path_def)

lemma path_parts_abs [simp]: "list_all clean_segment segs \<Longrightarrow> path_parts (abs_path segs) = segs"
  by (auto simp: path_parts_def split_abs_path list_all_iff clean_segment_def intro!: filter_True)

lemma join_Cons: "join_with sep (p # ps) = p @ (if ps = [] then [] else sep @ join_with sep ps)"
  by (cases ps) auto

lemma root_abs [simp]: "list_all clean_segment segs \<Longrightarrow> root_part (abs_path segs) = ''/''"
  by (cases segs; cases "hd segs")
     (auto simp: root_part_def abs_path_def join_Cons clean_segment_def)

lemma all_parts_abs [simp]: "list_all clean_segment segs \<Longrightarrow> all_parts (abs_path segs) = ''/'' # segs"
  by (simp add: all_parts_def) (simp add: abs_path_def is_absolute_def)

lemma norm_clean:
  "list_all clean_segment segs \<Longrightarrow> list_all clean_segment acc \<Longrightarrow> foldl (norm_step True) acc segs = acc @ segs"
  by (induction segs arbitrary: acc) (auto simp: clean_segment_def)

lemma normpath_abs [simp]: "list_all clean_segment segs \<Longrightarrow> normpath (abs_path segs) = abs_path segs"
  by (simp add: normpath_def split_abs_path norm_clean Let_def)
     (simp add: abs_path_def is_absolute_def norm_clean)

lemma norm_result_clean:
  "\<forall>p \<in> set ps. CHR ''/'' \<notin> set p \<Longrightarrow> list_all clean_segment acc \<Longrightarrow> list_all clean_segment (foldl (norm_step True) acc ps)"
proof (induction ps arbitrary: acc)
  case (Cons p ps)
  have "list_all clean_segment (norm_step True acc p)"
    using Cons.prems by (auto simp: clean_segment_def list_all_iff dest: in_set_butlastD)
  with Cons show ?case by (simp del: norm_step.simps)
qed simp

lemma normal_path:
  assumes "p = normpath p" "is_absolute p" "root_part p = ''/''"
  obtains segs where "list_all clean_segment segs" "p = abs_path segs"
proof
  let ?segs = "foldl (norm_step True) [] (split_on (CHR ''/'') p)"
  show "list_all clean_segment ?segs"
    using set_split_on [of _ "CHR ''/''" p] by (intro norm_result_clean) auto
  have "p \<noteq> []" using assms(2) by (auto simp: is_absolute_def)
  then show "p = abs_path ?segs"
    by (subst assms(1)) (simp add: normpath_def abs_path_def assms(2,3) Let_def)
qed

lemma accepted_path_shape:
  assumes "validate_recorded_revision_path asc base rv remote_path code = Inr (layout, segment)"
  shows "\<exists>leaf. remote_path = abs_path (path_parts (canonical_base base) @ [''devices'', segment, layout] @ leaf)
    \<and> list_all clean_segment (path_parts remote_path)
    \<and> path_parts remote_path = path_parts (canonical_base base) @ [''devices'', segment, layout] @ leaf
    \<and> (layout = ''revisions'' \<and> leaf = [rv_uuid rv]
       \<or> layout = ''backups'' \<and> leaf \<noteq> [] \<and> length leaf \<le> 2)"
proof -
  let ?prefix = "''/'' # path_parts (canonical_base base) @ [''devices'']"
  let ?suffix = "drop (length ?prefix) (all_parts remote_path)"
  from assms have ok: "\<not> path_invalid base remote_path" "take (length ?prefix) (all_parts remote_path) = ?prefix"
    "length ?suffix = 3 \<or> length ?suffix = 4" "?suffix ! 0 = segment" "?suffix ! 1 = layout"
    "valid_leaf rv layout (drop 2 ?suffix) = Some True"
    by (auto simp: validate_recorded_revision_path_def Let_def split: if_splits option.splits bool.splits)
  from ok(1) have abs: "is_absolute remote_path" "remote_path = normpath remote_path"
    by (simp_all add: path_invalid_def)
  have "root_part remote_path = ''/''"
    using ok(2) abs(1) by (simp add: all_parts_def)
  with abs obtain segs where segs: "list_all clean_segment segs" "remote_path = abs_path segs"
    by (metis normal_path)
  define leaf where "leaf = drop 2 ?suffix"
  have suffix: "?suffix = segment # layout # leaf"
    using ok(3-5) by (cases ?suffix; cases "tl ?suffix") (auto simp: leaf_def)
  have "all_parts remote_path = ?prefix @ ?suffix"
    by (metis append_take_drop_id ok(2))
  with suffix segs have parts: "segs = path_parts (canonical_base base) @ [''devices'', segment, layout] @ leaf"
    by simp
  moreover have "layout = ''revisions'' \<and> leaf = [rv_uuid rv] \<or> layout = ''backups'' \<and> leaf \<noteq> [] \<and> length leaf \<le> 2"
    using ok(6) unfolding leaf_def [symmetric]
    by (cases leaf; cases "tl leaf") (auto simp: valid_leaf_def Let_def split: if_splits)
  ultimately show ?thesis using segs by auto
qed



lemma join_snoc: "ps \<noteq> [] \<Longrightarrow> join_with sep (ps @ [q]) = join_with sep ps @ sep @ q"
  by (induction sep ps rule: join_with.induct) auto

lemma set_join_with_super: "p \<in> set ps \<Longrightarrow> set p \<subseteq> set (join_with sep ps)"
  by (induction sep ps rule: join_with.induct) auto

lemma last_join: "list_all clean_segment ps \<Longrightarrow> ps \<noteq> [] \<Longrightarrow> last (join_with ''/'' ps) \<noteq> CHR ''/'' \<and> join_with ''/'' ps \<noteq> []"
  by (induction "''/''" ps rule: join_with.induct) (auto simp: clean_segment_def dest: last_in_set)

lemma posix_join_clean:
  "list_all clean_segment (as @ ps) \<Longrightarrow> posix_join (join_with ''/'' as) ps = join_with ''/'' (as @ ps)"
proof (induction ps arbitrary: as)
  case (Cons p ps)
  then have "take 1 p \<noteq> ''/''" by (cases p) (auto simp: clean_segment_def)
  moreover have "as \<noteq> [] \<Longrightarrow> last (join_with ''/'' as) \<noteq> CHR ''/'' \<and> join_with ''/'' as \<noteq> []"
    using Cons.prems by (intro last_join) auto
  ultimately have "posix_join2 (join_with ''/'' as) p = join_with ''/'' (as @ [p])"
    by (cases "as = []") (auto simp: posix_join2_def join_snoc)
  with Cons.IH [of "as @ [p]"] Cons.prems show ?case
    by (simp add: posix_join_def)
qed (simp add: posix_join_def)

lemma zero_pad_digits: "c \<in> set (zero_pad w i) \<Longrightarrow> ascii_alnum c"
  using show_nat_segment [of c "nat i"] by (auto simp: zero_pad_def Let_def ascii_alnum_def)

lemma show_int_chars: "c \<in> set (show_int i) \<Longrightarrow> ascii_alnum c \<or> c = CHR ''-''"
  using show_nat_segment [of c] by (auto simp: show_int_def split: if_splits)

lemma timestamp_chars: "c \<in> set (backup_creation_timestamp d) \<Longrightarrow> segment_char c"
  using show_int_chars zero_pad_digits
  unfolding backup_creation_timestamp_def Let_def segment_char_def by auto

lemma timestamp_clean: "CHR ''_'' \<in> set (backup_creation_timestamp d)"
  by (simp add: backup_creation_timestamp_def Let_def)

lemma segment_char_safe: "segment_char c \<Longrightarrow> c \<noteq> CHR ''/'' \<and> c \<noteq> CHR 0x5C \<and> c \<noteq> CHR 0x00 \<and> \<not> (of_char c :: nat) < 32"
  by (auto simp: segment_char_def ascii_alnum_def Let_def)

lemma segment_clean:
  "\<forall>c \<in> set p. segment_char c \<Longrightarrow> \<exists>c \<in> set p. c \<noteq> CHR ''.'' \<Longrightarrow> clean_segment p"
  unfolding clean_segment_def using segment_char_safe [of "CHR ''/''"] by auto

lemma stable_segment_clean: "stable_segment s \<Longrightarrow> clean_segment s"
  by (rule segment_clean) (auto simp: stable_segment_def list_all_iff edge_char_def intro!: bexI [of _ "hd s"])

lemma safe_text_iff: "\<not> unsafe_text s \<longleftrightarrow> (\<forall>c \<in> set s. c \<noteq> CHR 0x5C \<and> c \<noteq> CHR 0x00 \<and> \<not> (of_char c :: nat) < 32)"
  by (auto simp: unsafe_text_def list_ex_iff)


lemma canonical_base_abs: "strip slash base = join_with ''/'' bs \<Longrightarrow> list_all clean_segment bs \<Longrightarrow> canonical_base base = abs_path bs"
  using last_join [of bs] by (cases "bs = []") (auto simp: canonical_base_def abs_path_def Let_def)

lemma ftp_revision_path_abs:
  assumes base: "strip slash base = join_with ''/'' bs" "list_all clean_segment bs"
    and id: "0 \<le> i" "i < 2 ^ 63" and pk: "0 < pk"
  shows "ftp_revision_destination_path asc base n i t (Some pk) None
    = Inr (abs_path (bs @ [''devices'', device_directory_name asc n i, ''backups'',
                            backup_creation_timestamp t @ ''-r'' @ show_int pk]))"
proof -
  let ?seg = "device_directory_name asc n i"
  have seg: "clean_segment ?seg" using id by (intro stable_segment_clean device_directory_stable)
  have ts: "clean_segment (backup_creation_timestamp t)"
    using timestamp_chars timestamp_clean [of t] by (intro segment_clean) auto
  have clean: "list_all clean_segment (bs @ [''devices'', ?seg, ''backups'', backup_creation_timestamp t])"
    using base(2) seg ts by (simp add: clean_segment_def)
  have snoc: "join_with ''/'' (bs @ [''devices'', ?seg, ''backups'', x]) = join_with ''/'' (bs @ [''devices'', ?seg, ''backups'']) @ ''/'' @ x" for x
    using join_snoc [of "bs @ [''devices'', ?seg, ''backups'']" "''/''" x] by simp
  let ?p = "join_with ''/'' (bs @ [''devices'', ?seg, ''backups'', backup_creation_timestamp t @ ''-r'' @ show_int pk])"
  have "lstrip slash ?p = ?p"
  proof -
    obtain b r where "bs @ [''devices'', ?seg, ''backups''] = b # r" by (cases bs) auto
    moreover from this clean have "clean_segment b" by (cases bs) auto
    ultimately show ?thesis
      unfolding snoc by (cases b) (auto simp: lstrip_def join_Cons clean_segment_def)
  qed
  moreover have "posix_join (strip slash base) [''devices'', ?seg, ''backups'', backup_creation_timestamp t]
      @ ''-r'' @ show_int pk = ?p"
    unfolding base(1) posix_join_clean [OF clean] snoc by simp
  ultimately show ?thesis
    using pk by (simp add: ftp_revision_destination_path_def Let_def abs_path_def)
qed

text \<open>
  Replication and the later audits, deletions and recoveries agree on the path of a copy: on a destination with
  a canonical base path, the path computed for a new copy passes the validation of recorded paths, with the device
  directory it was built from, whatever the device is called. \<open>asc\<close> leaves plain ASCII names unchanged; the second
  clause is the case of a device renamed since.
\<close>

theorem recorded_path_accepted:
  assumes base: "strip slash base = join_with ''/'' bs" "list_all clean_segment bs" "\<not> unsafe_text (strip slash base)"
    and ids: "0 \<le> rv_device_id rv" "rv_device_id rv < 2 ^ 63" "0 < rv_pk rv"
    and asc: "\<And>s. list_all segment_char s \<Longrightarrow> asc s = s"
    and path: "ftp_revision_destination_path asc base (rv_device_name rv) (rv_device_id rv) (Aware (rv_created rv))
        (Some (rv_pk rv)) None = Inr path"
  shows "validate_recorded_revision_path asc base (rv\<lparr>rv_device_name := renamed\<rparr>) path code
    = Inr (''backups'', device_directory_name asc (rv_device_name rv) (rv_device_id rv))"
proof -
  let ?seg = "device_directory_name asc (rv_device_name rv) (rv_device_id rv)"
  let ?leaf = "backup_creation_timestamp (Aware (rv_created rv)) @ ''-r'' @ show_int (rv_pk rv)"
  let ?segs = "bs @ [''devices'', ?seg, ''backups'', ?leaf]"
  have path: "path = abs_path ?segs"
    using ftp_revision_path_abs [OF base(1,2) ids] path by simp
  have stable: "stable_segment ?seg" using ids by (intro device_directory_stable)
  have leaf: "\<forall>c \<in> set ?leaf. segment_char c"
    using timestamp_chars show_int_chars [of _ "rv_pk rv"] by (auto simp: segment_char_def ascii_alnum_def)
  then have "clean_segment ?leaf"
    using timestamp_clean [of "Aware (rv_created rv)"] by (intro segment_clean) auto
  moreover have "clean_segment ?seg" "clean_segment ''devices''" "clean_segment ''backups''"
    using stable by (simp_all add: stable_segment_clean) (simp_all add: clean_segment_def)
  ultimately have clean: "list_all clean_segment ?segs"
    using base(2) by simp
  have fixed: "device_directory_name asc (Some ?seg) (rv_device_id rv) = ?seg"
    using stable asc by (intro stable_segment_fixed) (auto simp: stable_segment_def)
  have "\<not> unsafe_text path"
  proof -
    have "set path \<subseteq> {CHR ''/''} \<union> (\<Union>p \<in> set ?segs. set p)"
      using set_join_with [of "''/''" ?segs] by (auto simp: path abs_path_def)
    moreover have "set p \<subseteq> set (strip slash base) \<or> (\<forall>c \<in> set p. segment_char c)" if "p \<in> set ?segs" for p
    proof (cases "p \<in> set bs")
      case True
      then show ?thesis unfolding base(1) by (simp add: set_join_with_super)
    next
      case False
      with that consider "p = ''devices''" | "p = ?seg" | "p = ''backups''" | "p = ?leaf" by auto
      then show ?thesis using stable leaf by cases (auto simp: stable_segment_def list_all_iff segment_char_def ascii_alnum_def)
    qed
    ultimately have "c = CHR ''/'' \<or> c \<in> set (strip slash base) \<or> segment_char c" if "c \<in> set path" for c
      using that by blast
    then show ?thesis
      using base(3) segment_char_safe unfolding safe_text_iff by fastforce
  qed
  then have "\<not> path_invalid base path"
    using clean base(2,3) by (simp add: path_invalid_def path canonical_base_abs [OF base(1,2)]) (simp add: abs_path_def is_absolute_def)
  then show ?thesis
    using clean base(2) fixed
    by (simp add: validate_recorded_revision_path_def path canonical_base_abs [OF base(1,2)] Let_def valid_leaf_def)
qed


theorem recorded_path_accepted_witness:
  "ftp_revision_destination_path id ''nas/cfg'' (Some ''core sw#1'') 3 (Aware 63839761445000000) (Some 7) None
     = Inr ''/nas/cfg/devices/core-sw-1/backups/2024-01-02_03-04-05-r7''
   \<and> validate_recorded_revision_path id ''nas/cfg'' \<lparr>rv_pk = 7, rv_uuid = ''u'', rv_device_id = 3, rv_device_name = Some ''new'',
       rv_driver_id = ''d'', rv_created = 63839761445000000, rv_artifacts = []\<rparr>
       ''/nas/cfg/devices/core-sw-1/backups/2024-01-02_03-04-05-r7'' ''E'' = Inr (''backups'', ''core-sw-1'')"
proof -
  let ?rv = "\<lparr>rv_pk = 7, rv_uuid = ''u'', rv_device_id = 3, rv_device_name = Some ''core sw#1'',
       rv_driver_id = ''d'', rv_created = 63839761445000000, rv_artifacts = []\<rparr>"
  have base: "strip slash ''nas/cfg'' = join_with ''/'' [''nas'', ''cfg'']" by code_simp
  have path: "ftp_revision_destination_path id ''nas/cfg'' (Some ''core sw#1'') 3 (Aware 63839761445000000) (Some 7) None
     = Inr ''/nas/cfg/devices/core-sw-1/backups/2024-01-02_03-04-05-r7''" by code_simp
  have name: "device_directory_name id (Some ''core sw#1'') 3 = ''core-sw-1''" by code_simp
  from recorded_path_accepted [of "''nas/cfg''" "[''nas'', ''cfg'']" ?rv id "''/nas/cfg/devices/core-sw-1/backups/2024-01-02_03-04-05-r7''"
      "Some ''new''" "''E''", OF base] path name
  show ?thesis by (simp add: clean_segment_def unsafe_text_def base)
qed

section \<open>A manifest is recognised\<close>

lemma accepted_all_parts:
  assumes "validate_recorded_revision_path asc base rv path code = Inr (''backups'', seg)"
  shows "\<exists>pre leaf. rev (all_parts path) = rev leaf @ [''backups'', seg] @ pre \<and> leaf \<noteq> [] \<and> length leaf \<le> 2"
proof -
  from accepted_path_shape [OF assms] obtain leaf where
    "path = abs_path (path_parts (canonical_base base) @ [''devices'', seg, ''backups''] @ leaf)"
    "list_all clean_segment (path_parts path)"
    "path_parts path = path_parts (canonical_base base) @ [''devices'', seg, ''backups''] @ leaf"
    "leaf \<noteq> []" "length leaf \<le> 2"
    by auto
  moreover from this have "all_parts path = ''/'' # path_parts path" by (metis all_parts_abs path_parts_abs)
  ultimately show ?thesis
    by (intro exI [of _ "''devices'' # rev (path_parts (canonical_base base)) @ [''/'']"] exI [of _ leaf]) simp
qed

lemma accepted_backup_path:
  assumes "validate_recorded_revision_path asc base rv path code = Inr (''backups'', seg)" "seg \<noteq> ''backups''"
  shows "uses_readable_ftp_layout path"
    "readable_stem_from_revision_path asc path rv = Some (backup_filename_stem asc (Some seg) (rv_device_id rv) (Aware (rv_created rv)))"
    "manifest_fields_match rv path files ms \<longleftrightarrow>
       set (map fst ms) = set manifest_keys \<and> is_string (jget ''device_name'' ms)
         \<and> json_eq (jget ''schema'' ms) (JInt 2)
         \<and> json_eq (jget ''revision_uuid'' ms) (JStr (rv_uuid rv))
         \<and> json_eq (jget ''device_id'' ms) (JInt (rv_device_id rv))
         \<and> json_eq (jget ''device_directory'' ms) (JStr seg)
         \<and> json_eq (jget ''driver_id'' ms) (JStr (rv_driver_id rv))
         \<and> json_eq (jget ''created'' ms) (JStr (dt_isoformat (rv_created rv)))
         \<and> (case expected_manifest_artifacts rv files of
              None \<Rightarrow> False | Some xs \<Rightarrow> json_eq (jget ''artifacts'' ms) (JList xs))"
proof -
  obtain pre leaf where p: "rev (all_parts path) = rev leaf @ [''backups'', seg] @ pre" "leaf \<noteq> []" "length leaf \<le> 2"
    using accepted_all_parts [OF assms(1)] by auto
  then have parts: "all_parts path = rev pre @ [seg, ''backups''] @ leaf" by (metis rev_rev_ident rev_append rev.simps append.simps append_assoc)
  consider l where "leaf = [l]" | l1 l2 where "leaf = [l1, l2]"
    using p(2,3) by (cases leaf; cases "tl leaf"; cases "tl (tl leaf)") auto
  note leaf = this
  show 1: "uses_readable_ftp_layout path"
    using leaf by cases (simp_all add: uses_readable_ftp_layout_def parts nth_append Let_def)
  show "readable_stem_from_revision_path asc path rv = Some (backup_filename_stem asc (Some seg) (rv_device_id rv) (Aware (rv_created rv)))"
    using leaf assms(2) by cases (simp_all add: readable_stem_from_revision_path_def p(1) Let_def)
  show "manifest_fields_match rv path files ms \<longleftrightarrow>
       set (map fst ms) = set manifest_keys \<and> is_string (jget ''device_name'' ms)
         \<and> json_eq (jget ''schema'' ms) (JInt 2)
         \<and> json_eq (jget ''revision_uuid'' ms) (JStr (rv_uuid rv))
         \<and> json_eq (jget ''device_id'' ms) (JInt (rv_device_id rv))
         \<and> json_eq (jget ''device_directory'' ms) (JStr seg)
         \<and> json_eq (jget ''driver_id'' ms) (JStr (rv_driver_id rv))
         \<and> json_eq (jget ''created'' ms) (JStr (dt_isoformat (rv_created rv)))
         \<and> (case expected_manifest_artifacts rv files of
              None \<Rightarrow> False | Some xs \<Rightarrow> json_eq (jget ''artifacts'' ms) (JList xs))"
    using leaf assms(2) 1 by cases (simp_all add: manifest_fields_match_def p(1) Let_def)
qed

lemma find_mapped:
  "distinct (map g as) \<Longrightarrow> a \<in> set as \<Longrightarrow> (\<And>a. t (F a) = g a) \<Longrightarrow> find (\<lambda>x. t x = g a) (rev (map F as)) = Some (F a)"
proof (induction as rule: rev_induct)
  case (snoc b as)
  then show ?case by (cases "a = b") auto
qed simp

lemma expected_artifact_files_map:
  "expected_artifact_files asc rv r s seen as = Inr xs \<Longrightarrow>
   xs = map (\<lambda>a. \<lparr>xf_filename = remote_filename asc rv r s a, xf_size = a_size a, xf_sha256 = a_raw_hash a,
                  xf_artifact_type = a_artifact_type a\<rparr>) as"
  by (induction as arbitrary: seen xs) (auto simp: Let_def result_simps split: if_splits)

lemma expected_manifest_artifacts_eq:
  assumes "expected_revision_files e asc rv r s d = Inr files"
    and "distinct (map a_artifact_type (rv_artifacts rv))" "''manifest'' \<notin> a_artifact_type ` set (rv_artifacts rv)"
  shows "expected_manifest_artifacts rv files = Some (map (\<lambda>a. manifest_artifact a (remote_filename asc rv r s a)) (rv_artifacts rv))"
proof -
  let ?F = "\<lambda>a. \<lparr>xf_filename = remote_filename asc rv r s a, xf_size = a_size a, xf_sha256 = a_raw_hash a,
                  xf_artifact_type = a_artifact_type a\<rparr>"
  from assms(1) obtain xs m where files: "files = xs @ [m]" "xf_artifact_type m = ''manifest''"
    "xs = map ?F (rv_artifacts rv)"
    by (auto simp: expected_revision_files_def result_simps Let_def dest: expected_artifact_files_map)
  have "filter (\<lambda>x. xf_artifact_type x \<noteq> ''manifest'') files = map ?F (rv_artifacts rv)"
  proof -
    have "filter (\<lambda>x. xf_artifact_type x \<noteq> ''manifest'') (map ?F (rv_artifacts rv)) = map ?F (rv_artifacts rv)"
      by (rule filter_True) (use assms(3) in \<open>force simp: image_iff\<close>)
    with files show ?thesis by simp
  qed
  moreover have "find (\<lambda>x. xf_artifact_type x = a_artifact_type a) (rev (map ?F (rv_artifacts rv))) = Some (?F a)"
    if "a \<in> set (rv_artifacts rv)" for a
    using assms(2) that by (intro find_mapped) auto
  ultimately show ?thesis
    by (auto simp: expected_manifest_artifacts_def Let_def list_all_iff)
qed

lemma json_eq_string: "json_eq x (JStr s) \<longleftrightarrow> x = JStr s"
  by (cases x) auto

lemma json_members_eqD: "json_members_eq ms ys \<Longrightarrow> map_of ms k = Some x \<Longrightarrow> \<exists>y. map_of ys k = Some y \<and> json_eq x y"
  by (induction ms) (auto split: if_splits option.splits)

lemma json_members_keys: "json_members_eq ms ys \<Longrightarrow> fst ` set ms \<subseteq> fst ` set ys"
proof (induction ms)
  case (Cons m ms)
  then obtain y where "map_of ys (fst m) = Some y" by (cases m) (auto split: option.splits)
  then have "fst m \<in> fst ` set ys" by (metis map_of_SomeD fst_conv image_eqI)
  with Cons show ?case by (cases m) auto
qed simp

lemma parsed_object:
  assumes "json_eq (JObj ms) (JObj ys)" "distinct (map fst ms)"
  shows "set (map fst ms) = fst ` set ys" "map_of ys k = Some y \<Longrightarrow> json_eq (jget k ms) y"
proof -
  have eq: "length ms = length ys" "json_members_eq ms ys" using assms(1) by auto
  have "card (fst ` set ms) = length ms" using assms(2) by (metis distinct_card length_map list.set_map)
  moreover have "card (fst ` set ys) \<le> length ys" by (metis card_length length_map list.set_map)
  ultimately show keys: "set (map fst ms) = fst ` set ys"
    using json_members_keys [OF eq(2)] eq(1) by (simp add: card_seteq)
  assume y: "map_of ys k = Some y"
  then have "k \<in> set (map fst ms)" unfolding keys by (force dest: map_of_SomeD)
  then obtain x where x: "map_of ms k = Some x" by (metis list.set_map map_of_eq_None_iff not_Some_eq)
  from json_members_eqD [OF eq(2) x] x y show "json_eq (jget k ms) y" by (auto simp: jget_def)
qed

lemma valid_leaf_renamed: "valid_leaf (rv\<lparr>rv_device_name := n\<rparr>) = valid_leaf rv"
  by (intro ext) (simp add: valid_leaf_def cong: if_cong)

lemma validate_renamed:
  "validate_recorded_revision_path asc base (rv\<lparr>rv_device_name := n\<rparr>) path code = validate_recorded_revision_path asc base rv path code"
  unfolding validate_recorded_revision_path_def valid_leaf_renamed by (simp cong: if_cong)

lemma remote_filename_renamed:
  "st \<noteq> [] \<Longrightarrow> remote_filename asc (rv\<lparr>rv_device_name := n\<rparr>) True (Some st) a = remote_filename asc rv True (Some st) a"
  by (simp add: remote_filename_def readable_artifact_filename_def Let_def)

lemma stem_nonempty [simp]: "backup_filename_stem asc n i t \<noteq> []"
  by (simp add: backup_filename_stem_def)


definition sample_file :: config_artifact where
  "sample_file = \<lparr>a_pk = 31, a_revision_id = 7, a_artifact_type = ''running_config'', a_format = ''text'',
     a_storage_key = ''devices/3/revisions/uuid-7/running.cfg'', a_size = 3, a_raw_hash = ''x'',
     a_normalized_hash = ''h'', a_is_primary = True, a_local_available = True, a_local_deleted_at = None\<rparr>"

definition sample_view :: revision_view where
  "sample_view = \<lparr>rv_pk = 7, rv_uuid = ''uuid-7'', rv_device_id = 3, rv_device_name = Some ''core-1'', rv_driver_id = ''cisco_ios'',
     rv_created = 63839761445000000, rv_artifacts = [sample_file]\<rparr>"

definition sample_remote_path :: string where
  "sample_remote_path = ''/nas/devices/core-1/backups/2024-01-02_03-04-05-r7''"

definition sample_payload :: json where
  "sample_payload = manifest_payload id sample_view True (Some ''core-1_2024-01-02_03-04-05'') (Some ''core-1'')"


text \<open>
  A device called \<open>backups\<close>: the third component from the end of its path is the device directory, which
  \<open>_manifest_matches_revision\<close> takes for the layout, so its own manifest is never recognised.
\<close>

theorem device_named_backups:
  "ftp_revision_destination_path id ''nas'' (Some ''backups'') 3 (Aware 63839761445000000) (Some 7) None
     = Inr ''/nas/devices/backups/backups/2024-01-02_03-04-05-r7''
   \<and> readable_stem_from_revision_path id ''/nas/devices/backups/backups/2024-01-02_03-04-05-r7'' sample_view
     = Some ''devices_2024-01-02_03-04-05''
   \<and> (\<forall>files. \<not> manifest_matches_revision
        (\<lambda>_. Some (manifest_payload id (sample_view\<lparr>rv_device_name := Some ''backups''\<rparr>) True (Some ''devices_2024-01-02_03-04-05'') (Some ''backups'')))
        content (sample_view\<lparr>rv_device_name := Some ''backups''\<rparr>) ''/nas/devices/backups/backups/2024-01-02_03-04-05-r7'' files)"
proof (intro conjI allI)
  show "ftp_revision_destination_path id ''nas'' (Some ''backups'') 3 (Aware 63839761445000000) (Some 7) None
     = Inr ''/nas/devices/backups/backups/2024-01-02_03-04-05-r7''" by code_simp
  show "readable_stem_from_revision_path id ''/nas/devices/backups/backups/2024-01-02_03-04-05-r7'' sample_view
     = Some ''devices_2024-01-02_03-04-05''" by code_simp
  have parts: "rev (all_parts ''/nas/devices/backups/backups/2024-01-02_03-04-05-r7'')
      = [''2024-01-02_03-04-05-r7'', ''backups'', ''backups'', ''devices'', ''nas'', ''/'']" by code_simp
  fix files
  show "\<not> manifest_matches_revision
        (\<lambda>_. Some (manifest_payload id (sample_view\<lparr>rv_device_name := Some ''backups''\<rparr>) True (Some ''devices_2024-01-02_03-04-05'') (Some ''backups'')))
        content (sample_view\<lparr>rv_device_name := Some ''backups''\<rparr>) ''/nas/devices/backups/backups/2024-01-02_03-04-05-r7'' files"
    by (simp add: manifest_matches_revision_def manifest_payload_def manifest_fields_match_def parts Let_def jget_def or_string_def)
qed

text \<open>
  A device without a name: NetBox allows it, the manifest then says \<open>null\<close>, and \<open>_manifest_matches_revision\<close>
  insists on a string.
\<close>

theorem device_without_name:
  "\<not> manifest_matches_revision (\<lambda>_. Some (manifest_payload asc (rv\<lparr>rv_device_name := None\<rparr>) readable stem dir)) content now path files"
  by (simp add: manifest_matches_revision_def manifest_payload_def manifest_fields_match_def jget_def optional_string_def Let_def)

end
