(* ===== verification/Ftp_Client.thy ===== *)
theory Ftp_Client
  imports Remote_Files
begin

text \<open>
  The FTP destination, \<open>services/destination_ftp.py\<close>, over an arbitrary server. \<open>ftplib\<close> and the server behind it
  are a record of commands, each of which may answer anything or raise; the client's state is the server's state and
  the log of the commands it has been sent. The theorems on deletion, audit and upload hold for every such
  server.
\<close>

section \<open>Commands\<close>

datatype ftp_event =
    Cwd string
  | Nlst "string option"
  | Mkd string
  | Dele string
  | Rmd string
  | Rename string string bool
  | Stor string string
  | TypeI
  | Size string
  | Retr string "string result"
  | Connect
  | Quit

datatype connect_failure = Rejected | ConnectionRefused | TimedOut | ConnectFailed | ConnectRaised exn

text \<open>\<open>retrbinary\<close> hands the chunks it receives to its callback, then returns or raises.\<close>

record 's ftp_server =
  sv_connect :: "backup_destination \<Rightarrow> credential_material \<Rightarrow> 's \<Rightarrow> (connect_failure + unit) \<times> 's"
  sv_cwd :: "string \<Rightarrow> ('s, unit) prog"
  sv_nlst :: "string option \<Rightarrow> ('s, string list) prog"
  sv_mkd :: "string \<Rightarrow> ('s, unit) prog"
  sv_delete :: "string \<Rightarrow> ('s, unit) prog"
  sv_rmd :: "string \<Rightarrow> ('s, unit) prog"
  sv_rename :: "string \<Rightarrow> string \<Rightarrow> ('s, unit) prog"
  sv_stor :: "string \<Rightarrow> string \<Rightarrow> ('s, unit) prog"
  sv_type_i :: "('s, unit) prog"
  sv_size :: "string \<Rightarrow> ('s, int option) prog"
  sv_retr :: "string \<Rightarrow> 's \<Rightarrow> (string list \<times> exn option) \<times> 's"
  sv_quit :: "'s \<Rightarrow> 's"

record 's ftp =
  ftp_log :: "ftp_event list"
  ftp_net :: 's

definition ftp_call :: "('a result \<Rightarrow> ftp_event) \<Rightarrow> ('s, 'a) prog \<Rightarrow> ('s ftp, 'a) prog" where
  "ftp_call ev m f = (case m (ftp_net f) of (r, n) \<Rightarrow> (r, \<lparr>ftp_log = ftp_log f @ [ev r], ftp_net = n\<rparr>))"

definition ftp_cwd :: "'s ftp_server \<Rightarrow> string \<Rightarrow> ('s ftp, unit) prog" where
  "ftp_cwd sv p = ftp_call (\<lambda>_. Cwd p) (sv_cwd sv p)"

definition ftp_nlst :: "'s ftp_server \<Rightarrow> string option \<Rightarrow> ('s ftp, string list) prog" where
  "ftp_nlst sv p = ftp_call (\<lambda>_. Nlst p) (sv_nlst sv p)"

definition ftp_mkd :: "'s ftp_server \<Rightarrow> string \<Rightarrow> ('s ftp, unit) prog" where
  "ftp_mkd sv p = ftp_call (\<lambda>_. Mkd p) (sv_mkd sv p)"

definition ftp_delete :: "'s ftp_server \<Rightarrow> string \<Rightarrow> ('s ftp, unit) prog" where
  "ftp_delete sv p = ftp_call (\<lambda>_. Dele p) (sv_delete sv p)"

definition ftp_rmd :: "'s ftp_server \<Rightarrow> string \<Rightarrow> ('s ftp, unit) prog" where
  "ftp_rmd sv p = ftp_call (\<lambda>_. Rmd p) (sv_rmd sv p)"

definition ftp_rename :: "'s ftp_server \<Rightarrow> string \<Rightarrow> string \<Rightarrow> ('s ftp, unit) prog" where
  "ftp_rename sv p q = ftp_call (\<lambda>r. Rename p q (case r of Inl _ \<Rightarrow> False | Inr _ \<Rightarrow> True)) (sv_rename sv p q)"

definition ftp_stor :: "'s ftp_server \<Rightarrow> string \<Rightarrow> string \<Rightarrow> ('s ftp, unit) prog" where
  "ftp_stor sv p content = ftp_call (\<lambda>_. Stor p content) (sv_stor sv p content)"

definition ftp_type_i :: "'s ftp_server \<Rightarrow> ('s ftp, unit) prog" where
  "ftp_type_i sv = ftp_call (\<lambda>_. TypeI) (sv_type_i sv)"

definition ftp_size :: "'s ftp_server \<Rightarrow> string \<Rightarrow> ('s ftp, int option) prog" where
  "ftp_size sv p = ftp_call (\<lambda>_. Size p) (sv_size sv p)"

text \<open>\<open>retrbinary\<close> with a callback that collects the chunks.\<close>

definition collected :: "string list \<times> exn option \<Rightarrow> string result" where
  "collected x = (case snd x of None \<Rightarrow> Inr (concat (fst x)) | Some e \<Rightarrow> Inl e)"

definition ftp_retr :: "'s ftp_server \<Rightarrow> string \<Rightarrow> ('s ftp, string list \<times> exn option) prog" where
  "ftp_retr sv p = ftp_call (\<lambda>r. Retr p (bindE r collected)) (\<lambda>n. case sv_retr sv p n of (x, n') \<Rightarrow> (Inr x, n'))"

definition ftp_download :: "'s ftp_server \<Rightarrow> string \<Rightarrow> ('s ftp, string) prog" where
  "ftp_download sv p = bindS (ftp_retr sv p) (\<lambda>x. readS (\<lambda>_. collected x))"

text \<open>\<open>_close\<close> swallows every FTP error.\<close>

definition close_ftp :: "'s ftp_server \<Rightarrow> ('s ftp, unit) prog" where
  "close_ftp sv = ftp_call (\<lambda>_. Quit) (\<lambda>n. (Inr (), sv_quit sv n))"

definition finallyS :: "('s, 'a) prog \<Rightarrow> ('s, unit) prog \<Rightarrow> ('s, 'a) prog" where
  "finallyS m c s = (case m s of (r, s1) \<Rightarrow> (case c s1 of (Inl e, s2) \<Rightarrow> (Inl e, s2) | (Inr _, s2) \<Rightarrow> (r, s2)))"

definition liftE :: "'a result \<Rightarrow> ('s, 'a) prog" where
  "liftE r = readS (\<lambda>_. r)"

section \<open>Errors\<close>

fun ftp_perm :: "exn \<Rightarrow> bool" where
  "ftp_perm (FtpErrorPerm _) = True"
| "ftp_perm _ = False"

fun ftp_temp :: "exn \<Rightarrow> bool" where
  "ftp_temp (FtpErrorTemp _) = True"
| "ftp_temp _ = False"

text \<open>\<open>ftplib.all_errors\<close>: the errors of the protocol, \<open>OSError\<close> and \<open>EOFError\<close>.\<close>

fun ftp_all_errors :: "exn \<Rightarrow> bool" where
  "ftp_all_errors (FtpErrorPerm _) = True"
| "ftp_all_errors (FtpErrorTemp _) = True"
| "ftp_all_errors (FtpErrorOther _) = True"
| "ftp_all_errors (OSErr _) = True"
| "ftp_all_errors _ = False"

fun is_destination_error :: "exn \<Rightarrow> bool" where
  "is_destination_error (DestinationError _ _) = True"
| "is_destination_error _ = False"

fun exn_text :: "exn \<Rightarrow> string" where
  "exn_text (FtpErrorPerm m) = m"
| "exn_text (FtpErrorTemp m) = m"
| "exn_text (FtpErrorOther m) = m"
| "exn_text (OSErr m) = m"
| "exn_text _ = []"

text \<open>\<open>str.strip\<close>, \<open>str.lower\<close> as far as the ASCII markers can tell, and \<open>in\<close> on strings.\<close>

definition py_space :: "char \<Rightarrow> bool" where
  "py_space c \<longleftrightarrow> ascii_space c \<or> c = CHR 0x85 \<or> c = CHR 0xA0"

definition lower :: "string \<Rightarrow> string" where
  "lower s = map (\<lambda>c. if upper c then char_of ((of_char c :: nat) + 32) else c) s"

fun contains :: "string \<Rightarrow> string \<Rightarrow> bool" where
  "contains sub [] = (sub = [])"
| "contains sub (c # cs) = (take (length sub) (c # cs) = sub \<or> contains sub cs)"

definition is_missing_ftp_error :: "exn \<Rightarrow> bool" where
  "is_missing_ftp_error e =
     (let message = lower (strip py_space (exn_text e)) in
      take 3 message = ''550'' \<and> list_ex (\<lambda>marker. contains marker message)
        [''not found'', ''no such'', ''does not exist'', ''cannot find'', ''no files'', ''empty''])"

definition is_denied_ftp_error :: "exn \<Rightarrow> bool" where
  "is_denied_ftp_error e =
     (let message = lower (strip py_space (exn_text e)) in
      list_ex (\<lambda>marker. contains marker message)
        [''permission'', ''denied'', ''not allowed'', ''access is denied'', ''access denied''])"

definition reply_550 :: "exn \<Rightarrow> bool" where
  "reply_550 e \<longleftrightarrow> take 3 (lstrip py_space (exn_text e)) = ''550''"

section \<open>Connecting\<close>

definition resolve_destination_credential :: "secret_registry \<Rightarrow> backup_destination \<Rightarrow> credential_material result" where
  "resolve_destination_credential secrets dst =
     (case dst_credential_profile dst of
        None \<Rightarrow> Inl (OtherException ''AttributeError'')
      | Some prof \<Rightarrow>
          (case bindE (get_provider secrets (crp_provider_id prof)) (\<lambda>p. sp_resolve p (crp_secret_reference prof)) of
             Inl (SecretProviderLookupError _) \<Rightarrow>
               Inl (DestinationError ''CREDENTIAL_RESOLUTION_FAILED'' ''The FTP credential could not be resolved.'')
           | Inl (SecretProviderError _) \<Rightarrow>
               Inl (DestinationError ''CREDENTIAL_RESOLUTION_FAILED'' ''The FTP credential could not be resolved.'')
           | Inl KeyError \<Rightarrow>
               Inl (DestinationError ''CREDENTIAL_RESOLUTION_FAILED'' ''The FTP credential could not be resolved.'')
           | Inl IndexError \<Rightarrow>
               Inl (DestinationError ''CREDENTIAL_RESOLUTION_FAILED'' ''The FTP credential could not be resolved.'')
           | r \<Rightarrow> r))"

definition connect_result :: "connect_failure + unit \<Rightarrow> unit result" where
  "connect_result r =
     (case r of
        Inr _ \<Rightarrow> Inr ()
      | Inl Rejected \<Rightarrow> Inl (DestinationError ''AUTH_FAILED'' ''FTP server authentication failed.'')
      | Inl ConnectionRefused \<Rightarrow> Inl (DestinationError ''CONNECTION_REFUSED'' ''The FTP server rejected the TCP connection.'')
      | Inl TimedOut \<Rightarrow> Inl (DestinationError ''TIMEOUT'' ''The FTP connection timed out.'')
      | Inl ConnectFailed \<Rightarrow> Inl (DestinationError ''CONNECTION_FAILED'' ''The FTP connection failed.'')
      | Inl (ConnectRaised e) \<Rightarrow> Inl e)"

fun caught_connect :: "connect_failure + unit \<Rightarrow> bool" where
  "caught_connect (Inr _) = False"
| "caught_connect (Inl (ConnectRaised _)) = False"
| "caught_connect (Inl _) = True"

definition connect_ftp :: "'s ftp_server \<Rightarrow> secret_registry \<Rightarrow> backup_destination \<Rightarrow> ('s ftp, unit) prog" where
  "connect_ftp sv secrets dst =
     bindS (liftE (resolve_destination_credential secrets dst)) (\<lambda>c.
     if truthy (cm_private_key c) \<or> cm_password c = None
     then raiseS (DestinationError ''CREDENTIAL_TYPE_UNSUPPORTED'' ''FTP requires a username and password.'')
     else bindS (ftp_call (\<lambda>_. Connect) (\<lambda>n. case sv_connect sv dst c n of (r, n') \<Rightarrow> (Inr r, n'))) (\<lambda>r.
          bindS (if caught_connect r then close_ftp sv else returnS ()) (\<lambda>_. liftE (connect_result r))))"

section \<open>Directories\<close>

text \<open>\<open>posixpath.dirname\<close> and \<open>posixpath.basename\<close>.\<close>

definition posix_head :: "string \<Rightarrow> string" where
  "posix_head p = rev (dropWhile (\<lambda>c. c \<noteq> CHR ''/'') (rev p))"

definition posix_dirname :: "string \<Rightarrow> string" where
  "posix_dirname p = (let head = posix_head p in if list_all slash head then head else rstrip slash head)"

definition posix_basename :: "string \<Rightarrow> string" where
  "posix_basename p = rev (takeWhile (\<lambda>c. c \<noteq> CHR ''/'') (rev p))"

text \<open>
  One entry of a listing: a direct child, given by its name or by its absolute path. \<open>None\<close> is an entry that is
  skipped.
\<close>

definition parent_parts :: "string \<Rightarrow> string list" where
  "parent_parts p = (if path_parts p = [] then all_parts p else butlast (all_parts p))"

definition listing_entry :: "string \<Rightarrow> string \<Rightarrow> string option result" where
  "listing_entry directory entry =
     (if entry = [] \<or> unsafe_text entry
      then Inl (DestinationError ''DESTINATION_DIRECTORY_UNSAFE'' ''The FTP revision directory returned an unsafe entry.'')
      else if is_absolute entry \<and> parent_parts entry \<noteq> all_parts directory
      then Inl (DestinationError ''DESTINATION_DIRECTORY_UNSAFE'' ''The FTP revision directory returned an unexpected path.'')
      else if \<not> is_absolute entry \<and> length (all_parts entry) \<noteq> 1
      then Inl (DestinationError ''DESTINATION_DIRECTORY_UNSAFE'' ''The FTP revision directory returned a nested path.'')
      else let name = path_name entry in
           if name = [] \<or> name = ''.'' \<or> name = ''..'' then Inr None
           else bindE (validate_direct_filename name) (\<lambda>_. Inr (Some name)))"

definition listing_names :: "string \<Rightarrow> string list \<Rightarrow> string list result" where
  "listing_names directory listing =
     bindE (traverse (listing_entry directory) listing) (\<lambda>xs. Inr (remdups (map the (filter (\<lambda>x. x \<noteq> None) xs))))"

text \<open>\<open>_directory_absent_from_parent_listing\<close>: up to the nearest ancestor that can be entered.\<close>

definition parent_of :: "string \<Rightarrow> string" where
  "parent_of p = (if posix_dirname p = [] then ''/'' else posix_dirname p)"

lemma posix_split: "posix_head p @ posix_basename p = p"
  unfolding posix_head_def posix_basename_def rev_append [symmetric] by simp

lemma parent_shorter:
  assumes "current \<noteq> ''/''" "posix_basename current \<noteq> []"
  shows "(if parent_of current = ''/'' then 0 else length (parent_of current)) < length current"
proof -
  have "length (posix_dirname current) \<le> length (posix_head current)"
    by (simp add: posix_dirname_def Let_def length_rstrip)
  also have "\<dots> < length current"
    using assms(2) arg_cong [OF posix_split [of current], of length] by (cases "posix_basename current") auto
  finally show ?thesis using assms by (auto simp: parent_of_def)
qed

function absent_walk :: "'s ftp_server \<Rightarrow> string \<Rightarrow> ('s ftp, bool) prog" where
  "absent_walk sv current f =
     (if current = [] \<or> current = ''/'' \<or> posix_basename current = [] then (Inr False, f)
      else (case bindS (ftp_cwd sv (parent_of current)) (\<lambda>_. ftp_nlst sv None) f of
          (Inl e, f') \<Rightarrow>
            if ftp_perm e
            then if is_denied_ftp_error e then (Inr False, f') else absent_walk sv (parent_of current) f'
            else if ftp_all_errors e then (Inr False, f') else (Inl e, f')
        | (Inr listing, f') \<Rightarrow>
            (Inr (case listing_names (parent_of current) listing of
                    Inl _ \<Rightarrow> False | Inr names \<Rightarrow> posix_basename current \<notin> set names), f')))"
  by pat_completeness auto

termination
  by (relation "measure (\<lambda>(sv, current, f). if current = ''/'' then 0 else length current)")
     (auto dest: parent_shorter split: if_splits)

declare absent_walk.simps [simp del]

definition directory_absent_from_parent_listing :: "'s ftp_server \<Rightarrow> string \<Rightarrow> ('s ftp, bool) prog" where
  "directory_absent_from_parent_listing sv remote_path = absent_walk sv (rstrip slash remote_path)"

definition unreadable_directory :: exn where
  "unreadable_directory = DestinationError ''DESTINATION_DIRECTORY_UNREADABLE'' ''The FTP revision directory could not be inspected safely.''"

definition list_revision_directory :: "'s ftp_server \<Rightarrow> string \<Rightarrow> bool \<Rightarrow> ('s ftp, string list option) prog" where
  "list_revision_directory sv remote_path missing_ok =
     bindS (catchS (bindS (ftp_cwd sv remote_path) (\<lambda>_. returnS True)) (\<lambda>e.
       if \<not> ftp_perm e then raiseS e
       else if missing_ok \<and> is_missing_ftp_error e then returnS False
       else if missing_ok \<and> \<not> is_denied_ftp_error e
       then bindS (directory_absent_from_parent_listing sv remote_path) (\<lambda>absent.
            if absent then returnS False else raiseS unreadable_directory)
       else raiseS unreadable_directory)) (\<lambda>entered.
     if \<not> entered then returnS None
     else bindS (catchS (bindS (ftp_nlst sv None) (\<lambda>l. returnS (Some l))) (\<lambda>e.
            if \<not> ftp_perm e then raiseS e
            else if is_missing_ftp_error e then returnS None
            else raiseS unreadable_directory)) (\<lambda>listing.
          case listing of
            None \<Rightarrow> returnS (Some [])
          | Some l \<Rightarrow> bindS (liftE (listing_names remote_path l)) (\<lambda>names. returnS (Some names))))"

definition reject_unknown_revision_entries :: "string list \<Rightarrow> string list \<Rightarrow> unit result" where
  "reject_unknown_revision_entries entries expected =
     (if list_ex (\<lambda>x. x \<notin> set expected) entries
      then Inl (DestinationError ''DESTINATION_DELETE_CONFLICT'' ''The FTP revision directory contains an unknown file and was not deleted.'')
      else Inr ())"

text \<open>The five attempts of \<open>_cwd_after_mkdir\<close>; the pauses between them are left out.\<close>

fun cwd_attempts :: "'s ftp_server \<Rightarrow> string \<Rightarrow> nat \<Rightarrow> ('s ftp, unit) prog" where
  "cwd_attempts sv path 0 =
     raiseS (DestinationError ''DESTINATION_PATH_TEMPORARY'' ''The FTP server did not make a newly created directory available in time.'')"
| "cwd_attempts sv path (Suc n) =
     bindS (catchS (bindS (ftp_cwd sv path) (\<lambda>_. returnS True)) (\<lambda>e.
       if ftp_perm e \<or> ftp_temp e
       then if is_denied_ftp_error e
            then raiseS (DestinationError ''DESTINATION_PATH_DENIED'' ''The FTP account cannot enter the destination directory.'')
            else returnS False
       else if ftp_all_errors e
       then raiseS (DestinationError ''DESTINATION_PATH_FAILED'' ''The FTP connection failed while entering a new destination directory.'')
       else raiseS e)) (\<lambda>entered. if entered then returnS () else cwd_attempts sv path n)"

definition cwd_after_mkdir :: "'s ftp_server \<Rightarrow> string \<Rightarrow> ('s ftp, unit) prog" where
  "cwd_after_mkdir sv path = cwd_attempts sv path 5"

definition path_unreadable :: "string \<Rightarrow> exn" where
  "path_unreadable message = DestinationError ''DESTINATION_PATH_UNREADABLE'' message"

definition make_directory :: "'s ftp_server \<Rightarrow> string \<Rightarrow> ('s ftp, unit) prog" where
  "make_directory sv current =
     catchS (ftp_cwd sv current) (\<lambda>e.
       if ftp_perm e \<or> ftp_temp e
       then if is_denied_ftp_error e
            then raiseS (path_unreadable ''The FTP destination directory could not be inspected safely.'')
            else bindS (directory_absent_from_parent_listing sv current) (\<lambda>absent.
                 if \<not> absent then raiseS (path_unreadable ''The FTP destination directory could not be inspected safely.'')
                 else bindS (catchS (ftp_mkd sv current) (\<lambda>e. if ftp_all_errors e then returnS () else raiseS e)) (\<lambda>_.
                      cwd_after_mkdir sv current))
       else raiseS e)"

fun mkdirs_from :: "'s ftp_server \<Rightarrow> string \<Rightarrow> string list \<Rightarrow> ('s ftp, unit) prog" where
  "mkdirs_from sv current [] = returnS ()"
| "mkdirs_from sv current (part # parts) =
     (if part = ''/'' \<or> part = [] \<or> part = ''.'' then mkdirs_from sv current parts
      else let current' = posix_join2 current part in
           bindS (make_directory sv current') (\<lambda>_. mkdirs_from sv current' parts))"

definition mkdirs :: "'s ftp_server \<Rightarrow> string \<Rightarrow> ('s ftp, unit) prog" where
  "mkdirs sv path = mkdirs_from sv ''/'' (all_parts path)"

section \<open>Files\<close>

definition max_manifest_bytes :: int where "max_manifest_bytes = 1024 * 1024"

definition store :: "'s ftp_server \<Rightarrow> string \<Rightarrow> string \<Rightarrow> ('s ftp, unit) prog" where
  "store sv path content =
     catchS (ftp_stor sv path content) (\<lambda>e.
       raiseS (if ftp_temp e then DestinationError ''DESTINATION_UPLOAD_TEMPORARY'' ''The FTP server temporarily rejected the artifact upload.''
         else if ftp_perm e then DestinationError ''DESTINATION_UPLOAD_DENIED'' ''The FTP server rejected the artifact upload.''
         else if ftp_all_errors e then DestinationError ''DESTINATION_UPLOAD_FAILED'' ''The FTP artifact upload failed.''
         else e))"

definition verify_failed :: "string \<Rightarrow> exn" where
  "verify_failed message = DestinationError ''DESTINATION_VERIFY_FAILED'' message"

definition wrap_ftp :: "exn \<Rightarrow> ('s, 'a) prog \<Rightarrow> ('s, 'a) prog" where
  "wrap_ftp e' m = catchS m (\<lambda>e. raiseS (if ftp_all_errors e then e' else e))"

definition read_remote :: "'s ftp_server \<Rightarrow> string \<Rightarrow> int \<Rightarrow> ('s ftp, string) prog" where
  "read_remote sv remote_path max_bytes =
     bindS (wrap_ftp (verify_failed ''The uploaded FTP object could not be inspected.'')
       (bindS (ftp_type_i sv) (\<lambda>_. ftp_size sv remote_path))) (\<lambda>reported.
     case reported of
       None \<Rightarrow> raiseS (verify_failed ''The uploaded FTP object has an invalid size.'')
     | Some n \<Rightarrow>
         if n < 0 \<or> max_bytes < n then raiseS (verify_failed ''The uploaded FTP object has an invalid size.'')
         else bindS (wrap_ftp (verify_failed ''The uploaded FTP object could not be read back for verification.'')
                (ftp_download sv remote_path)) (\<lambda>content.
              if int (length content) \<noteq> n then raiseS (verify_failed ''The uploaded FTP object is incomplete.'')
              else returnS content))"

datatype integrity = Ok | Missing | Unreadable | SizeMismatch | HashMismatch

definition verify_remote_manifest ::
  "'s ftp_server \<Rightarrow> (string \<Rightarrow> json option) \<Rightarrow> string \<Rightarrow> revision_view \<Rightarrow> string \<Rightarrow> expected_file list
   \<Rightarrow> ('s ftp, integrity \<times> int) prog" where
  "verify_remote_manifest sv loads remote_path rv revision_path files =
     bindS (catchS (bindS (read_remote sv remote_path max_manifest_bytes) (\<lambda>c. returnS (Inr c))) (\<lambda>e.
       if ftp_perm e then returnS (Inl (if reply_550 e then Missing else Unreadable))
       else if ftp_temp e \<or> is_destination_error e then returnS (Inl Unreadable)
       else raiseS e)) (\<lambda>r. returnS (case r of
         Inl i \<Rightarrow> (i, 0)
       | Inr content \<Rightarrow> (if manifest_matches_revision loads content rv revision_path files then Ok else HashMismatch,
                          int (length content))))"

definition size_or_problem :: "'s ftp_server \<Rightarrow> string \<Rightarrow> ('s ftp, integrity + int option) prog" where
  "size_or_problem sv remote_path =
     catchS (bindS (ftp_size sv remote_path) (\<lambda>n. returnS (Inr n))) (\<lambda>e.
       if ftp_perm e then returnS (Inl (if reply_550 e then Missing else Unreadable))
       else if ftp_temp e then returnS (Inl Unreadable) else raiseS e)"

definition download_or_problem :: "'s ftp_server \<Rightarrow> string \<Rightarrow> ('s ftp, integrity + string) prog" where
  "download_or_problem sv remote_path =
     catchS (bindS (ftp_download sv remote_path) (\<lambda>c. returnS (Inr c))) (\<lambda>e.
       if ftp_perm e then returnS (Inl (if reply_550 e then Missing else Unreadable))
       else if ftp_temp e then returnS (Inl Unreadable) else raiseS e)"

definition verify_remote_file ::
  "env \<Rightarrow> 's ftp_server \<Rightarrow> (string \<Rightarrow> json option) \<Rightarrow> string \<Rightarrow> expected_file \<Rightarrow> revision_view \<Rightarrow> string \<Rightarrow> expected_file list
   \<Rightarrow> ('s ftp, integrity \<times> int) prog" where
  "verify_remote_file e sv loads remote_path expected rv revision_path files =
     (if xf_artifact_type expected = ''manifest'' then verify_remote_manifest sv loads remote_path rv revision_path files
      else bindS (ftp_type_i sv) (\<lambda>_. bindS (size_or_problem sv remote_path) (\<lambda>r. case r of
          Inl i \<Rightarrow> returnS (i, 0)
        | Inr None \<Rightarrow> returnS (Unreadable, 0)
        | Inr (Some n) \<Rightarrow>
            if n < 0 then returnS (Unreadable, 0)
            else if n \<noteq> xf_size expected then returnS (SizeMismatch, n)
            else bindS (download_or_problem sv remote_path) (\<lambda>r. returnS (case r of
                   Inl i \<Rightarrow> (i, 0)
                 | Inr content \<Rightarrow>
                     if int (length content) \<noteq> n then (SizeMismatch, int (length content))
                     else if sha256_hex e content \<noteq> xf_sha256 expected then (HashMismatch, int (length content))
                     else (Ok, int (length content)))))))"

definition remote_exists :: "'s ftp_server \<Rightarrow> string \<Rightarrow> ('s ftp, bool) prog" where
  "remote_exists sv path =
     catchS (bindS (ftp_nlst sv (Some path)) (\<lambda>l. returnS (l \<noteq> []))) (\<lambda>e.
       if \<not> ftp_all_errors e then raiseS e
       else if is_missing_ftp_error e then returnS False
       else bindS (if is_denied_ftp_error e then returnS False else directory_absent_from_parent_listing sv path) (\<lambda>absent.
            if absent then returnS False else raiseS (path_unreadable ''An existing FTP path could not be inspected safely.'')))"

definition put_immutable :: "env \<Rightarrow> 's ftp_server \<Rightarrow> string \<Rightarrow> string \<Rightarrow> string \<Rightarrow> ('s ftp, bool) prog" where
  "put_immutable e sv remote_path content digest =
     bindS (remote_exists sv remote_path) (\<lambda>present.
     if present
     then bindS (read_remote sv remote_path (int (length content))) (\<lambda>existing.
          if sha256_hex e existing = digest then returnS False
          else raiseS (DestinationError ''DESTINATION_CONFLICT'' ''A different object already exists at the immutable FTP revision path.''))
     else let temporary = remote_path @ ''.part'' in
          bindS (finallyS
            (bindS (store sv temporary content) (\<lambda>_.
             bindS (read_remote sv temporary (int (length content))) (\<lambda>uploaded.
             if sha256_hex e uploaded \<noteq> digest then raiseS (verify_failed ''The FTP artifact hash did not match after upload.'')
             else wrap_ftp (DestinationError ''DESTINATION_FINALIZE_FAILED'' ''The verified FTP artifact could not be finalized atomically.'')
                    (ftp_rename sv temporary remote_path))))
            (catchS (ftp_delete sv temporary) (\<lambda>e. if ftp_all_errors e then returnS () else raiseS e))) (\<lambda>_.
          returnS True))"

definition delete_verified :: "'s ftp_server \<Rightarrow> string \<Rightarrow> ('s ftp, unit) prog" where
  "delete_verified sv path =
     bindS (ftp_delete sv path) (\<lambda>_. bindS (remote_exists sv path) (\<lambda>present.
     if present then raiseS (DestinationError ''DESTINATION_DELETE_FAILED'' ''The FTP test object still exists after deletion.'')
     else returnS ()))"

section \<open>Audit\<close>

record audit_issue =
  ai_replica_id :: int
  ai_revision_id :: int
  ai_revision_uuid :: string
  ai_device :: "string option"
  ai_filename :: string
  ai_artifact_type :: string
  ai_problem :: integrity

record audit_summary =
  au_success :: bool
  au_safe_message :: string
  au_checked_replicas :: nat
  au_healthy_replicas :: nat
  au_failed_replicas :: nat
  au_skipped_replicas :: nat
  au_checked_files :: nat
  au_verified_bytes :: int
  au_missing_files :: nat
  au_size_mismatches :: nat
  au_hash_mismatches :: nat
  au_unreadable_files :: nat
  au_issues :: "audit_issue list"
  au_issues_truncated :: bool

definition empty_summary :: "nat \<Rightarrow> audit_summary" where
  "empty_summary skipped =
     \<lparr>au_success = True, au_safe_message = ''All expected FTP revision copies passed integrity verification.'',
      au_checked_replicas = 0, au_healthy_replicas = 0, au_failed_replicas = 0, au_skipped_replicas = skipped,
      au_checked_files = 0, au_verified_bytes = 0, au_missing_files = 0, au_size_mismatches = 0,
      au_hash_mismatches = 0, au_unreadable_files = 0, au_issues = [], au_issues_truncated = False\<rparr>"

definition count_problem :: "integrity \<Rightarrow> audit_summary \<Rightarrow> audit_summary" where
  "count_problem i a =
     (case i of
        Ok \<Rightarrow> a
      | Missing \<Rightarrow> a\<lparr>au_missing_files := au_missing_files a + 1\<rparr>
      | SizeMismatch \<Rightarrow> a\<lparr>au_size_mismatches := au_size_mismatches a + 1\<rparr>
      | HashMismatch \<Rightarrow> a\<lparr>au_hash_mismatches := au_hash_mismatches a + 1\<rparr>
      | Unreadable \<Rightarrow> a\<lparr>au_unreadable_files := au_unreadable_files a + 1\<rparr>)"

definition note_issue :: "nat \<Rightarrow> revision_replica \<Rightarrow> revision_view \<Rightarrow> expected_file \<Rightarrow> integrity \<Rightarrow> audit_summary \<Rightarrow> audit_summary" where
  "note_issue issue_limit p rv expected i a =
     (if length (au_issues a) < issue_limit
      then a\<lparr>au_issues := au_issues a @ [\<lparr>ai_replica_id = p_pk p, ai_revision_id = rv_pk rv,
             ai_revision_uuid = rv_uuid rv, ai_device = rv_device_name rv, ai_filename = xf_filename expected,
             ai_artifact_type = xf_artifact_type expected, ai_problem = i\<rparr>]\<rparr>
      else a\<lparr>au_issues_truncated := True\<rparr>)"

definition record_check ::
  "nat \<Rightarrow> revision_replica \<Rightarrow> revision_view \<Rightarrow> expected_file \<Rightarrow> integrity \<times> int \<Rightarrow> audit_summary \<times> bool \<Rightarrow> audit_summary \<times> bool" where
  "record_check issue_limit p rv expected result st =
     (let a = (fst st)\<lparr>au_checked_files := au_checked_files (fst st) + 1\<rparr> in
      if fst result = Ok then (a\<lparr>au_verified_bytes := au_verified_bytes a + snd result\<rparr>, snd st)
      else (note_issue issue_limit p rv expected (fst result) (count_problem (fst result) a), True))"

fun audit_files ::
  "env \<Rightarrow> 's ftp_server \<Rightarrow> (string \<Rightarrow> json option) \<Rightarrow> nat \<Rightarrow> revision_replica \<Rightarrow> revision_view \<Rightarrow> string \<Rightarrow> expected_file list
   \<Rightarrow> expected_file list \<Rightarrow> audit_summary \<times> bool \<Rightarrow> ('s ftp, audit_summary \<times> bool) prog" where
  "audit_files e sv loads lim p rv path files [] st = returnS st"
| "audit_files e sv loads lim p rv path files (x # xs) st =
     bindS (verify_remote_file e sv loads (join_ftp_path path [xf_filename x]) x rv path files) (\<lambda>result.
     audit_files e sv loads lim p rv path files xs (record_check lim p rv x result st))"

text \<open>\<open>_expected_revision_files\<close> for a recorded path.\<close>

definition expected_at ::
  "env \<Rightarrow> (string \<Rightarrow> string) \<Rightarrow> revision_view \<Rightarrow> string \<Rightarrow> expected_file list result" where
  "expected_at e asc rv path =
     expected_revision_files e asc rv (uses_readable_ftp_layout path) (readable_stem_from_revision_path asc path rv) None"

definition audit_replica ::
  "env \<Rightarrow> (string \<Rightarrow> string) \<Rightarrow> 's ftp_server \<Rightarrow> (string \<Rightarrow> json option) \<Rightarrow> nat \<Rightarrow> backup_destination
   \<Rightarrow> revision_replica \<times> revision_view \<Rightarrow> audit_summary \<Rightarrow> ('s ftp, audit_summary) prog" where
  "audit_replica e asc sv loads lim dst pr a =
     (case pr of (p, rv) \<Rightarrow>
      bindS (liftE (validate_recorded_revision_path asc (dst_base_path dst) rv (p_remote_path p) ''RECONCILIATION_PATH_INVALID'')) (\<lambda>_.
      bindS (liftE (expected_at e asc rv (p_remote_path p))) (\<lambda>files.
      bindS (audit_files e sv loads lim p rv (p_remote_path p) files files
               (a\<lparr>au_checked_replicas := au_checked_replicas a + 1\<rparr>, False)) (\<lambda>r.
      returnS (if snd r then (fst r)\<lparr>au_failed_replicas := au_failed_replicas (fst r) + 1\<rparr>
               else (fst r)\<lparr>au_healthy_replicas := au_healthy_replicas (fst r) + 1\<rparr>)))))"

fun audit_replicas ::
  "env \<Rightarrow> (string \<Rightarrow> string) \<Rightarrow> 's ftp_server \<Rightarrow> (string \<Rightarrow> json option) \<Rightarrow> nat \<Rightarrow> backup_destination
   \<Rightarrow> (revision_replica \<times> revision_view) list \<Rightarrow> audit_summary \<Rightarrow> ('s ftp, audit_summary) prog" where
  "audit_replicas e asc sv loads lim dst [] a = returnS a"
| "audit_replicas e asc sv loads lim dst (pr # prs) a =
     bindS (audit_replica e asc sv loads lim dst pr a) (audit_replicas e asc sv loads lim dst prs)"

definition auditable :: "backup_destination \<Rightarrow> revision_replica \<Rightarrow> bool" where
  "auditable dst p \<longleftrightarrow> p_destination_id p = dst_pk dst \<and> p_status p = PSuccess \<and> p_remote_available p \<and> p_remote_deleted_at p = None"

definition audit_issue_count :: "audit_summary \<Rightarrow> nat" where
  "audit_issue_count a = au_missing_files a + au_size_mismatches a + au_hash_mismatches a + au_unreadable_files a"

definition conclude_audit :: "audit_summary \<Rightarrow> audit_summary" where
  "conclude_audit a =
     (if 0 < audit_issue_count a
      then a\<lparr>au_success := False, au_safe_message := ''The FTP audit found '' @ show_nat (audit_issue_count a) @ '' problem(s) in ''
             @ show_nat (au_failed_replicas a) @ '' revision copy/copies.''\<rparr>
      else if au_checked_replicas a = 0
      then a\<lparr>au_safe_message := ''There are no successful FTP revision copies to audit yet.''\<rparr>
      else a)"

text \<open>
  \<open>rows\<close> are the rows of the destination in order of their primary keys, or those the caller chose
  (\<open>explicit\<close>), each with its revision.
\<close>

definition reconcile_ftp_destination ::
  "env \<Rightarrow> (string \<Rightarrow> string) \<Rightarrow> 's ftp_server \<Rightarrow> secret_registry \<Rightarrow> (string \<Rightarrow> json option) \<Rightarrow> backup_destination
   \<Rightarrow> bool \<Rightarrow> (revision_replica \<times> revision_view) list \<Rightarrow> nat \<Rightarrow> ('s ftp, audit_summary) prog" where
  "reconcile_ftp_destination e asc sv secrets loads dst explicit rows issue_limit =
     (let chosen = filter (\<lambda>pr. auditable dst (fst pr)) rows;
          summary = empty_summary (length rows - length chosen) in
      if explicit \<and> chosen = []
      then returnS (summary\<lparr>au_safe_message := ''There are no available FTP revision copies to audit.''\<rparr>)
      else bindS (connect_ftp sv secrets dst) (\<lambda>_.
           bindS (finallyS (wrap_ftp (DestinationError ''DESTINATION_RECONCILIATION_FAILED'' ''The FTP integrity audit could not complete.'')
             (audit_replicas e asc sv loads issue_limit dst chosen summary)) (close_ftp sv)) (\<lambda>a.
           returnS (conclude_audit a))))"

section \<open>Connection test\<close>

definition test_payload :: string where
  "test_payload = ''netbox-config-backup-ftp-test'' @ [CHR 0x0A]"

text \<open>\<open>token\<close> is \<open>uuid.uuid4().hex\<close>.\<close>

definition test_ftp_destination ::
  "'s ftp_server \<Rightarrow> secret_registry \<Rightarrow> string \<Rightarrow> backup_destination \<Rightarrow> ('s ftp, unit) prog" where
  "test_ftp_destination sv secrets token dst =
     bindS (connect_ftp sv secrets dst) (\<lambda>_.
     let remote_path = absolute_ftp_path (join_ftp_path (dst_base_path dst) [''.netbox-config-backup-test-'' @ token]) in
     finallyS
       (catchS
         (bindS (mkdirs sv (dst_base_path dst)) (\<lambda>_.
          bindS (store sv remote_path test_payload) (\<lambda>_.
          bindS (read_remote sv remote_path (int (length test_payload))) (\<lambda>downloaded.
          if downloaded \<noteq> test_payload
          then raiseS (verify_failed ''The FTP test object could not be verified after upload.'')
          else delete_verified sv remote_path))))
         (\<lambda>e. raiseS (if is_destination_error e then e
            else if ftp_perm e then DestinationError ''DESTINATION_PATH_DENIED'' ''The FTP account cannot write to the configured destination path.''
            else if ftp_all_errors e then DestinationError ''DESTINATION_TEST_FAILED'' ''The FTP write verification failed.''
            else e)))
       (bindS (catchS (ftp_delete sv remote_path) (\<lambda>e. if ftp_all_errors e then returnS () else raiseS e)) (\<lambda>_.
        close_ftp sv)))"

section \<open>Upload\<close>

definition artifact_by_type :: "expected_file list \<Rightarrow> string \<Rightarrow> expected_file option" where
  "artifact_by_type files ty = find (\<lambda>x. xf_artifact_type x = ty) (rev (filter (\<lambda>x. xf_artifact_type x \<noteq> ''manifest'') files))"

definition read_primary :: "env \<Rightarrow> (string \<Rightarrow> string result) \<Rightarrow> config_artifact \<Rightarrow> string result" where
  "read_primary e get a =
     (case get (a_storage_key a) of
        Inl (StorageError _) \<Rightarrow> Inl (DestinationError ''PRIMARY_ARTIFACT_MISSING'' ''A primary backup artifact could not be read for replication.'')
      | Inl ex \<Rightarrow> Inl ex
      | Inr content \<Rightarrow>
          if int (length content) \<noteq> a_size a \<or> sha256_hex e content \<noteq> a_raw_hash a
          then Inl (DestinationError ''PRIMARY_ARTIFACT_INVALID'' ''A primary backup artifact failed integrity verification.'')
          else Inr content)"

definition upload_artifact ::
  "env \<Rightarrow> 's ftp_server \<Rightarrow> (string \<Rightarrow> string result) \<Rightarrow> backup_destination \<Rightarrow> string \<Rightarrow> expected_file list \<Rightarrow> config_artifact
   \<Rightarrow> ('s ftp, nat) prog" where
  "upload_artifact e sv get dst path files a =
     (if dst_max_artifact_size dst < a_size a
      then raiseS (DestinationError ''ARTIFACT_TOO_LARGE'' ''An artifact exceeds the configured FTP destination size limit.'')
      else bindS (liftE (read_primary e get a)) (\<lambda>content.
           case artifact_by_type files (a_artifact_type a) of
             None \<Rightarrow> raiseS KeyError
           | Some x \<Rightarrow> bindS (put_immutable e sv (join_ftp_path path [xf_filename x]) content (sha256_hex e content)) (\<lambda>new.
               returnS (if new then length content else 0))))"

definition manifest_conflict :: "string \<Rightarrow> exn" where
  "manifest_conflict message = DestinationError ''DESTINATION_CONFLICT'' message"

definition upload_manifest ::
  "env \<Rightarrow> 's ftp_server \<Rightarrow> (string \<Rightarrow> json option) \<Rightarrow> revision_view \<Rightarrow> string \<Rightarrow> expected_file list \<Rightarrow> string \<Rightarrow> ('s ftp, nat) prog" where
  "upload_manifest e sv loads rv path files manifest =
     (let manifest_path = join_ftp_path path [manifest_name] in
      bindS (remote_exists sv manifest_path) (\<lambda>present.
      if present
      then bindS (catchS (read_remote sv manifest_path max_manifest_bytes) (\<lambda>ex.
             raiseS (if is_destination_error ex then manifest_conflict ''The immutable FTP revision manifest could not be verified.'' else ex))) (\<lambda>existing.
           if manifest_matches_revision loads existing rv path files then returnS 0
           else raiseS (manifest_conflict ''A different manifest exists at the immutable FTP revision path.''))
      else bindS (put_immutable e sv manifest_path manifest (sha256_hex e manifest)) (\<lambda>new.
           returnS (if new then length manifest else 0))))"

definition upload_phase :: "string \<Rightarrow> string \<Rightarrow> ('s, 'a) prog \<Rightarrow> ('s, 'a) prog" where
  "upload_phase code message m =
     catchS m (\<lambda>e. raiseS (if is_destination_error e then e
       else if ftp_perm e then DestinationError ''DESTINATION_PATH_DENIED'' ''The FTP account cannot write to the configured destination path.''
       else if ftp_all_errors e then DestinationError code message
       else e))"

text \<open>The path is the recorded one of an earlier attempt, or computed from the device's name.\<close>

definition replication_path ::
  "(string \<Rightarrow> string) \<Rightarrow> backup_destination \<Rightarrow> revision_view \<Rightarrow> string option \<Rightarrow> (string \<times> string) result" where
  "replication_path asc dst rv recorded =
     bindE (case recorded of
         Some p \<Rightarrow> if p \<noteq> [] then bindE (validate_recorded_revision_path asc (dst_base_path dst) rv p ''REPLICATION_PATH_INVALID'') (\<lambda>_. Inr p)
                   else ftp_revision_destination_path asc (dst_base_path dst) (rv_device_name rv) (rv_device_id rv)
                          (Aware (rv_created rv)) (Some (rv_pk rv)) None
       | None \<Rightarrow> ftp_revision_destination_path asc (dst_base_path dst) (rv_device_name rv) (rv_device_id rv)
                   (Aware (rv_created rv)) (Some (rv_pk rv)) None) (\<lambda>path.
     bindE (validate_recorded_revision_path asc (dst_base_path dst) rv path ''REPLICATION_PATH_INVALID'') (\<lambda>r.
     Inr (path, snd r)))"

definition upload_revision ::
  "env \<Rightarrow> (string \<Rightarrow> string) \<Rightarrow> 's ftp_server \<Rightarrow> (string \<Rightarrow> json option) \<Rightarrow> (string \<Rightarrow> string result) \<Rightarrow> backup_destination
   \<Rightarrow> revision_view \<Rightarrow> string \<Rightarrow> string \<Rightarrow> expected_file list \<Rightarrow> ('s ftp, nat) prog" where
  "upload_revision e asc sv loads get dst rv path directory files =
     bindS (upload_phase ''DESTINATION_DIRECTORY_FAILED'' ''The FTP revision directory could not be prepared.'' (mkdirs sv path)) (\<lambda>_.
     bindS (upload_phase ''DESTINATION_ARTIFACT_FAILED'' ''An FTP revision artifact operation failed.''
       (sumS (upload_artifact e sv get dst path files) (rv_artifacts rv))) (\<lambda>sent.
     bindS (upload_phase ''DESTINATION_MANIFEST_FAILED'' ''The FTP revision manifest operation failed.''
       (upload_manifest e sv loads rv path files
         (build_manifest asc rv (uses_readable_ftp_layout path) (readable_stem_from_revision_path asc path rv) (Some directory)))) (\<lambda>more.
     returnS (sent + more))))"

definition replicate_revision_ftp ::
  "env \<Rightarrow> (string \<Rightarrow> string) \<Rightarrow> 's ftp_server \<Rightarrow> secret_registry \<Rightarrow> (string \<Rightarrow> json option) \<Rightarrow> (string \<Rightarrow> string result)
   \<Rightarrow> backup_destination \<Rightarrow> revision_view \<Rightarrow> string option \<Rightarrow> ('s ftp, replication_result) prog" where
  "replicate_revision_ftp e asc sv secrets loads get dst rv recorded =
     (if \<not> dst_enabled dst then raiseS (DestinationError ''DESTINATION_DISABLED'' ''The FTP destination is disabled.'')
      else if rv_artifacts rv = [] then raiseS (DestinationError ''NO_ARTIFACTS'' ''The revision contains no backup artifacts.'')
      else bindS (liftE (replication_path asc dst rv recorded)) (\<lambda>pd.
           bindS (connect_ftp sv secrets dst) (\<lambda>_.
           bindS (liftE (expected_revision_files e asc rv (uses_readable_ftp_layout (fst pd))
                    (readable_stem_from_revision_path asc (fst pd) rv) (Some (snd pd)))) (\<lambda>files.
           bindS (finallyS (upload_revision e asc sv loads get dst rv (fst pd) (snd pd) files) (close_ftp sv)) (\<lambda>transferred.
           returnS \<lparr>rr_remote_path = fst pd, rr_bytes_transferred = int transferred,
             rr_artifact_count = int (length (rv_artifacts rv))\<rparr>)))))"

section \<open>Deletion\<close>

record deleted_ftp_revision =
  df_remote_path :: string
  df_expected_file_count :: nat
  df_deleted_file_count :: nat
  df_missing_file_count :: nat
  df_deleted_bytes :: int
  df_directory_removed :: bool
  df_already_absent :: bool

definition still_listed :: "string \<Rightarrow> string list option \<Rightarrow> bool" where
  "still_listed name entries = (case entries of None \<Rightarrow> False | Some es \<Rightarrow> name \<in> set es)"

text \<open>One \<open>DELE\<close>, with the listings that decide whether it worked.\<close>

definition delete_listed ::
  "'s ftp_server \<Rightarrow> string \<Rightarrow> string list \<Rightarrow> string \<Rightarrow> string \<Rightarrow> string \<Rightarrow> ('s ftp, unit) prog" where
  "delete_listed sv path allowed denied failed name =
     bindS (catchS (ftp_delete sv (join_ftp_path path [name])) (\<lambda>e.
       if \<not> ftp_perm e then raiseS e
       else bindS (list_revision_directory sv path True) (\<lambda>after.
            if still_listed name after then raiseS (DestinationError ''DESTINATION_DELETE_DENIED'' denied) else returnS ()))) (\<lambda>_.
     bindS (list_revision_directory sv path True) (\<lambda>after.
     case after of
       None \<Rightarrow> returnS ()
     | Some es \<Rightarrow> bindS (liftE (reject_unknown_revision_entries es allowed)) (\<lambda>_.
         if name \<in> set es then raiseS (DestinationError ''DESTINATION_DELETE_FAILED'' failed) else returnS ())))"

fun delete_expected ::
  "'s ftp_server \<Rightarrow> string \<Rightarrow> string list \<Rightarrow> expected_file list \<Rightarrow> nat \<times> nat \<times> int \<Rightarrow> ('s ftp, nat \<times> nat \<times> int) prog" where
  "delete_expected sv path allowed [] st = returnS st"
| "delete_expected sv path allowed (x # xs) st =
     (case st of (deleted, missing, bytes) \<Rightarrow>
      bindS (list_revision_directory sv path True) (\<lambda>entries.
      if \<not> still_listed (xf_filename x) entries then delete_expected sv path allowed xs (deleted, missing + 1, bytes)
      else bindS (liftE (reject_unknown_revision_entries (the entries) allowed)) (\<lambda>_.
           bindS (delete_listed sv path allowed ''The FTP account could not delete an expected revision file.''
                    ''An expected FTP revision file still exists after deletion.'' (xf_filename x)) (\<lambda>_.
           delete_expected sv path allowed xs (deleted + 1, missing, bytes + xf_size x)))))"

definition remove_directory :: "'s ftp_server \<Rightarrow> string \<Rightarrow> ('s ftp, unit) prog" where
  "remove_directory sv path =
     bindS (list_revision_directory sv path True) (\<lambda>remaining. case remaining of
         None \<Rightarrow> returnS ()
       | Some es \<Rightarrow>
           bindS (liftE (reject_unknown_revision_entries es [])) (\<lambda>_.
           if es \<noteq> []
           then raiseS (DestinationError ''DESTINATION_DELETE_INCOMPLETE'' ''The FTP revision directory is not empty after deleting expected files.'')
           else bindS (catchS (bindS (ftp_cwd sv ''/'') (\<lambda>_. ftp_rmd sv path)) (\<lambda>e.
                  if \<not> ftp_perm e then raiseS e
                  else bindS (list_revision_directory sv path True) (\<lambda>after.
                       if after \<noteq> None
                       then raiseS (DestinationError ''DESTINATION_DIRECTORY_DELETE_FAILED'' ''The empty FTP revision directory could not be removed.'')
                       else returnS ()))) (\<lambda>_.
                bindS (list_revision_directory sv path True) (\<lambda>after.
                if after \<noteq> None
                then raiseS (DestinationError ''DESTINATION_DIRECTORY_DELETE_FAILED'' ''The FTP revision directory still exists after deletion.'')
                else returnS ()))))"

definition part_name :: "string \<Rightarrow> string" where
  "part_name filename = filename @ ''.part''"

definition delete_copy :: "'s ftp_server \<Rightarrow> string \<Rightarrow> expected_file list \<Rightarrow> ('s ftp, deleted_ftp_revision) prog" where
  "delete_copy sv path files =
     (let names = map xf_filename files; temporary = map part_name names; allowed = names @ temporary in
      bindS (list_revision_directory sv path True) (\<lambda>entries. case entries of
          None \<Rightarrow> returnS \<lparr>df_remote_path = path, df_expected_file_count = length files, df_deleted_file_count = 0,
             df_missing_file_count = length files, df_deleted_bytes = 0, df_directory_removed = False, df_already_absent = True\<rparr>
        | Some es \<Rightarrow>
            bindS (liftE (reject_unknown_revision_entries es allowed)) (\<lambda>_.
            bindS (forS (delete_listed sv path allowed ''The FTP account could not delete an interrupted temporary file.''
                     ''An interrupted FTP temporary file still exists after deletion.'')
                   (sort (filter (\<lambda>n. n \<in> set temporary) es))) (\<lambda>_.
            bindS (delete_expected sv path names
                     (filter (\<lambda>x. xf_filename x \<noteq> manifest_name) files @ filter (\<lambda>x. xf_filename x = manifest_name) files)
                     (0, 0, 0)) (\<lambda>counts.
            bindS (remove_directory sv path) (\<lambda>_.
            returnS \<lparr>df_remote_path = path, df_expected_file_count = length files, df_deleted_file_count = fst counts,
              df_missing_file_count = fst (snd counts), df_deleted_bytes = snd (snd counts), df_directory_removed = True,
              df_already_absent = False\<rparr>))))))"

definition validate_fileset :: "expected_file list \<Rightarrow> unit result" where
  "validate_fileset files =
     (if \<not> distinct (map xf_filename files)
      then Inl (DestinationError ''DELETE_FILESET_INVALID'' ''The FTP revision file set contains duplicate filenames.'')
      else bindE (traverse (\<lambda>x. validate_direct_filename (xf_filename x)) files) (\<lambda>_.
           bindE (traverse (\<lambda>x. validate_direct_filename (part_name (xf_filename x))) files) (\<lambda>_. Inr ())))"

definition delete_revision_replica_ftp ::
  "env \<Rightarrow> (string \<Rightarrow> string) \<Rightarrow> 's ftp_server \<Rightarrow> secret_registry \<Rightarrow> backup_destination \<Rightarrow> revision_replica \<Rightarrow> revision_view option
   \<Rightarrow> ('s ftp, deleted_ftp_revision) prog" where
  "delete_revision_replica_ftp e asc sv secrets dst p revision =
     (if dst_protocol dst \<noteq> PFtp
      then raiseS (DestinationError ''DELETE_PROTOCOL_UNSUPPORTED'' ''Revision deletion is available only for FTP destinations.'')
      else if \<not> dst_enabled dst
      then raiseS (DestinationError ''DESTINATION_DISABLED'' ''The FTP destination is disabled and no remote file was deleted.'')
      else case revision of
        None \<Rightarrow> raiseS (DestinationError ''DELETE_REVISION_UNAVAILABLE'' ''The local revision metadata required for safe FTP deletion is unavailable.'')
      | Some rv \<Rightarrow>
          if p_status p = PQueued \<or> p_status p = PRunning
          then raiseS (DestinationError ''DELETE_REPLICA_BUSY'' ''An active FTP revision transfer cannot be deleted safely.'')
          else if p_remote_deleted_at p \<noteq> None
          then raiseS (DestinationError ''DELETE_REPLICA_EXPIRED'' ''The FTP revision copy has already expired.'')
          else bindS (liftE (validate_recorded_revision_path asc (dst_base_path dst) rv (p_remote_path p) ''DELETE_PATH_INVALID'')) (\<lambda>_.
               bindS (liftE (expected_at e asc rv (p_remote_path p))) (\<lambda>files.
               bindS (liftE (validate_fileset files)) (\<lambda>_.
               bindS (connect_ftp sv secrets dst) (\<lambda>_.
               finallyS (wrap_ftp (DestinationError ''DESTINATION_DELETE_FAILED'' ''The FTP revision copy could not be deleted safely.'')
                 (delete_copy sv (p_remote_path p) files)) (close_ftp sv))))))"

section \<open>Verified download\<close>

text \<open>The members of the ZIP archive that a download writes, in order, beside the client.\<close>

type_synonym 's archiving = "'s ftp \<times> (string \<times> string) list"

definition on_ftp :: "('s ftp, 'a) prog \<Rightarrow> ('s archiving, 'a) prog" where
  "on_ftp m s = (case m (fst s) of (r, f) \<Rightarrow> (r, (f, snd s)))"

definition write_member :: "string \<Rightarrow> string \<Rightarrow> ('s archiving, unit) prog" where
  "write_member name content s = (Inr (), (fst s, snd s @ [(name, content)]))"

text \<open>The callback \<open>write_chunk\<close>: it refuses the chunk that would exceed the recorded size.\<close>

fun receive_chunks :: "int \<Rightarrow> string \<Rightarrow> string list \<Rightarrow> string \<times> bool" where
  "receive_chunks n acc [] = (acc, True)"
| "receive_chunks n acc (c # cs) = (if n < int (length (acc @ c)) then (acc, False) else receive_chunks n (acc @ c) cs)"

definition recovery_error :: "string \<Rightarrow> exn \<Rightarrow> exn" where
  "recovery_error message e =
     (if ftp_perm e
      then DestinationError (if reply_550 e then ''RECOVERY_FILE_MISSING'' else ''RECOVERY_FILE_UNREADABLE'') message
      else if ftp_temp e then DestinationError ''RECOVERY_FILE_UNREADABLE'' message
      else e)"

definition recover_manifest ::
  "'s ftp_server \<Rightarrow> (string \<Rightarrow> json option) \<Rightarrow> revision_view \<Rightarrow> string \<Rightarrow> expected_file list \<Rightarrow> string \<Rightarrow> string \<Rightarrow> int
   \<Rightarrow> ('s archiving, int) prog" where
  "recover_manifest sv loads rv path files remote_path member_name remaining =
     (if remaining \<le> 0
      then raiseS (DestinationError ''RECOVERY_PACKAGE_TOO_LARGE'' ''The FTP revision copy exceeds the configured recovery package size limit.'')
      else bindS (catchS (on_ftp (read_remote sv remote_path (min max_manifest_bytes remaining))) (\<lambda>e.
             raiseS (if is_destination_error e then DestinationError ''RECOVERY_FILE_UNREADABLE'' ''The FTP revision manifest could not be read safely.''
                     else recovery_error ''The FTP revision manifest could not be read.'' e))) (\<lambda>content.
           if \<not> manifest_matches_revision loads content rv path files
           then raiseS (DestinationError ''RECOVERY_HASH_MISMATCH'' ''The FTP revision manifest does not match its revision metadata.'')
           else bindS (write_member member_name content) (\<lambda>_. returnS (int (length content)))))"

definition recover_artifact ::
  "env \<Rightarrow> 's ftp_server \<Rightarrow> expected_file \<Rightarrow> string \<Rightarrow> string \<Rightarrow> ('s archiving, int) prog" where
  "recover_artifact e sv x remote_path member_name =
     bindS (catchS (on_ftp (bindS (ftp_type_i sv) (\<lambda>_. ftp_size sv remote_path))) (\<lambda>ex.
       raiseS (recovery_error ''An expected file in the FTP revision copy could not be read.'' ex))) (\<lambda>remote_size.
     if remote_size \<noteq> Some (xf_size x)
     then raiseS (DestinationError ''RECOVERY_SIZE_MISMATCH'' ''An FTP revision file no longer matches its recorded size.'')
     else bindS (on_ftp (ftp_retr sv remote_path)) (\<lambda>transfer.
       let received = receive_chunks (xf_size x) [] (fst transfer); content = fst received in
       bindS (write_member member_name content) (\<lambda>_.
       if \<not> snd received
       then raiseS (DestinationError ''RECOVERY_SIZE_MISMATCH'' ''An FTP revision file changed while it was being downloaded.'')
       else case snd transfer of
         Some ex \<Rightarrow> raiseS (recovery_error ''An expected file in the FTP revision copy could not be downloaded.'' ex)
       | None \<Rightarrow>
           if int (length content) \<noteq> xf_size x
           then raiseS (DestinationError ''RECOVERY_SIZE_MISMATCH'' ''An FTP revision file was incomplete when downloaded.'')
           else if sha256_hex e content \<noteq> xf_sha256 x
           then raiseS (DestinationError ''RECOVERY_HASH_MISMATCH'' ''An FTP revision file failed SHA256 integrity verification.'')
           else returnS (int (length content)))))"

fun recover_files ::
  "env \<Rightarrow> 's ftp_server \<Rightarrow> (string \<Rightarrow> json option) \<Rightarrow> revision_view \<Rightarrow> string \<Rightarrow> string \<Rightarrow> int \<Rightarrow> expected_file list
   \<Rightarrow> expected_file list \<Rightarrow> int \<Rightarrow> ('s archiving, int) prog" where
  "recover_files e sv loads rv path prefix limit files [] done = returnS done"
| "recover_files e sv loads rv path prefix limit files (x # xs) done =
     (if path_name (xf_filename x) \<noteq> xf_filename x \<or> xf_filename x = [] \<or> xf_filename x = ''.'' \<or> xf_filename x = ''..''
      then raiseS (DestinationError ''RECOVERY_ARCHIVE_PATH_INVALID'' ''An FTP artifact filename could not be archived safely.'')
      else bindS (if xf_artifact_type x = ''manifest''
                  then recover_manifest sv loads rv path files (join_ftp_path path [xf_filename x])
                         (posix_join prefix [xf_filename x]) (limit - done)
                  else recover_artifact e sv x (join_ftp_path path [xf_filename x]) (posix_join prefix [xf_filename x])) (\<lambda>n.
           recover_files e sv loads rv path prefix limit files xs (done + n)))"

record verified_download =
  vd_file_count :: nat
  vd_verified_bytes :: int
  vd_remote_path :: string

definition write_verified_ftp_replica_to_archive ::
  "env \<Rightarrow> (string \<Rightarrow> string) \<Rightarrow> 's ftp_server \<Rightarrow> secret_registry \<Rightarrow> (string \<Rightarrow> json option) \<Rightarrow> backup_destination
   \<Rightarrow> revision_replica \<Rightarrow> revision_view \<Rightarrow> string \<Rightarrow> int \<Rightarrow> ('s archiving, verified_download) prog" where
  "write_verified_ftp_replica_to_archive e asc sv secrets loads dst p rv archive_prefix max_total_bytes =
     (let path = p_remote_path p in
      if dst_protocol dst \<noteq> PFtp
      then raiseS (DestinationError ''RECOVERY_PROTOCOL_UNSUPPORTED'' ''A verified recovery package can currently be prepared only from FTP.'')
      else if p_status p \<noteq> PSuccess
      then raiseS (DestinationError ''RECOVERY_REPLICA_NOT_READY'' ''The selected FTP revision copy has not completed successfully.'')
      else if \<not> p_remote_available p \<or> p_remote_deleted_at p \<noteq> None
      then raiseS (DestinationError ''RECOVERY_REPLICA_EXPIRED'' ''The selected FTP revision copy has expired and is no longer available.'')
      else if is_absolute archive_prefix \<or> list_ex (\<lambda>part. part = [] \<or> part = ''.'' \<or> part = ''..'') (all_parts archive_prefix)
      then raiseS (DestinationError ''RECOVERY_ARCHIVE_PATH_INVALID'' ''The recovery archive path could not be generated safely.'')
      else bindS (liftE (validate_recorded_revision_path asc (dst_base_path dst) rv path ''RECOVERY_REMOTE_PATH_INVALID'')) (\<lambda>_.
           bindS (liftE (expected_at e asc rv path)) (\<lambda>files.
           if max_total_bytes \<le> 0
              \<or> max_total_bytes < sum_list (map xf_size (filter (\<lambda>x. xf_artifact_type x \<noteq> ''manifest'') files))
           then raiseS (DestinationError ''RECOVERY_PACKAGE_TOO_LARGE'' ''The FTP revision copy exceeds the configured recovery package size limit.'')
           else bindS (on_ftp (connect_ftp sv secrets dst)) (\<lambda>_.
                bindS (finallyS (wrap_ftp (DestinationError ''RECOVERY_DOWNLOAD_FAILED'' ''The verified FTP recovery package could not be downloaded.'')
                   (recover_files e sv loads rv path archive_prefix max_total_bytes files files 0)) (on_ftp (close_ftp sv))) (\<lambda>n.
                returnS \<lparr>vd_file_count = length files, vd_verified_bytes = n, vd_remote_path = path\<rparr>)))))"

end
