(* ===== verification/Ftp_Safety.thy ===== *)
theory Ftp_Safety
  imports Ftp_Client
begin

text \<open>
  What the FTP client does to any server: which commands it can send (audit, upload, deletion), that an upload or a
  recovery that is reported successful was verified, that the verdict of an audit is honest, and that the walk over
  remote ancestors ends. The last section runs the client against a small server.
\<close>

section \<open>What the client sends\<close>

text \<open>
  A call extends the log by commands that satisfy \<open>P\<close>, whatever the server answers and whether the call
  returns or raises.
\<close>

definition sends :: "(ftp_event \<Rightarrow> bool) \<Rightarrow> 's ftp \<Rightarrow> 's ftp \<Rightarrow> bool" where
  "sends P f f' \<longleftrightarrow> (\<exists>evs. ftp_log f' = ftp_log f @ evs \<and> (\<forall>ev \<in> set evs. P ev))"

lemma sends_refl: "sends P f f"
  by (simp add: sends_def)

lemma sends_trans: "sends P f f' \<Longrightarrow> sends P f' f'' \<Longrightarrow> sends P f f''"
  unfolding sends_def by (metis Un_iff append.assoc set_append)

lemma sends_mono: "(\<And>ev. P ev \<Longrightarrow> Q ev) \<Longrightarrow> sends P f f' \<Longrightarrow> sends Q f f'"
  unfolding sends_def by blast

interpretation log: step_relation "sends P :: 's ftp \<Rightarrow> 's ftp \<Rightarrow> bool" for P
  by unfold_locales (auto intro: sends_refl sends_trans)

named_theorems ftp_intros

lemma within_call: "(\<And>r. P (ev r)) \<Longrightarrow> within (sends P) (ftp_call ev m)"
  by (auto simp: within_def ftp_call_def sends_def split: prod.splits)

lemma within_finallyS: "within (sends P) m \<Longrightarrow> within (sends P) c \<Longrightarrow> within (sends P) (finallyS m c)"
  unfolding within_def finallyS_def
  by (auto split: prod.splits sum.splits) (meson sends_trans)+

lemma within_liftE: "within (sends P) (liftE r)"
  unfolding liftE_def by (rule log.within_readS)

lemma within_wrap_ftp: "within (sends P) m \<Longrightarrow> within (sends P) (wrap_ftp e m)"
  unfolding wrap_ftp_def by (intro log.within_catchS log.within_raiseS)

lemma within_upload_phase: "within (sends P) m \<Longrightarrow> within (sends P) (upload_phase c t m)"
  unfolding upload_phase_def by (intro log.within_catchS log.within_raiseS)

lemmas ftp_within = log.within_intros within_finallyS within_liftE within_wrap_ftp within_upload_phase

lemmas ftp_commands = ftp_cwd_def ftp_nlst_def ftp_mkd_def ftp_delete_def ftp_rmd_def ftp_rename_def ftp_stor_def
  ftp_type_i_def ftp_size_def ftp_retr_def close_ftp_def

text \<open>The commands that only look.\<close>

fun looks :: "ftp_event \<Rightarrow> bool" where
  "looks (Cwd _) = True"
| "looks (Nlst _) = True"
| "looks TypeI = True"
| "looks (Size _) = True"
| "looks (Retr _ _) = True"
| "looks Connect = True"
| "looks Quit = True"
| "looks _ = False"

locale ftp_reader =
  fixes P :: "ftp_event \<Rightarrow> bool"
  assumes looks_allowed: "looks ev \<Longrightarrow> P ev"
begin

lemma within_reads:
  "within (sends P) (ftp_cwd sv p)" "within (sends P) (ftp_nlst sv q)" "within (sends P) (ftp_type_i sv)"
  "within (sends P) (ftp_size sv p)" "within (sends P) (ftp_retr sv p)" "within (sends P) (close_ftp sv)"
  unfolding ftp_commands by (intro within_call looks_allowed; simp)+

lemma within_download: "within (sends P) (ftp_download sv p)"
  unfolding ftp_download_def by (intro ftp_within within_reads)

lemma within_connect: "within (sends P) (connect_ftp sv secrets dst)"
  unfolding connect_ftp_def
  by (auto intro!: ftp_within within_reads within_call looks_allowed split: prod.splits)

lemma within_absent_walk: "within (sends P) (absent_walk sv current)"
proof -
  have "absent_walk sv current f = (r, f') \<Longrightarrow> sends P f f'" for f r f'
  proof (induction sv current f arbitrary: r f' rule: absent_walk.induct)
    case (1 sv current f)
    let ?m = "bindS (ftp_cwd sv (parent_of current)) (\<lambda>_. ftp_nlst sv None)"
    obtain r1 f1 where m: "?m f = (r1, f1)" by (cases "?m f")
    have "within (sends P) ?m" by (intro ftp_within within_reads)
    from withinD [OF this m] have step: "sends P f f1" .
    show ?case
    proof (cases "current = [] \<or> current = ''/'' \<or> posix_basename current = []")
      case True
      with "1.prems" show ?thesis by (subst (asm) absent_walk.simps) (auto intro: sends_refl)
    next
      case False
      show ?thesis
      proof (cases "\<exists>e. r1 = Inl e \<and> ftp_perm e \<and> \<not> is_denied_ftp_error e")
        case True
        then obtain e where e: "r1 = Inl e" "ftp_perm e" "\<not> is_denied_ftp_error e" by blast
        from "1.prems" False m e have "absent_walk sv (parent_of current) f1 = (r, f')"
          by (subst (asm) absent_walk.simps) simp
        with "1.IH" [OF False m [symmetric] e(1,2,3)] have "sends P f1 f'" by blast
        with step show ?thesis by (rule sends_trans)
      next
        case no: False
        with "1.prems" False m have "f' = f1"
          by (subst (asm) absent_walk.simps) (auto split: sum.splits if_splits)
        with step show ?thesis by simp
      qed
    qed
  qed
  then show ?thesis by (simp add: within_def)
qed

lemma within_absent: "within (sends P) (directory_absent_from_parent_listing sv p)"
  unfolding directory_absent_from_parent_listing_def by (rule within_absent_walk)

lemma within_list: "within (sends P) (list_revision_directory sv p ok)"
  unfolding list_revision_directory_def
  by (auto intro!: ftp_within within_reads within_absent split: option.split)

lemma within_read_remote: "within (sends P) (read_remote sv p n)"
  unfolding read_remote_def
  by (auto intro!: ftp_within within_reads within_download split: option.split)

lemma within_remote_exists: "within (sends P) (remote_exists sv p)"
  unfolding remote_exists_def by (auto intro!: ftp_within within_reads within_absent)

lemma within_verify: "within (sends P) (verify_remote_file e sv loads p x rv path files)"
  unfolding verify_remote_file_def verify_remote_manifest_def size_or_problem_def download_or_problem_def
  by (auto intro!: ftp_within within_reads within_download within_read_remote split: sum.split option.split)

lemma within_audit_files: "within (sends P) (audit_files e sv loads lim p rv path files xs st)"
  by (induction xs arbitrary: st) (simp_all add: ftp_within within_verify)

lemma within_audit_replica: "within (sends P) (audit_replica e asc sv loads lim dst pr a)"
  unfolding audit_replica_def by (auto intro!: ftp_within within_audit_files split: prod.split)

lemma within_audit_replicas: "within (sends P) (audit_replicas e asc sv loads lim dst prs a)"
  by (induction prs arbitrary: a) (simp_all add: ftp_within within_audit_replica)

lemma within_reconcile: "within (sends P) (reconcile_ftp_destination e asc sv secrets loads dst explicit rows lim)"
  unfolding reconcile_ftp_destination_def Let_def
  by (auto intro!: ftp_within within_connect within_audit_replicas within_reads)

end

lemma within_bind_liftE: "(\<And>x. r = Inr x \<Longrightarrow> within (sends P) (f x)) \<Longrightarrow> within (sends P) (bindS (liftE r) f)"
  by (cases r) (auto simp: within_def bindS_def liftE_def readS_def intro: sends_refl)

text \<open>A client that may also delete the named files of one directory, and one that may also remove it.\<close>

locale ftp_deleter = ftp_reader +
  fixes path :: string and names :: "string set"
  assumes dele_allowed: "n \<in> names \<Longrightarrow> P (Dele (join_ftp_path path [n]))"
begin

lemma within_delete_listed: "n \<in> names \<Longrightarrow> within (sends P) (delete_listed sv path allowed t1 t2 n)"
  unfolding delete_listed_def ftp_delete_def
  by (auto intro!: ftp_within within_list within_call dele_allowed split: option.split)

lemma within_delete_expected:
  "xf_filename ` set xs \<subseteq> names \<Longrightarrow> within (sends P) (delete_expected sv path allowed xs st)"
proof (induction xs arbitrary: st)
  case (Cons x xs)
  then show ?case
    by (auto intro!: ftp_within within_list within_delete_listed split: prod.split)
qed (simp add: ftp_within)

lemma within_delete_temporary:
  "set ns \<subseteq> names \<Longrightarrow> within (sends P) (forS (delete_listed sv path allowed t1 t2) ns)"
  by (induction ns) (auto intro!: ftp_within within_delete_listed)

end

locale ftp_remover = ftp_deleter +
  assumes rmd_allowed: "P (Rmd path)"
begin

lemma within_remove_directory: "within (sends P) (remove_directory sv path)"
  unfolding remove_directory_def ftp_rmd_def
  by (auto intro!: ftp_within within_list within_reads within_call rmd_allowed split: option.split)

lemma within_delete_copy:
  assumes "\<And>x. x \<in> set files \<Longrightarrow> xf_filename x \<in> names \<and> part_name (xf_filename x) \<in> names"
  shows "within (sends P) (delete_copy sv path files)"
  unfolding delete_copy_def Let_def
  by (auto intro!: ftp_within within_list within_delete_temporary within_delete_expected within_remove_directory
        split: option.split) (use assms in \<open>auto dest: assms\<close>)

end

definition deletes :: "string \<Rightarrow> string set \<Rightarrow> ftp_event \<Rightarrow> bool" where
  "deletes path names ev \<longleftrightarrow> looks ev \<or> (\<exists>n \<in> names. ev = Dele (join_ftp_path path [n]))"

definition removes :: "string \<Rightarrow> string set \<Rightarrow> ftp_event \<Rightarrow> bool" where
  "removes path names ev \<longleftrightarrow> deletes path names ev \<or> ev = Rmd path"

interpretation looking: ftp_reader looks
  by unfold_locales

interpretation deleting: ftp_deleter "deletes path names" path names for path names
  by unfold_locales (auto simp: deletes_def)

interpretation removing: ftp_remover "removes path names" path names for path names
  by unfold_locales (auto simp: removes_def deletes_def)

text \<open>
  C25. The integrity audit of an FTP destination never changes it: whatever the server answers, the commands sent are
  logins, directory changes, listings, sizes and downloads.
\<close>

theorem ftp_audit_read_only:
  assumes "reconcile_ftp_destination e asc sv secrets loads dst explicit rows lim f = (r, f')"
  shows "\<exists>evs. ftp_log f' = ftp_log f @ evs \<and> (\<forall>ev \<in> set evs. looks ev)"
  using withinD [OF looking.within_reconcile assms] by (simp add: sends_def)

definition deletable_names :: "expected_file list \<Rightarrow> string set" where
  "deletable_names files = xf_filename ` set files \<union> (part_name \<circ> xf_filename) ` set files"

lemma within_option: "within R m \<Longrightarrow> (\<And>x. within R (g x)) \<Longrightarrow> within R (case v of None \<Rightarrow> m | Some x \<Rightarrow> g x)"
  by (cases v) auto

text \<open>Two phases, one after the other.\<close>

definition sends_then :: "(ftp_event \<Rightarrow> bool) \<Rightarrow> (ftp_event \<Rightarrow> bool) \<Rightarrow> 's ftp \<Rightarrow> 's ftp \<Rightarrow> bool" where
  "sends_then P Q f f' \<longleftrightarrow> (\<exists>f1. sends P f f1 \<and> sends Q f1 f')"

lemma then_first: "within (sends P) m \<Longrightarrow> within (sends_then P Q) m"
  unfolding within_def sends_then_def using sends_refl by blast

lemma then_second: "within (sends Q) m \<Longrightarrow> within (sends_then P Q) m"
  unfolding within_def sends_then_def using sends_refl by blast

lemma then_bind:
  assumes "within (sends P) m" "\<And>x. within (sends_then P Q) (g x)"
  shows "within (sends_then P Q) (bindS m g)"
  using assms unfolding within_def sends_then_def
  by (auto simp: bindS_def split: prod.splits sum.splits) (metis sends_refl, metis sends_trans)

lemma then_after:
  assumes "within (sends_then P Q) m" "\<And>x. within (sends Q) (g x)"
  shows "within (sends_then P Q) (bindS m g)"
  using assms unfolding within_def sends_then_def
  by (auto simp: bindS_def split: prod.splits sum.splits) (metis sends_trans)

lemma then_wrap: "within (sends_then P Q) m \<Longrightarrow> within (sends_then P Q) (wrap_ftp e m)"
  unfolding within_def wrap_ftp_def catchS_def raiseS_def by (auto split: prod.splits sum.splits)

lemma then_finally:
  "within (sends_then P Q) m \<Longrightarrow> within (sends Q) c \<Longrightarrow> within (sends_then P Q) (finallyS m c)"
  unfolding within_def finallyS_def sends_then_def
  by (auto split: prod.splits sum.splits) (meson sends_trans)+

lemma delete_expected_append:
  "delete_expected sv path allowed (xs @ ys) st
   = bindS (delete_expected sv path allowed xs st) (delete_expected sv path allowed ys)"
proof (induction xs arbitrary: st)
  case Nil
  then show ?case by (auto simp: bindS_def returnS_def)
next
  case (Cons x xs)
  then show ?case
    by (cases st) (auto simp: bindS_def fun_eq_iff split: prod.split sum.split)
qed

lemma manifest_not_part [simp]: "part_name n \<noteq> manifest_name"
proof
  assume "part_name n = manifest_name"
  then have "last (part_name n) = last manifest_name" by simp
  then show False by (simp add: part_name_def manifest_name_def)
qed

lemma delete_copy_phases:
  "within (sends_then (deletes path (deletable_names files - {manifest_name})) (removes path {manifest_name}))
     (delete_copy sv path files)"
proof -
  let ?P = "deletes path (deletable_names files - {manifest_name})" and ?Q = "removes path {manifest_name}"
  let ?A = "filter (\<lambda>x. xf_filename x \<noteq> manifest_name) files" and ?M = "filter (\<lambda>x. xf_filename x = manifest_name) files"
  have exp: "within (sends_then ?P ?Q) (delete_expected sv path allowed (?A @ ?M) st)" for allowed st
    unfolding delete_expected_append
    by (intro then_bind then_second deleting.within_delete_expected removing.within_delete_expected)
       (auto simp: deletable_names_def)
  have tmp: "within (sends ?P) (forS (delete_listed sv path allowed t1 t2) (sort (filter (\<lambda>n. n \<in> part_name ` xf_filename ` set files) es)))"
    for allowed t1 t2 es
    by (intro deleting.within_delete_temporary) (auto simp: deletable_names_def)
  have rest: "within (sends ?Q) (bindS (remove_directory sv path) (\<lambda>_. returnS x))" for x :: deleted_ftp_revision
    by (intro ftp_within removing.within_remove_directory)
  show ?thesis
    unfolding delete_copy_def Let_def set_map
    by (intro then_bind [OF deleting.within_list] within_option then_first [OF log.within_returnS]
        then_bind [OF within_liftE] then_bind [OF tmp] then_after [OF exp] rest)
qed


lemma bind_liftE_Inr [simp]: "bindS (liftE (Inr x)) g = g x"
  by (auto simp: bindS_def liftE_def readS_def)

lemma traverse_ok: "traverse g xs = Inr ys \<Longrightarrow> x \<in> set xs \<Longrightarrow> \<exists>y. g x = Inr y"
  by (induction xs arbitrary: ys) (auto simp: result_simps)

lemma validate_fileset_names:
  assumes "validate_fileset files = Inr ()" "x \<in> set files"
  shows "CHR ''/'' \<notin> set (xf_filename x)"
proof -
  from assms have "validate_direct_filename (xf_filename x) = Inr ()"
    by (auto simp: validate_fileset_def result_simps split: if_splits dest: traverse_ok)
  then show ?thesis by (intro path_name_slash) (simp add: validate_direct_filename_def split: if_splits)
qed


section \<open>Uploads are verified before they are published\<close>

text \<open>
  The log shows that a file holds content of the given digest: it was read back under its name, or under its
  temporary name before the server confirmed the renaming.
\<close>

definition published :: "env \<Rightarrow> string \<Rightarrow> string \<Rightarrow> ftp_event list \<Rightarrow> bool" where
  "published e path digest evs \<longleftrightarrow>
     (\<exists>c. Retr path (Inr c) \<in> set evs \<and> sha256_hex e c = digest)
     \<or> (\<exists>c xs ys zs. evs = xs @ Retr (part_name path) (Inr c) # ys @ Rename (part_name path) path True # zs \<and> sha256_hex e c = digest)"

lemma published_append: "published e path digest evs \<Longrightarrow> published e path digest (xs @ evs @ ys)"
  unfolding published_def by (elim disjE) (auto, metis append.assoc append_Cons)

lemma sendsD: "within (sends P) m \<Longrightarrow> m f = (r, f') \<Longrightarrow> \<exists>evs. ftp_log f' = ftp_log f @ evs \<and> (\<forall>ev \<in> set evs. P ev)"
  using withinD [of "sends P" m f r f'] by (simp add: sends_def)

lemma wrap_ftp_eq_Inr [prog_simps]: "wrap_ftp e m s = (Inr x, s') \<longleftrightarrow> m s = (Inr x, s')"
  by (auto simp: wrap_ftp_def prog_simps)

lemma finallyS_eq_Inr [prog_simps]:
  "finallyS m c s = (Inr x, s') \<longleftrightarrow> (\<exists>s1 u. m s = (Inr x, s1) \<and> c s1 = (Inr u, s'))"
  by (auto simp: finallyS_def split: prod.splits sum.splits)

lemma liftE_eq [prog_simps]: "liftE r s = (r', s') \<longleftrightarrow> r = r' \<and> s' = s"
  by (auto simp: liftE_def prog_simps)

lemma ftp_download_log:
  assumes "ftp_download sv p f = (Inr c, f')"
  shows "ftp_log f' = ftp_log f @ [Retr p (Inr c)]"
  using assms by (auto simp: ftp_download_def ftp_retr_def ftp_call_def prog_simps split: prod.splits)

lemma read_remote_log:
  assumes "read_remote sv p n f = (Inr c, f')"
  shows "\<exists>evs. ftp_log f' = ftp_log f @ evs @ [Retr p (Inr c)]"
proof -
  have "\<exists>r f1. bindS (ftp_type_i sv) (\<lambda>_. ftp_size sv p) f = (r, f1) \<and> ftp_download sv p f1 = (Inr c, f')"
    using assms unfolding read_remote_def
    apply (subst (asm) bindS_eq_Inr)
    apply (elim exE conjE)
    subgoal for y f1
      by (cases y) (auto simp: wrap_ftp_eq_Inr bindS_eq_Inr [of "wrap_ftp e m" for e m] raiseS_def returnS_def split: if_split_asm)
    done
  then obtain r f1 where 1: "bindS (ftp_type_i sv) (\<lambda>_. ftp_size sv p) f = (r, f1)" and 2: "ftp_download sv p f1 = (Inr c, f')"
    by blast
  have "within (sends looks) (bindS (ftp_type_i sv) (\<lambda>_. ftp_size sv p))"
    by (intro ftp_within looking.within_reads)
  from sendsD [OF this 1] ftp_download_log [OF 2] show ?thesis by auto
qed

lemma rename_log:
  assumes "ftp_rename sv p q f = (Inr u, f')"
  shows "ftp_log f' = ftp_log f @ [Rename p q True]"
  using assms by (auto simp: ftp_rename_def ftp_call_def split: prod.splits)

lemma put_immutable_published:
  assumes "put_immutable e sv path content digest f = (Inr b, f')"
  shows "\<exists>evs. ftp_log f' = ftp_log f @ evs \<and> published e path digest evs"
proof -
  from assms obtain present f1 where 1: "remote_exists sv path f = (Inr present, f1)"
    by (auto simp: put_immutable_def prog_simps)
  from sendsD [OF looking.within_remote_exists 1] obtain e1 where e1: "ftp_log f1 = ftp_log f @ e1" by blast
  show ?thesis
  proof (cases present)
    case True
    with assms 1 obtain c where "read_remote sv path (int (length content)) f1 = (Inr c, f')" "sha256_hex e c = digest"
      by (auto simp: put_immutable_def prog_simps raiseS_def returnS_def split: if_splits)
    from read_remote_log [OF this(1)] e1 this(2) show ?thesis
      by (auto simp: published_def)
  next
    case False
    with assms 1 obtain f2 c f3 f4 where
      2: "store sv (path @ ''.part'') content f1 = (Inr (), f2)"
      and 3: "read_remote sv (path @ ''.part'') (int (length content)) f2 = (Inr c, f3)"
      and c: "sha256_hex e c = digest"
      and 4: "ftp_rename sv (path @ ''.part'') path f3 = (Inr (), f4)"
      and 5: "catchS (ftp_delete sv (path @ ''.part'')) (\<lambda>e. if ftp_all_errors e then returnS () else raiseS e) f4 = (Inr (), f')"
      by (auto simp: put_immutable_def prog_simps Let_def raiseS_def split: if_splits)
    have "within (sends (\<lambda>_. True)) (store sv (path @ ''.part'') content)"
      unfolding store_def ftp_stor_def by (intro ftp_within within_call) simp
    from sendsD [OF this 2] obtain e2 where e2: "ftp_log f2 = ftp_log f1 @ e2" by blast
    have "within (sends (\<lambda>_. True)) (catchS (ftp_delete sv (path @ ''.part'')) (\<lambda>e. if ftp_all_errors e then returnS () else raiseS e))"
      unfolding ftp_delete_def by (auto intro!: ftp_within within_call)
    from sendsD [OF this 5] obtain e5 where e5: "ftp_log f' = ftp_log f4 @ e5" by blast
    from read_remote_log [OF 3] obtain e3 where e3: "ftp_log f3 = ftp_log f2 @ e3 @ [Retr (path @ ''.part'') (Inr c)]" by blast
    have "published e path digest (e1 @ e2 @ e3 @ Retr (part_name path) (Inr c) # [] @ Rename (part_name path) path True # e5)"
      unfolding published_def using c by (metis append.assoc)
    with e1 e2 e3 e5 rename_log [OF 4] show ?thesis by (auto simp: part_name_def)
  qed
qed

text \<open>A client that may create the directories above \<open>segs\<close> and publish the files in \<open>finals\<close>.\<close>

definition uploads :: "string list \<Rightarrow> string set \<Rightarrow> ftp_event \<Rightarrow> bool" where
  "uploads segs finals ev \<longleftrightarrow> looks ev \<or> (\<exists>k. ev = Mkd (abs_path (take k segs)))
     \<or> (\<exists>q \<in> finals. (\<exists>c. ev = Stor (part_name q) c) \<or> (\<exists>b. ev = Rename (part_name q) q b) \<or> ev = Dele (part_name q))"

interpretation uploading: ftp_reader "uploads segs finals" for segs finals
  by unfold_locales (simp add: uploads_def)

lemma within_cwd_attempts: "within (sends (uploads segs finals)) (cwd_attempts sv p n)"
  by (induction n) (auto intro!: ftp_within uploading.within_reads)

lemma within_make_directory: "within (sends (uploads segs finals)) (make_directory sv (abs_path (take k segs)))"
  unfolding make_directory_def cwd_after_mkdir_def ftp_mkd_def
  by (auto intro!: ftp_within uploading.within_reads uploading.within_absent within_cwd_attempts within_call)
     (auto simp: uploads_def)

lemma join_abs: "list_all clean_segment (as @ [p]) \<Longrightarrow> posix_join2 (abs_path as) p = abs_path (as @ [p])"
proof (cases "as = []")
  assume a: "list_all clean_segment (as @ [p])"
  then have p: "take 1 p \<noteq> ''/''" by (cases p) (auto simp: clean_segment_def)
  {
    case True
    with p show ?thesis by (simp add: posix_join2_def abs_path_def)
  next
    case False
    with a p last_join [of as] show ?thesis by (simp add: posix_join2_def abs_path_def join_snoc)
  }
qed

lemma within_mkdirs_from:
  "list_all clean_segment (as @ ps) \<Longrightarrow> within (sends (uploads (as @ ps) finals)) (mkdirs_from sv (abs_path as) ps)"
proof (induction ps arbitrary: as)
  case (Cons p ps)
  then have p: "p \<noteq> ''/''" "p \<noteq> []" "p \<noteq> ''.''" by (auto simp: clean_segment_def)
  have j: "posix_join2 (abs_path as) p = abs_path (as @ [p])" using Cons.prems by (intro join_abs) simp
  have "within (sends (uploads (as @ p # ps) finals)) (make_directory sv (abs_path (take (length as + 1) (as @ p # ps))))"
    by (rule within_make_directory)
  then have "within (sends (uploads (as @ p # ps) finals)) (make_directory sv (abs_path (as @ [p])))" by simp
  moreover have "within (sends (uploads (as @ p # ps) finals)) (mkdirs_from sv (abs_path (as @ [p])) ps)"
    using Cons.IH [of "as @ [p]"] Cons.prems by simp
  ultimately show ?case using p j by (simp add: Let_def log.within_bindS)
qed (simp add: ftp_within)

lemma within_mkdirs:
  assumes "list_all clean_segment segs"
  shows "within (sends (uploads segs finals)) (mkdirs sv (abs_path segs))"
  using within_mkdirs_from [of "[]" segs finals sv] assms
  by (simp add: mkdirs_def) (simp add: abs_path_def)

lemma within_put_immutable:
  assumes "q \<in> finals"
  shows "within (sends (uploads segs finals)) (put_immutable e sv q content digest)"
  unfolding put_immutable_def store_def ftp_stor_def ftp_rename_def ftp_delete_def Let_def
  by (auto intro!: ftp_within uploading.within_remote_exists uploading.within_read_remote within_call)
     (use assms in \<open>auto simp: uploads_def part_name_def\<close>)

definition copy_targets :: "string \<Rightarrow> expected_file list \<Rightarrow> string set" where
  "copy_targets path files = (\<lambda>n. join_ftp_path path [n]) ` insert manifest_name (xf_filename ` set files)"

lemma artifact_by_type_in: "artifact_by_type files ty = Some x \<Longrightarrow> x \<in> set files"
  by (auto simp: artifact_by_type_def dest: find_SomeD)

lemma within_upload_artifact:
  "within (sends (uploads segs (copy_targets path files))) (upload_artifact e sv get dst path files a)"
  unfolding upload_artifact_def
  by (auto intro!: ftp_within within_put_immutable split: option.split)
     (auto simp: copy_targets_def dest: artifact_by_type_in)

lemma within_upload_manifest:
  "within (sends (uploads segs (copy_targets path files))) (upload_manifest e sv loads rv path files m)"
  unfolding upload_manifest_def Let_def
  by (auto intro!: ftp_within within_put_immutable uploading.within_remote_exists uploading.within_read_remote)
     (simp add: copy_targets_def)

lemma within_upload_revision:
  assumes "list_all clean_segment segs" "path = abs_path segs"
  shows "within (sends (uploads segs (copy_targets path files))) (upload_revision e asc sv loads get dst rv path directory files)"
  unfolding upload_revision_def assms(2)
  by (intro ftp_within within_mkdirs assms(1) within_upload_artifact within_upload_manifest)

lemma replication_path_valid:
  assumes "replication_path asc dst rv recorded = Inr (path, directory)"
  shows "\<exists>layout. validate_recorded_revision_path asc (dst_base_path dst) rv path ''REPLICATION_PATH_INVALID'' = Inr (layout, directory)"
  using assms by (auto simp: replication_path_def result_simps)


lemma upload_artifact_published:
  assumes "upload_artifact e sv get dst path files a f = (Inr n, f')"
  shows "\<exists>x evs. artifact_by_type files (a_artifact_type a) = Some x \<and> ftp_log f' = ftp_log f @ evs
    \<and> published e (join_ftp_path path [xf_filename x]) (a_raw_hash a) evs"
proof -
  from assms obtain content x b where c: "read_primary e get a = Inr content" and x: "artifact_by_type files (a_artifact_type a) = Some x"
    and put: "put_immutable e sv (join_ftp_path path [xf_filename x]) content (sha256_hex e content) f = (Inr b, f')"
    by (auto simp: upload_artifact_def prog_simps raiseS_def split: if_splits option.splits)
  from c have "sha256_hex e content = a_raw_hash a"
    by (auto simp: read_primary_def split: sum.splits exn.splits if_splits)
  with put_immutable_published [OF put] x show ?thesis by auto
qed

lemma upload_artifacts_published:
  assumes "sumS (upload_artifact e sv get dst path files) as f = (Inr n, f')"
  shows "\<exists>evs. ftp_log f' = ftp_log f @ evs \<and> (\<forall>a \<in> set as. \<exists>x. artifact_by_type files (a_artifact_type a) = Some x
    \<and> published e (join_ftp_path path [xf_filename x]) (a_raw_hash a) evs)"
  using assms
proof (induction as arbitrary: f n)
  case (Cons a as)
  then obtain m k f1 where 1: "upload_artifact e sv get dst path files a f = (Inr m, f1)"
    and 2: "sumS (upload_artifact e sv get dst path files) as f1 = (Inr k, f')"
    by (auto simp: prog_simps)
  from upload_artifact_published [OF 1] obtain x e1 where e1: "artifact_by_type files (a_artifact_type a) = Some x"
    "ftp_log f1 = ftp_log f @ e1" "published e (join_ftp_path path [xf_filename x]) (a_raw_hash a) e1" by blast
  from Cons.IH [OF 2] obtain e2 where e2: "ftp_log f' = ftp_log f1 @ e2" "\<forall>a \<in> set as. \<exists>x. artifact_by_type files (a_artifact_type a) = Some x
    \<and> published e (join_ftp_path path [xf_filename x]) (a_raw_hash a) e2" by blast
  show ?case
  proof (rule exI [of _ "e1 @ e2"], intro conjI ballI)
    show "ftp_log f' = ftp_log f @ (e1 @ e2)" using e1 e2 by simp
    fix b assume "b \<in> set (a # as)"
    then show "\<exists>x. artifact_by_type files (a_artifact_type b) = Some x \<and> published e (join_ftp_path path [xf_filename x]) (a_raw_hash b) (e1 @ e2)"
      using e1 e2(2) published_append [of e _ _ e1 "[]" e2] published_append [of e _ _ e2 e1 "[]"] by fastforce
  qed
qed (auto simp: prog_simps)

lemma upload_phase_eq_Inr [prog_simps]: "upload_phase c t m s = (Inr x, s') \<longleftrightarrow> m s = (Inr x, s')"
  by (auto simp: upload_phase_def prog_simps)


section \<open>Recovered archives are verified\<close>

definition recovered ::
  "env \<Rightarrow> (string \<Rightarrow> json option) \<Rightarrow> revision_view \<Rightarrow> string \<Rightarrow> expected_file list \<Rightarrow> expected_file \<Rightarrow> string \<Rightarrow> bool" where
  "recovered e loads rv path files x c \<longleftrightarrow>
     (if xf_artifact_type x = ''manifest'' then manifest_matches_revision loads c rv path files
      else sha256_hex e c = xf_sha256 x \<and> int (length c) = xf_size x)"

lemma on_ftp_eq [prog_simps]: "on_ftp m s = (r, s') \<longleftrightarrow> m (fst s) = (r, fst s') \<and> snd s' = snd s"
  by (cases "m (fst s)"; cases s') (auto simp: on_ftp_def)

lemma write_member_eq [prog_simps]: "write_member n c s = (r, s') \<longleftrightarrow> r = Inr () \<and> s' = (fst s, snd s @ [(n, c)])"
  by (auto simp: write_member_def)

lemma catch_raise_eq_Inr: "catchS m (\<lambda>e. raiseS (h e)) s = (Inr x, s') \<longleftrightarrow> m s = (Inr x, s')"
  by (auto simp: prog_simps)

lemma read_remote_bound: "read_remote sv p n f = (Inr c, f') \<Longrightarrow> int (length c) \<le> n"
  unfolding read_remote_def
  by (auto simp: prog_simps raiseS_def returnS_def split: option.splits if_splits)

lemma recover_manifest_ok:
  assumes "recover_manifest sv loads rv path files rp member remaining s = (Inr n, s')"
  shows "\<exists>c. snd s' = snd s @ [(member, c)] \<and> n = int (length c) \<and> n \<le> remaining \<and> manifest_matches_revision loads c rv path files"
proof -
  from assms obtain c s1 where "on_ftp (read_remote sv rp (min max_manifest_bytes remaining)) s = (Inr c, s1)"
    "manifest_matches_revision loads c rv path files" "s' = (fst s1, snd s1 @ [(member, c)])" "n = int (length c)"
    unfolding recover_manifest_def
    by (auto simp: bindS_eq_Inr catch_raise_eq_Inr write_member_eq returnS_eq raiseS_eq split: if_split_asm)
  then show ?thesis by (auto simp: on_ftp_eq dest: read_remote_bound)
qed

lemma recover_artifact_ok:
  assumes "recover_artifact e sv x rp member s = (Inr n, s')"
  shows "\<exists>c. snd s' = snd s @ [(member, c)] \<and> n = int (length c) \<and> int (length c) = xf_size x \<and> sha256_hex e c = xf_sha256 x"
proof -
  from assms obtain size s1 where 1: "on_ftp (bindS (ftp_type_i sv) (\<lambda>_. ftp_size sv rp)) s = (Inr size, s1)"
    and 2: "(if size \<noteq> Some (xf_size x)
     then raiseS (DestinationError ''RECOVERY_SIZE_MISMATCH'' ''An FTP revision file no longer matches its recorded size.'')
     else bindS (on_ftp (ftp_retr sv rp)) (\<lambda>transfer.
       let received = receive_chunks (xf_size x) [] (fst transfer); content = fst received in
       bindS (write_member member content) (\<lambda>_.
       if \<not> snd received
       then raiseS (DestinationError ''RECOVERY_SIZE_MISMATCH'' ''An FTP revision file changed while it was being downloaded.'')
       else case snd transfer of
         Some ex \<Rightarrow> raiseS (recovery_error ''An expected file in the FTP revision copy could not be downloaded.'' ex)
       | None \<Rightarrow>
           if int (length content) \<noteq> xf_size x
           then raiseS (DestinationError ''RECOVERY_SIZE_MISMATCH'' ''An FTP revision file was incomplete when downloaded.'')
           else if sha256_hex e content \<noteq> xf_sha256 x
           then raiseS (DestinationError ''RECOVERY_HASH_MISMATCH'' ''An FTP revision file failed SHA256 integrity verification.'')
           else returnS (int (length content))))) s1 = (Inr n, s')"
    unfolding recover_artifact_def bindS_eq_Inr catch_raise_eq_Inr by blast
  have "snd s1 = snd s" using 1 by (simp add: on_ftp_eq)
  with 2 show ?thesis
    by (auto simp: bindS_eq_Inr on_ftp_eq write_member_eq Let_def raiseS_eq returnS_eq split: if_split_asm option.split_asm)
qed

lemma recover_files_ok:
  assumes "recover_files e sv loads rv path prefix limit files xs n0 s = (Inr n, s')"
  shows "\<exists>cs. snd s' = snd s @ map2 (\<lambda>x c. (posix_join prefix [xf_filename x], c)) xs cs
    \<and> list_all2 (recovered e loads rv path files) xs cs \<and> n = n0 + sum_list (map (int \<circ> length) cs)"
  using assms
proof (induction xs arbitrary: n0 s)
  case (Cons x xs)
  then obtain k s1 where
    1: "(if xf_artifact_type x = ''manifest''
         then recover_manifest sv loads rv path files (join_ftp_path path [xf_filename x]) (posix_join prefix [xf_filename x]) (limit - n0)
         else recover_artifact e sv x (join_ftp_path path [xf_filename x]) (posix_join prefix [xf_filename x])) s = (Inr k, s1)"
    and 2: "recover_files e sv loads rv path prefix limit files xs (n0 + k) s1 = (Inr n, s')"
    by (auto simp: bindS_eq_Inr raiseS_eq split: if_split_asm)
  from 1 obtain c where "snd s1 = snd s @ [(posix_join prefix [xf_filename x], c)]" "k = int (length c)"
    "recovered e loads rv path files x c"
    by (auto simp: recovered_def split: if_split_asm dest!: recover_manifest_ok recover_artifact_ok)
  moreover from Cons.IH [OF 2] obtain cs where
    "snd s' = snd s1 @ map2 (\<lambda>x c. (posix_join prefix [xf_filename x], c)) xs cs"
    "list_all2 (recovered e loads rv path files) xs cs" "n = n0 + k + sum_list (map (int \<circ> length) cs)" by blast
  ultimately show ?case by (intro exI [of _ "c # cs"]) (simp add: comp_def)
qed (auto simp: returnS_eq)

lemma recover_files_last:
  assumes "recover_files e sv loads rv path prefix limit files (xs @ [m]) n0 s = (Inr n, s')" "xf_artifact_type m = ''manifest''"
  shows "n \<le> limit"
  using assms(1)
proof (induction xs arbitrary: n0 s)
  case Nil
  then show ?case using assms(2)
    by (auto simp: bindS_eq_Inr raiseS_eq returnS_eq split: if_split_asm dest!: recover_manifest_ok)
next
  case (Cons x xs)
  then show ?case by (auto simp: bindS_eq_Inr raiseS_eq split: if_split_asm)
qed

text \<open>
  C26. A recovery package that is reported complete is verified, whatever the server sent: it has exactly one member per
  expected file, in order, under the archive prefix; the members of the artifacts have the recorded size and SHA-256,
  the manifest describes the revision, and all of them together do not exceed the size limit.
\<close>

theorem recovered_archive_verified:
  assumes "write_verified_ftp_replica_to_archive e asc sv secrets loads dst p rv prefix limit s = (Inr res, s')"
  shows "\<exists>files contents. expected_at e asc rv (p_remote_path p) = Inr files
    \<and> snd s' = snd s @ map2 (\<lambda>x c. (posix_join prefix [xf_filename x], c)) files contents
    \<and> list_all2 (recovered e loads rv (p_remote_path p) files) files contents
    \<and> vd_file_count res = length files \<and> vd_verified_bytes res = sum_list (map (int \<circ> length) contents)
    \<and> vd_verified_bytes res \<le> limit"
proof -
  from assms obtain files f1 s1 s2 n where
    x: "expected_at e asc rv (p_remote_path p) = Inr files"
    and 1: "on_ftp (connect_ftp sv secrets dst) s = (Inr (), s1)"
    and 2: "recover_files e sv loads rv (p_remote_path p) prefix limit files files 0 s1 = (Inr n, s2)"
    and 3: "on_ftp (close_ftp sv) s2 = (Inr (), s')" and res: "vd_file_count res = length files" "vd_verified_bytes res = n"
    by (auto simp: write_verified_ftp_replica_to_archive_def Let_def bindS_eq_Inr raiseS_eq returnS_eq liftE_eq
        finallyS_eq_Inr wrap_ftp_eq_Inr split: if_split_asm)
  from x obtain xs m where m: "files = xs @ [m]" "xf_artifact_type m = ''manifest''"
    by (auto simp: expected_at_def expected_revision_files_def result_simps Let_def)
  have "n \<le> limit" using recover_files_last 2 m by blast
  with recover_files_ok [OF 2] x res 1 3 show ?thesis by (auto simp: on_ftp_eq)
qed

section \<open>The verdict of an audit\<close>

lemma size_or_problem_cases:
  "size_or_problem sv p f = (Inr r, f') \<Longrightarrow> r \<noteq> Inl Ok"
  by (auto simp: size_or_problem_def catchS_eq bindS_eq_Inr returnS_eq raiseS_eq split: if_split_asm)

lemma download_or_problem_cases:
  "download_or_problem sv p f = (Inr r, f') \<Longrightarrow> r \<noteq> Inl Ok \<and> (\<forall>c. r = Inr c \<longrightarrow> ftp_download sv p f = (Inr c, f'))"
  by (auto simp: download_or_problem_def catchS_eq bindS_eq_Inr returnS_eq raiseS_eq split: if_split_asm)

lemma verify_remote_file_ok:
  assumes "verify_remote_file e sv loads p x rv path files f = (Inr (Ok, n), f')" "xf_artifact_type x \<noteq> ''manifest''"
  shows "\<exists>evs c. ftp_log f' = ftp_log f @ evs \<and> Retr p (Inr c) \<in> set evs \<and> sha256_hex e c = xf_sha256 x \<and> int (length c) = xf_size x"
proof -
  from assms obtain f1 r f2 where 1: "ftp_type_i sv f = (Inr (), f1)" and 2: "size_or_problem sv p f1 = (Inr r, f2)"
    and 3: "(case r of
          Inl i \<Rightarrow> returnS (i, 0)
        | Inr None \<Rightarrow> returnS (Unreadable, 0)
        | Inr (Some n) \<Rightarrow>
            if n < 0 then returnS (Unreadable, 0)
            else if n \<noteq> xf_size x then returnS (SizeMismatch, n)
            else bindS (download_or_problem sv p) (\<lambda>r. returnS (case r of
                   Inl i \<Rightarrow> (i, 0)
                 | Inr content \<Rightarrow>
                     if int (length content) \<noteq> n then (SizeMismatch, int (length content))
                     else if sha256_hex e content \<noteq> xf_sha256 x then (HashMismatch, int (length content))
                     else (Ok, int (length content))))) f2 = (Inr (Ok, n), f')"
    unfolding verify_remote_file_def by (simp add: bindS_eq_Inr) blast
  have "r \<noteq> Inl Ok" using size_or_problem_cases [OF 2] .
  with 3 obtain r' where r': "download_or_problem sv p f2 = (Inr r', f')"
    "(case r' of Inl i \<Rightarrow> (i, 0)
      | Inr content \<Rightarrow> if int (length content) \<noteq> xf_size x then (SizeMismatch, int (length content))
          else if sha256_hex e content \<noteq> xf_sha256 x then (HashMismatch, int (length content))
          else (Ok, int (length content))) = (Ok, n)"
    by (cases r) (auto simp: bindS_eq_Inr returnS_eq split: option.split_asm if_split_asm)
  with download_or_problem_cases [OF r'(1)] obtain c where
    4: "ftp_download sv p f2 = (Inr c, f')" and c: "sha256_hex e c = xf_sha256 x" "int (length c) = xf_size x"
    by (cases r') (auto split: if_split_asm)
  have "within (sends looks) (size_or_problem sv p)"
    unfolding size_or_problem_def by (auto intro!: ftp_within looking.within_reads)
  from sendsD [OF this 2] sendsD [OF looking.within_reads(3) 1] ftp_download_log [OF 4] c show ?thesis by auto
qed

text \<open>What the counters say about each other.\<close>

definition audit_counters :: "nat \<Rightarrow> audit_summary \<Rightarrow> bool" where
  "audit_counters lim a \<longleftrightarrow> length (au_issues a) = min lim (audit_issue_count a)
     \<and> au_issues_truncated a = (lim < audit_issue_count a)"

lemma record_check_counters:
  assumes "audit_counters lim (fst st)"
  shows "audit_counters lim (fst (record_check lim p rv x result st))"
    "audit_issue_count (fst (record_check lim p rv x result st)) = audit_issue_count (fst st) + (if fst result = Ok then 0 else 1)"
    "snd (record_check lim p rv x result st) = (snd st \<or> fst result \<noteq> Ok)"
  using assms
  by (cases "fst result";
      auto simp: record_check_def note_issue_def count_problem_def audit_counters_def audit_issue_count_def Let_def)+

lemma record_check_replicas:
  "au_checked_replicas (fst (record_check lim p rv x result st)) = au_checked_replicas (fst st)"
  "au_healthy_replicas (fst (record_check lim p rv x result st)) = au_healthy_replicas (fst st)"
  "au_failed_replicas (fst (record_check lim p rv x result st)) = au_failed_replicas (fst st)"
  "au_skipped_replicas (fst (record_check lim p rv x result st)) = au_skipped_replicas (fst st)"
  "au_success (fst (record_check lim p rv x result st)) = au_success (fst st)"
  by (cases "fst result"; simp add: record_check_def note_issue_def count_problem_def Let_def)+

lemma audit_files_counters:
  assumes "audit_files e sv loads lim p rv path files xs st f = (Inr st', f')" "audit_counters lim (fst st)"
  shows "audit_counters lim (fst st') \<and> audit_issue_count (fst st) \<le> audit_issue_count (fst st')
    \<and> snd st' = (snd st \<or> audit_issue_count (fst st) < audit_issue_count (fst st'))
    \<and> au_checked_replicas (fst st') = au_checked_replicas (fst st) \<and> au_healthy_replicas (fst st') = au_healthy_replicas (fst st)
    \<and> au_failed_replicas (fst st') = au_failed_replicas (fst st) \<and> au_skipped_replicas (fst st') = au_skipped_replicas (fst st)
    \<and> au_success (fst st') = au_success (fst st)"
  using assms
proof (induction xs arbitrary: st f)
  case (Cons x xs)
  then obtain result f1 where 1: "audit_files e sv loads lim p rv path files xs (record_check lim p rv x result st) f1 = (Inr st', f')"
    by (auto simp: bindS_eq_Inr)
  note rc = record_check_counters [OF Cons.prems(2), of p rv x result] record_check_replicas [of lim p rv x result st]
  from Cons.IH [OF 1 rc(1)] rc show ?case by (auto split: if_split_asm)
qed (simp add: returnS_eq)

definition checked_file :: "env \<Rightarrow> string \<Rightarrow> expected_file \<Rightarrow> ftp_event list \<Rightarrow> bool" where
  "checked_file e path x evs \<longleftrightarrow> xf_artifact_type x = ''manifest''
     \<or> (\<exists>c. Retr (join_ftp_path path [xf_filename x]) (Inr c) \<in> set evs \<and> sha256_hex e c = xf_sha256 x \<and> int (length c) = xf_size x)"

lemma audit_files_checked:
  assumes "audit_files e sv loads lim p rv path files xs st f = (Inr st', f')" "audit_counters lim (fst st)"
    "audit_issue_count (fst st') = audit_issue_count (fst st)"
  shows "\<exists>evs. ftp_log f' = ftp_log f @ evs \<and> (\<forall>x \<in> set xs. checked_file e path x evs)"
  using assms
proof (induction xs arbitrary: st f)
  case (Cons x xs)
  then obtain result f1 where 0: "verify_remote_file e sv loads (join_ftp_path path [xf_filename x]) x rv path files f = (Inr result, f1)"
    and 1: "audit_files e sv loads lim p rv path files xs (record_check lim p rv x result st) f1 = (Inr st', f')"
    by (auto simp: bindS_eq_Inr)
  note rc = record_check_counters [OF Cons.prems(2), of p rv x result]
  from audit_files_counters [OF 1 rc(1)] rc(2) Cons.prems(3)
  have ok: "fst result = Ok" "audit_issue_count (fst st') = audit_issue_count (fst (record_check lim p rv x result st))"
    by (auto split: if_split_asm)
  from Cons.IH [OF 1 rc(1) ok(2)] obtain e2 where e2: "ftp_log f' = ftp_log f1 @ e2" "\<forall>x \<in> set xs. checked_file e path x e2" by blast
  have "\<exists>e1. ftp_log f1 = ftp_log f @ e1 \<and> checked_file e path x e1"
  proof (cases "xf_artifact_type x = ''manifest''")
    case True
    with sendsD [OF looking.within_verify 0] show ?thesis by (auto simp: checked_file_def)
  next
    case False
    with verify_remote_file_ok [of e sv loads _ x rv path files f "snd result" f1] 0 ok(1) show ?thesis
      by (cases result) (auto simp: checked_file_def)
  qed
  then obtain e1 where "ftp_log f1 = ftp_log f @ e1" "checked_file e path x e1" by blast
  with e2 show ?case by (intro exI [of _ "e1 @ e2"]) (auto simp: checked_file_def)
qed (simp add: returnS_eq)

definition copy_checked :: "env \<Rightarrow> (string \<Rightarrow> string) \<Rightarrow> revision_replica \<times> revision_view \<Rightarrow> ftp_event list \<Rightarrow> bool" where
  "copy_checked e asc pr evs \<longleftrightarrow> (case pr of (p, rv) \<Rightarrow> case expected_at e asc rv (p_remote_path p) of
     Inl _ \<Rightarrow> False | Inr files \<Rightarrow> list_all (\<lambda>x. checked_file e (p_remote_path p) x evs) files)"

lemma copy_checked_mono: "copy_checked e asc pr evs \<Longrightarrow> set evs \<subseteq> set evs' \<Longrightarrow> copy_checked e asc pr evs'"
  by (auto simp: copy_checked_def checked_file_def list_all_iff split: prod.splits sum.splits)

lemma audit_replica_counters:
  assumes "audit_replica e asc sv loads lim dst pr a f = (Inr a', f')" "audit_counters lim a"
  shows "audit_counters lim a' \<and> audit_issue_count a \<le> audit_issue_count a'
    \<and> au_checked_replicas a' = au_checked_replicas a + 1
    \<and> au_failed_replicas a' = au_failed_replicas a + (if audit_issue_count a < audit_issue_count a' then 1 else 0)
    \<and> au_healthy_replicas a' + au_failed_replicas a' = au_healthy_replicas a + au_failed_replicas a + 1
    \<and> au_skipped_replicas a' = au_skipped_replicas a \<and> au_success a' = au_success a"
    "audit_issue_count a' = audit_issue_count a \<Longrightarrow> \<exists>evs. ftp_log f' = ftp_log f @ evs \<and> copy_checked e asc pr evs"
proof -
  obtain p rv where pr: "pr = (p, rv)" by (cases pr)
  let ?a = "a\<lparr>au_checked_replicas := au_checked_replicas a + 1\<rparr>"
  from assms(1) obtain files r where x: "expected_at e asc rv (p_remote_path p) = Inr files"
    and 1: "audit_files e sv loads lim p rv (p_remote_path p) files files (?a, False) f = (Inr r, f')"
    and a': "a' = (if snd r then (fst r)\<lparr>au_failed_replicas := au_failed_replicas (fst r) + 1\<rparr>
               else (fst r)\<lparr>au_healthy_replicas := au_healthy_replicas (fst r) + 1\<rparr>)"
    by (auto simp: audit_replica_def pr bindS_eq_Inr liftE_eq returnS_eq)
  have inv: "audit_counters lim (fst (?a, False))" using assms(2) by (simp add: audit_counters_def audit_issue_count_def)
  note c = audit_files_counters [OF 1 inv]
  have count: "audit_issue_count a' = audit_issue_count (fst r)" by (simp add: a' audit_issue_count_def)
  have count0: "audit_issue_count ?a = audit_issue_count a" by (simp add: audit_issue_count_def)
  have "audit_counters lim a'" using c unfolding a' by (simp add: audit_counters_def audit_issue_count_def)
  with c count count0 show "audit_counters lim a' \<and> audit_issue_count a \<le> audit_issue_count a'
    \<and> au_checked_replicas a' = au_checked_replicas a + 1
    \<and> au_failed_replicas a' = au_failed_replicas a + (if audit_issue_count a < audit_issue_count a' then 1 else 0)
    \<and> au_healthy_replicas a' + au_failed_replicas a' = au_healthy_replicas a + au_failed_replicas a + 1
    \<and> au_skipped_replicas a' = au_skipped_replicas a \<and> au_success a' = au_success a"
    by (auto simp: a')
  assume "audit_issue_count a' = audit_issue_count a"
  with audit_files_checked [OF 1 inv] count count0 x
  show "\<exists>evs. ftp_log f' = ftp_log f @ evs \<and> copy_checked e asc pr evs"
    by (auto simp: pr copy_checked_def list_all_iff)
qed

lemma audit_replicas_counters:
  assumes "audit_replicas e asc sv loads lim dst prs a f = (Inr a', f')" "audit_counters lim a"
    "au_failed_replicas a = 0 \<longleftrightarrow> audit_issue_count a = 0"
  shows "audit_counters lim a' \<and> audit_issue_count a \<le> audit_issue_count a'
    \<and> au_checked_replicas a' = au_checked_replicas a + length prs
    \<and> (au_failed_replicas a' = 0 \<longleftrightarrow> audit_issue_count a' = 0)
    \<and> au_healthy_replicas a' + au_failed_replicas a' = au_healthy_replicas a + au_failed_replicas a + length prs
    \<and> au_skipped_replicas a' = au_skipped_replicas a \<and> au_success a' = au_success a"
  using assms
proof (induction prs arbitrary: a f)
  case (Cons pr prs)
  then obtain a1 f1 where 0: "audit_replica e asc sv loads lim dst pr a f = (Inr a1, f1)"
    and 1: "audit_replicas e asc sv loads lim dst prs a1 f1 = (Inr a', f')"
    by (auto simp: bindS_eq_Inr)
  note c = audit_replica_counters(1) [OF 0 Cons.prems(2)]
  have "au_failed_replicas a1 = 0 \<longleftrightarrow> audit_issue_count a1 = 0" using c Cons.prems(3) by auto
  from Cons.IH [OF 1 _ this] c show ?case by auto
qed (simp add: returnS_eq)

lemma audit_replicas_checked:
  assumes "audit_replicas e asc sv loads lim dst prs a f = (Inr a', f')" "audit_counters lim a"
    "au_failed_replicas a = 0" "audit_issue_count a = 0" "audit_issue_count a' = 0"
  shows "\<exists>evs. ftp_log f' = ftp_log f @ evs \<and> (\<forall>pr \<in> set prs. copy_checked e asc pr evs)"
  using assms
proof (induction prs arbitrary: a f)
  case (Cons pr prs)
  then obtain a1 f1 where 0: "audit_replica e asc sv loads lim dst pr a f = (Inr a1, f1)"
    and 1: "audit_replicas e asc sv loads lim dst prs a1 f1 = (Inr a', f')"
    by (auto simp: bindS_eq_Inr)
  note c = audit_replica_counters [OF 0 Cons.prems(2)]
  have iff: "au_failed_replicas a1 = 0 \<longleftrightarrow> audit_issue_count a1 = 0" using c(1) Cons.prems(3,4) by auto
  have z: "audit_issue_count a1 = 0" using audit_replicas_counters [OF 1 _ iff] c(1) Cons.prems(5) by auto
  from c(2) z Cons.prems(4) obtain e1 where e1: "ftp_log f1 = ftp_log f @ e1" "copy_checked e asc pr e1" by auto
  from Cons.IH [OF 1 _ _ z Cons.prems(5)] c(1) z iff obtain e2 where
    e2: "ftp_log f' = ftp_log f1 @ e2" "\<forall>pr \<in> set prs. copy_checked e asc pr e2" by auto
  show ?case
    using e1 e2 by (intro exI [of _ "e1 @ e2"]) (auto intro: copy_checked_mono)
qed (simp add: returnS_eq)


section \<open>The walk to an accessible ancestor ends\<close>

lemma takeWhile_rev_no_slash: "CHR ''/'' \<notin> set p \<Longrightarrow> takeWhile (\<lambda>c. c \<noteq> CHR ''/'') (rev p @ CHR ''/'' # ys) = rev p
  \<and> dropWhile (\<lambda>c. c \<noteq> CHR ''/'') (rev p @ CHR ''/'' # ys) = CHR ''/'' # ys"
  by (auto simp: takeWhile_append2 dropWhile_append2 takeWhile_append dropWhile_append)

lemma abs_path_snoc: "abs_path (as @ [p]) = (if as = [] then [] else abs_path as) @ CHR ''/'' # p"
  by (cases "as = []") (simp_all add: abs_path_def join_snoc)

lemma ancestor_step:
  assumes "list_all clean_segment (as @ [p])"
  shows "posix_basename (abs_path (as @ [p])) = p" "parent_of (abs_path (as @ [p])) = abs_path as"
    "abs_path (as @ [p]) \<noteq> ''/''" "abs_path (as @ [p]) \<noteq> []"
proof -
  have p: "CHR ''/'' \<notin> set p" "p \<noteq> []" using assms by (simp_all add: clean_segment_def)
  note split = takeWhile_rev_no_slash [OF p(1)]
  show "posix_basename (abs_path (as @ [p])) = p"
    by (simp add: posix_basename_def abs_path_snoc split)
  have head: "posix_head (abs_path (as @ [p])) = (if as = [] then [] else abs_path as) @ ''/''"
    by (simp add: posix_head_def abs_path_snoc split)
  show "parent_of (abs_path (as @ [p])) = abs_path as"
  proof (cases "as = []")
    case True
    with head have "posix_head (abs_path (as @ [p])) = ''/''" by simp
    then show ?thesis unfolding parent_of_def posix_dirname_def using True by (simp add: abs_path_def)
  next
    case False
    with assms have l: "last (join_with ''/'' as) \<noteq> CHR ''/''" "join_with ''/'' as \<noteq> []" using last_join [of as] by auto
    then have "\<not> list_all slash (abs_path as)"
      by (auto simp: abs_path_def list_all_iff intro!: bexI [of _ "last (join_with ''/'' as)"])
    moreover have "rstrip slash (abs_path as @ ''/'') = abs_path as"
      using l by (cases "join_with ''/'' as" rule: rev_cases) (auto simp: rstrip_def abs_path_def)
    ultimately show ?thesis using False by (simp add: parent_of_def posix_dirname_def head Let_def) (simp add: abs_path_def)
  qed
  show "abs_path (as @ [p]) \<noteq> ''/''" "abs_path (as @ [p]) \<noteq> []"
    using p(2) by (auto simp: abs_path_snoc append_eq_Cons_conv)
qed

lemma cwd_nlst_log:
  assumes "bindS (ftp_cwd sv p) (\<lambda>_. ftp_nlst sv q) f = (r, f')"
  shows "\<exists>evs. ftp_log f' = ftp_log f @ evs \<and> length evs \<le> 2 \<and> (\<forall>l. r = Inr l \<longrightarrow> evs = [Cwd p, Nlst q])"
  using assms by (auto simp: bindS_def ftp_cwd_def ftp_nlst_def ftp_call_def split: prod.splits sum.splits)

lemma absent_walk_bounded:
  "list_all clean_segment segs \<Longrightarrow> absent_walk sv (abs_path segs) f = (r, f') \<Longrightarrow>
   \<exists>evs. ftp_log f' = ftp_log f @ evs \<and> length evs \<le> 2 * length segs
     \<and> (r = Inr True \<longrightarrow> (\<exists>k pre. k < length segs \<and> evs = pre @ [Cwd (abs_path (take k segs)), Nlst None]))"
proof (induction segs arbitrary: f rule: rev_induct)
  case Nil
  then show ?case by (subst (asm) absent_walk.simps) (auto simp: abs_path_def)
next
  case (snoc p as)
  note step = ancestor_step [OF snoc.prems(1)]
  have p: "p \<noteq> []" using snoc.prems(1) by (simp add: clean_segment_def)
  let ?m = "bindS (ftp_cwd sv (abs_path as)) (\<lambda>_. ftp_nlst sv None)"
  obtain r1 f1 where m: "?m f = (r1, f1)" by fastforce
  from cwd_nlst_log [OF m] obtain e1 where e1: "ftp_log f1 = ftp_log f @ e1" "length e1 \<le> 2"
    "\<forall>l. r1 = Inr l \<longrightarrow> e1 = [Cwd (abs_path as), Nlst None]" by blast
  note run = snoc.prems(2) [unfolded absent_walk.simps [of sv "abs_path (as @ [p])"] step(1,2) m]
  show ?case
  proof (cases "\<exists>e. r1 = Inl e \<and> ftp_perm e \<and> \<not> is_denied_ftp_error e")
    case True
    with run step(3,4) p have "absent_walk sv (abs_path as) f1 = (r, f')" by auto
    from snoc.IH [OF _ this] snoc.prems(1) obtain e2 where e2: "ftp_log f' = ftp_log f1 @ e2" "length e2 \<le> 2 * length as"
      "r = Inr True \<longrightarrow> (\<exists>k pre. k < length as \<and> e2 = pre @ [Cwd (abs_path (take k as)), Nlst None])" by auto
    show ?thesis
    proof (intro exI [of _ "e1 @ e2"] conjI impI)
      assume "r = Inr True"
      with e2(3) obtain k pre where "k < length as" "e2 = pre @ [Cwd (abs_path (take k as)), Nlst None]" by blast
      then show "\<exists>k pre. k < length (as @ [p]) \<and> e1 @ e2 = pre @ [Cwd (abs_path (take k (as @ [p]))), Nlst None]"
        by (intro exI [of _ k] exI [of _ "e1 @ pre"]) simp
    qed (use e1 e2 in auto)
  next
    case False
    with run step(3,4) p have "f' = f1" "r = Inr True \<Longrightarrow> \<exists>l. r1 = Inr l"
      by (auto split: sum.split_asm if_split_asm)
    with e1 show ?thesis
      by (intro exI [of _ e1]) (auto intro!: exI [of _ "length as"])
  qed
qed

text \<open>
  Deciding whether a remote directory is absent ends on every server: the walk over its ancestors sends at most two
  commands per component of the path, and it answers \<open>True\<close> only right after an ancestor was entered and listed.
\<close>

theorem ancestor_walk_terminates:
  assumes "list_all clean_segment segs" "directory_absent_from_parent_listing sv (abs_path segs) f = (r, f')"
  shows "\<exists>evs. ftp_log f' = ftp_log f @ evs \<and> length evs \<le> 2 * length segs
    \<and> (r = Inr True \<longrightarrow> (\<exists>k pre. k < length segs \<and> evs = pre @ [Cwd (abs_path (take k segs)), Nlst None]))"
proof (cases "segs = []")
  case True
  with assms(2) show ?thesis
    by (simp add: directory_absent_from_parent_listing_def abs_path_def rstrip_def) (subst (asm) absent_walk.simps, auto)
next
  case False
  with last_join [OF assms(1)] have "rstrip slash (abs_path segs) = abs_path segs"
    by (intro rstrip_id) (simp add: abs_path_def)
  with assms show ?thesis
    by (intro absent_walk_bounded) (simp_all add: directory_absent_from_parent_listing_def)
qed

text \<open>A server that lists \<open>.\<close> is refused, although the code means to skip it: \<open>PurePosixPath(".")\<close> has no parts.\<close>

theorem dot_entry_refused:
  "listing_names directory [''.'', ''..'', ''a.cfg'']
     = Inl (DestinationError ''DESTINATION_DIRECTORY_UNSAFE'' ''The FTP revision directory returned a nested path.'')
   \<and> listing_entry directory ''..'' = Inr None"
proof -
  have p: "all_parts ''.'' = []" "all_parts ''..'' = [''..'']" "\<not> is_absolute ''.''" "\<not> is_absolute ''..''"
    "\<not> unsafe_text ''.''" "\<not> unsafe_text ''..''" "path_name ''..'' = ''..''"
    by code_simp+
  show ?thesis by (simp add: listing_names_def listing_entry_def p)
qed

section \<open>A server to run the client against\<close>

record ftp_tree =
  ft_cwd :: string
  ft_dirs :: "string list"
  ft_files :: "(string \<times> string) list"

definition no_such_file :: exn where
  "no_such_file = FtpErrorPerm ''550 No such file or directory.''"

definition tree_children :: "ftp_tree \<Rightarrow> string list" where
  "tree_children t = map posix_basename (filter (\<lambda>p. p \<noteq> ''/'' \<and> parent_of p = ft_cwd t) (ft_dirs t @ map fst (ft_files t)))"

definition tree_server :: "ftp_tree ftp_server" where
  "tree_server = \<lparr>sv_connect = (\<lambda>_ _ t. (Inr (), t)),
     sv_cwd = (\<lambda>p t. if p \<in> set (ft_dirs t) then (Inr (), t\<lparr>ft_cwd := p\<rparr>) else (Inl no_such_file, t)),
     sv_nlst = (\<lambda>q t. (case q of None \<Rightarrow> Inr (tree_children t)
                | Some p \<Rightarrow> if map_of (ft_files t) p = None then Inl no_such_file else Inr [p], t)),
     sv_mkd = (\<lambda>p t. (Inr (), t\<lparr>ft_dirs := p # ft_dirs t\<rparr>)),
     sv_delete = (\<lambda>p t. if map_of (ft_files t) p = None then (Inl no_such_file, t)
                        else (Inr (), t\<lparr>ft_files := filter (\<lambda>x. fst x \<noteq> p) (ft_files t)\<rparr>)),
     sv_rmd = (\<lambda>p t. (Inr (), t\<lparr>ft_dirs := filter (\<lambda>d. d \<noteq> p) (ft_dirs t)\<rparr>)),
     sv_rename = (\<lambda>p q t. case map_of (ft_files t) p of None \<Rightarrow> (Inl no_such_file, t)
                | Some c \<Rightarrow> (Inr (), t\<lparr>ft_files := (q, c) # filter (\<lambda>x. fst x \<noteq> p) (ft_files t)\<rparr>)),
     sv_stor = (\<lambda>p c t. (Inr (), t\<lparr>ft_files := (p, c) # ft_files t\<rparr>)),
     sv_type_i = (\<lambda>t. (Inr (), t)),
     sv_size = (\<lambda>p t. (case map_of (ft_files t) p of None \<Rightarrow> Inl no_such_file | Some c \<Rightarrow> Inr (Some (int (length c))), t)),
     sv_retr = (\<lambda>p t. (case map_of (ft_files t) p of None \<Rightarrow> ([], Some no_such_file) | Some c \<Rightarrow> ([c], None), t)),
     sv_quit = id\<rparr>"

definition ftp_secrets :: secret_registry where
  "ftp_secrets = [(''env'', \<lparr>sp_provider_id = ''env'',
     sp_resolve = (\<lambda>_. Inr \<lparr>cm_username = ''u'', cm_password = Some ''p'', cm_private_key = None, cm_enable_secret = None\<rparr>)\<rparr>)]"

definition ftp_destination :: backup_destination where
  "ftp_destination = sample_destination\<lparr>dst_base_path := [], dst_credential_profile := Some \<lparr>crp_pk = 1, crp_name = ''ftp'',
     crp_provider_id = ''env'', crp_secret_reference = ''env://FTP''\<rparr>\<rparr>"

definition ftp_path :: string where
  "ftp_path = ''/devices/c/revisions/u''"

definition ftp_view :: revision_view where
  "ftp_view = \<lparr>rv_pk = 7, rv_uuid = ''u'', rv_device_id = 3, rv_device_name = Some ''c'', rv_driver_id = ''d'', rv_created = 0,
     rv_artifacts = [sample_file\<lparr>a_storage_key := ''x'', a_artifact_type := ''r'', a_format := ''t'', a_raw_hash := ''0303''\<rparr>]\<rparr>"

definition ftp_loads :: "string \<Rightarrow> json option" where
  "ftp_loads _ = Some (manifest_payload id ftp_view False None (Some ''c''))"

definition ftp_replica :: revision_replica where
  "ftp_replica = (sample_replica 5 7 PSuccess)\<lparr>p_remote_path := ftp_path, p_remote_available := True\<rparr>"

definition ftp_tree_with :: "(string \<times> string) list \<Rightarrow> ftp_tree ftp" where
  "ftp_tree_with files = \<lparr>ftp_log = [], ftp_net = \<lparr>ft_cwd = ''/'', ft_dirs = [ftp_path, ''/devices/c/revisions'', ''/devices/c'', ''/devices'', ''/''],
     ft_files = files\<rparr>\<rparr>"

definition stored_tree :: "ftp_tree ftp" where
  "stored_tree = ftp_tree_with [(''/devices/c/revisions/u/x'', ''cfg''), (''/devices/c/revisions/u/_netbox_manifest.json'', ''m'')]"

definition uploaded :: "(exn + replication_result) \<times> ftp_tree ftp" where
  "uploaded = replicate_revision_ftp sample_env id tree_server ftp_secrets ftp_loads (\<lambda>_. Inr ''cfg'')
     ftp_destination ftp_view (Some ftp_path) (ftp_tree_with [])"

lemma uploaded_ok:
  "(case fst uploaded of Inl _ \<Rightarrow> False | Inr res \<Rightarrow> rr_remote_path res = ftp_path) \<and> list_ex (\<lambda>ev. \<not> looks ev) (ftp_log (snd uploaded))"
  by code_simp

lemma uploaded_cases:
  obtains res where "uploaded = (Inr res, snd uploaded)" "rr_remote_path res = ftp_path" "list_ex (\<lambda>ev. \<not> looks ev) (ftp_log (snd uploaded))"
  using uploaded_ok by (cases "fst uploaded") (auto simp: prod_eq_iff)



definition deleted :: "(exn + deleted_ftp_revision) \<times> ftp_tree ftp" where
  "deleted = delete_revision_replica_ftp sample_env id tree_server ftp_secrets ftp_destination ftp_replica (Some ftp_view) stored_tree"

lemma deleted_ok: "(case fst deleted of Inl _ \<Rightarrow> False | Inr res \<Rightarrow> df_deleted_file_count res = 2) \<and> ftp_log (snd deleted) \<noteq> []"
  by code_simp

lemma replica_path: "p_remote_path ftp_replica = ftp_path"
  by (simp add: ftp_replica_def)

lemma stored_log: "ftp_log stored_tree = []"
  by (simp add: stored_tree_def ftp_tree_with_def)


definition audited :: "(exn + audit_summary) \<times> ftp_tree ftp" where
  "audited = reconcile_ftp_destination sample_env id tree_server ftp_secrets ftp_loads ftp_destination False [(ftp_replica, ftp_view)] 10 stored_tree"

lemma audited_ok: "(case fst audited of Inl _ \<Rightarrow> False | Inr a \<Rightarrow> au_success a \<and> au_checked_replicas a = 1) \<and> ftp_log (snd audited) \<noteq> []"
  by code_simp

theorem ftp_audit_read_only_witness:
  "ftp_log (snd audited) \<noteq> [] \<and> list_all looks (ftp_log (snd audited))"
proof -
  have "audited = (fst audited, snd audited)" by simp
  from ftp_audit_read_only [OF this [unfolded audited_def]] audited_ok stored_log show ?thesis
    unfolding audited_def [symmetric] list_all_iff by auto
qed


definition recovered_archive :: "(exn + verified_download) \<times> ftp_tree archiving" where
  "recovered_archive = write_verified_ftp_replica_to_archive sample_env id tree_server ftp_secrets ftp_loads ftp_destination
     ftp_replica ftp_view ''core'' 10000 (stored_tree, [])"

lemma recovered_archive_ok: "(case fst recovered_archive of Inl _ \<Rightarrow> False | Inr res \<Rightarrow> vd_file_count res = 2)"
  by code_simp

theorem recovered_archive_verified_witness:
  "\<exists>res files contents. fst recovered_archive = Inr res \<and> vd_file_count res = 2
     \<and> snd (snd recovered_archive) = map2 (\<lambda>x c. (posix_join ''core'' [xf_filename x], c)) files contents
     \<and> list_all2 (recovered sample_env ftp_loads ftp_view ftp_path files) files contents \<and> vd_verified_bytes res \<le> 10000"
proof -
  from recovered_archive_ok obtain res where a: "recovered_archive = (Inr res, snd recovered_archive)" "vd_file_count res = 2"
    by (cases "fst recovered_archive") (auto simp: prod_eq_iff)
  from recovered_archive_verified [OF a(1) [unfolded recovered_archive_def]] a(2) replica_path
  show ?thesis unfolding recovered_archive_def [symmetric] a(1) [THEN arg_cong, of fst] by auto
qed

theorem ancestor_walk_terminates_witness:
  "fst (directory_absent_from_parent_listing tree_server ''/a/b'' stored_tree) = Inr True
   \<and> length (ftp_log (snd (directory_absent_from_parent_listing tree_server ''/a/b'' stored_tree))) \<le> 4"
proof
  let ?run = "directory_absent_from_parent_listing tree_server ''/a/b'' stored_tree"
  show "fst ?run = Inr True" by code_simp
  have path: "abs_path [''a'', ''b''] = ''/a/b''" by code_simp
  have clean: "list_all clean_segment [''a'', ''b'']" by code_simp
  have "directory_absent_from_parent_listing tree_server (abs_path [''a'', ''b'']) stored_tree = (fst ?run, snd ?run)"
    by (simp add: path)
  from ancestor_walk_terminates [OF clean this] stored_log show "length (ftp_log (snd ?run)) \<le> 4" by auto
qed

text \<open>
  A revision whose artifacts resolve to one file name: the connection that was opened for the upload is left open, because
  the expected files are computed after \<open>_connect\<close> and before the \<open>try\<close>.
\<close>

theorem upload_leaks_connection:
  "ftp_log (snd (replicate_revision_ftp sample_env id tree_server ftp_secrets ftp_loads (\<lambda>_. Inr ''cfg'') ftp_destination
     (ftp_view\<lparr>rv_artifacts := rv_artifacts ftp_view @ rv_artifacts ftp_view\<rparr>) (Some ftp_path) stored_tree)) = [Connect]"
  by code_simp

end
