(* ===== verification/Mounted.thy ===== *)
theory Mounted
  imports Ftp_Client
begin

text \<open>
  The mounted (NFS, SMB3) destination, \<open>services/destination_mounted.py\<close>, over a file system with directories, files
  and symbolic links. A path is the list of its components; system calls follow links as the kernel does, at most
  forty of them. Every call may fail for a reason outside the file system: \<open>mf_faults\<close> says how the coming calls
  end. The process is alone on the mount.
\<close>

section \<open>File system\<close>

text \<open>A link holds whether its target is absolute, and the components of the target.\<close>

datatype node = File string | Dir | Link bool "string list"

text \<open>A call is denied, or fails after so many bytes have been written.\<close>

datatype fault = Denied | Failing nat

record mount_fs =
  mf_nodes :: "(string list \<times> node) list"
  mf_mounts :: "string list list"
  mf_cwd :: "string list"
  mf_faults :: "fault option list"

abbreviation "not_found \<equiv> OSErr ''FileNotFoundError''"
abbreviation "not_a_directory \<equiv> OSErr ''NotADirectoryError''"
abbreviation "file_exists \<equiv> OSErr ''FileExistsError''"
abbreviation "permission_denied \<equiv> OSErr ''PermissionError''"
abbreviation "other_os_error \<equiv> OSErr ''OSError''"

definition node_at :: "mount_fs \<Rightarrow> string list \<Rightarrow> node option" where
  "node_at s p = (if p = [] then Some Dir else map_of (mf_nodes s) p)"

definition set_node :: "string list \<Rightarrow> node \<Rightarrow> mount_fs \<Rightarrow> mount_fs" where
  "set_node p n s = s\<lparr>mf_nodes := (p, n) # filter (\<lambda>x. fst x \<noteq> p) (mf_nodes s)\<rparr>"

definition drop_node :: "string list \<Rightarrow> mount_fs \<Rightarrow> mount_fs" where
  "drop_node p s = s\<lparr>mf_nodes := filter (\<lambda>x. fst x \<noteq> p) (mf_nodes s)\<rparr>"

text \<open>The place a path leads to. \<open>prefix\<close> is free of links; the next component is looked up in it.\<close>

function walk :: "mount_fs \<Rightarrow> nat \<Rightarrow> string list \<Rightarrow> string list \<Rightarrow> string list result" where
  "walk s links prefix [] = Inr prefix"
| "walk s links prefix (c # cs) =
     (case node_at s prefix of
        None \<Rightarrow> Inl not_found
      | Some (File _) \<Rightarrow> Inl not_a_directory
      | Some _ \<Rightarrow>
          if c = ''..'' then walk s links (butlast prefix) cs
          else case node_at s (prefix @ [c]) of
            Some (Link absolute target) \<Rightarrow>
              (case links of 0 \<Rightarrow> Inl other_os_error
               | Suc n \<Rightarrow> walk s n (if absolute then [] else prefix) (target @ cs))
          | _ \<Rightarrow> walk s links (prefix @ [c]) cs)"
  by pat_completeness auto
termination
  by (relation "measures [\<lambda>(s, links, prefix, cs). links, \<lambda>(s, links, prefix, cs). length cs]") auto

abbreviation "max_links \<equiv> 40"

definition node_result :: "mount_fs \<Rightarrow> string list \<Rightarrow> node result" where
  "node_result s q = (case node_at s q of None \<Rightarrow> Inl not_found | Some n \<Rightarrow> Inr n)"

definition follow :: "mount_fs \<Rightarrow> string list \<Rightarrow> node result" where
  "follow s p = bindE (walk s max_links [] p) (node_result s)"

text \<open>Where the last component of a path lives, without following it.\<close>

definition place :: "mount_fs \<Rightarrow> string list \<Rightarrow> string list result" where
  "place s p =
     (if p = [] then Inr []
      else bindE (walk s max_links [] (butlast p)) (\<lambda>d. case node_at s d of
        None \<Rightarrow> Inl not_found | Some Dir \<Rightarrow> Inr (d @ [last p]) | Some _ \<Rightarrow> Inl not_a_directory))"

definition lstat :: "mount_fs \<Rightarrow> string list \<Rightarrow> node result" where
  "lstat s p = bindE (place s p) (node_result s)"

section \<open>System calls\<close>

fun fault_error :: "fault \<Rightarrow> exn" where
  "fault_error Denied = permission_denied"
| "fault_error (Failing _) = other_os_error"

fun bytes_written :: "fault \<Rightarrow> nat" where
  "bytes_written Denied = 0"
| "bytes_written (Failing n) = n"

text \<open>Whether the next call fails.\<close>

definition next_fault :: "(mount_fs, fault option) prog" where
  "next_fault s = (case mf_faults s of [] \<Rightarrow> (Inr None, s) | x # xs \<Rightarrow> (Inr x, s\<lparr>mf_faults := xs\<rparr>))"

definition sys :: "(mount_fs, 'a) prog \<Rightarrow> (mount_fs, 'a) prog" where
  "sys m = bindS next_fault (\<lambda>x. case x of None \<Rightarrow> m | Some f \<Rightarrow> raiseS (fault_error f))"

definition change :: "(mount_fs \<Rightarrow> mount_fs) \<Rightarrow> (mount_fs, unit) prog" where
  "change g s = (Inr (), g s)"

fun holds :: "(node \<Rightarrow> bool) \<Rightarrow> node result \<Rightarrow> bool" where
  "holds P (Inl _) = False"
| "holds P (Inr n) = P n"

fun is_file_node :: "node \<Rightarrow> bool" where
  "is_file_node (File _) = True"
| "is_file_node _ = False"

fun is_link_node :: "node \<Rightarrow> bool" where
  "is_link_node (Link _ _) = True"
| "is_link_node _ = False"

text \<open>
  \<open>Path.exists\<close>, \<open>is_file\<close>, \<open>is_dir\<close> and \<open>is_symlink\<close> answer \<open>False\<close> for an entry that is missing or lies behind a file or
  a loop of links, and raise every other error.
\<close>

definition path_exists :: "string list \<Rightarrow> (mount_fs, bool) prog" where
  "path_exists p = sys (readS (\<lambda>s. Inr (holds (\<lambda>_. True) (follow s p))))"

definition path_is_file :: "string list \<Rightarrow> (mount_fs, bool) prog" where
  "path_is_file p = sys (readS (\<lambda>s. Inr (holds is_file_node (follow s p))))"

definition path_is_dir :: "string list \<Rightarrow> (mount_fs, bool) prog" where
  "path_is_dir p = sys (readS (\<lambda>s. Inr (holds (\<lambda>n. n = Dir) (follow s p))))"

definition path_is_symlink :: "string list \<Rightarrow> (mount_fs, bool) prog" where
  "path_is_symlink p = sys (readS (\<lambda>s. Inr (holds is_link_node (lstat s p))))"

definition read_bytes :: "string list \<Rightarrow> (mount_fs, string) prog" where
  "read_bytes p = sys (readS (\<lambda>s. bindE (follow s p) (\<lambda>n. case n of
     File c \<Rightarrow> Inr c | _ \<Rightarrow> Inl (OSErr ''IsADirectoryError''))))"

text \<open>\<open>Path.stat().st_size\<close>, which the code asks for files only.\<close>

definition stat_size :: "string list \<Rightarrow> (mount_fs, int) prog" where
  "stat_size p = sys (readS (\<lambda>s. bindE (follow s p) (\<lambda>n. case n of
     File c \<Rightarrow> Inr (int (length c)) | _ \<Rightarrow> Inl other_os_error)))"

definition resolve_strict :: "string list \<Rightarrow> (mount_fs, string list) prog" where
  "resolve_strict p = sys (readS (\<lambda>s. bindE (walk s max_links [] p) (\<lambda>q. bindE (node_result s q) (\<lambda>_. Inr q))))"

text \<open>Creating an entry: its directory must exist and its name must be free, also of links.\<close>

definition free_place :: "mount_fs \<Rightarrow> string list \<Rightarrow> string list result" where
  "free_place s p = bindE (place s p) (\<lambda>q. if node_at s q \<noteq> None then Inl file_exists else Inr q)"

definition create :: "node \<Rightarrow> string list \<Rightarrow> (mount_fs, string list) prog" where
  "create n p = sys (bindS (readS (\<lambda>s. free_place s p)) (\<lambda>q. bindS (change (set_node q n)) (\<lambda>_. returnS q)))"

text \<open>Writing to the open file at \<open>q\<close>: a failing write leaves a part of the content.\<close>

definition write_open :: "string list \<Rightarrow> string \<Rightarrow> (mount_fs, unit) prog" where
  "write_open q content =
     bindS next_fault (\<lambda>x. case x of
       None \<Rightarrow> change (set_node q (File content))
     | Some f \<Rightarrow> bindS (change (set_node q (File (take (bytes_written f) content)))) (\<lambda>_. raiseS (fault_error f)))"

text \<open>\<open>os.fsync\<close>\<close>

definition fsync :: "(mount_fs, unit) prog" where
  "fsync = sys (returnS ())"

text \<open>\<open>Path.mkdir(parents=True, exist_ok=True)\<close>, on the reversed components.\<close>

definition mkdir :: "string list \<Rightarrow> (mount_fs, unit) prog" where
  "mkdir p = bindS (create Dir p) (\<lambda>_. returnS ())"

definition exist_ok :: "string list \<Rightarrow> exn \<Rightarrow> (mount_fs, unit) prog" where
  "exist_ok p e =
     (if is_os_error e then bindS (path_is_dir p) (\<lambda>d. if d then returnS () else raiseS e) else raiseS e)"

fun mkdir_rev :: "string list \<Rightarrow> (mount_fs, unit) prog" where
  "mkdir_rev [] = catchS (mkdir []) (exist_ok [])"
| "mkdir_rev (c # cs) =
     catchS (mkdir (rev (c # cs))) (\<lambda>e.
       if e = not_found
       then bindS (mkdir_rev cs) (\<lambda>_.
            catchS (mkdir (rev (c # cs))) (\<lambda>e. if e = not_found then raiseS e else exist_ok (rev (c # cs)) e))
       else exist_ok (rev (c # cs)) e)"

definition mkdir_parents :: "string list \<Rightarrow> (mount_fs, unit) prog" where
  "mkdir_parents p = mkdir_rev (rev p)"

definition unlink :: "string list \<Rightarrow> (mount_fs, unit) prog" where
  "unlink p = sys (bindS (readS (\<lambda>s. bindE (place s p) (\<lambda>q. bindE (node_result s q) (\<lambda>n.
       if n = Dir then Inl (OSErr ''IsADirectoryError'') else Inr q)))) (\<lambda>q. change (drop_node q)))"

definition unlink_missing_ok :: "string list \<Rightarrow> (mount_fs, unit) prog" where
  "unlink_missing_ok p = catchS (unlink p) (\<lambda>e. if e = not_found then returnS () else raiseS e)"

definition children :: "mount_fs \<Rightarrow> string list \<Rightarrow> string list" where
  "children s d = map last (filter (\<lambda>q. q \<noteq> [] \<and> butlast q = d) (remdups (map fst (mf_nodes s))))"

definition rmdir :: "string list \<Rightarrow> (mount_fs, unit) prog" where
  "rmdir p = sys (bindS (readS (\<lambda>s. bindE (place s p) (\<lambda>q. bindE (node_result s q) (\<lambda>n.
       if n \<noteq> Dir then Inl not_a_directory
       else if q = [] \<or> children s q \<noteq> [] then Inl other_os_error else Inr q)))) (\<lambda>q. change (drop_node q)))"

definition iterdir :: "string list \<Rightarrow> (mount_fs, string list) prog" where
  "iterdir p = sys (readS (\<lambda>s. bindE (walk s max_links [] p) (\<lambda>d. bindE (node_result s d) (\<lambda>n.
     if n = Dir then Inr (children s d) else Inl not_a_directory))))"

text \<open>\<open>Path(text)\<close>, and \<open>directory / name\<close>: an absolute operand replaces what stands before it.\<close>

definition path_of :: "mount_fs \<Rightarrow> string \<Rightarrow> string list" where
  "path_of s text = (if is_absolute text then path_parts text else mf_cwd s @ path_parts text)"

definition child :: "string list \<Rightarrow> string \<Rightarrow> string list" where
  "child directory name = (if is_absolute name then path_parts name else directory @ path_parts name)"

section \<open>The destination\<close>

record mount_config =
  mc_roots :: "string list"
  mc_require_mountpoint :: bool

definition mount_unavailable :: "string \<Rightarrow> exn" where
  "mount_unavailable message = DestinationError ''MOUNT_UNAVAILABLE'' message"

definition require_mounted_protocol :: "backup_destination \<Rightarrow> unit result" where
  "require_mounted_protocol dst =
     (if mounted_protocol (dst_protocol dst) then Inr ()
      else Inl (DestinationError ''PROTOCOL_UNSUPPORTED'' ''This operation requires an NFS or SMB3 mounted storage profile.''))"

text \<open>The loop over the allowed roots; an allowed root must not be the root of the file system.\<close>

fun mount_allowed :: "string list \<Rightarrow> string list \<Rightarrow> (mount_fs, bool) prog" where
  "mount_allowed root [] = returnS False"
| "mount_allowed root (r # rs) =
     bindS (catchS
       (bindS (readS (\<lambda>s. Inr (path_of s r))) (\<lambda>p.
        bindS (path_is_symlink p) (\<lambda>link.
        if link then returnS False
        else bindS (resolve_strict p) (\<lambda>allowed. returnS (allowed \<noteq> [] \<and> is_prefix allowed root)))))
       (\<lambda>e. if is_os_error e then returnS False else raiseS e)) (\<lambda>ok.
     if ok then returnS True else mount_allowed root rs)"

definition resolve_mount :: "backup_destination \<Rightarrow> (mount_fs, string list) prog" where
  "resolve_mount dst =
     wrap_oserror (mount_unavailable ''The configured network-storage mount is not available to the NetBox worker.'')
       (bindS (readS (\<lambda>s. Inr (path_of s (dst_mount_path dst)))) (\<lambda>p.
        bindS (path_is_symlink p) (\<lambda>link.
        if link then raiseS (DestinationError ''MOUNT_PATH_NOT_ALLOWED'' ''The configured network-storage mount path cannot be a symbolic link.'')
        else resolve_strict p)))"

definition destination_root :: "mount_config \<Rightarrow> backup_destination \<Rightarrow> (mount_fs, string list) prog" where
  "destination_root cfg dst =
     (if mc_roots cfg = []
      then raiseS (DestinationError ''MOUNT_ROOT_NOT_CONFIGURED'' ''No allowed network-storage mount root is configured for this deployment.'')
      else bindS (resolve_mount dst) (\<lambda>root.
           bindS (path_is_dir root) (\<lambda>directory.
           bindS (if directory then path_is_symlink root else returnS True) (\<lambda>link.
           if link then raiseS (mount_unavailable ''The configured mount path is not a directory.'')
           else bindS (mount_allowed root (mc_roots cfg)) (\<lambda>allowed.
                if \<not> allowed
                then raiseS (DestinationError ''MOUNT_PATH_NOT_ALLOWED'' ''The mounted storage path is outside the deployment's allowed mount roots.'')
                else if mc_require_mountpoint cfg
                then bindS (readS (\<lambda>s. Inr (root \<in> set (mf_mounts s)))) (\<lambda>mounted.
                     if mounted then returnS root
                     else raiseS (DestinationError ''MOUNT_NOT_ACTIVE'' ''The configured NFS/SMB3 directory is not an active mount in the NetBox worker.''))
                else returnS root)))))"

definition safe_path :: "string list \<Rightarrow> string \<Rightarrow> string list result" where
  "safe_path root remote_path =
     (if \<not> is_absolute remote_path \<or> list_ex (\<lambda>part. part = [] \<or> part = ''.'' \<or> part = ''..'') (path_parts remote_path)
      then Inl (DestinationError ''DESTINATION_PATH_INVALID'' ''The mounted-storage path is unsafe.'')
      else Inr (root @ path_parts remote_path))"

fun reject_symlink_path :: "string list \<Rightarrow> string list \<Rightarrow> (mount_fs, unit) prog" where
  "reject_symlink_path current [] = returnS ()"
| "reject_symlink_path current (part # parts) =
     bindS (path_exists (current @ [part])) (\<lambda>present.
     bindS (if present then path_is_symlink (current @ [part]) else returnS False) (\<lambda>link.
     if link then raiseS (DestinationError ''DESTINATION_PATH_INVALID'' ''The mounted-storage path contains a symbolic link.'')
     else reject_symlink_path (current @ [part]) parts))"

definition write_new_file :: "string list \<Rightarrow> string \<Rightarrow> (mount_fs, unit) prog" where
  "write_new_file p content =
     bindS (create (File []) p) (\<lambda>q.
     onfailS (bindS (write_open q content) (\<lambda>_. fsync))
       (catchS (unlink_missing_ok p) (\<lambda>e. if is_os_error e then returnS () else raiseS e)))"

definition verify_file :: "env \<Rightarrow> string list \<Rightarrow> int \<Rightarrow> string \<Rightarrow> (mount_fs, integrity \<times> int) prog" where
  "verify_file e p size_expected digest =
     catchS
       (bindS (path_is_symlink p) (\<lambda>link.
        bindS (if link then returnS False else path_is_file p) (\<lambda>regular.
        if \<not> regular then returnS (Missing, 0)
        else bindS (stat_size p) (\<lambda>n.
             if n \<noteq> size_expected then returnS (SizeMismatch, n)
             else bindS (read_bytes p) (\<lambda>content.
                  returnS (if sha256_hex e content \<noteq> digest then (HashMismatch, n) else (Ok, n)))))))
       (\<lambda>x. if x = not_found then returnS (Missing, 0)
            else if is_os_error x then returnS (Unreadable, 0) else raiseS x)"

definition verify_manifest_file ::
  "(string \<Rightarrow> json option) \<Rightarrow> string list \<Rightarrow> revision_view \<Rightarrow> string \<Rightarrow> expected_file list \<Rightarrow> (mount_fs, integrity \<times> int) prog" where
  "verify_manifest_file loads p rv revision_path files =
     catchS
       (bindS (path_is_symlink p) (\<lambda>link.
        bindS (if link then returnS False else path_is_file p) (\<lambda>regular.
        if \<not> regular then returnS (Missing, 0)
        else bindS (stat_size p) (\<lambda>n.
             if 1024 * 1024 < n then returnS (SizeMismatch, n)
             else bindS (read_bytes p) (\<lambda>content.
                  returnS (if manifest_matches_revision loads content rv revision_path files then (Ok, n) else (HashMismatch, n)))))))
       (\<lambda>x. if x = not_found then returnS (Missing, 0)
            else if is_os_error x then returnS (Unreadable, 0) else raiseS x)"

text \<open>
  \<open>_put_immutable\<close> calls itself when another writer was faster. The first argument is the number of calls the
  interpreter's recursion limit still allows.
\<close>

definition write_attempt :: "string list \<Rightarrow> string \<Rightarrow> (mount_fs, bool) prog" where
  "write_attempt p content =
     catchS (bindS (write_new_file p content) (\<lambda>_. returnS True)) (\<lambda>x. if x = file_exists then returnS False else raiseS x)"

fun put_file :: "nat \<Rightarrow> env \<Rightarrow> string list \<Rightarrow> string \<Rightarrow> string \<Rightarrow> (mount_fs, bool) prog" where
  "put_file 0 e p content digest = raiseS RecursionError"
| "put_file (Suc frames) e p content digest =
     bindS (path_exists p) (\<lambda>present.
     if present
     then bindS (verify_file e p (int (length content)) digest) (\<lambda>v.
          if fst v = Ok then returnS False
          else raiseS (DestinationError ''DESTINATION_CONFLICT'' ''A different object already exists at the immutable revision path.''))
     else bindS (write_attempt p content) (\<lambda>written.
          if \<not> written then put_file frames e p content digest
          else bindS (verify_file e p (int (length content)) digest) (\<lambda>v.
               if fst v = Ok then returnS True
               else raiseS (DestinationError ''DESTINATION_VERIFY_FAILED'' ''A mounted-storage artifact failed verification after writing it.''))))"

text \<open>\<open>except DestinationError: raise\<close>, \<open>except PermissionError\<close>, \<open>except OSError\<close>.\<close>

definition wrap_mounted :: "exn \<Rightarrow> exn \<Rightarrow> ('s, 'a) prog \<Rightarrow> ('s, 'a) prog" where
  "wrap_mounted denied failed m =
     catchS m (\<lambda>e. raiseS (if e = permission_denied then denied else if is_os_error e then failed else e))"

section \<open>Operations\<close>

text \<open>\<open>DeletedMountedRevisionResult\<close> has the fields of its FTP counterpart.\<close>

type_synonym deleted_mounted_revision = deleted_ftp_revision

definition mounted_test_payload :: string where
  "mounted_test_payload = ''netbox-config-backup-mounted-storage-test'' @ [CHR 0x0A]"

definition test_mounted_destination ::
  "mount_config \<Rightarrow> string \<Rightarrow> backup_destination \<Rightarrow> (mount_fs, unit) prog" where
  "test_mounted_destination cfg token dst =
     bindS (liftE (require_mounted_protocol dst)) (\<lambda>_.
     bindS (destination_root cfg dst) (\<lambda>root.
     bindS (liftE (safe_path root (CHR ''/'' # strip slash (dst_base_path dst)))) (\<lambda>directory.
     let test_path = child directory (''.netbox-config-backup-test-'' @ token) in
     finallyS
       (wrap_mounted
         (DestinationError ''DESTINATION_PATH_DENIED'' ''The NetBox worker cannot write to the mounted storage directory.'')
         (DestinationError ''DESTINATION_TEST_FAILED'' ''The mounted storage write verification failed.'')
         (bindS (mkdir_parents directory) (\<lambda>_.
          bindS (reject_symlink_path root (drop (length root) (butlast test_path))) (\<lambda>_.
          bindS (write_new_file test_path mounted_test_payload) (\<lambda>_.
          bindS (read_bytes test_path) (\<lambda>content.
          if content \<noteq> mounted_test_payload
          then raiseS (DestinationError ''DESTINATION_VERIFY_FAILED'' ''The mounted-storage test object could not be verified after writing it.'')
          else bindS (unlink test_path) (\<lambda>_.
               bindS (path_exists test_path) (\<lambda>present.
               if present then raiseS (DestinationError ''DESTINATION_DELETE_FAILED'' ''The mounted-storage test object still exists after deletion.'')
               else returnS ()))))))))
       (catchS (unlink_missing_ok test_path) (\<lambda>e. if is_os_error e then returnS () else raiseS e)))))"

definition mounted_replication_path ::
  "(string \<Rightarrow> string) \<Rightarrow> backup_destination \<Rightarrow> revision_view \<Rightarrow> string option \<Rightarrow> (string \<times> string) result" where
  "mounted_replication_path asc dst rv recorded =
     bindE (case recorded of
         Some p \<Rightarrow> if p \<noteq> [] then Inr p
                   else ftp_revision_destination_path asc (dst_base_path dst) (rv_device_name rv) (rv_device_id rv)
                          (Aware (rv_created rv)) (Some (rv_pk rv)) None
       | None \<Rightarrow> ftp_revision_destination_path asc (dst_base_path dst) (rv_device_name rv) (rv_device_id rv)
                   (Aware (rv_created rv)) (Some (rv_pk rv)) None) (\<lambda>path.
     bindE (validate_recorded_revision_path asc (dst_base_path dst) rv path ''REPLICATION_PATH_INVALID'') (\<lambda>v.
     Inr (path, snd v)))"

definition expected_mounted ::
  "env \<Rightarrow> (string \<Rightarrow> string) \<Rightarrow> revision_view \<Rightarrow> string \<Rightarrow> string \<Rightarrow> expected_file list result" where
  "expected_mounted e asc rv path device_directory =
     expected_revision_files e asc rv (uses_readable_ftp_layout path) (readable_stem_from_revision_path asc path rv)
       (Some device_directory)"

definition put_artifact ::
  "nat \<Rightarrow> env \<Rightarrow> (string \<Rightarrow> string result) \<Rightarrow> backup_destination \<Rightarrow> string list \<Rightarrow> expected_file list \<Rightarrow> config_artifact
   \<Rightarrow> (mount_fs, nat) prog" where
  "put_artifact frames e get dst directory files a =
     (if dst_max_artifact_size dst < a_size a
      then raiseS (DestinationError ''ARTIFACT_TOO_LARGE'' ''An artifact exceeds the mounted storage size limit.'')
      else bindS (liftE (read_primary e get a)) (\<lambda>content.
           case artifact_by_type files (a_artifact_type a) of
             None \<Rightarrow> raiseS KeyError
           | Some x \<Rightarrow> bindS (put_file frames e (child directory (xf_filename x)) content (sha256_hex e content)) (\<lambda>new.
               returnS (if new then length content else 0))))"

definition put_revision ::
  "nat \<Rightarrow> env \<Rightarrow> (string \<Rightarrow> string result) \<Rightarrow> backup_destination \<Rightarrow> revision_view \<Rightarrow> string list \<Rightarrow> string list
   \<Rightarrow> expected_file list \<Rightarrow> string \<Rightarrow> (mount_fs, nat) prog" where
  "put_revision frames e get dst rv root directory files manifest =
     bindS (mkdir_parents directory) (\<lambda>_.
     bindS (reject_symlink_path root (drop (length root) directory)) (\<lambda>_.
     bindS (sumS (put_artifact frames e get dst directory files) (rv_artifacts rv)) (\<lambda>n.
     bindS (put_file frames e (child directory manifest_name) manifest (sha256_hex e manifest)) (\<lambda>new.
     returnS (n + (if new then length manifest else 0))))))"

definition replicate_revision_mounted ::
  "nat \<Rightarrow> env \<Rightarrow> (string \<Rightarrow> string) \<Rightarrow> mount_config \<Rightarrow> (string \<Rightarrow> string result) \<Rightarrow> backup_destination \<Rightarrow> revision_view \<Rightarrow> string option
   \<Rightarrow> (mount_fs, replication_result) prog" where
  "replicate_revision_mounted frames e asc cfg get dst rv recorded =
     bindS (liftE (require_mounted_protocol dst)) (\<lambda>_.
     if \<not> dst_enabled dst then raiseS (DestinationError ''DESTINATION_DISABLED'' ''The mounted storage is disabled.'')
     else if rv_artifacts rv = [] then raiseS (DestinationError ''NO_ARTIFACTS'' ''The revision contains no backup artifacts.'')
     else bindS (liftE (mounted_replication_path asc dst rv recorded)) (\<lambda>pd.
          bindS (liftE (expected_mounted e asc rv (fst pd) (snd pd))) (\<lambda>files.
          bindS (destination_root cfg dst) (\<lambda>root.
          bindS (liftE (safe_path root (fst pd))) (\<lambda>directory.
          bindS (wrap_mounted
              (DestinationError ''DESTINATION_PATH_DENIED'' ''The NetBox worker cannot write to the mounted storage directory.'')
              (DestinationError ''DESTINATION_WRITE_FAILED'' ''The revision could not be written to mounted storage.'')
              (put_revision frames e get dst rv root directory files
                 (build_manifest asc rv (uses_readable_ftp_layout (fst pd)) (readable_stem_from_revision_path asc (fst pd) rv) (Some (snd pd))))) (\<lambda>n.
          returnS \<lparr>rr_remote_path = fst pd, rr_bytes_transferred = int n, rr_artifact_count = int (length (rv_artifacts rv))\<rparr>))))))"

text \<open>\<open>reconcile_mounted_destination\<close>; the summary is that of the FTP audit with messages of its own.\<close>

fun audit_mounted_files ::
  "env \<Rightarrow> (string \<Rightarrow> json option) \<Rightarrow> nat \<Rightarrow> revision_replica \<Rightarrow> revision_view \<Rightarrow> string \<Rightarrow> string list \<Rightarrow> expected_file list
   \<Rightarrow> expected_file list \<Rightarrow> audit_summary \<times> bool \<Rightarrow> (mount_fs, audit_summary \<times> bool) prog" where
  "audit_mounted_files e loads lim p rv path directory files [] st = returnS st"
| "audit_mounted_files e loads lim p rv path directory files (x # xs) st =
     bindS (if xf_artifact_type x = ''manifest'' then verify_manifest_file loads (child directory (xf_filename x)) rv path files
            else verify_file e (child directory (xf_filename x)) (xf_size x) (xf_sha256 x)) (\<lambda>result.
     audit_mounted_files e loads lim p rv path directory files xs (record_check lim p rv x result st))"

definition audit_mounted_replica ::
  "env \<Rightarrow> (string \<Rightarrow> string) \<Rightarrow> (string \<Rightarrow> json option) \<Rightarrow> nat \<Rightarrow> backup_destination \<Rightarrow> string list
   \<Rightarrow> revision_replica \<times> revision_view \<Rightarrow> audit_summary \<Rightarrow> (mount_fs, audit_summary) prog" where
  "audit_mounted_replica e asc loads lim dst root pr a =
     (case pr of (p, rv) \<Rightarrow>
      bindS (liftE (validate_recorded_revision_path asc (dst_base_path dst) rv (p_remote_path p) ''RECONCILIATION_PATH_INVALID'')) (\<lambda>v.
      bindS (liftE (expected_mounted e asc rv (p_remote_path p) (snd v))) (\<lambda>files.
      bindS (liftE (safe_path root (p_remote_path p))) (\<lambda>directory.
      bindS (audit_mounted_files e loads lim p rv (p_remote_path p) directory files files
               (a\<lparr>au_checked_replicas := au_checked_replicas a + 1\<rparr>, False)) (\<lambda>r.
      returnS (if snd r then (fst r)\<lparr>au_failed_replicas := au_failed_replicas (fst r) + 1\<rparr>
               else (fst r)\<lparr>au_healthy_replicas := au_healthy_replicas (fst r) + 1\<rparr>))))))"

fun audit_mounted_replicas ::
  "env \<Rightarrow> (string \<Rightarrow> string) \<Rightarrow> (string \<Rightarrow> json option) \<Rightarrow> nat \<Rightarrow> backup_destination \<Rightarrow> string list
   \<Rightarrow> (revision_replica \<times> revision_view) list \<Rightarrow> audit_summary \<Rightarrow> (mount_fs, audit_summary) prog" where
  "audit_mounted_replicas e asc loads lim dst root [] a = returnS a"
| "audit_mounted_replicas e asc loads lim dst root (pr # prs) a =
     bindS (audit_mounted_replica e asc loads lim dst root pr a) (audit_mounted_replicas e asc loads lim dst root prs)"

definition conclude_mounted_audit :: "audit_summary \<Rightarrow> audit_summary" where
  "conclude_mounted_audit a =
     (if 0 < audit_issue_count a
      then a\<lparr>au_success := False, au_safe_message := ''The integrity audit found '' @ show_nat (audit_issue_count a) @ '' problem(s) in ''
             @ show_nat (au_failed_replicas a) @ '' revision copy/copies.''\<rparr>
      else if au_checked_replicas a = 0
      then a\<lparr>au_safe_message := ''There are no successful revision copies to audit yet.''\<rparr>
      else a)"

definition reconcile_mounted_destination ::
  "env \<Rightarrow> (string \<Rightarrow> string) \<Rightarrow> mount_config \<Rightarrow> (string \<Rightarrow> json option) \<Rightarrow> backup_destination
   \<Rightarrow> (revision_replica \<times> revision_view) list \<Rightarrow> nat \<Rightarrow> (mount_fs, audit_summary) prog" where
  "reconcile_mounted_destination e asc cfg loads dst rows issue_limit =
     bindS (liftE (require_mounted_protocol dst)) (\<lambda>_.
     let chosen = filter (\<lambda>pr. auditable dst (fst pr)) rows;
         summary = (empty_summary (length rows - length chosen))
           \<lparr>au_safe_message := ''All expected mounted-storage copies passed integrity verification.''\<rparr> in
     bindS (destination_root cfg dst) (\<lambda>root.
     bindS (audit_mounted_replicas e asc loads issue_limit dst root chosen summary) (\<lambda>a.
     returnS (conclude_mounted_audit a))))"

text \<open>The body of the loop over the expected files: the size of a file that was deleted, \<open>None\<close> for a missing one.\<close>

definition regular_size :: "string list \<Rightarrow> (mount_fs, int) prog" where
  "regular_size path =
     bindS (path_is_symlink path) (\<lambda>link.
     bindS (if link then returnS False else path_is_file path) (\<lambda>regular.
     if \<not> regular
     then raiseS (DestinationError ''DELETE_FILESET_INVALID'' ''The revision directory contains an unsafe file entry.'')
     else stat_size path))"

definition remove_file :: "string list \<Rightarrow> (mount_fs, int option) prog" where
  "remove_file path =
     bindS (path_exists path) (\<lambda>present.
     if \<not> present then returnS None
     else bindS (regular_size path) (\<lambda>n. bindS (unlink path) (\<lambda>_. returnS (Some n))))"

fun delete_mounted_files ::
  "string list \<Rightarrow> expected_file list \<Rightarrow> nat \<times> nat \<times> int \<Rightarrow> (mount_fs, nat \<times> nat \<times> int) prog" where
  "delete_mounted_files directory [] st = returnS st"
| "delete_mounted_files directory (x # xs) st =
     bindS (remove_file (child directory (xf_filename x))) (\<lambda>r.
     delete_mounted_files directory xs (case st of (deleted, missing, bytes) \<Rightarrow>
       (case r of None \<Rightarrow> (deleted, missing + 1, bytes) | Some n \<Rightarrow> (deleted + 1, missing, bytes + n))))"

definition delete_mounted_copy ::
  "string list \<Rightarrow> string list \<Rightarrow> expected_file list \<Rightarrow> string \<Rightarrow> (mount_fs, deleted_mounted_revision) prog" where
  "delete_mounted_copy root directory files remote_path =
     bindS (path_exists directory) (\<lambda>present.
     if \<not> present
     then returnS \<lparr>df_remote_path = remote_path, df_expected_file_count = length files, df_deleted_file_count = 0,
            df_missing_file_count = length files, df_deleted_bytes = 0, df_directory_removed = False, df_already_absent = True\<rparr>
     else bindS (reject_symlink_path root (drop (length root) directory)) (\<lambda>_.
          bindS (iterdir directory) (\<lambda>actual.
          if list_ex (\<lambda>name. name \<notin> xf_filename ` set files) actual
          then raiseS (DestinationError ''DELETE_FILESET_CONFLICT'' ''The revision directory contains unknown files and was not deleted.'')
          else bindS (wrap_mounted
                 (DestinationError ''DESTINATION_DELETE_DENIED'' ''The NetBox worker cannot delete the expired mounted-storage copy.'')
                 (DestinationError ''DESTINATION_DELETE_FAILED'' ''The mounted-storage revision copy could not be deleted safely.'')
                 (bindS (delete_mounted_files directory files (0, 0, 0)) (\<lambda>counts.
                  bindS (rmdir directory) (\<lambda>_. returnS counts)))) (\<lambda>counts.
               returnS \<lparr>df_remote_path = remote_path, df_expected_file_count = length files, df_deleted_file_count = fst counts,
                 df_missing_file_count = fst (snd counts), df_deleted_bytes = snd (snd counts), df_directory_removed = True,
                 df_already_absent = False\<rparr>))))"

definition delete_revision_replica_mounted ::
  "env \<Rightarrow> (string \<Rightarrow> string) \<Rightarrow> mount_config \<Rightarrow> backup_destination \<Rightarrow> revision_replica \<Rightarrow> revision_view
   \<Rightarrow> (mount_fs, deleted_mounted_revision) prog" where
  "delete_revision_replica_mounted e asc cfg dst p rv =
     bindS (liftE (require_mounted_protocol dst)) (\<lambda>_.
     if \<not> dst_enabled dst
     then raiseS (DestinationError ''DESTINATION_DISABLED'' ''The mounted storage is disabled and no remote file was deleted.'')
     else bindS (liftE (validate_recorded_revision_path asc (dst_base_path dst) rv (p_remote_path p) ''DELETE_PATH_INVALID'')) (\<lambda>v.
          bindS (liftE (expected_mounted e asc rv (p_remote_path p) (snd v))) (\<lambda>files.
          bindS (destination_root cfg dst) (\<lambda>root.
          bindS (liftE (safe_path root (p_remote_path p))) (\<lambda>directory.
          delete_mounted_copy root directory files (p_remote_path p))))))"

end
