(* ===== verification/Mounted_Safety.thy ===== *)
theory Mounted_Safety
  imports Mounted
begin

text \<open>
  What the operations on a mounted share can do to it, for every content of the share, symbolic links included, and
  every failure of system calls. Successful path look-ups are the inductive relation \<open>walks\<close>; a directory that
  is reached without links is \<open>real_dir\<close>. The relations \<open>same\<close>, \<open>keeps\<close> and \<open>adds\<close> between states interpret
  \<open>step_relation\<close>.
\<close>

section \<open>Looking up paths\<close>

lemma dir_case_Inr:
  "(case x of None \<Rightarrow> Inl a | Some (File _) \<Rightarrow> Inl b | Some Dir \<Rightarrow> Inr y | Some (Link _ _) \<Rightarrow> Inl b) = Inr z \<longleftrightarrow> x = Some Dir \<and> y = z"
  by (auto split: option.split node.split)

lemma dir_case_Inl:
  "(case x of None \<Rightarrow> Inl a | Some (File _) \<Rightarrow> Inl b | Some Dir \<Rightarrow> Inr y | Some (Link _ _) \<Rightarrow> Inl b) = Inl e
     \<longleftrightarrow> x \<noteq> Some Dir \<and> e = (if x = None then a else b)"
  by (auto split: option.split node.split)

lemma file_case_Inr: "(case n of File c \<Rightarrow> Inr (f c) | Dir \<Rightarrow> Inl e | Link _ _ \<Rightarrow> Inl e) = Inr z \<longleftrightarrow> (\<exists>c. n = File c \<and> f c = z)"
  by (cases n) auto

lemma map_of_filter_other: "map_of (filter (\<lambda>x. fst x \<noteq> p) xs) q = (if q = p then None else map_of xs q)"
  by (induction xs) auto

lemma node_at_root [simp]: "node_at s [] = Some Dir"
  by (simp add: node_at_def)

lemma node_at_set: "node_at (set_node p n s) q = (if q = p \<and> p \<noteq> [] then Some n else node_at s q)"
  by (auto simp: node_at_def set_node_def map_of_filter_other)

lemma node_at_drop: "node_at (drop_node p s) q = (if q = p \<and> p \<noteq> [] then None else node_at s q)"
  by (auto simp: node_at_def drop_node_def map_of_filter_other)

lemma node_at_nodes: "mf_nodes s' = mf_nodes s \<Longrightarrow> node_at s' = node_at s"
  by (rule ext) (simp add: node_at_def)

lemma walk_nodes: "node_at s' = node_at s \<Longrightarrow> walk s' l p cs = walk s l p cs"
  by (induction s l p cs rule: walk.induct) (auto split: option.splits node.splits nat.splits)

lemma lookup_nodes:
  assumes "node_at s' = node_at s"
  shows "node_result s' = node_result s" "follow s' = follow s" "place s' = place s" "lstat s' = lstat s"
proof -
  show *: "node_result s' = node_result s" by (rule ext) (simp add: node_result_def assms)
  show "follow s' = follow s" by (rule ext) (simp add: follow_def * walk_nodes [OF assms])
  show "place s' = place s" by (rule ext) (simp add: place_def walk_nodes [OF assms] assms)
  then show "lstat s' = lstat s" by (intro ext) (simp add: lstat_def *)
qed

text \<open>Existing nodes stay what they are.\<close>

definition keeps :: "mount_fs \<Rightarrow> mount_fs \<Rightarrow> bool" where
  "keeps s s' \<longleftrightarrow> (\<forall>q n. node_at s q = Some n \<longrightarrow> node_at s' q = Some n)"

lemma keepsD: "keeps s s' \<Longrightarrow> node_at s q = Some n \<Longrightarrow> node_at s' q = Some n"
  by (simp add: keeps_def)

lemma walk_at_missing: "walk s l p cs = Inr d \<Longrightarrow> node_at s p = None \<Longrightarrow> cs = [] \<and> d = p"
  by (cases cs) auto

abbreviation no_link :: "mount_fs \<Rightarrow> string list \<Rightarrow> bool" where
  "no_link s d \<equiv> (\<forall>b t. node_at s d \<noteq> Some (Link b t))"

text \<open>The successful walks, as an inductive relation: up, through a link, or down.\<close>

inductive walks :: "mount_fs \<Rightarrow> nat \<Rightarrow> string list \<Rightarrow> string list \<Rightarrow> string list \<Rightarrow> bool" for s where
  stop: "walks s l p [] p"
| up: "node_at s p = Some n \<Longrightarrow> \<forall>x. n \<noteq> File x \<Longrightarrow> walks s l (butlast p) cs d \<Longrightarrow> walks s l p (''..'' # cs) d"
| through: "node_at s p = Some n \<Longrightarrow> \<forall>x. n \<noteq> File x \<Longrightarrow> c \<noteq> ''..'' \<Longrightarrow> node_at s (p @ [c]) = Some (Link b t)
    \<Longrightarrow> walks s l (if b then [] else p) (t @ cs) d \<Longrightarrow> walks s (Suc l) p (c # cs) d"
| down: "node_at s p = Some n \<Longrightarrow> \<forall>x. n \<noteq> File x \<Longrightarrow> c \<noteq> ''..'' \<Longrightarrow> no_link s (p @ [c])
    \<Longrightarrow> walks s l (p @ [c]) cs d \<Longrightarrow> walks s l p (c # cs) d"

lemma walk_walks: "walk s l p cs = Inr d \<Longrightarrow> walks s l p cs d"
  by (induction s l p cs rule: walk.induct)
     (auto split: option.splits node.splits if_splits nat.splits intro: walks.intros)

lemma walk_not_exists: "walk s l p cs = Inl e \<Longrightarrow> e \<noteq> file_exists"
  by (induction s l p cs rule: walk.induct) (auto split: option.splits node.splits if_splits nat.splits)

lemma walks_walk: "walks s l p cs d \<Longrightarrow> walk s l p cs = Inr d"
  by (induction rule: walks.induct) (auto split: option.splits node.splits)

lemma walk_iff: "walk s l p cs = Inr d \<longleftrightarrow> walks s l p cs d"
  by (metis walk_walks walks_walk)

inductive_cases walks_NilE: "walks s l p [] d"
inductive_cases walks_ConsE: "walks s l p (c # cs) d"

lemma walks_at_missing: "walks s l p cs d \<Longrightarrow> node_at s p = None \<Longrightarrow> cs = [] \<and> d = p"
  by (cases rule: walks.cases) auto

lemma walks_mono:
  assumes "walks s l p cs d" "keeps s s'" "node_at s d = None \<Longrightarrow> no_link s' d"
  shows "walks s' l p cs d"
  using assms
proof (induction rule: walks.induct)
  case (down p n c l cs d)
  have "no_link s' (p @ [c])"
  proof (cases "node_at s (p @ [c])")
    case None
    with walks_at_missing [OF down.hyps(5)] down.prems(2) show ?thesis by auto
  next
    case (Some m)
    with keepsD [OF down.prems(1) this] down.hyps(4) show ?thesis by auto
  qed
  with down keepsD [OF down.prems(1)] show ?case by (meson walks.down)
qed (meson walks.intros keepsD)+

lemma walks_append: "walks s l p zs d \<Longrightarrow> zs = xs @ ys \<Longrightarrow> \<exists>l' q. walks s l p xs q \<and> walks s l' q ys d"
proof (induction arbitrary: xs rule: walks.induct)
  case (stop l p)
  then show ?case by (auto intro: walks.stop)
next
  case (up p n l cs d)
  show ?case
  proof (cases xs)
    case Nil
    with up.prems walks.up [OF up.hyps(1-3)] show ?thesis by (metis append_Nil walks.stop)
  next
    case (Cons x xs')
    with up.prems have "cs = xs' @ ys" "x = ''..''" by auto
    from up.IH [OF this(1)] this(2) Cons show ?thesis by (auto intro: walks.up [OF up.hyps(1,2)])
  qed
next
  case (through p n c b t l cs d)
  show ?case
  proof (cases xs)
    case Nil
    with through.prems walks.through [OF through.hyps(1-5)] show ?thesis by (metis append_Nil walks.stop)
  next
    case (Cons x xs')
    with through.prems have "t @ cs = (t @ xs') @ ys" "x = c" by auto
    from through.IH [OF this(1)] this(2) Cons show ?thesis by (auto intro: walks.through [OF through.hyps(1-4)])
  qed
next
  case (down p n c l cs d)
  show ?case
  proof (cases xs)
    case Nil
    with down.prems walks.down [OF down.hyps(1-5)] show ?thesis by (metis append_Nil walks.stop)
  next
    case (Cons x xs')
    with down.prems have "cs = xs' @ ys" "x = c" by auto
    from down.IH [OF this(1)] this(2) Cons show ?thesis by (auto intro: walks.down [OF down.hyps(1-4)])
  qed
qed

lemma walks_snoc:
  "walks s l p cs d \<Longrightarrow> node_at s d = Some Dir \<Longrightarrow> c \<noteq> ''..'' \<Longrightarrow> no_link s (d @ [c]) \<Longrightarrow> walks s l p (cs @ [c]) (d @ [c])"
proof (induction rule: walks.induct)
  case (stop l p)
  then show ?case by (auto intro: walks.down walks.stop)
qed (auto intro: walks.up walks.through walks.down)

text \<open>A directory without links on the way to it.\<close>

definition good :: "mount_fs \<Rightarrow> string list \<Rightarrow> bool" where
  "good s p \<longleftrightarrow> (\<forall>k < length p. node_at s (take k p) = Some Dir) \<and> no_link s p \<and> ''..'' \<notin> set p"

lemma good_Nil [simp]: "good s []"
  by (simp add: good_def)

lemma good_snoc: "good s (p @ [c]) \<longleftrightarrow> good s p \<and> node_at s p = Some Dir \<and> c \<noteq> ''..'' \<and> no_link s (p @ [c])"
  by (auto simp: good_def less_Suc_eq)

lemma good_butlast: "good s p \<Longrightarrow> good s (butlast p)"
  by (cases p rule: rev_cases) (auto simp: good_snoc)

lemma good_prefix: "good s (p @ q) \<Longrightarrow> good s p"
  by (induction q rule: rev_induct) (auto simp: good_snoc simp flip: append_assoc)

lemma walks_good: "walks s l p cs d \<Longrightarrow> good s p \<Longrightarrow> good s d"
proof (induction rule: walks.induct)
  case (up p n l cs d)
  then show ?case by (simp add: good_butlast)
next
  case (through p n c b t l cs d)
  then show ?case by (cases b) auto
next
  case (down p n c l cs d)
  then have "node_at s p = Some Dir" by (cases n) (auto simp: good_def)
  with down show ?case by (simp add: good_snoc)
qed

lemma good_walks: "good s (p @ cs) \<Longrightarrow> walks s l p cs (p @ cs)"
proof (induction cs arbitrary: p)
  case (Cons c cs)
  then have "good s (p @ [c])" using good_prefix [of s "p @ [c]" cs] by simp
  moreover have "walks s l (p @ [c]) cs (p @ c # cs)" using Cons.IH [of "p @ [c]"] Cons.prems by simp
  ultimately show ?case by (auto simp: good_snoc intro: walks.down)
qed (simp add: walks.stop)


text \<open>What lookups say below a directory without links.\<close>

lemma good_follow: "good s p \<Longrightarrow> follow s p = node_result s p"
  using good_walks [of s "[]" p] by (simp add: follow_def walk_iff [symmetric])

lemma good_place:
  assumes "good s p" "node_at s p = Some Dir"
  shows "place s (p @ [c]) = Inr (p @ [c])" "lstat s (p @ [c]) = node_result s (p @ [c])"
  using good_walks [of s "[]" p] assms by (auto simp: place_def lstat_def walk_iff [symmetric])

lemma place_good:
  assumes "place s p = Inr q" "p \<noteq> []"
  obtains d where "q = d @ [last p]" "walks s max_links [] (butlast p) d" "node_at s d = Some Dir" "good s d"
  using assms walks_good [of s max_links "[]"]
  by (auto simp: place_def bindE_eq_Inr walk_iff dir_case_Inr)

lemma place_not_exists: "place s p \<noteq> Inl file_exists"
  using walk_not_exists [of s] by (auto simp: place_def bindE_eq_Inl dir_case_Inl)

section \<open>Effects of the system calls\<close>

definition same :: "mount_fs \<Rightarrow> mount_fs \<Rightarrow> bool" where
  "same s s' \<longleftrightarrow> mf_nodes s' = mf_nodes s \<and> mf_cwd s' = mf_cwd s \<and> mf_mounts s' = mf_mounts s"

interpretation reading: step_relation same
  by unfold_locales (auto simp: same_def)

interpretation keeping: step_relation keeps
  by unfold_locales (auto simp: keeps_def)

lemma same_node_at: "same s s' \<Longrightarrow> node_at s' = node_at s"
  by (rule node_at_nodes) (simp add: same_def)

lemma good_same: "same s s' \<Longrightarrow> good s' = good s"
  by (rule ext) (simp add: good_def same_node_at)

lemma holds_iff: "holds P r \<longleftrightarrow> (\<exists>n. r = Inr n \<and> P n)"
  by (cases r) auto

lemma same_keeps: "same s s' \<Longrightarrow> keeps s s'"
  by (simp add: keeps_def same_node_at)

lemma within_same_keeps: "within same m \<Longrightarrow> within keeps m"
  by (auto simp: within_def same_keeps)

lemma next_fault_same: "within same next_fault"
  by (auto simp: within_def next_fault_def same_def split: list.splits)

text \<open>A call fails by a fault, or does its work on the same files.\<close>

lemma sys_cases:
  assumes "sys m s = (r, s')"
  obtains f where "r = Inl (fault_error f)" "same s s'"
  | s0 where "same s s0" "m s0 = (r, s')"
proof -
  obtain x s0 where x: "next_fault s = (Inr x, s0)"
    by (cases "next_fault s") (auto simp: next_fault_def split: list.splits)
  then have "same s s0" by (rule withinD [OF next_fault_same])
  with x assms that show ?thesis by (cases x) (auto simp: sys_def bindS_def raiseS_eq)
qed

lemma sys_within: "within same m \<Longrightarrow> within same (sys m)"
  unfolding sys_def by (intro reading.within_bindS next_fault_same) (auto split: option.split intro: reading.within_raiseS)

lemma reads_same:
  "within same (path_exists p)" "within same (path_is_file p)" "within same (path_is_dir p)" "within same (path_is_symlink p)"
  "within same (read_bytes p)" "within same (stat_size p)" "within same (resolve_strict p)" "within same (iterdir p)" "within same fsync"
  unfolding path_exists_def path_is_file_def path_is_dir_def path_is_symlink_def read_bytes_def stat_size_def resolve_strict_def
    iterdir_def fsync_def
  by (intro sys_within reading.within_readS reading.within_returnS)+

text \<open>What an answer says about the files, which the call leaves alone.\<close>

lemma sys_read_Inr:
  assumes "sys (readS g) s = (Inr x, s')" and "\<And>s0. same s s0 \<Longrightarrow> g s0 = g s"
  shows "g s = Inr x \<and> same s s'"
  using assms(1) by (rule sys_cases) (auto simp: readS_eq assms(2))

lemma answers:
  "path_exists p s = (Inr b, s') \<Longrightarrow> b = holds (\<lambda>_. True) (follow s p) \<and> same s s'"
  "path_is_file p s = (Inr b, s') \<Longrightarrow> b = holds is_file_node (follow s p) \<and> same s s'"
  "path_is_dir p s = (Inr b, s') \<Longrightarrow> b = holds (\<lambda>n. n = Dir) (follow s p) \<and> same s s'"
  "path_is_symlink p s = (Inr b, s') \<Longrightarrow> b = holds is_link_node (lstat s p) \<and> same s s'"
  unfolding path_exists_def path_is_file_def path_is_dir_def path_is_symlink_def
  by (drule sys_read_Inr; auto simp: lookup_nodes [OF same_node_at])+

lemma read_bytes_Inr: "read_bytes p s = (Inr c, s') \<Longrightarrow> follow s p = Inr (File c) \<and> same s s'"
  unfolding read_bytes_def
  by (drule sys_read_Inr) (auto simp: lookup_nodes [OF same_node_at] bindE_eq_Inr file_case_Inr)

lemma stat_size_Inr: "stat_size p s = (Inr n, s') \<Longrightarrow> \<exists>c. follow s p = Inr (File c) \<and> n = int (length c) \<and> same s s'"
  unfolding stat_size_def
  by (drule sys_read_Inr) (auto simp: lookup_nodes [OF same_node_at] bindE_eq_Inr file_case_Inr)

lemma node_result_Inr: "node_result s q = Inr n \<longleftrightarrow> node_at s q = Some n"
  by (auto simp: node_result_def split: option.splits)

lemma resolve_strict_Inr: "resolve_strict p s = (Inr q, s') \<Longrightarrow> walks s max_links [] p q \<and> node_at s q \<noteq> None \<and> same s s'"
  unfolding resolve_strict_def
  by (drule sys_read_Inr)
     (auto simp: lookup_nodes [OF same_node_at] walk_nodes [OF same_node_at] bindE_eq_Inr node_result_Inr walk_iff)

lemma same_children: "same s s' \<Longrightarrow> children s' = children s"
  by (rule ext) (simp add: children_def same_def)

lemma iterdir_Inr:
  assumes "iterdir p s = (Inr xs, s')"
  obtains d where "walks s max_links [] p d" "node_at s d = Some Dir" "xs = children s d" "same s s'"
proof -
  have "iterdir p = sys (readS (\<lambda>s. bindE (walk s max_links [] p) (\<lambda>d. bindE (node_result s d)
      (\<lambda>n. if n = Dir then Inr (children s d) else Inl not_a_directory))))"
    by (simp add: iterdir_def)
  from sys_read_Inr [OF assms [unfolded this]]
  have "bindE (walk s max_links [] p) (\<lambda>d. bindE (node_result s d) (\<lambda>n. if n = Dir then Inr (children s d) else Inl not_a_directory)) = Inr xs"
    "same s s'"
    by (auto simp: lookup_nodes [OF same_node_at] walk_nodes [OF same_node_at] same_children cong: if_cong)
  then show ?thesis using that by (auto simp: bindE_eq_Inr node_result_Inr walk_iff split: if_split_asm)
qed

section \<open>Changing the files\<close>

text \<open>At most the node at one place differs.\<close>

definition only_at :: "string list \<Rightarrow> node option \<Rightarrow> mount_fs \<Rightarrow> mount_fs \<Rightarrow> bool" where
  "only_at q n s s' \<longleftrightarrow> q \<noteq> [] \<and> (\<forall>x. node_at s' x = (if x = q then n else node_at s x))"

lemma create_cases:
  assumes "create n p s = (r, s')"
  obtains e where "r = Inl e" "same s s'" "e = file_exists \<longrightarrow> (\<exists>q. place s p = Inr q \<and> node_at s q \<noteq> None)"
  | q where "r = Inr q" "place s p = Inr q" "node_at s q = None" "p \<noteq> []" "only_at q (Some n) s s'"
  using assms unfolding create_def
proof (cases rule: sys_cases)
  case (1 f)
  then show ?thesis using that(1) by (cases f) auto
next
  case (2 s0)
  note eq = same_node_at [OF 2(1)]
  show ?thesis
  proof (cases "free_place s p")
    case (Inl e)
    then have "(e = file_exists \<longrightarrow> (\<exists>q. place s p = Inr q \<and> node_at s q \<noteq> None))"
      by (auto simp: free_place_def bindE_eq_Inl place_not_exists split: if_split_asm)
    moreover have "free_place s0 p = Inl e" using Inl by (simp add: free_place_def lookup_nodes [OF eq] eq cong: if_cong)
    ultimately have "r = Inl e" "s' = s0" "e = file_exists \<longrightarrow> (\<exists>q. place s p = Inr q \<and> node_at s q \<noteq> None)"
      using 2(2) by (simp_all add: bindS_def readS_def)
    with 2(1) that(1) show ?thesis by blast
  next
    case (Inr q)
    then have "place s p = Inr q" "node_at s q = None" by (auto simp: free_place_def bindE_eq_Inr split: if_split_asm)
    moreover have "free_place s0 p = Inr q" using Inr by (simp add: free_place_def lookup_nodes [OF eq] eq cong: if_cong)
    moreover have "q \<noteq> []" using \<open>node_at s q = None\<close> by auto
    moreover have "p \<noteq> []" using calculation by (auto simp: place_def)
    moreover from calculation 2(2) have "r = Inr q" "s' = set_node q n s0" by (simp_all add: bindS_def readS_def returnS_def change_def)
    ultimately show ?thesis using that(2) by (simp add: node_at_set only_at_def eq)
  qed
qed


lemma only_at_trans:
  "only_at q n s s' \<Longrightarrow> only_at q n' s' s'' \<Longrightarrow> only_at q n' s s''"
  "only_at q n s s' \<Longrightarrow> same s' s'' \<Longrightarrow> only_at q n s s''"
  "same s s' \<Longrightarrow> only_at q n s' s'' \<Longrightarrow> only_at q n s s''"
  by (auto simp: only_at_def same_node_at)

lemma only_at_keeps: "only_at q n s s' \<Longrightarrow> node_at s q = None \<Longrightarrow> keeps s s'"
  by (auto simp: only_at_def keeps_def)

lemma write_open_cases:
  assumes "write_open q c s = (r, s')" "q \<noteq> []"
  shows "\<exists>x. only_at q (Some (File x)) s s' \<and> (r = Inr () \<longrightarrow> x = c) \<and> (\<forall>e. r = Inl e \<longrightarrow> e \<noteq> file_exists)"
proof -
  obtain x s0 where x: "next_fault s = (Inr x, s0)"
    by (cases "next_fault s") (auto simp: next_fault_def split: list.splits)
  then have "same s s0" by (rule withinD [OF next_fault_same])
  note eq = same_node_at [OF this]
  show ?thesis
  proof (cases x)
    case None
    with assms x show ?thesis by (auto simp: write_open_def bindS_def change_def only_at_def node_at_set eq)
  next
    case (Some f)
    have "fault_error f \<noteq> file_exists" by (cases f) auto
    with Some assms x show ?thesis
      by (auto simp: write_open_def bindS_def change_def raiseS_def only_at_def node_at_set eq)
  qed
qed

text \<open>The place of a new entry is found again.\<close>

lemma place_again:
  assumes "place s p = Inr q" "p \<noteq> []" "node_at s q = None" "only_at q n s s'"
  shows "place s' p = Inr q"
proof -
  from assms(1,2) obtain d where d: "q = d @ [last p]" "walks s max_links [] (butlast p) d" "node_at s d = Some Dir"
    by (rule place_good)
  have "keeps s s'" using assms(3,4) by (rule only_at_keeps [rotated])
  then have "walks s' max_links [] (butlast p) d" "node_at s' d = Some Dir"
    using walks_mono [OF d(2)] keepsD d(3) by auto
  then show ?thesis using assms(2) d(1) by (simp add: place_def walk_iff [THEN iffD2])
qed

lemma unlink_cases:
  assumes "unlink p s = (r, s')"
  obtains e where "r = Inl e" "same s s'"
  | q n where "r = Inr ()" "place s p = Inr q" "node_at s q = Some n" "n \<noteq> Dir" "only_at q None s s'"
  using assms unfolding unlink_def
proof (cases rule: sys_cases)
  case (2 s0)
  note eq = same_node_at [OF 2(1)]
  let ?g = "\<lambda>s. bindE (place s p) (\<lambda>q. bindE (node_result s q) (\<lambda>n. if n = Dir then Inl (OSErr ''IsADirectoryError'') else Inr q))"
  have g: "?g s0 = ?g s" by (simp add: lookup_nodes [OF eq])
  show ?thesis
  proof (cases "?g s")
    case (Inl e)
    with 2 g that(1) show ?thesis by (auto simp: bindS_def readS_def)
  next
    case (Inr q)
    then obtain n where n: "place s p = Inr q" "node_at s q = Some n" "n \<noteq> Dir"
      by (auto simp: bindE_eq_Inr node_result_Inr split: if_split_asm)
    then have "q \<noteq> []" by auto
    with 2 g Inr that(2) n show ?thesis by (auto simp: bindS_def readS_def change_def node_at_drop only_at_def eq)
  qed
qed (use that(1) in auto)

text \<open>Writing a new file: all of it, or nothing but a rest at a place that was free.\<close>

lemma fault_not_exists: "fault_error f \<noteq> file_exists"
  by (cases f) auto

lemma fill_new_file:
  assumes "bindS (write_open q c) (\<lambda>_. fsync) s = (r, s')" "q \<noteq> []"
  obtains x where "only_at q (Some (File x)) s s'" "r = Inr () \<and> x = c \<or> (\<exists>e. r = Inl e \<and> e \<noteq> file_exists)"
proof -
  obtain r1 s1 where 1: "write_open q c s = (r1, s1)" by (cases "write_open q c s")
  from write_open_cases [OF 1 assms(2)] obtain x where x: "only_at q (Some (File x)) s s1" "r1 = Inr () \<longrightarrow> x = c"
    "\<forall>e. r1 = Inl e \<longrightarrow> e \<noteq> file_exists" by auto
  show ?thesis
  proof (cases r1)
    case (Inl e)
    with 1 assms(1) have "r = Inl e" "s' = s1" by (auto simp: bindS_def)
    with that x Inl show ?thesis by auto
  next
    case (Inr u)
    with 1 assms(1) have 2: "fsync s1 = (r, s')" by (simp add: bindS_def)
    then have "same s1 s'" by (rule withinD [OF reads_same(9)])
    moreover from 2 have "r = Inr () \<or> (\<exists>f. r = Inl (fault_error f))"
      unfolding fsync_def by (rule sys_cases) (auto simp: returnS_eq)
    ultimately show ?thesis using that only_at_trans(2) [OF x(1)] x(2) Inr fault_not_exists by auto
  qed
qed

lemma tidy_cases:
  assumes "catchS (unlink_missing_ok p) (\<lambda>e. if is_os_error e then returnS () else raiseS e) s = (r, s')"
  shows "(same s s' \<or> (\<exists>q. place s p = Inr q \<and> only_at q None s s')) \<and> (\<forall>e. r = Inl e \<longrightarrow> \<not> is_os_error e)"
proof -
  obtain r1 s1 where 1: "unlink p s = (r1, s1)" by (cases "unlink p s")
  then have "same s s1 \<or> (\<exists>q. place s p = Inr q \<and> only_at q None s s1)" by (cases rule: unlink_cases) auto
  with 1 assms show ?thesis
    by (auto simp: catchS_def unlink_missing_ok_def returnS_def raiseS_def split: sum.split_asm if_split_asm)
qed

text \<open>Writing a new file: all of it, or nothing but a rest at a place that was free.\<close>

lemma write_new_file_cases:
  assumes "write_new_file p c s = (r, s')"
  obtains e where "r = Inl e" "same s s'" "e = file_exists \<longrightarrow> (\<exists>q. place s p = Inr q \<and> node_at s q \<noteq> None)"
  | q n where "place s p = Inr q" "node_at s q = None" "p \<noteq> []" "only_at q n s s'"
      "r = Inr () \<and> n = Some (File c) \<or> (\<exists>e. r = Inl e \<and> e \<noteq> file_exists)"
proof -
  obtain r1 s1 where 1: "create (File []) p s = (r1, s1)" by (cases "create (File []) p s")
  then show ?thesis
  proof (cases rule: create_cases)
    case (1 e)
    with assms \<open>create (File []) p s = (r1, s1)\<close> that(1) show ?thesis by (auto simp: write_new_file_def bindS_def)
  next
    case (2 q)
    note new = 2
    let ?fill = "bindS (write_open q c) (\<lambda>_. fsync)"
    obtain r2 s2 where 3: "?fill s1 = (r2, s2)" by (cases "?fill s1")
    have "q \<noteq> []" using new(3) by auto
    from fill_new_file [OF 3 this] obtain x where x: "only_at q (Some (File x)) s1 s2"
      "r2 = Inr () \<and> x = c \<or> (\<exists>e. r2 = Inl e \<and> e \<noteq> file_exists)" by auto
    from only_at_trans(1) [OF new(5) x(1)] have at: "only_at q (Some (File x)) s s2" .
    show ?thesis
    proof (cases r2)
      case (Inr u)
      with assms 1 new(1) 3 have "r = Inr ()" "s' = s2" by (auto simp: write_new_file_def bindS_def onfailS_def catchS_def)
      with that(2) [OF new(2-4)] at x(2) Inr show ?thesis by auto
    next
      case (Inl e)
      let ?tidy = "catchS (unlink_missing_ok p) (\<lambda>e. if is_os_error e then returnS () else raiseS e)"
      obtain r3 s3 where 4: "?tidy s2 = (r3, s3)" by (cases "?tidy s2")
      with assms 1 new(1) 3 Inl have r: "s' = s3" "r = Inl (case r3 of Inl e' \<Rightarrow> e' | Inr _ \<Rightarrow> e)"
        by (auto simp: write_new_file_def bindS_def onfailS_def catchS_def raiseS_def split: sum.splits)
      have not: "\<exists>e. r = Inl e \<and> e \<noteq> file_exists"
        using r(2) x(2) Inl conjunct2 [OF tidy_cases [OF 4]] by (auto split: sum.splits)
      have "place s2 p = Inr q" using place_again [OF new(2,4,3) at] .
      with conjunct1 [OF tidy_cases [OF 4]] r(1) have "same s2 s' \<or> only_at q None s2 s'" by auto
      then have "\<exists>n. only_at q n s s'" using at only_at_trans(1,2) by blast
      with that(2) [OF new(2-4)] not show ?thesis by blast
    qed
  qed
qed

lemma write_new_file_keeps: "within keeps (write_new_file p c)"
  unfolding within_def
proof (intro allI impI)
  fix s r s'
  assume "write_new_file p c s = (r, s')"
  then show "keeps s s'" by (cases rule: write_new_file_cases) (auto intro: same_keeps only_at_keeps)
qed

lemma create_keeps: "within keeps (create n p)"
  unfolding within_def
proof (intro allI impI)
  fix s r s'
  assume "create n p s = (r, s')"
  then show "keeps s s'" by (cases rule: create_cases) (auto intro: same_keeps only_at_keeps)
qed

lemma verify_file_same: "within same (verify_file e p n d)"
  unfolding verify_file_def
  by (intro reading.within_catchS reading.within_bindS) (auto intro!: reading.within_intros reads_same)

lemma write_attempt_keeps: "within keeps (write_attempt p content)"
  unfolding write_attempt_def by (auto intro!: keeping.within_intros write_new_file_keeps)

lemma put_file_keeps: "within keeps (put_file frames e p c d)"
proof (induction frames)
  case (Suc n)
  show ?case unfolding put_file.simps
    by (auto intro!: keeping.within_intros Suc write_attempt_keeps within_same_keeps [OF verify_file_same] within_same_keeps [OF reads_same(1)])
qed (simp add: keeping.within_raiseS)

section \<open>The root of the destination\<close>

lemma mount_allowed_same: "within same (mount_allowed root roots)"
  by (induction roots) (auto intro!: reading.within_intros reads_same)

lemma resolve_mount_same: "within same (resolve_mount dst)"
  unfolding resolve_mount_def wrap_oserror_def by (auto intro!: reading.within_intros reads_same)

lemma destination_root_same: "within same (destination_root cfg dst)"
  unfolding destination_root_def
  by (auto intro!: reading.within_intros reads_same mount_allowed_same resolve_mount_same)

lemma same_trans: "same s s' \<Longrightarrow> same s' s'' \<Longrightarrow> same s s''"
  by (simp add: same_def)

lemma path_of_same: "same s s' \<Longrightarrow> path_of s' = path_of s"
  by (rule ext) (simp add: path_of_def same_def)

text \<open>The directory lies below a configured root that is not the root of the file system.\<close>

definition below_allowed :: "mount_fs \<Rightarrow> string list \<Rightarrow> string list \<Rightarrow> bool" where
  "below_allowed s roots root \<longleftrightarrow>
     (\<exists>r \<in> set roots. \<exists>allowed. walks s max_links [] (path_of s r) allowed \<and> allowed \<noteq> [] \<and> is_prefix allowed root)"

lemma walks_same: "same s s' \<Longrightarrow> walks s' l p cs d = walks s l p cs d"
  by (simp add: walk_iff [symmetric] walk_nodes [OF same_node_at])

lemma below_allowed_same: "same s s' \<Longrightarrow> below_allowed s' roots root = below_allowed s roots root"
  by (simp add: below_allowed_def walks_same path_of_same)

lemma mount_allowed_True: "mount_allowed root roots s = (Inr True, s') \<Longrightarrow> below_allowed s roots root"
proof (induction roots arbitrary: s)
  case (Cons r rs)
  let ?attempt = "bindS (readS (\<lambda>s. Inr (path_of s r))) (\<lambda>p. bindS (path_is_symlink p) (\<lambda>link.
      if link then returnS False else bindS (resolve_strict p) (\<lambda>allowed. returnS (allowed \<noteq> [] \<and> is_prefix allowed root))))"
  let ?m = "catchS ?attempt (\<lambda>e. if is_os_error e then returnS False else raiseS e)"
  from Cons.prems obtain b s1 where 1: "?m s = (Inr b, s1)" "if b then s1 = s' else mount_allowed root rs s1 = (Inr True, s')"
    by (auto simp: bindS_eq_Inr returnS_eq split: if_split_asm)
  have "within same ?m" by (auto intro!: reading.within_intros reads_same)
  then have "same s s1" using 1(1) by (rule withinD)
  show ?case
  proof (cases b)
    case True
    with 1(1) have "?attempt s = (Inr True, s1)" by (auto simp: catchS_eq returnS_eq raiseS_eq split: if_split_asm)
    then obtain s2 a where "same s s2" "resolve_strict (path_of s r) s2 = (Inr a, s1)" "a \<noteq> []" "is_prefix a root"
      by (auto simp: bindS_eq_Inr readS_eq returnS_eq dest!: answers(4) split: if_split_asm)
    with resolve_strict_Inr [OF this(2)] show ?thesis by (auto simp: below_allowed_def walks_same)
  next
    case False
    with Cons.IH 1(2) below_allowed_same [OF \<open>same s s1\<close>] have "below_allowed s rs root" by auto
    then show ?thesis by (auto simp: below_allowed_def)
  qed
qed (simp add: returnS_eq)

lemma destination_root_Inr:
  assumes "destination_root cfg dst s = (Inr root, s')"
  shows "good s root" "node_at s root = Some Dir" "below_allowed s (mc_roots cfg) root" "same s s'"
proof -
  show "same s s'" using destination_root_same assms by (rule withinD)
  from assms obtain s1 s2 s3 l s4 where
    1: "resolve_mount dst s = (Inr root, s1)" and 2: "path_is_dir root s1 = (Inr True, s2)"
    and 3: "path_is_symlink root s2 = (Inr l, s3)" and 4: "mount_allowed root (mc_roots cfg) s3 = (Inr True, s4)"
    by (auto simp: destination_root_def bindS_eq_Inr readS_eq returnS_eq raiseS_eq split: if_split_asm)
  have same: "same s s1" "same s1 s2" "same s2 s3"
    using withinD [OF resolve_mount_same 1] answers(3) [OF 2] answers(4) [OF 3] by auto
  from 1 obtain p s0 where r: "same s s0" "resolve_strict p s0 = (Inr root, s1)"
    by (auto simp: resolve_mount_def wrap_oserror_eq_Inr bindS_eq_Inr readS_eq raiseS_eq dest!: answers(4) split: if_split_asm)
  have "walks s max_links [] p root" using resolve_strict_Inr [OF r(2)] walks_same [OF r(1)] by auto
  then show good: "good s root" by (rule walks_good) simp
  have "holds (\<lambda>n. n = Dir) (follow s root)"
    using answers(3) [OF 2] by (simp add: lookup_nodes [OF same_node_at [OF same(1)]])
  then show "node_at s root = Some Dir"
    by (auto simp: good_follow [OF good] node_result_def split: option.splits)
  show "below_allowed s (mc_roots cfg) root"
    using mount_allowed_True [OF 4] below_allowed_same [OF same_trans [OF same_trans [OF same(1,2)] same(3)]] by simp
qed

section \<open>Links below the root\<close>

lemma reject_same: "within same (reject_symlink_path current parts)"
  by (induction parts arbitrary: current) (auto intro!: reading.within_intros reads_same)

text \<open>When an existing directory passes the check, there is no link on the way to it.\<close>

lemma reject_symlink_good:
  assumes "reject_symlink_path current parts s = (Inr (), s')" "good s current" "node_at s current = Some Dir"
    "follow s (current @ parts) = Inr n" "''..'' \<notin> set parts"
  shows "good s (current @ parts) \<and> node_at s (current @ parts) = Some n"
  using assms
proof (induction parts arbitrary: current s)
  case Nil
  then show ?case by (simp add: good_follow node_result_Inr)
next
  case (Cons c cs)
  from Cons.prems(1) obtain b s1 l s2 where 1: "path_exists (current @ [c]) s = (Inr b, s1)"
    and 2: "(if b then path_is_symlink (current @ [c]) else returnS False) s1 = (Inr l, s2)" "\<not> l"
    and 3: "reject_symlink_path (current @ [c]) cs s2 = (Inr (), s')"
    by (auto simp: bindS_eq_Inr raiseS_eq split: if_split_asm)
  have same1: "same s s1" and b: "b = holds (\<lambda>_. True) (follow s (current @ [c]))" using answers(1) [OF 1] by auto
  from 2 have same2: "same s1 s2" by (auto simp: returnS_eq reading.step_refl dest: answers(4) split: if_split_asm)
  have same: "same s s2" using same1 same2 by (rule same_trans)
  note eq = same_node_at [OF same]
  from Cons.prems(4) obtain q where q: "walks s max_links [] ((current @ [c]) @ cs) q" "node_at s q = Some n"
    by (auto simp: follow_def bindE_eq_Inr walk_iff node_result_Inr)
  from walks_append [OF q(1) refl] obtain l' d where d: "walks s max_links [] (current @ [c]) d" "walks s l' d cs q" by auto
  have "node_at s d \<noteq> None" using walks_at_missing [OF d(2)] q(2) by auto
  then have "b" using d(1) b by (auto simp: follow_def walk_iff [THEN iffD2] node_result_def)
  with 2 answers(4) [of "current @ [c]" s1 l s2] have "\<not> holds is_link_node (lstat s (current @ [c]))"
    by (auto simp: lookup_nodes [OF same_node_at [OF same1]])
  then have nolink: "no_link s (current @ [c])"
    using good_place(2) [OF Cons.prems(2,3)] by (auto simp: node_result_def split: option.splits)
  moreover have "c \<noteq> ''..''" using Cons.prems(5) by auto
  ultimately have good: "good s (current @ [c])" using Cons.prems(2,3) by (simp add: good_snoc)
  have "d = current @ [c]" using good_walks [of s "[]" "current @ [c]"] good d(1) by (simp add: walk_iff [symmetric])
  show ?case
  proof (cases cs)
    case Nil
    with good d \<open>d = current @ [c]\<close> q show ?thesis by (auto elim: walks_NilE)
  next
    case (Cons x xs)
    with d(2) have "\<exists>m. node_at s d = Some m \<and> (\<forall>x. m \<noteq> File x)" by (auto elim: walks_ConsE)
    with nolink \<open>d = current @ [c]\<close> have dir: "node_at s (current @ [c]) = Some Dir"
      using node.exhaust by (metis (no_types, opaque_lifting))
    have "good s2 (current @ [c])" "node_at s2 (current @ [c]) = Some Dir" "follow s2 ((current @ [c]) @ cs) = Inr n"
      using good dir Cons.prems(4) by (auto simp: good_same [OF same] eq lookup_nodes [OF eq])
    from Cons.IH [OF 3 this] Cons.prems(5) show ?thesis by (simp add: good_same [OF same] eq)
  qed
qed


section \<open>Making the directory\<close>

lemma mkdir_keeps: "within keeps (mkdir p)"
  unfolding mkdir_def by (intro keeping.within_bindS create_keeps keeping.within_returnS)

lemma exist_ok_same: "within same (exist_ok p e)"
  unfolding exist_ok_def by (auto intro!: reading.within_intros reads_same)

lemma mkdir_rev_keeps: "within keeps (mkdir_rev cs)"
  by (induction cs) (auto intro!: keeping.within_intros mkdir_keeps within_same_keeps [OF exist_ok_same])

lemma follow_created:
  assumes "place s p = Inr q" "p \<noteq> []" "node_at s q = None" "only_at q (Some n) s s'" "''..'' \<notin> set p" "\<forall>b t. n \<noteq> Link b t"
  shows "follow s' p = Inr n"
proof -
  from assms(1,2) obtain d where d: "q = d @ [last p]" "walks s max_links [] (butlast p) d" "node_at s d = Some Dir" "good s d"
    by (rule place_good)
  have "keeps s s'" using assms(3,4) by (rule only_at_keeps [rotated])
  then have "node_at s' d = Some Dir" using d(3) keepsD by auto
  have "last p \<noteq> ''..''" using assms(5) last_in_set [OF assms(2)] by metis
  have "no_link s' q" "node_at s' q = Some n" using assms(4,6) by (auto simp: only_at_def)
  have "walks s' max_links [] (butlast p) d" using walks_mono [OF d(2) \<open>keeps s s'\<close>] d(3) by auto
  then have "walks s' max_links [] (butlast p @ [last p]) q"
    using walks_snoc \<open>node_at s' d = Some Dir\<close> \<open>no_link s' q\<close> \<open>last p \<noteq> ''..''\<close> d(1) by blast
  then show ?thesis using assms(2) \<open>node_at s' q = Some n\<close> by (simp add: follow_def walk_iff [THEN iffD2] node_result_def)
qed

lemma mkdir_Inr: "mkdir p s = (Inr (), s') \<Longrightarrow> ''..'' \<notin> set p \<Longrightarrow> follow s' p = Inr Dir"
  unfolding mkdir_def bindS_eq_Inr
proof (elim exE conjE)
  fix q s1
  assume "create Dir p s = (Inr q, s1)" "returnS () s1 = (Inr (), s')" "''..'' \<notin> set p"
  then show ?thesis by (cases rule: create_cases) (auto simp: returnS_eq intro: follow_created)
qed

lemma exist_ok_Inr: "exist_ok p e s = (Inr (), s') \<Longrightarrow> follow s' p = Inr Dir"
  by (auto simp: exist_ok_def bindS_eq_Inr returnS_eq raiseS_eq lookup_nodes [OF same_node_at] holds_iff dest!: answers(3) split: if_split_asm)

lemma mkdir_parents_Inr:
  assumes "mkdir_parents p s = (Inr (), s')" "''..'' \<notin> set p"
  shows "follow s' p = Inr Dir"
proof (cases "rev p")
  case Nil
  with assms show ?thesis
    by (auto simp: mkdir_parents_def catchS_eq dest: exist_ok_Inr mkdir_Inr)
next
  case (Cons c cs)
  then have p: "p = rev cs @ [c]" by simp
  with assms show ?thesis
    by (auto simp: mkdir_parents_def catchS_eq bindS_eq_Inr raiseS_eq dest: exist_ok_Inr mkdir_Inr split: if_split_asm)
qed


section \<open>Uploads\<close>

lemma put_artifact_keeps: "within keeps (put_artifact frames e get dst directory files a)"
  unfolding put_artifact_def liftE_def
  by (auto intro!: keeping.within_intros put_file_keeps split: option.split)

lemma put_revision_keeps: "within keeps (put_revision frames e get dst rv root directory files manifest)"
  unfolding put_revision_def mkdir_parents_def
  by (intro keeping.within_bindS mkdir_rev_keeps within_same_keeps [OF reject_same] keeping.within_sumS put_artifact_keeps
      put_file_keeps keeping.within_returnS)

lemma replicate_keeps: "within keeps (replicate_revision_mounted frames e asc cfg get dst rv recorded)"
  unfolding replicate_revision_mounted_def wrap_mounted_def liftE_def
  by (auto intro!: keeping.within_intros put_revision_keeps within_same_keeps [OF destination_root_same])

lemma verify_manifest_same: "within same (verify_manifest_file loads p rv path files)"
  unfolding verify_manifest_file_def
  by (intro reading.within_catchS reading.within_bindS) (auto intro!: reading.within_intros reads_same)

lemma audit_mounted_files_same: "within same (audit_mounted_files e loads lim p rv path directory files xs st)"
proof (induction xs arbitrary: st)
  case (Cons x xs)
  show ?case unfolding audit_mounted_files.simps
    by (intro reading.within_bindS Cons) (auto intro: verify_file_same verify_manifest_same)
qed (simp add: reading.within_returnS)

lemma audit_mounted_replicas_same: "within same (audit_mounted_replicas e asc loads lim dst root prs a)"
proof (induction prs arbitrary: a)
  case (Cons pr prs)
  then show ?case unfolding audit_mounted_replicas.simps audit_mounted_replica_def liftE_def
    by (auto intro!: reading.within_intros audit_mounted_files_same split: prod.split)
qed (simp add: reading.within_returnS)

lemma reconcile_mounted_same: "within same (reconcile_mounted_destination e asc cfg loads dst rows lim)"
  unfolding reconcile_mounted_destination_def liftE_def Let_def
  by (intro reading.within_bindS reading.within_readS destination_root_same audit_mounted_replicas_same reading.within_returnS)

text \<open>Nodes are only added, and files only at given places.\<close>

definition adds :: "string list set \<Rightarrow> mount_fs \<Rightarrow> mount_fs \<Rightarrow> bool" where
  "adds F s s' \<longleftrightarrow> keeps s s' \<and> (\<forall>q n. node_at s q = None \<longrightarrow> node_at s' q = Some n \<longrightarrow> n = Dir \<or> q \<in> F)"

interpretation adding: step_relation "adds F" for F
proof
  show "adds F s s" for s by (simp add: adds_def keeping.step_refl)
  show "adds F s s''" if "adds F s s'" "adds F s' s''" for s s' s''
    unfolding adds_def
  proof (intro conjI allI impI)
    show "keeps s s''" using that keeping.step_trans by (auto simp: adds_def)
    show "n = Dir \<or> q \<in> F" if new: "node_at s q = None" "node_at s'' q = Some n" for q n
      using \<open>adds F s s'\<close> \<open>adds F s' s''\<close> new keepsD [of s' s'' q] by (cases "node_at s' q") (auto simp: adds_def)
  qed
qed

lemma same_adds: "same s s' \<Longrightarrow> adds F s s'"
  by (simp add: adds_def same_keeps same_node_at)

lemma within_same_adds: "within same m \<Longrightarrow> within (adds F) m"
  by (auto simp: within_def same_adds)

lemma only_at_adds: "only_at q n s s' \<Longrightarrow> node_at s q = None \<Longrightarrow> n = Some Dir \<or> q \<in> F \<Longrightarrow> adds F s s'"
  by (simp add: adds_def only_at_keeps) (auto simp: only_at_def)

lemma mkdir_adds: "within (adds F) (mkdir p)"
  unfolding mkdir_def
proof (intro adding.within_bindS adding.within_returnS)
  show "within (adds F) (create Dir p)"
    unfolding within_def
  proof (intro allI impI)
    fix s r s'
    assume "create Dir p s = (r, s')"
    then show "adds F s s'" by (cases rule: create_cases) (auto intro: same_adds only_at_adds)
  qed
qed

lemma mkdir_rev_adds: "within (adds F) (mkdir_rev cs)"
  by (induction cs) (auto intro!: adding.within_intros mkdir_adds within_same_adds [OF exist_ok_same])

text \<open>A real directory: no links on the way.\<close>

definition real_dir :: "mount_fs \<Rightarrow> string list \<Rightarrow> bool" where
  "real_dir s d \<longleftrightarrow> good s d \<and> node_at s d = Some Dir"

lemma real_dir_keeps: "real_dir s d \<Longrightarrow> keeps s s' \<Longrightarrow> real_dir s' d"
  by (auto simp: real_dir_def good_def keeps_def)

lemma put_file_adds:
  assumes "put_file frames e (d @ [c]) content digest s = (r, s')" "real_dir s d" "d @ [c] \<in> F"
  shows "adds F s s'"
  using assms(1,2)
proof (induction frames arbitrary: s)
  case (Suc frames)
  let ?p = "d @ [c]"
  let ?attempt = "write_attempt ?p content"
  obtain r1 s1 where 1: "path_exists ?p s = (r1, s1)" by (cases "path_exists ?p s")
  have same: "same s s1" using reads_same(1) 1 by (rule withinD)
  have real: "real_dir s1 d" using Suc.prems(2) same_keeps [OF same] by (rule real_dir_keeps)
  have verify: "verify_file e ?p n digest t = (v, t') \<Longrightarrow> adds F t t'" for n t v t'
    using withinD [OF verify_file_same] by (auto intro: same_adds)
  obtain r2 s2 where 2: "?attempt s1 = (r2, s2)" by (cases "?attempt s1")
  then obtain r3 where 3: "write_new_file ?p content s1 = (r3, s2)"
    by (auto simp: write_attempt_def catchS_def bindS_def returnS_def raiseS_def split: sum.split_asm prod.split_asm if_split_asm)
  then have new: "adds F s1 s2"
  proof (cases rule: write_new_file_cases)
    case (2 q n)
    then have "q = ?p" using good_place(1) real by (auto simp: real_dir_def)
    with 2 show ?thesis using assms(3) by (auto intro: only_at_adds)
  qed (auto intro: same_adds)
  have real2: "real_dir s2 d" using real new by (auto simp: adds_def intro: real_dir_keeps)
  show ?case
  proof (cases "r1 = Inr False")
    case False
    with Suc.prems(1) 1 have "s' = s1 \<or> adds F s1 s'"
      by (cases r1) (auto simp: bindS_def returnS_def raiseS_def split: sum.split_asm prod.split_asm if_split_asm dest: verify)
    then show ?thesis using same_adds [OF same] adding.step_trans by blast
  next
    case True
    with Suc.prems(1) 1 2 have "s' = s2 \<or> adds F s2 s' \<or> put_file frames e ?p content digest s2 = (r, s')"
      by (cases r2) (auto simp: bindS_def returnS_def raiseS_def split: sum.split_asm prod.split_asm if_split_asm dest: verify)
    with Suc.IH [OF _ real2] new same_adds [OF same] show ?thesis using adding.step_trans by blast
  qed
qed (auto simp: raiseS_eq adding.step_refl)

lemma verify_file_Ok:
  assumes "verify_file e p n d s = (Inr (Ok, k), s')"
  shows "\<exists>c. follow s p = Inr (File c) \<and> int (length c) = n \<and> sha256_hex e c = d \<and> same s s' \<and> \<not> holds is_link_node (lstat s p)"
proof -
  have same: "same s s'" using verify_file_same assms by (rule withinD)
  from assms obtain l s1 s2 s3 c m where 1: "path_is_symlink p s = (Inr l, s1)" "\<not> l"
    and 2: "path_is_file p s1 = (Inr True, s2)" "stat_size p s2 = (Inr m, s3)" "read_bytes p s3 = (Inr c, s')"
    and 3: "m = n" "sha256_hex e c = d"
    by (auto simp: verify_file_def catchS_eq bindS_eq_Inr returnS_eq raiseS_eq split: if_split_asm)
  have s: "same s s1" "same s s2" "same s s3"
    using answers(4) [OF 1(1)] answers(2) [OF 2(1)] stat_size_Inr [OF 2(2)] by (auto simp: same_def)
  show ?thesis
    using answers(4) [OF 1(1)] 1(2) stat_size_Inr [OF 2(2)] read_bytes_Inr [OF 2(3)] 3 same
    by (auto simp: lookup_nodes [OF same_node_at [OF s(2)]] lookup_nodes [OF same_node_at [OF s(3)]])
qed

section \<open>Names of the files of a copy\<close>

abbreviation safe_chars :: "string \<Rightarrow> bool" where
  "safe_chars x \<equiv> (\<forall>c \<in> set x. segment_char c)"

lemma safe_literals: "safe_chars ''device-''" "safe_chars ''_''" "safe_chars ''.bin''" "safe_chars ''artifact''"
  by (simp_all add: segment_char_def ascii_alnum_def Let_def)

lemma show_int_safe: "safe_chars (show_int i)"
  using show_int_chars by (auto simp: segment_char_def)

lemma device_directory_safe_chars: "safe_chars (device_directory_name asc n i)"
  using safe_name_chars show_int_safe safe_literals(1) by (auto simp: device_directory_name_alt)

lemma stem_safe: "safe_chars (backup_filename_stem asc n i t)" "CHR ''_'' \<in> set (backup_filename_stem asc n i t)"
  using device_directory_safe_chars [of asc n i] timestamp_chars [of _ t] set_rstrip_subset set_take_subset safe_literals(2)
  by (fastforce simp: backup_filename_stem_def)+

definition stored_suffix :: "config_artifact \<Rightarrow> string" where
  "stored_suffix a =
     (let suffix0 = joined_suffixes (path_name (artifact_filename (a_storage_key a) (a_artifact_type a))) in
      if suffix0 = [] \<or> 24 < length suffix0 \<or> list_ex (\<lambda>c. c \<noteq> CHR ''.'' \<and> \<not> ascii_alnum c) suffix0
      then ''.bin'' else suffix0)"

lemma stored_suffix_safe: "safe_chars (stored_suffix a)"
  using safe_literals(3) by (auto simp: stored_suffix_def Let_def list_ex_iff segment_char_def)

lemma clean_stem: "safe_chars x \<Longrightarrow> safe_chars y \<Longrightarrow> CHR ''_'' \<in> set x \<Longrightarrow> clean_segment (x @ y)"
  by (rule segment_clean) auto

lemma remote_filename_clean:
  assumes "clean_segment (path_name (a_storage_key a))" "stem = None \<or> (\<exists>n i t. stem = Some (backup_filename_stem asc n i t))"
  shows "clean_segment (remote_filename asc rv readable stem a)"
proof (cases readable)
  case False
  with assms(1) show ?thesis by (auto simp: remote_filename_def artifact_filename_def clean_segment_def Let_def)
next
  case True
  from assms(2) obtain n i t where stem: "(case stem of Some st \<Rightarrow> if st \<noteq> [] then st
      else backup_filename_stem asc (rv_device_name rv) (rv_device_id rv) (Aware (rv_created rv))
    | None \<Rightarrow> backup_filename_stem asc (rv_device_name rv) (rv_device_id rv) (Aware (rv_created rv))) = backup_filename_stem asc n i t"
    by (auto split: option.split)
  have type: "safe_chars (take 48 (device_directory_name asc m 0))" for m
    using device_directory_safe_chars set_take_subset by fast
  show ?thesis
    using True stem type stored_suffix_safe [of a] stem_safe [of asc n i t] safe_literals(2,4)
    unfolding remote_filename_def readable_artifact_filename_def Let_def stored_suffix_def [unfolded Let_def, symmetric]
    by (auto intro!: clean_stem)
qed

lemma child_clean: "clean_segment name \<Longrightarrow> child d name = d @ [name]"
  by (cases name) (auto simp: child_def clean_segment_def is_absolute_def path_parts_def split_on_no_sep)

lemma stem_of_path: "readable_stem_from_revision_path asc path rv = None
    \<or> (\<exists>n i t. readable_stem_from_revision_path asc path rv = Some (backup_filename_stem asc n i t))"
  by (auto simp: readable_stem_from_revision_path_def Let_def)

lemma manifest_name_clean: "clean_segment manifest_name"
  by (simp add: manifest_name_def clean_segment_def)

lemma expected_mounted_clean:
  assumes "expected_mounted e asc rv path dir = Inr files" "\<forall>a \<in> set (rv_artifacts rv). clean_segment (path_name (a_storage_key a))"
    "x \<in> set files"
  shows "clean_segment (xf_filename x)"
proof -
  from assms(1) obtain xs where xs: "expected_artifact_files asc rv (uses_readable_ftp_layout path)
      (readable_stem_from_revision_path asc path rv) [] (rv_artifacts rv) = Inr xs"
    "\<exists>m. files = xs @ [m] \<and> xf_filename m = manifest_name"
    by (auto simp: expected_mounted_def expected_revision_files_def bindE_eq_Inr Let_def)
  with assms(2,3) show ?thesis
    using remote_filename_clean [OF _ stem_of_path] manifest_name_clean by (auto dest!: expected_artifact_files_map)
qed

section \<open>What an upload stores\<close>

definition stored :: "env \<Rightarrow> mount_fs \<Rightarrow> string list \<Rightarrow> int \<Rightarrow> string \<Rightarrow> bool" where
  "stored e s p n digest \<longleftrightarrow> (\<exists>c. node_at s p = Some (File c) \<and> int (length c) = n \<and> sha256_hex e c = digest)"

lemma stored_keeps: "stored e s p n d \<Longrightarrow> keeps s s' \<Longrightarrow> stored e s' p n d"
  by (auto simp: stored_def keeps_def)

lemma verified_stored:
  assumes "verify_file e (d @ [c]) n digest s = (Inr (Ok, k), s')" "real_dir s d" "c \<noteq> ''..''"
  shows "stored e s' (d @ [c]) n digest"
proof -
  from verify_file_Ok [OF assms(1)] obtain x where x: "follow s (d @ [c]) = Inr (File x)" "int (length x) = n"
    "sha256_hex e x = digest" "same s s'" "\<not> holds is_link_node (lstat s (d @ [c]))" by auto
  have "no_link s (d @ [c])"
    using x(5) good_place(2) [of s d c] assms(2) by (auto simp: real_dir_def node_result_def split: option.splits)
  then have "good s (d @ [c])" using assms(2,3) by (simp add: good_snoc real_dir_def)
  then have "node_at s (d @ [c]) = Some (File x)" using x(1) by (simp add: good_follow node_result_Inr)
  with x show ?thesis by (auto simp: stored_def same_node_at)
qed

lemma put_file_SucE:
  assumes "put_file (Suc n) e p content digest s = (Inr b, s')"
  obtains s1 k where "path_exists p s = (Inr True, s1)" "verify_file e p (int (length content)) digest s1 = (Inr (Ok, k), s')"
  | s1 s2 k where "path_exists p s = (Inr False, s1)" "write_attempt p content s1 = (Inr True, s2)"
      "verify_file e p (int (length content)) digest s2 = (Inr (Ok, k), s')"
  | s1 s2 where "path_exists p s = (Inr False, s1)" "write_attempt p content s1 = (Inr False, s2)"
      "put_file n e p content digest s2 = (Inr b, s')"
proof -
  from assms obtain present s1 where 1: "path_exists p s = (Inr present, s1)"
    and 2: "(if present then bindS (verify_file e p (int (length content)) digest) (\<lambda>v. if fst v = Ok then returnS False
          else raiseS (DestinationError ''DESTINATION_CONFLICT'' ''A different object already exists at the immutable revision path.''))
        else bindS (write_attempt p content) (\<lambda>written. if \<not> written then put_file n e p content digest
          else bindS (verify_file e p (int (length content)) digest) (\<lambda>v. if fst v = Ok then returnS True
            else raiseS (DestinationError ''DESTINATION_VERIFY_FAILED'' ''A mounted-storage artifact failed verification after writing it.'')))) s1 = (Inr b, s')"
    by (auto simp: bindS_eq_Inr)
  show ?thesis
  proof (cases present)
    case True
    with 1 2 that(1) show ?thesis by (auto simp: bindS_eq_Inr raiseS_eq returnS_eq split: if_split_asm)
  next
    case False
    with 2 obtain w s2 where w: "write_attempt p content s1 = (Inr w, s2)"
      "(if \<not> w then put_file n e p content digest
          else bindS (verify_file e p (int (length content)) digest) (\<lambda>v. if fst v = Ok then returnS True
            else raiseS (DestinationError ''DESTINATION_VERIFY_FAILED'' ''A mounted-storage artifact failed verification after writing it.''))) s2 = (Inr b, s')"
      by (auto simp: bindS_eq_Inr)
    show ?thesis
    proof (cases w)
      case True
      with 1 False w that(2) show ?thesis by (auto simp: bindS_eq_Inr raiseS_eq returnS_eq split: if_split_asm)
    next
      case notnew: False
      with 1 False w that(3) show ?thesis by simp
    qed
  qed
qed

lemma put_file_stored:
  assumes "put_file frames e (d @ [c]) content digest s = (Inr b, s')" "real_dir s d" "c \<noteq> ''..''"
  shows "stored e s' (d @ [c]) (int (length content)) digest"
  using assms(1,2)
proof (induction frames arbitrary: s)
  case (Suc frames)
  have real1: "real_dir s1 d" if "path_exists (d @ [c]) s = (Inr x, s1)" for x s1
    using Suc.prems(2) answers(1) [OF that] same_keeps real_dir_keeps by blast
  have real2: "real_dir s2 d" if "path_exists (d @ [c]) s = (Inr x, s1)" "write_attempt (d @ [c]) content s1 = (Inr w, s2)" for x s1 w s2
    using real1 [OF that(1)] withinD [OF write_attempt_keeps that(2)] by (rule real_dir_keeps)
  from Suc.prems(1) show ?case
  proof (cases rule: put_file_SucE)
    case (1 s1 k)
    then show ?thesis using real1 assms(3) by (blast intro: verified_stored)
  next
    case (2 s1 s2 k)
    then show ?thesis using real2 assms(3) by (blast intro: verified_stored)
  next
    case (3 s1 s2)
    then show ?thesis using real2 Suc.IH by blast
  qed
qed (simp add: raiseS_eq)

definition copy_places :: "string list \<Rightarrow> expected_file list \<Rightarrow> string list set" where
  "copy_places d files = (\<lambda>x. d @ [xf_filename x]) ` set files"

lemma artifact_by_type_member: "artifact_by_type files ty = Some x \<Longrightarrow> x \<in> set files"
  by (auto simp: artifact_by_type_def dest!: find_SomeD)

lemma put_artifact_effect:
  assumes "put_artifact frames e get dst d files a s = (r, s')" "real_dir s d" "\<forall>x \<in> set files. clean_segment (xf_filename x)"
  shows "adds (copy_places d files) s s'
    \<and> (\<forall>n. r = Inr n \<longrightarrow> (\<exists>x. artifact_by_type files (a_artifact_type a) = Some x
          \<and> stored e s' (d @ [xf_filename x]) (a_size a) (a_raw_hash a)))"
proof (cases "dst_max_artifact_size dst < a_size a \<or> (\<exists>err. read_primary e get a = Inl err) \<or> artifact_by_type files (a_artifact_type a) = None")
  case True
  with assms(1) have "s' = s" "\<exists>err. r = Inl err"
    by (auto simp: put_artifact_def raiseS_eq bindS_def liftE_def readS_def split: if_split_asm sum.split_asm option.split_asm)
  then show ?thesis by (auto simp: adding.step_refl)
next
  case False
  then obtain content x where c: "read_primary e get a = Inr content" "artifact_by_type files (a_artifact_type a) = Some x"
    "\<not> dst_max_artifact_size dst < a_size a" by (cases "read_primary e get a") auto
  let ?p = "d @ [xf_filename x]"
  have x: "x \<in> set files" using artifact_by_type_member c(2) .
  then have clean: "clean_segment (xf_filename x)" "xf_filename x \<noteq> ''..''" "?p \<in> copy_places d files"
    using assms(3) by (auto simp: clean_segment_def copy_places_def)
  obtain r1 where 1: "put_file frames e ?p content (sha256_hex e content) s = (r1, s')" "(\<exists>n. r = Inr n) \<longrightarrow> (\<exists>b. r1 = Inr b)"
    using assms(1) c clean(1)
    by (cases "put_file frames e ?p content (sha256_hex e content) s")
       (auto simp: put_artifact_def child_clean bindS_def liftE_def readS_def returnS_def split: sum.split_asm)
  have "int (length content) = a_size a" "sha256_hex e content = a_raw_hash a"
    using c(1) by (auto simp: read_primary_def split: sum.split_asm exn.split_asm if_split_asm)
  with put_file_adds [OF 1(1) assms(2) clean(3)] put_file_stored [OF _ assms(2) clean(2)] 1 c(2)
  show ?thesis by (metis (no_types, lifting))
qed

lemma put_artifacts_effect:
  assumes "sumS (put_artifact frames e get dst d files) as s = (r, s')" "real_dir s d" "\<forall>x \<in> set files. clean_segment (xf_filename x)"
  shows "adds (copy_places d files) s s'
    \<and> ((\<exists>n. r = Inr n) \<longrightarrow> (\<forall>a \<in> set as. \<exists>x. artifact_by_type files (a_artifact_type a) = Some x
          \<and> stored e s' (d @ [xf_filename x]) (a_size a) (a_raw_hash a)))"
  using assms(1,2)
proof (induction as arbitrary: s r)
  case Nil
  then show ?case by (auto simp: returnS_eq adding.step_refl)
next
  case (Cons a as)
  obtain r1 s1 where 1: "put_artifact frames e get dst d files a s = (r1, s1)" by (cases "put_artifact frames e get dst d files a s")
  note E1 = put_artifact_effect [OF 1 Cons.prems(2) assms(3)]
  then have real: "real_dir s1 d" using Cons.prems(2) real_dir_keeps by (auto simp: adds_def)
  show ?case
  proof (cases r1)
    case (Inl err)
    with 1 Cons.prems(1) E1 show ?thesis by (auto simp: bindS_def)
  next
    case (Inr n)
    obtain r2 s2 where 2: "sumS (put_artifact frames e get dst d files) as s1 = (r2, s2)"
      by (cases "sumS (put_artifact frames e get dst d files) as s1")
    with 1 Inr Cons.prems(1) have r: "s' = s2" "(\<exists>n. r = Inr n) \<longrightarrow> (\<exists>n. r2 = Inr n)"
      by (auto simp: bindS_def returnS_def split: sum.split_asm)
    note E2 = Cons.IH [OF 2 [folded r(1)] real]
    have "adds (copy_places d files) s s'" using E1 E2 adding.step_trans by blast
    moreover have "keeps s1 s'" using E2 by (simp add: adds_def)
    ultimately show ?thesis using E1 E2 r(2) Inr stored_keeps by (metis (no_types, lifting) set_ConsD)
  qed
qed

lemma put_revision_effect:
  assumes run: "put_revision frames e get dst rv root d files manifest s = (r, s')"
    and root: "real_dir s root" "d = root @ parts" "''..'' \<notin> set parts"
    and files: "\<forall>x \<in> set files. clean_segment (xf_filename x)" "manifest_name \<in> xf_filename ` set files"
  shows "adds (copy_places d files) s s'
    \<and> ((\<exists>n. r = Inr n) \<longrightarrow> real_dir s' d
        \<and> (\<forall>a \<in> set (rv_artifacts rv). \<exists>x. artifact_by_type files (a_artifact_type a) = Some x
             \<and> stored e s' (d @ [xf_filename x]) (a_size a) (a_raw_hash a))
        \<and> stored e s' (d @ [manifest_name]) (int (length manifest)) (sha256_hex e manifest))"
proof -
  let ?F = "copy_places d files"
  obtain r1 s1 where 1: "mkdir_parents d s = (r1, s1)" by (cases "mkdir_parents d s")
  obtain r2 s2 where 2: "reject_symlink_path root (drop (length root) d) s1 = (r2, s2)"
    by (cases "reject_symlink_path root (drop (length root) d) s1")
  obtain r3 s3 where 3: "sumS (put_artifact frames e get dst d files) (rv_artifacts rv) s2 = (r3, s3)"
    by (cases "sumS (put_artifact frames e get dst d files) (rv_artifacts rv) s2")
  obtain r4 s4 where 4: "put_file frames e (child d manifest_name) manifest (sha256_hex e manifest) s3 = (r4, s4)"
    by (cases "put_file frames e (child d manifest_name) manifest (sha256_hex e manifest) s3")
  have a1: "adds ?F s s1" using mkdir_rev_adds 1 unfolding mkdir_parents_def by (rule withinD)
  have a2: "adds ?F s1 s2" using within_same_adds [OF reject_same] 2 by (rule withinD)
  show ?thesis
  proof (cases "\<exists>u v. r1 = Inr u \<and> r2 = Inr v")
    case False
    with run 1 2 have "s' = s1 \<or> s' = s2" "\<nexists>n. r = Inr n"
      by (auto simp: put_revision_def bindS_def split: sum.split_asm)
    with a1 adding.step_trans [OF a1 a2] show ?thesis by auto
  next
    case True
    have root1: "real_dir s1 root" using root(1) a1 real_dir_keeps by (auto simp: adds_def)
    have nodots: "''..'' \<notin> set d" using root by (auto simp: real_dir_def good_def)
    have "follow s1 (root @ parts) = Inr Dir" using mkdir_parents_Inr 1 True nodots root(2) by auto
    from reject_symlink_good [OF _ _ _ this root(3)] root1 2 True root(2)
    have "real_dir s1 d" by (auto simp: real_dir_def)
    then have real2: "real_dir s2 d" using a2 real_dir_keeps by (auto simp: adds_def)
    note E3 = put_artifacts_effect [OF 3 real2 files(1)]
    show ?thesis
    proof (cases r3)
      case (Inl err)
      with run 1 2 3 True have "s' = s3" "\<nexists>n. r = Inr n" by (auto simp: put_revision_def bindS_def)
      with E3 adding.step_trans [OF adding.step_trans [OF a1 a2]] show ?thesis by auto
    next
      case (Inr n)
      have real3: "real_dir s3 d" using real2 E3 real_dir_keeps by (auto simp: adds_def)
      have p: "child d manifest_name = d @ [manifest_name]" by (rule child_clean [OF manifest_name_clean])
      have "d @ [manifest_name] \<in> ?F" using files(2) by (auto simp: copy_places_def)
      from put_file_adds [OF 4 [unfolded p] real3 this] have a4: "adds ?F s3 s4" .
      from run 1 2 3 4 True Inr have r: "s' = s4" "(\<exists>n. r = Inr n) \<longrightarrow> (\<exists>b. r4 = Inr b)"
        by (auto simp: put_revision_def bindS_def returnS_def split: sum.split_asm)
      have "adds ?F s s'" using adding.step_trans [OF adding.step_trans [OF a1 a2]] E3 a4 r(1) adding.step_trans by blast
      moreover have "keeps s3 s'" using a4 r(1) by (simp add: adds_def)
      moreover have "stored e s' (d @ [manifest_name]) (int (length manifest)) (sha256_hex e manifest)" if "\<exists>n. r = Inr n"
        using put_file_stored [OF _ real3] 4 p r that by (auto simp: manifest_name_def)
      ultimately show ?thesis using E3 Inr real_dir_keeps [OF real3] stored_keeps by (metis (no_types, lifting))
    qed
  qed
qed

lemma safe_path_Inr: "safe_path root path = Inr d \<Longrightarrow> d = root @ path_parts path \<and> ''..'' \<notin> set (path_parts path)"
  by (auto simp: safe_path_def list_ex_iff split: if_split_asm)

lemma liftE_run: "liftE m s = (m, s)"
  by (simp add: liftE_def readS_def)

lemma destination_root_real:
  assumes "destination_root cfg dst s = (Inr root, s')"
  shows "real_dir s' root" "below_allowed s (mc_roots cfg) root" "same s s'"
  using destination_root_Inr [OF assms] good_same same_node_at by (auto simp: real_dir_def)

text \<open>An upload is refused before it touches the share, or runs in the directory of the revision.\<close>

lemma replicate_mounted_cases:
  assumes "replicate_revision_mounted frames e asc cfg get dst rv recorded s = (r, s')"
  obtains err where "r = Inl err" "same s s'"
  | path device files root s1 r1 where "mounted_replication_path asc dst rv recorded = Inr (path, device)"
      "expected_mounted e asc rv path device = Inr files" "real_dir s1 root" "below_allowed s (mc_roots cfg) root" "same s s1"
      "''..'' \<notin> set (path_parts path)"
      "put_revision frames e get dst rv root (root @ path_parts path) files
         (build_manifest asc rv (uses_readable_ftp_layout path) (readable_stem_from_revision_path asc path rv) (Some device)) s1 = (r1, s')"
      "\<forall>res. r = Inr res \<longrightarrow> rr_remote_path res = path \<and> (\<exists>n. r1 = Inr n)"
proof (cases "\<exists>path device files. require_mounted_protocol dst = Inr () \<and> dst_enabled dst \<and> rv_artifacts rv \<noteq> []
    \<and> mounted_replication_path asc dst rv recorded = Inr (path, device) \<and> expected_mounted e asc rv path device = Inr files")
  case False
  with assms that(1) show ?thesis
    by (cases "require_mounted_protocol dst"; cases "mounted_replication_path asc dst rv recorded")
       (auto simp: replicate_revision_mounted_def bindS_def liftE_run raiseS_def reading.step_refl split: if_split_asm sum.split_asm)
next
  case True
  then obtain path device files where ok: "require_mounted_protocol dst = Inr ()" "dst_enabled dst" "rv_artifacts rv \<noteq> []"
    "mounted_replication_path asc dst rv recorded = Inr (path, device)" "expected_mounted e asc rv path device = Inr files" by blast
  obtain r0 s1 where 0: "destination_root cfg dst s = (r0, s1)" by (cases "destination_root cfg dst s")
  have same: "same s s1" using destination_root_same 0 by (rule withinD)
  show ?thesis
  proof (cases "\<exists>root d. r0 = Inr root \<and> safe_path root path = Inr d")
    case False
    with assms ok 0 same that(1) show ?thesis
      by (auto simp: replicate_revision_mounted_def bindS_def liftE_run split: sum.split_asm)
  next
    case True
    then obtain root d where d: "r0 = Inr root" "safe_path root path = Inr d" by blast
    let ?manifest = "build_manifest asc rv (uses_readable_ftp_layout path) (readable_stem_from_revision_path asc path rv) (Some device)"
    obtain r1 s2 where 1: "put_revision frames e get dst rv root d files ?manifest s1 = (r1, s2)"
      by (cases "put_revision frames e get dst rv root d files ?manifest s1")
    from assms ok 0 d 1 have "s' = s2" "\<forall>res. r = Inr res \<longrightarrow> rr_remote_path res = path \<and> (\<exists>n. r1 = Inr n)"
      by (auto simp: replicate_revision_mounted_def bindS_def liftE_run wrap_mounted_def catchS_def raiseS_def returnS_def split: sum.split_asm)
    with that(2) [OF ok(4,5)] destination_root_real [OF 0 [unfolded d(1)]] safe_path_Inr [OF d(2)] 1 show ?thesis by auto
  qed
qed

lemma expected_mounted_manifest: "expected_mounted e asc rv path dir = Inr files \<Longrightarrow> manifest_name \<in> xf_filename ` set files"
  by (auto simp: expected_mounted_def expected_revision_files_def bindE_eq_Inr Let_def)

lemma adds_same: "same s s1 \<Longrightarrow> adds F s1 s' \<Longrightarrow> adds F s s'"
  by (rule adding.step_trans [OF same_adds])

text \<open>
  C29. A copy on a mounted share is immutable: whatever the state of the share, its links included, and whichever calls
  fail, uploading a revision changes and removes nothing that is there. New files appear only under the expected names
  in the directory of the revision, below a mount root that the deployment allows.
\<close>

theorem mounted_upload_immutable:
  assumes "replicate_revision_mounted frames e asc cfg get dst rv recorded s = (r, s')"
    and "\<forall>a \<in> set (rv_artifacts rv). clean_segment (path_name (a_storage_key a))"
  shows "(\<forall>q n. node_at s q = Some n \<longrightarrow> node_at s' q = Some n)
    \<and> (\<forall>q n. node_at s q = None \<longrightarrow> node_at s' q = Some n \<longrightarrow> n = Dir
         \<or> (\<exists>path device files root. mounted_replication_path asc dst rv recorded = Inr (path, device)
              \<and> expected_mounted e asc rv path device = Inr files \<and> below_allowed s (mc_roots cfg) root
              \<and> q \<in> copy_places (root @ path_parts path) files))"
  using assms(1)
proof (cases rule: replicate_mounted_cases)
  case (1 err)
  then show ?thesis by (simp add: same_node_at)
next
  case (2 path device files root s1 r1)
  have clean: "\<forall>x \<in> set files. clean_segment (xf_filename x)" using expected_mounted_clean [OF 2(2) assms(2)] by blast
  from put_revision_effect [OF 2(7,3) refl 2(6) clean expected_mounted_manifest [OF 2(2)]] adds_same [OF 2(5)]
  have "adds (copy_places (root @ path_parts path) files) s s'" by blast
  with 2 show ?thesis unfolding adds_def keeps_def by blast
qed

text \<open>
  C30. A copy reported as uploaded to a mounted share is complete: every artifact of the revision and the manifest lie in
  the directory of the revision, as files reached without any link, with the recorded sizes and SHA-256 sums.
\<close>

theorem mounted_upload_verified:
  assumes "replicate_revision_mounted frames e asc cfg get dst rv recorded s = (Inr res, s')"
    and "\<forall>a \<in> set (rv_artifacts rv). clean_segment (path_name (a_storage_key a))"
  shows "\<exists>root device files. mounted_replication_path asc dst rv recorded = Inr (rr_remote_path res, device)
    \<and> expected_mounted e asc rv (rr_remote_path res) device = Inr files
    \<and> below_allowed s (mc_roots cfg) root \<and> real_dir s' (root @ path_parts (rr_remote_path res))
    \<and> (\<forall>a \<in> set (rv_artifacts rv). \<exists>x. artifact_by_type files (a_artifact_type a) = Some x
         \<and> stored e s' (root @ path_parts (rr_remote_path res) @ [xf_filename x]) (a_size a) (a_raw_hash a))
    \<and> (\<exists>manifest. manifest = build_manifest asc rv (uses_readable_ftp_layout (rr_remote_path res))
           (readable_stem_from_revision_path asc (rr_remote_path res) rv) (Some device)
         \<and> stored e s' (root @ path_parts (rr_remote_path res) @ [manifest_name]) (int (length manifest)) (sha256_hex e manifest))"
  using assms(1)
proof (cases rule: replicate_mounted_cases)
  case (2 path device files root s1 r1)
  have clean: "\<forall>x \<in> set files. clean_segment (xf_filename x)" using expected_mounted_clean [OF 2(2) assms(2)] by blast
  from put_revision_effect [OF 2(7,3) refl 2(6) clean expected_mounted_manifest [OF 2(2)]] 2 show ?thesis
    by (auto intro!: exI [of _ root] exI [of _ files])
qed simp

section \<open>Termination\<close>

text \<open>The exceptions a program can raise.\<close>

definition raises :: "(exn \<Rightarrow> bool) \<Rightarrow> ('s, 'a) prog \<Rightarrow> bool" where
  "raises E m \<longleftrightarrow> (\<forall>s e s'. m s = (Inl e, s') \<longrightarrow> E e)"

lemma raisesD: "raises E m \<Longrightarrow> m s = (Inl e, s') \<Longrightarrow> E e"
  by (auto simp: raises_def)

lemma raises_intros:
  "raises E (returnS x)"
  "E e \<Longrightarrow> raises E (raiseS e)"
  "(\<And>s e. f s = Inl e \<Longrightarrow> E e) \<Longrightarrow> raises E (readS f)"
  "raises E m \<Longrightarrow> (\<And>x. raises E (g x)) \<Longrightarrow> raises E (bindS m g)"
  "raises E m \<Longrightarrow> (\<And>e. E e \<Longrightarrow> raises E (h e)) \<Longrightarrow> raises E (catchS m h)"
  by (simp_all add: raises_def returnS_eq raiseS_eq readS_eq bindS_eq_Inl catchS_eq) metis+

abbreviation no_recursion_error :: "exn \<Rightarrow> bool" where
  "no_recursion_error e \<equiv> e \<noteq> RecursionError"

lemma raises_sys: "raises no_recursion_error m \<Longrightarrow> raises no_recursion_error (sys m)"
proof -
  assume m: "raises no_recursion_error m"
  show ?thesis unfolding raises_def
  proof (intro allI impI)
    fix s e s'
    assume "sys m s = (Inl e, s')"
    then show "no_recursion_error e"
    proof (cases rule: sys_cases)
      case (1 f)
      then show ?thesis by (cases f) auto
    next
      case (2 s0)
      then show ?thesis using raisesD [OF m] by blast
    qed
  qed
qed

lemma walk_errors: "walk s l p cs = Inl e \<Longrightarrow> is_os_error e"
  by (induction s l p cs rule: walk.induct) (auto split: option.splits node.splits if_splits nat.splits)

lemma lookup_errors:
  "node_result s q = Inl e \<Longrightarrow> is_os_error e" "follow s p = Inl e \<Longrightarrow> is_os_error e" "place s p = Inl e \<Longrightarrow> is_os_error e"
  using walk_errors
  by (auto simp: node_result_def follow_def place_def bindE_eq_Inl dir_case_Inl split: option.split_asm if_split_asm)

lemma os_error_no_recursion: "is_os_error e \<Longrightarrow> no_recursion_error e"
  by (cases e) auto

lemma file_case_Inl: "(case n of File c \<Rightarrow> Inr (f c) | Dir \<Rightarrow> Inl e | Link _ _ \<Rightarrow> Inl e) = Inl z \<Longrightarrow> z = e"
  by (cases n) auto

lemma calls_raise:
  "raises no_recursion_error (path_exists p)" "raises no_recursion_error (path_is_file p)" "raises no_recursion_error (path_is_symlink p)"
  "raises no_recursion_error (read_bytes p)" "raises no_recursion_error (stat_size p)" "raises no_recursion_error fsync"
  "raises no_recursion_error (create n p)" "raises no_recursion_error (unlink p)"
  unfolding path_exists_def path_is_file_def path_is_symlink_def read_bytes_def stat_size_def fsync_def create_def unlink_def change_def
    free_place_def
  by (intro raises_sys raises_intros;
      auto simp: bindE_eq_Inl raises_def returnS_def dest!: file_case_Inl lookup_errors split: if_split_asm)+

lemma verify_file_raises: "raises no_recursion_error (verify_file e p n digest)"
  unfolding verify_file_def by (intro raises_intros) (auto intro!: raises_intros calls_raise)

lemma write_attempt_raises: "raises no_recursion_error (write_attempt p content)"
proof -
  have "raises no_recursion_error (write_open q content)" for q
    unfolding write_open_def
  proof (intro raises_intros)
    show "raises no_recursion_error next_fault" by (auto simp: raises_def next_fault_def split: list.splits)
    show "raises no_recursion_error (case x of None \<Rightarrow> change (set_node q (File content))
        | Some f \<Rightarrow> bindS (change (set_node q (File (take (bytes_written f) content)))) (\<lambda>_. raiseS (fault_error f)))" for x
      by (cases x) (auto simp: raises_def change_def bindS_def raiseS_def elim: fault_error.elims)
  qed
  then have "raises no_recursion_error (write_new_file p content)"
    unfolding write_new_file_def onfailS_def unlink_missing_ok_def
    by (intro raises_intros calls_raise) (auto intro!: raises_intros)
  then show ?thesis unfolding write_attempt_def by (intro raises_intros) (auto intro!: raises_intros)
qed

text \<open>A name that is taken but not by a link is seen by \<open>exists\<close>.\<close>

lemma taken_exists:
  assumes "place s p = Inr q" "node_at s q \<noteq> None" "\<not> holds is_link_node (lstat s p)" "''..'' \<notin> set p"
  shows "holds (\<lambda>_. True) (follow s p)"
proof (cases "p = []")
  case True
  then show ?thesis by (simp add: follow_def node_result_def)
next
  case False
  with assms(1) obtain d where d: "q = d @ [last p]" "walks s max_links [] (butlast p) d" "node_at s d = Some Dir"
    by (rule place_good)
  from assms obtain n where n: "node_at s q = Some n" "\<not> is_link_node n" by (auto simp: lstat_def node_result_def)
  then have "no_link s q" by auto
  moreover have "last p \<noteq> ''..''" using assms(4) last_in_set [OF False] by metis
  ultimately have "walks s max_links [] (butlast p @ [last p]) q" using d walks_snoc by blast
  then show ?thesis using False n(1) by (simp add: follow_def walk_iff [THEN iffD2] node_result_def)
qed


section \<open>Deletion\<close>

lemma rmdir_cases:
  assumes "rmdir p s = (r, s')"
  obtains e where "r = Inl e" "same s s'"
  | q where "r = Inr ()" "place s p = Inr q" "node_at s q = Some Dir" "children s q = []" "only_at q None s s'"
  using assms unfolding rmdir_def
proof (cases rule: sys_cases)
  case (2 s0)
  note eq = same_node_at [OF 2(1)]
  let ?g = "\<lambda>s. bindE (place s p) (\<lambda>q. bindE (node_result s q) (\<lambda>n. if n \<noteq> Dir then Inl not_a_directory
       else if q = [] \<or> children s q \<noteq> [] then Inl other_os_error else Inr q))"
  have g: "?g s0 = ?g s" by (simp add: lookup_nodes [OF eq] same_children [OF 2(1)] cong: if_cong)
  show ?thesis
  proof (cases "?g s")
    case (Inl e)
    with 2 g that(1) show ?thesis by (auto simp: bindS_def readS_def)
  next
    case (Inr q)
    then have n: "place s p = Inr q" "node_at s q = Some Dir" "children s q = []" "q \<noteq> []"
      by (auto simp: bindE_eq_Inr node_result_Inr split: if_split_asm)
    have "r = Inr ()" "s' = drop_node q s0" using 2(2) g Inr by (simp_all add: bindS_def readS_def change_def)
    with that(2) n show ?thesis by (simp add: node_at_drop only_at_def eq)
  qed
qed (use that(1) in auto)

text \<open>Only files at given places disappear.\<close>

definition loses :: "string list set \<Rightarrow> mount_fs \<Rightarrow> mount_fs \<Rightarrow> bool" where
  "loses F s s' \<longleftrightarrow> (\<forall>q. node_at s' q = node_at s q \<or> q \<in> F \<and> node_at s' q = None \<and> (\<exists>c. node_at s q = Some (File c)))"

lemma same_loses: "same s s' \<Longrightarrow> loses F s s'"
  by (simp add: loses_def same_node_at)

lemma loses_trans: "loses F s s' \<Longrightarrow> loses F s' s'' \<Longrightarrow> loses F s s''"
  unfolding loses_def by metis

lemma real_dir_loses:
  assumes "real_dir s d" "loses F s s'"
  shows "real_dir s' d"
proof -
  have dir: "node_at s' q = Some Dir" if "node_at s q = Some Dir" for q
    using assms(2) that unfolding loses_def by (metis node.distinct(1) option.inject)
  with assms(1) show ?thesis by (simp add: real_dir_def good_def)
qed

lemma regular_size_same: "within same (regular_size p)"
  unfolding regular_size_def by (auto intro!: reading.within_intros reads_same)

lemma regular_size_Inr: "regular_size p s = (Inr n, s') \<Longrightarrow> \<not> holds is_link_node (lstat s p)"
  by (auto simp: regular_size_def bindS_eq_Inr returnS_eq raiseS_eq dest!: answers(4) split: if_split_asm)

lemma remove_file_cases:
  assumes "remove_file p s = (r, s')"
  obtains "same s s'"
  | s2 r2 where "same s s2" "\<not> holds is_link_node (lstat s p)" "unlink p s2 = (r2, s')"
proof -
  obtain r1 s1 where 1: "path_exists p s = (r1, s1)" by (cases "path_exists p s")
  obtain r2 s2 where 2: "regular_size p s1 = (r2, s2)" by (cases "regular_size p s1")
  obtain r3 s3 where 3: "unlink p s2 = (r3, s3)" by (cases "unlink p s2")
  have s1: "same s s1" using reads_same(1) 1 by (rule withinD)
  have s2: "same s s2" using same_trans [OF s1] regular_size_same 2 by (blast dest: withinD)
  show ?thesis
  proof (cases "r1 = Inr True \<and> (\<exists>n. r2 = Inr n)")
    case False
    with assms 1 2 have "s' = s1 \<or> s' = s2"
      by (auto simp: remove_file_def bindS_def returnS_def split: sum.split_asm if_split_asm)
    with s1 s2 that(1) show ?thesis by blast
  next
    case True
    with assms 1 2 3 have "s' = s3" by (auto simp: remove_file_def bindS_def returnS_def split: sum.split_asm)
    moreover have "\<not> holds is_link_node (lstat s1 p)" using True regular_size_Inr 2 by blast
    then have "\<not> holds is_link_node (lstat s p)" by (simp add: lookup_nodes [OF same_node_at [OF s1]])
    ultimately show ?thesis using that(2) s2 3 by blast
  qed
qed

lemma remove_file_loses:
  assumes "remove_file (d @ [c]) s = (r, s')" "real_dir s d" "d @ [c] \<in> F"
  shows "loses F s s'"
  using assms(1)
proof (cases rule: remove_file_cases)
  case (2 s2 r2)
  let ?p = "d @ [c]"
  have lstat: "lstat s ?p = node_result s ?p" "place s2 ?p = Inr ?p"
    using good_place assms(2) by (auto simp: real_dir_def lookup_nodes [OF same_node_at [OF 2(1)]])
  from 2(3) have "loses F s2 s'"
  proof (cases rule: unlink_cases)
    case (2 q n)
    then have q: "q = ?p" using lstat(2) by simp
    with 2 \<open>\<not> holds is_link_node (lstat s ?p)\<close> have "\<not> is_link_node n"
      by (simp add: lstat node_result_def same_node_at [OF \<open>same s s2\<close>])
    with 2(4) have "\<exists>c. n = File c" by (cases n) auto
    with 2(3,5) q assms(3) show ?thesis by (auto simp: loses_def only_at_def)
  qed (auto intro: same_loses)
  then show ?thesis using loses_trans same_loses [OF 2(1)] by blast
qed (rule same_loses)

lemma delete_mounted_files_loses:
  assumes "delete_mounted_files d files st s = (r, s')" "real_dir s d" "\<forall>x \<in> set files. clean_segment (xf_filename x)"
    "copy_places d files \<subseteq> F"
  shows "loses F s s'"
  using assms
proof (induction files arbitrary: st s)
  case Nil
  then show ?case by (auto simp: returnS_eq intro: same_loses reading.step_refl)
next
  case (Cons x xs)
  let ?p = "d @ [xf_filename x]"
  have p: "child d (xf_filename x) = ?p" using Cons.prems(3) by (simp add: child_clean)
  obtain r1 s1 where 1: "remove_file ?p s = (r1, s1)" by (cases "remove_file ?p s")
  from remove_file_loses [OF 1 Cons.prems(2)] Cons.prems(4) have l1: "loses F s s1" by (auto simp: copy_places_def)
  show ?case
  proof (cases r1)
    case (Inl e)
    with Cons.prems(1) 1 p l1 show ?thesis by (simp add: bindS_def)
  next
    case (Inr n)
    with Cons.prems(1) 1 p obtain st' where "delete_mounted_files d xs st' s1 = (r, s')" by (auto simp: bindS_def)
    from Cons.IH [OF this real_dir_loses [OF Cons.prems(2) l1]] Cons.prems(3,4) have "loses F s1 s'" by (auto simp: copy_places_def)
    with l1 show ?thesis by (rule loses_trans)
  qed
qed

lemma real_dir_place: "real_dir s d \<Longrightarrow> place s d = Inr d"
  by (cases d rule: rev_cases) (auto simp: real_dir_def good_snoc good_place place_def [of _ "[]"])

text \<open>Every entry but those that may disappear is as before.\<close>

definition copy_removed :: "string list \<Rightarrow> expected_file list \<Rightarrow> mount_fs \<Rightarrow> mount_fs \<Rightarrow> bool" where
  "copy_removed d files s s' \<longleftrightarrow>
     (\<forall>q. node_at s' q = node_at s q
        \<or> node_at s' q = None \<and> (q = d \<or> q \<in> copy_places d files \<and> (\<exists>c. node_at s q = Some (File c))))"

lemma delete_and_rmdir:
  assumes "bindS (delete_mounted_files d files st) (\<lambda>counts. bindS (rmdir d) (\<lambda>_. returnS counts)) s = (r, s')"
    "real_dir s d" "\<forall>x \<in> set files. clean_segment (xf_filename x)"
  shows "copy_removed d files s s' \<and> (\<forall>n. r = Inr n \<longrightarrow> node_at s' d = None)"
proof -
  obtain r1 s1 where 1: "delete_mounted_files d files st s = (r1, s1)" by (cases "delete_mounted_files d files st s")
  have l1: "loses (copy_places d files) s s1" using delete_mounted_files_loses [OF 1 assms(2,3)] by simp
  then have real: "real_dir s1 d" using assms(2) real_dir_loses by blast
  have c1: "copy_removed d files s s1" using l1 unfolding loses_def copy_removed_def by metis
  show ?thesis
  proof (cases r1)
    case (Inl e)
    with assms(1) 1 c1 show ?thesis by (auto simp: bindS_def)
  next
    case (Inr n)
    obtain r2 s2 where 2: "rmdir d s1 = (r2, s2)" by (cases "rmdir d s1")
    with assms(1) 1 Inr have s': "s' = s2" "\<forall>n. r = Inr n \<longrightarrow> r2 = Inr ()"
      by (auto simp: bindS_def returnS_def split: sum.split_asm)
    from 2 show ?thesis
    proof (cases rule: rmdir_cases)
      case (1 e)
      with c1 s' show ?thesis by (auto simp: copy_removed_def same_node_at)
    next
      case (2 q)
      then have "q = d" using real_dir_place [OF real] by simp
      then show ?thesis using 2(5) c1 s' unfolding copy_removed_def only_at_def by metis
    qed
  qed
qed

lemma wrap_mounted_return:
  assumes "bindS (wrap_mounted denied failed m) (\<lambda>x. returnS (g x)) s = (r, s')" "m s = (r1, s1)"
  shows "s' = s1 \<and> (\<forall>res. r = Inr res \<longrightarrow> (\<exists>n. r1 = Inr n))"
  using assms by (cases r1) (auto simp: bindS_def wrap_mounted_def catchS_def raiseS_def returnS_def)

lemma delete_mounted_copy_effect:
  assumes run: "delete_mounted_copy root d files path s = (r, s')"
    and root: "real_dir s root" "d = root @ parts" "''..'' \<notin> set parts" and files: "\<forall>x \<in> set files. clean_segment (xf_filename x)"
  shows "same s s' \<and> (\<forall>res. r = Inr res \<longrightarrow> df_already_absent res)
    \<or> real_dir s d \<and> set (children s d) \<subseteq> xf_filename ` set files \<and> copy_removed d files s s' \<and> (\<forall>res. r = Inr res \<longrightarrow> node_at s' d = None)"
proof -
  obtain r1 s1 where 1: "path_exists d s = (r1, s1)" by (cases "path_exists d s")
  obtain r2 s2 where 2: "reject_symlink_path root (drop (length root) d) s1 = (r2, s2)"
    by (cases "reject_symlink_path root (drop (length root) d) s1")
  obtain r3 s3 where 3: "iterdir d s2 = (r3, s3)" by (cases "iterdir d s2")
  have s1: "same s s1" using reads_same(1) 1 by (rule withinD)
  have s2: "same s s2" using same_trans [OF s1] reject_same 2 by (blast dest: withinD)
  have s3: "same s s3" using same_trans [OF s2] reads_same(8) 3 by (blast dest: withinD)
  let ?unknown = "\<lambda>actual. list_ex (\<lambda>name. name \<notin> xf_filename ` set files) actual"
  show ?thesis
  proof (cases "\<exists>actual. r1 = Inr True \<and> r2 = Inr () \<and> r3 = Inr actual \<and> \<not> ?unknown actual")
    case False
    have "s' = s1 \<or> s' = s2 \<or> s' = s3" "\<forall>res. r = Inr res \<longrightarrow> df_already_absent res"
      using run 1 2 3 False
      by (auto simp: delete_mounted_copy_def bindS_def returnS_def raiseS_def split: sum.split_asm if_split_asm)
    with s1 s2 s3 show ?thesis by blast
  next
    case True
    then obtain actual where t: "r1 = Inr True" "r2 = Inr ()" "r3 = Inr actual" "\<not> ?unknown actual" by blast
    obtain n where n: "follow s1 (root @ parts) = Inr n"
      using answers(1) [OF 1 [unfolded t(1)]] root(2) by (auto simp: holds_iff lookup_nodes [OF same_node_at [OF s1]])
    have "real_dir s1 root" using root(1) same_keeps [OF s1] by (rule real_dir_keeps)
    with reject_symlink_good [OF _ _ _ n root(3)] 2 t(2) root(2) have good: "good s1 d" "node_at s1 d = Some n" by (auto simp: real_dir_def)
    from iterdir_Inr [OF 3 [unfolded t(3)]] obtain d' where d': "walks s2 max_links [] d d'" "node_at s2 d' = Some Dir" "actual = children s2 d'" .
    have "walks s max_links [] d d" using good_walks [of s1 "[]" d] good(1) by (simp add: walks_same [OF s1])
    moreover have "walks s max_links [] d d'" using d'(1) by (simp add: walks_same [OF s2])
    ultimately have "d' = d" by (simp add: walk_iff [symmetric])
    then have real: "real_dir s d" and real3: "real_dir s3 d" and kids: "set (children s d) \<subseteq> xf_filename ` set files"
      using good(1) d' t(4) by (auto simp: real_dir_def good_same [OF s1] good_same [OF s3] same_node_at [OF s2] same_node_at [OF s3]
          same_children [OF s2] list_ex_iff)
    let ?body = "bindS (delete_mounted_files d files (0, 0, 0)) (\<lambda>counts. bindS (rmdir d) (\<lambda>_. returnS counts))"
    obtain r4 s4 where 4: "?body s3 = (r4, s4)" by (cases "?body s3")
    from run 1 2 3 t have "bindS (wrap_mounted
        (DestinationError ''DESTINATION_DELETE_DENIED'' ''The NetBox worker cannot delete the expired mounted-storage copy.'')
        (DestinationError ''DESTINATION_DELETE_FAILED'' ''The mounted-storage revision copy could not be deleted safely.'') ?body)
        (\<lambda>counts. returnS \<lparr>df_remote_path = path, df_expected_file_count = length files, df_deleted_file_count = fst counts,
          df_missing_file_count = fst (snd counts), df_deleted_bytes = snd (snd counts), df_directory_removed = True,
          df_already_absent = False\<rparr>) s3 = (r, s')"
      by (simp add: delete_mounted_copy_def bindS_def [of "path_exists d"] bindS_def [of "reject_symlink_path root (drop (length root) d)"]
          bindS_def [of "iterdir d"])
    from wrap_mounted_return [OF this 4] have s': "s' = s4" "\<forall>res. r = Inr res \<longrightarrow> (\<exists>n. r4 = Inr n)" by auto
    from delete_and_rmdir [OF 4 real3 files] s' have "copy_removed d files s3 s'" "\<forall>res. r = Inr res \<longrightarrow> node_at s' d = None" by auto
    then show ?thesis using real kids by (simp add: copy_removed_def same_node_at [OF s3])
  qed
qed

text \<open>
  C28. Deleting a copy from a mounted share touches nothing else: whatever the state of the share, its links included, and
  whichever calls fail, at most the expected files of the revision disappear, from the recorded directory, which is reached
  without links, lies below an allowed mount root and holds no other entry, and then that directory. After
  a success the directory is gone.
\<close>

theorem mounted_delete_confined:
  assumes "delete_revision_replica_mounted e asc cfg dst p rv s = (r, s')"
    and "\<forall>a \<in> set (rv_artifacts rv). clean_segment (path_name (a_storage_key a))"
  shows "(\<forall>q. node_at s' q = node_at s q) \<and> (\<forall>res. r = Inr res \<longrightarrow> df_already_absent res)
    \<or> (\<exists>root d device files. d = root @ path_parts (p_remote_path p) \<and> below_allowed s (mc_roots cfg) root \<and> real_dir s d
        \<and> expected_mounted e asc rv (p_remote_path p) device = Inr files \<and> set (children s d) \<subseteq> xf_filename ` set files
        \<and> copy_removed d files s s'
        \<and> (\<forall>res. r = Inr res \<longrightarrow> node_at s' d = None))"
proof -
  let ?path = "p_remote_path p"
  let ?v = "validate_recorded_revision_path asc (dst_base_path dst) rv ?path ''DELETE_PATH_INVALID''"
  obtain r0 s1 where 0: "destination_root cfg dst s = (r0, s1)" by (cases "destination_root cfg dst s")
  have same: "same s s1" using destination_root_same 0 by (rule withinD)
  show ?thesis
  proof (cases "\<exists>v files root d. require_mounted_protocol dst = Inr () \<and> dst_enabled dst \<and> ?v = Inr v
      \<and> expected_mounted e asc rv ?path (snd v) = Inr files \<and> r0 = Inr root \<and> safe_path root ?path = Inr d")
    case False
    with assms(1) 0 have "s' = s \<or> s' = s1" "\<nexists>res. r = Inr res"
      by (auto simp: delete_revision_replica_mounted_def bindS_def liftE_run raiseS_def split: sum.split_asm if_split_asm)
    with same show ?thesis by (auto simp: same_node_at)
  next
    case True
    then obtain v files root d where ok: "require_mounted_protocol dst = Inr ()" "dst_enabled dst" "?v = Inr v"
      "expected_mounted e asc rv ?path (snd v) = Inr files" "r0 = Inr root" "safe_path root ?path = Inr d" by blast
    with assms(1) 0 have run: "delete_mounted_copy root d files ?path s1 = (r, s')"
      by (simp add: delete_revision_replica_mounted_def bindS_def liftE_run)
    have clean: "\<forall>x \<in> set files. clean_segment (xf_filename x)" using expected_mounted_clean [OF ok(4) assms(2)] by blast
    note root = destination_root_real [OF 0 [unfolded ok(5)]] and d = safe_path_Inr [OF ok(6)]
    from delete_mounted_copy_effect [OF run root(1) conjunct1 [OF d] conjunct2 [OF d] clean]
    have "same s1 s' \<and> (\<forall>res. r = Inr res \<longrightarrow> df_already_absent res)
      \<or> real_dir s1 d \<and> set (children s1 d) \<subseteq> xf_filename ` set files \<and> copy_removed d files s1 s' \<and> (\<forall>res. r = Inr res \<longrightarrow> node_at s' d = None)"
      by blast
    then show ?thesis
    proof
      assume "same s1 s' \<and> (\<forall>res. r = Inr res \<longrightarrow> df_already_absent res)"
      then have "same s s'" "\<forall>res. r = Inr res \<longrightarrow> df_already_absent res" using same_trans [OF same] by blast+
      then show ?thesis by (simp add: same_node_at)
    next
      assume *: "real_dir s1 d \<and> set (children s1 d) \<subseteq> xf_filename ` set files \<and> copy_removed d files s1 s' \<and> (\<forall>res. r = Inr res \<longrightarrow> node_at s' d = None)"
      then have "real_dir s d" "set (children s d) \<subseteq> xf_filename ` set files" "copy_removed d files s s'"
        by (simp_all add: real_dir_def good_same [OF same] same_node_at [OF same] same_children [OF same] copy_removed_def)
      with * d root(2) ok(4) show ?thesis by blast
    qed
  qed
qed

section \<open>Examples and findings\<close>

definition share_config :: mount_config where
  "share_config = \<lparr>mc_roots = [''/m''], mc_require_mountpoint = True\<rparr>"

definition share_destination :: backup_destination where
  "share_destination = sample_destination\<lparr>dst_protocol := PNfs, dst_base_path := [], dst_mount_path := ''/m''\<rparr>"

definition share_path :: string where
  "share_path = ''/devices/c/revisions/u''"

definition share_view :: revision_view where
  "share_view = \<lparr>rv_pk = 7, rv_uuid = ''u'', rv_device_id = 3, rv_device_name = Some ''c'', rv_driver_id = ''d'', rv_created = 0,
     rv_artifacts = [sample_file\<lparr>a_storage_key := ''x'', a_artifact_type := ''r'', a_format := ''t'', a_raw_hash := ''0303''\<rparr>]\<rparr>"

definition share_with :: "(string list \<times> node) list \<Rightarrow> mount_fs" where
  "share_with nodes = \<lparr>mf_nodes = ([''m''], Dir) # nodes, mf_mounts = [[''m'']], mf_cwd = [], mf_faults = []\<rparr>"

definition share_upload :: "revision_view \<Rightarrow> (mount_fs, replication_result) prog" where
  "share_upload rv = replicate_revision_mounted 2 sample_env id share_config (\<lambda>_. Inr ''cfg'') share_destination rv (Some share_path)"

definition share_replica :: revision_replica where
  "share_replica = (sample_replica 5 7 PSuccess)\<lparr>p_remote_path := share_path, p_remote_available := True\<rparr>"

definition share_uploaded :: "(exn + replication_result) \<times> mount_fs" where
  "share_uploaded = share_upload share_view (share_with [])"

lemma share_uploaded_ok: "case fst share_uploaded of Inl _ \<Rightarrow> False | Inr res \<Rightarrow> rr_remote_path res = share_path"
  by code_simp

lemma share_keys_clean: "list_all (\<lambda>a. clean_segment (path_name (a_storage_key a))) (rv_artifacts share_view)"
  by code_simp

definition share_deleted :: "(exn + deleted_mounted_revision) \<times> mount_fs" where
  "share_deleted = delete_revision_replica_mounted sample_env id share_config share_destination share_replica share_view (snd share_uploaded)"

lemma share_deleted_ok: "case fst share_deleted of Inl _ \<Rightarrow> False | Inr res \<Rightarrow> df_deleted_file_count res = 2 \<and> \<not> df_already_absent res"
  by code_simp


lemmas share_keys = share_keys_clean [unfolded list_all_iff]

theorem mounted_upload_immutable_witness:
  "(\<exists>res. fst share_uploaded = Inr res) \<and> node_at (snd share_uploaded) [''m''] = Some Dir"
proof
  show "\<exists>res. fst share_uploaded = Inr res" using share_uploaded_ok by (auto split: sum.split_asm)
  have run: "replicate_revision_mounted 2 sample_env id share_config (\<lambda>_. Inr ''cfg'') share_destination share_view (Some share_path)
      (share_with []) = (fst share_uploaded, snd share_uploaded)" by (simp add: share_uploaded_def share_upload_def)
  have "node_at (share_with []) [''m''] = Some Dir" by (simp add: share_with_def node_at_def)
  with mounted_upload_immutable [OF run share_keys] show "node_at (snd share_uploaded) [''m''] = Some Dir" by blast
qed

theorem mounted_upload_verified_witness:
  "\<exists>root files x. real_dir (snd share_uploaded) (root @ path_parts share_path) \<and> artifact_by_type files ''r'' = Some x
     \<and> stored sample_env (snd share_uploaded) (root @ path_parts share_path @ [xf_filename x]) 3 ''0303''"
proof -
  obtain res where res: "fst share_uploaded = Inr res" "rr_remote_path res = share_path"
    using share_uploaded_ok by (auto split: sum.split_asm)
  have run: "replicate_revision_mounted 2 sample_env id share_config (\<lambda>_. Inr ''cfg'') share_destination share_view (Some share_path)
      (share_with []) = (Inr res, snd share_uploaded)" using res(1) by (simp add: share_uploaded_def share_upload_def prod_eq_iff)
  have art: "\<exists>a. set (rv_artifacts share_view) = {a} \<and> a_artifact_type a = ''r'' \<and> a_raw_hash a = ''0303'' \<and> a_size a = 3"
    by (simp add: share_view_def sample_file_def)
  show ?thesis using mounted_upload_verified [OF run share_keys] art unfolding res(2) by auto blast
qed

theorem mounted_delete_confined_witness:
  "\<exists>root files. real_dir (snd share_uploaded) (root @ path_parts share_path)
     \<and> copy_removed (root @ path_parts share_path) files (snd share_uploaded) (snd share_deleted)
     \<and> node_at (snd share_deleted) (root @ path_parts share_path) = None"
proof -
  obtain res where res: "fst share_deleted = Inr res" "\<not> df_already_absent res"
    using share_deleted_ok by (auto split: sum.split_asm)
  have run: "delete_revision_replica_mounted sample_env id share_config share_destination share_replica share_view (snd share_uploaded)
      = (Inr res, snd share_deleted)" using res(1) by (simp add: share_deleted_def prod_eq_iff)
  have "p_remote_path share_replica = share_path" by (simp add: share_replica_def)
  with mounted_delete_confined [OF run share_keys] res(2) show ?thesis by auto
qed


text \<open>
  A symbolic link whose target is missing: \<open>exists\<close> says no, the exclusive creation says yes, and \<open>_put_immutable\<close> calls
  itself until the recursion limit is reached.
\<close>

theorem dangling_link_recursion:
  assumes "\<not> holds (\<lambda>_. True) (follow s p)" "place s p = Inr q" "node_at s q \<noteq> None" "mf_faults s = []"
  shows "put_file frames e p content digest s = (Inl RecursionError, s)"
proof (induction frames)
  case (Suc frames)
  have sys: "sys m s = m s" for m :: "(mount_fs, 'a) prog" by (simp add: sys_def bindS_def next_fault_def assms(4))
  have "path_exists p s = (Inr False, s)" using assms(1) by (simp add: path_exists_def sys readS_def)
  moreover have "create (File []) p s = (Inl file_exists, s)"
    using assms(2,3) by (simp add: create_def sys bindS_def readS_def free_place_def)
  then have "write_attempt p content s = (Inr False, s)" by (simp add: write_attempt_def write_new_file_def catchS_def bindS_def returnS_def)
  ultimately show ?case using Suc by (simp add: bindS_def)
qed (simp add: raiseS_def)

text \<open>
  The directory is made before links are looked for: through a link on the way, directories appear outside the share
  although the upload is then refused.
\<close>

theorem mkdir_through_link:
  "fst (share_upload share_view (share_with [([''o''], Dir), ([''m'', ''devices''], Link True [''o''])]))
     = Inl (DestinationError ''DESTINATION_PATH_INVALID'' ''The mounted-storage path contains a symbolic link.'')
   \<and> node_at (snd (share_upload share_view (share_with [([''o''], Dir), ([''m'', ''devices''], Link True [''o''])]))) [''o'', ''c''] = Some Dir"
  by code_simp

text \<open>
  After a device has been renamed, a repeated upload of a complete copy is refused: the manifest on the share is compared
  byte for byte with one that names the device anew, which the audit and the FTP client do not do.
\<close>

theorem rename_blocks_repair:
  "fst (share_upload (share_view\<lparr>rv_device_name := Some ''new''\<rparr>) (snd share_uploaded))
     = Inl (DestinationError ''DESTINATION_CONFLICT'' ''A different object already exists at the immutable revision path.'')"
  by code_simp

end
