(* ===== verification/Validation.thy ===== *)
theory Validation
  imports Dispatcher Mounted
begin

text \<open>
  What the program accepts as configuration: \<open>BackupDestination.clean\<close> with the validators and check constraints of
  its fields (\<open>models.py\<close>), the forms that edit a storage (\<open>forms_storage.py\<close>), the checks of the REST serializer
  (\<open>api/serializers.py\<close>) and the \<open>clean\<close> methods of the other models. A rejected value is the list of the fields it
  names; the wording of the messages is not modelled. Objects that have been saved have a primary key other than
  zero, so a foreign key is tested for truth by whether it is set.
\<close>

section \<open>Storages\<close>

record storage_row =
  st_pk :: "int option"
  st_name :: string
  st_is_default :: bool
  st_enabled :: bool
  st_auto_replicate :: bool
  st_audit_enabled :: bool
  st_audit_frequency :: string
  st_audit_time :: int
  st_audit_weekday :: int
  st_next_audit_at :: "int option"
  st_protocol :: destination_protocol
  st_allow_insecure_ftp :: bool
  st_host :: string
  st_port :: "int option"
  st_base_path :: string
  st_mount_path :: string
  st_credential :: "(int \<times> string) option"
  st_connect_timeout :: "int option"
  st_max_retries :: "int option"
  st_retry_delay_minutes :: "int option"
  st_max_artifact_size :: "int option"
  st_local_policy :: "int option"
  st_remote_policy :: "int option"
  st_enforce_retention :: bool
  st_host_key_type :: string
  st_host_key_public :: string
  st_host_key_sha256 :: string
  st_host_key_md5 :: string
  st_host_key_approved_at :: "int option"

text \<open>The rows of the two tables that validation reads.\<close>

record storages =
  sg_rows :: "storage_row list"
  sg_replicas :: "revision_replica list"

datatype rejection = Invalid "string list" | DoesNotExist | IntegrityRefused | DeletionProtected | Raised exn

type_synonym check = "rejection + unit"

definition failing :: "(string \<times> bool) list \<Rightarrow> string list" where
  "failing fs = map fst (filter snd fs)"

definition guard :: "string list \<Rightarrow> check" where
  "guard errors = (if errors = [] then Inr () else Inl (Invalid errors))"

fun first_error :: "check list \<Rightarrow> check" where
  "first_error [] = Inr ()"
| "first_error (Inl r # cs) = Inl r"
| "first_error (Inr _ # cs) = first_error cs"

definition stored_row :: "storages \<Rightarrow> int option \<Rightarrow> storage_row option" where
  "stored_row sg pk = (if pk = None then None else find (\<lambda>r. st_pk r = pk) (sg_rows sg))"

text \<open>Field validators, run by \<open>clean_fields\<close>.\<close>

definition within_limits :: "int \<Rightarrow> int \<Rightarrow> int option \<Rightarrow> bool" where
  "within_limits lo hi v = (case v of None \<Rightarrow> True | Some n \<Rightarrow> lo \<le> n \<and> n \<le> hi)"

definition storage_field_errors :: "storage_row \<Rightarrow> string list" where
  "storage_field_errors s = failing
     [(''port'', \<not> within_limits 1 65535 (st_port s)),
      (''connect_timeout'', \<not> within_limits 1 300 (st_connect_timeout s)),
      (''max_retries'', \<not> within_limits 0 20 (st_max_retries s)),
      (''retry_delay_minutes'', \<not> within_limits 1 10080 (st_retry_delay_minutes s)),
      (''max_artifact_size'', \<not> within_limits 1024 (10 * 1024 * 1024 * 1024) (st_max_artifact_size s))]"

section \<open>\<open>BackupDestination.clean\<close>\<close>

definition identity_changed :: "storages \<Rightarrow> storage_row \<Rightarrow> bool" where
  "identity_changed sg s \<longleftrightarrow> (case stored_row sg (st_pk s) of
       None \<Rightarrow> False
     | Some original \<Rightarrow>
         (st_protocol original = PLocal \<and> (st_protocol s \<noteq> PLocal \<or> \<not> st_is_default s))
         \<or> (st_protocol original \<noteq> PLocal \<and> st_protocol s = PLocal))"

definition local_errors :: "storage_row \<Rightarrow> string list" where
  "local_errors s = failing
     [(''is_default'', \<not> st_is_default s),
      (''enabled'', \<not> st_enabled s),
      (''auto_replicate'', st_auto_replicate s),
      (''integrity_audit_enabled'', st_audit_enabled s),
      (''credential_profile'', st_credential s \<noteq> None),
      (''host'', st_host s \<noteq> []),
      (''port'', st_port s \<noteq> None),
      (''base_path'', st_base_path s \<noteq> []),
      (''mount_path'', st_mount_path s \<noteq> []),
      (''connect_timeout'', st_connect_timeout s \<noteq> None),
      (''max_retries'', st_max_retries s \<noteq> None),
      (''retry_delay_minutes'', st_retry_delay_minutes s \<noteq> None),
      (''max_artifact_size'', st_max_artifact_size s \<noteq> None),
      (''remote_retention_policy'', st_remote_policy s \<noteq> None),
      (''local_retention_policy'', st_enforce_retention s \<and> st_local_policy s = None)]"

definition remote_errors :: "storage_row \<Rightarrow> string list" where
  "remote_errors s = failing
     ([(''is_default'', st_is_default s),
       (''local_retention_policy'', st_local_policy s \<noteq> None),
       (''remote_retention_policy'', st_enforce_retention s \<and> st_remote_policy s = None),
       (''max_retries'', st_max_retries s = None),
       (''retry_delay_minutes'', st_retry_delay_minutes s = None),
       (''max_artifact_size'', st_max_artifact_size s = None)]
      @ (if mounted_protocol (st_protocol s)
         then [(''mount_path'', st_mount_path s = []),
               (''host'', st_host s \<noteq> []),
               (''port'', st_port s \<noteq> None),
               (''credential_profile'', st_credential s \<noteq> None),
               (''connect_timeout'', st_connect_timeout s \<noteq> None)]
         else [(''port'', st_port s = None),
               (''credential_profile'', st_credential s = None),
               (''connect_timeout'', st_connect_timeout s = None),
               (''mount_path'', st_mount_path s \<noteq> [])]))"

definition live_copy :: "int option \<Rightarrow> revision_replica \<Rightarrow> bool" where
  "live_copy pk p \<longleftrightarrow> Some (p_destination_id p) = pk \<and> p_remote_deleted_at p = None \<and> p_remote_path p \<noteq> []"

definition has_live_copies :: "storages \<Rightarrow> int option \<Rightarrow> bool" where
  "has_live_copies sg pk \<longleftrightarrow> pk \<noteq> None \<and> list_ex (live_copy pk) (sg_replicas sg)"

definition endpoint_changes :: "storage_row \<Rightarrow> storage_row \<Rightarrow> string list" where
  "endpoint_changes original s = failing
     [(''protocol'', st_protocol s \<noteq> st_protocol original),
      (''host'', st_host s \<noteq> st_host original),
      (''port'', st_port s \<noteq> st_port original),
      (''base_path'', st_base_path s \<noteq> st_base_path original),
      (''mount_path'', st_mount_path s \<noteq> st_mount_path original),
      (''credential_profile'', map_option fst (st_credential s) \<noteq> map_option fst (st_credential original))]"

definition check_endpoint :: "storages \<Rightarrow> storage_row \<Rightarrow> check" where
  "check_endpoint sg s =
     (if \<not> has_live_copies sg (st_pk s) then Inr ()
      else case stored_row sg (st_pk s) of
          None \<Rightarrow> Inl DoesNotExist
        | Some original \<Rightarrow> guard (endpoint_changes original s))"

definition host_invalid :: "string \<Rightarrow> bool" where
  "host_invalid host \<longleftrightarrow> host = [] \<or> list_ex py_space host
     \<or> list_ex (\<lambda>c. c \<in> {CHR ''/'', CHR 0x5C, CHR ''['', CHR '']'', CHR 0x00}) host"

definition mount_path_invalid :: "string \<Rightarrow> bool" where
  "mount_path_invalid value =
     (let mount_path = strip py_space value in
      take 1 mount_path \<noteq> ''/'' \<or> mount_path = ''/'' \<or> CHR 0x5C \<in> set mount_path \<or> CHR 0x00 \<in> set mount_path
      \<or> list_ex (\<lambda>part. part \<in> {'''', ''.'', ''..''}) (drop 1 (split_on (CHR ''/'') mount_path)))"

definition base_path_invalid :: "string \<Rightarrow> bool" where
  "base_path_invalid value =
     (let path = strip py_space value;
          parts = split_on (CHR ''/'') (map (\<lambda>c. if c = CHR 0x5C then CHR ''/'' else c) path) in
      path = [] \<or> path = ''.'' \<or> CHR 0x5C \<in> set path \<or> CHR 0x00 \<in> set path
      \<or> list_ex (\<lambda>c. (of_char c :: nat) < 32) path \<or> ''..'' \<in> set parts)"

definition host_key_incomplete :: "storage_row \<Rightarrow> bool" where
  "host_key_incomplete s =
     (let values = [st_host_key_type s, st_host_key_public s, st_host_key_sha256 s] in
      list_ex (\<lambda>v. v \<noteq> []) values \<and> \<not> list_all (\<lambda>v. v \<noteq> []) values)"

definition backup_destination_clean :: "storages \<Rightarrow> storage_row \<Rightarrow> check" where
  "backup_destination_clean sg s =
     (if identity_changed sg s then Inl (Invalid [''protocol''])
      else if st_protocol s = PLocal then guard (local_errors s)
      else first_error
        [guard (remote_errors s),
         check_endpoint sg s,
         guard (failing [(''allow_insecure_ftp'', st_protocol s = PFtp \<and> \<not> st_allow_insecure_ftp s)]),
         guard (failing [(''credential_profile'', st_protocol s = PFtp
           \<and> (case st_credential s of Some (_, auth_type) \<Rightarrow> auth_type \<noteq> ''password'' | None \<Rightarrow> False))]),
         guard (failing [(''integrity_audit_enabled'', st_audit_enabled s \<and> \<not> replicated_protocol (st_protocol s))]),
         guard (if \<not> mounted_protocol (st_protocol s) then failing [(''host'', host_invalid (st_host s))]
                else failing [(''mount_path'', mount_path_invalid (st_mount_path s))]),
         guard (failing [(''base_path'', base_path_invalid (st_base_path s))]),
         guard (failing [(''__all__'', host_key_incomplete s)])])"

text \<open>Properties of a stored row that the SFTP client reads.\<close>

definition known_hosts_line :: "storage_row \<Rightarrow> string" where
  "known_hosts_line s =
     (if st_protocol s \<noteq> PSftp \<or> st_host_key_public s = [] then []
      else (case st_port s of
              None \<Rightarrow> ''['' @ st_host s @ '']:None''
            | Some port \<Rightarrow> if port = 22 then st_host s else ''['' @ st_host s @ '']:'' @ show_int port)
           @ '' '' @ st_host_key_type s @ '' '' @ st_host_key_public s)"

definition host_key_is_trusted :: "storage_row \<Rightarrow> bool" where
  "host_key_is_trusted s \<longleftrightarrow> st_protocol s = PSftp \<and> st_host_key_public s \<noteq> [] \<and> st_host_key_approved_at s \<noteq> None"

section \<open>The constraints of the table\<close>

definition one_local :: "storage_row list \<Rightarrow> bool" where
  "one_local rows \<longleftrightarrow> length (filter (\<lambda>r. st_protocol r = PLocal) rows) \<le> 1"

definition typed_retention :: "storage_row \<Rightarrow> bool" where
  "typed_retention s \<longleftrightarrow>
     (st_protocol s = PLocal \<and> st_is_default s \<and> st_remote_policy s = None)
     \<or> (st_protocol s \<noteq> PLocal \<and> \<not> st_is_default s \<and> st_local_policy s = None)"

definition local_invariants :: "storage_row \<Rightarrow> bool" where
  "local_invariants s \<longleftrightarrow> st_protocol s \<noteq> PLocal
     \<or> (st_enabled s \<and> \<not> st_auto_replicate s \<and> \<not> st_audit_enabled s \<and> \<not> st_allow_insecure_ftp s
        \<and> st_base_path s = [] \<and> st_connect_timeout s = None \<and> st_credential s = None \<and> st_host s = []
        \<and> st_mount_path s = [] \<and> st_max_artifact_size s = None \<and> st_max_retries s = None
        \<and> st_port s = None \<and> st_retry_delay_minutes s = None)"

definition remote_transport :: "storage_row \<Rightarrow> bool" where
  "remote_transport s \<longleftrightarrow> st_protocol s = PLocal
     \<or> (mounted_protocol (st_protocol s) \<and> st_credential s = None \<and> st_port s = None \<and> st_connect_timeout s = None
        \<and> st_max_retries s \<noteq> None \<and> st_retry_delay_minutes s \<noteq> None \<and> st_max_artifact_size s \<noteq> None
        \<and> st_host s = [] \<and> st_mount_path s \<noteq> [] \<and> st_base_path s \<noteq> [])
     \<or> (\<not> mounted_protocol (st_protocol s) \<and> st_credential s \<noteq> None \<and> st_port s \<noteq> None \<and> st_connect_timeout s \<noteq> None
        \<and> st_max_retries s \<noteq> None \<and> st_retry_delay_minutes s \<noteq> None \<and> st_max_artifact_size s \<noteq> None
        \<and> st_host s \<noteq> [] \<and> st_base_path s \<noteq> [] \<and> st_mount_path s = [])"

definition enforced_policy :: "storage_row \<Rightarrow> bool" where
  "enforced_policy s \<longleftrightarrow> \<not> st_enforce_retention s
     \<or> (st_protocol s = PLocal \<and> st_local_policy s \<noteq> None)
     \<or> (st_protocol s \<in> {PFtp, PSftp, PNfs, PSmb} \<and> st_remote_policy s \<noteq> None)"

definition row_constraints :: "storage_row \<Rightarrow> bool" where
  "row_constraints s \<longleftrightarrow> typed_retention s \<and> local_invariants s \<and> remote_transport s \<and> enforced_policy s"

text \<open>\<open>save\<close>: the row with this key is replaced, a row without a key is added under a fresh one.\<close>

definition fresh_key :: "storage_row list \<Rightarrow> int" where
  "fresh_key rows = Max (insert 0 (the ` (st_pk ` set rows - {None}))) + 1"

definition saved_row :: "storages \<Rightarrow> storage_row \<Rightarrow> storage_row" where
  "saved_row sg s = (if st_pk s = None then s\<lparr>st_pk := Some (fresh_key (sg_rows sg))\<rparr> else s)"

definition put_row :: "storage_row \<Rightarrow> storage_row list \<Rightarrow> storage_row list" where
  "put_row s rows =
     (if list_ex (\<lambda>r. st_pk r = st_pk s) rows then map (\<lambda>r. if st_pk r = st_pk s then s else r) rows else rows @ [s])"

definition save_storage :: "storages \<Rightarrow> storage_row \<Rightarrow> rejection + storages" where
  "save_storage sg s =
     (let rows = put_row (saved_row sg s) (sg_rows sg) in
      if \<not> row_constraints s \<or> \<not> one_local rows
         \<or> list_ex (\<lambda>r. st_name r = st_name s \<and> st_pk r \<noteq> st_pk (saved_row sg s)) (sg_rows sg)
      then Inl IntegrityRefused
      else Inr (sg\<lparr>sg_rows := rows\<rparr>))"

text \<open>
  \<open>protect_default_local_storage\<close> runs before a storage is deleted; the foreign key of its replicas is protected.
\<close>

definition delete_storage :: "storages \<Rightarrow> storage_row \<Rightarrow> rejection + storages" where
  "delete_storage sg s =
     (if st_protocol s = PLocal \<or> st_is_default s then Inl DeletionProtected
      else if list_ex (\<lambda>p. Some (p_destination_id p) = st_pk s) (sg_replicas sg) then Inl DeletionProtected
      else Inr (sg\<lparr>sg_rows := filter (\<lambda>r. st_pk r \<noteq> st_pk s) (sg_rows sg)\<rparr>))"

section \<open>The storage form\<close>

text \<open>The cleaned data of \<open>BackupDestinationForm\<close>; \<open>sf_omitted\<close> names the fields missing from the request.\<close>

record storage_form =
  sf_name :: string
  sf_protocol :: destination_protocol
  sf_enabled :: bool
  sf_auto_replicate :: bool
  sf_local_policy :: "int option"
  sf_remote_policy :: "int option"
  sf_enforce_retention :: bool
  sf_allow_insecure_ftp :: bool
  sf_host :: string
  sf_port :: "int option"
  sf_base_path :: string
  sf_mount_path :: string
  sf_credential :: "(int \<times> string) option"
  sf_connect_timeout :: "int option"
  sf_max_retries :: "int option"
  sf_retry_delay_minutes :: "int option"
  sf_max_artifact_size :: "int option"
  sf_omitted :: "string list"

definition is_local_storage :: "storage_row \<Rightarrow> bool" where
  "is_local_storage inst \<longleftrightarrow> st_protocol inst = PLocal"

text \<open>The choices of \<open>protocol\<close> and \<open>credential_profile\<close> and the validators the fields inherit from the model.\<close>

definition form_field_errors :: "storage_row \<Rightarrow> storage_form \<Rightarrow> string list" where
  "form_field_errors inst f =
     (if is_local_storage inst then [] else failing
       [(''protocol'', sf_protocol f \<notin> {PFtp, PNfs, PSmb}),
        (''credential_profile'', case sf_credential f of Some (_, auth_type) \<Rightarrow> auth_type \<noteq> ''password'' | None \<Rightarrow> False),
        (''port'', \<not> within_limits 1 65535 (sf_port f)),
        (''connect_timeout'', \<not> within_limits 1 300 (sf_connect_timeout f)),
        (''max_retries'', \<not> within_limits 0 20 (sf_max_retries f)),
        (''retry_delay_minutes'', \<not> within_limits 1 10080 (sf_retry_delay_minutes f)),
        (''max_artifact_size'', \<not> within_limits 1024 (10 * 1024 * 1024 * 1024) (sf_max_artifact_size f))])"

definition absent_number :: "int option \<Rightarrow> bool" where
  "absent_number v \<longleftrightarrow> v = None \<or> v = Some 0"

text \<open>
  \<open>BackupDestinationForm.clean\<close>: the errors it adds, the cleaned data it leaves and the instance it prepares.
\<close>

definition form_protocol :: "storage_row \<Rightarrow> storage_form \<Rightarrow> destination_protocol" where
  "form_protocol inst f = (if is_local_storage inst then PLocal else sf_protocol f)"

definition storage_form_errors :: "storage_row \<Rightarrow> storage_form \<Rightarrow> string list" where
  "storage_form_errors inst f = failing
     ([(''allow_insecure_ftp'', form_protocol inst f = PFtp \<and> \<not> sf_allow_insecure_ftp f),
       (''base_path'', \<not> is_local_storage inst \<and> sf_base_path f = [])]
      @ (if form_protocol inst f = PFtp
         then [(''host'', sf_host f = []), (''port'', absent_number (sf_port f)),
               (''credential_profile'', sf_credential f = None),
               (''connect_timeout'', absent_number (sf_connect_timeout f))]
         else [(''mount_path'', mounted_protocol (form_protocol inst f) \<and> sf_mount_path f = [])])
      @ (if is_local_storage inst
         then [(''local_retention_policy'', sf_enforce_retention f \<and> sf_local_policy f = None)]
         else [(''remote_retention_policy'', sf_enforce_retention f \<and> sf_remote_policy f = None)]))"

definition clears_server :: "storage_row \<Rightarrow> storage_form \<Rightarrow> bool" where
  "clears_server inst f \<longleftrightarrow> mounted_protocol (form_protocol inst f) \<and> sf_mount_path f \<noteq> []"

definition form_data :: "storage_row \<Rightarrow> storage_form \<Rightarrow> storage_form" where
  "form_data inst f =
     (if form_protocol inst f = PFtp then f\<lparr>sf_mount_path := []\<rparr>
      else if clears_server inst f
      then f\<lparr>sf_host := [], sf_port := None, sf_credential := None, sf_connect_timeout := None,
             sf_allow_insecure_ftp := False\<rparr>
      else f)"

definition cleared_server :: "storage_row \<Rightarrow> storage_row" where
  "cleared_server s = s\<lparr>st_host := [], st_port := None, st_credential := None, st_connect_timeout := None,
     st_allow_insecure_ftp := False\<rparr>"

definition prepared_instance :: "storage_row \<Rightarrow> storage_form \<Rightarrow> storage_row" where
  "prepared_instance inst f =
     (if form_protocol inst f = PFtp then inst\<lparr>st_mount_path := []\<rparr>
      else if clears_server inst f then cleared_server inst
      else inst)"

text \<open>
  \<open>construct_instance\<close>: the cleaned values are copied to the instance, except for a field with a default that was
  missing from the request and is empty.
\<close>

definition submitted :: "storage_form \<Rightarrow> string \<Rightarrow> bool \<Rightarrow> 'a \<Rightarrow> 'a \<Rightarrow> 'a" where
  "submitted f name is_empty new old = (if name \<in> set (sf_omitted f) \<and> is_empty then old else new)"

definition construct_instance :: "storage_form \<Rightarrow> storage_row \<Rightarrow> storage_row" where
  "construct_instance f inst =
     (if is_local_storage inst
      then inst\<lparr>st_local_policy := sf_local_policy f, st_enforce_retention := sf_enforce_retention f\<rparr>
      else inst\<lparr>
        st_name := sf_name f,
        st_protocol := sf_protocol f,
        st_enabled := sf_enabled f,
        st_auto_replicate := sf_auto_replicate f,
        st_remote_policy := sf_remote_policy f,
        st_enforce_retention := sf_enforce_retention f,
        st_allow_insecure_ftp := sf_allow_insecure_ftp f,
        st_host := submitted f ''host'' (sf_host f = []) (sf_host f) (st_host inst),
        st_port := submitted f ''port'' (sf_port f = None) (sf_port f) (st_port inst),
        st_base_path := submitted f ''base_path'' (sf_base_path f = []) (sf_base_path f) (st_base_path inst),
        st_mount_path := submitted f ''mount_path'' (sf_mount_path f = []) (sf_mount_path f) (st_mount_path inst),
        st_credential := sf_credential f,
        st_connect_timeout := submitted f ''connect_timeout'' (sf_connect_timeout f = None) (sf_connect_timeout f)
          (st_connect_timeout inst),
        st_max_retries := submitted f ''max_retries'' (sf_max_retries f = None) (sf_max_retries f) (st_max_retries inst),
        st_retry_delay_minutes := submitted f ''retry_delay_minutes'' (sf_retry_delay_minutes f = None)
          (sf_retry_delay_minutes f) (st_retry_delay_minutes inst),
        st_max_artifact_size := submitted f ''max_artifact_size'' (sf_max_artifact_size f = None)
          (sf_max_artifact_size f) (st_max_artifact_size inst)\<rparr>)"

definition full_clean :: "storages \<Rightarrow> storage_row \<Rightarrow> check" where
  "full_clean sg s = first_error [guard (storage_field_errors s), backup_destination_clean sg s]"

text \<open>The fields of a row that the audit schedule reads.\<close>

definition audit_view :: "storage_row \<Rightarrow> backup_destination" where
  "audit_view s = \<lparr>dst_pk = (case st_pk s of Some k \<Rightarrow> k | None \<Rightarrow> 0), dst_is_default = st_is_default s,
     dst_enabled = st_enabled s, dst_auto_replicate = st_auto_replicate s, dst_protocol = st_protocol s,
     dst_base_path = st_base_path s, dst_mount_path = st_mount_path s, dst_credential_profile = None,
     dst_max_retries = 0, dst_retry_delay_minutes = 0, dst_max_artifact_size = 0, dst_local_retention_policy = None,
     dst_remote_retention_policy = None, dst_enforce_retention_policy = st_enforce_retention s,
     dst_audit_enabled = st_audit_enabled s, dst_audit_frequency = st_audit_frequency s,
     dst_audit_time = st_audit_time s, dst_audit_weekday = st_audit_weekday s, dst_next_audit_at = st_next_audit_at s,
     dst_last_success_at = None, dst_last_error_code = [], dst_last_error_message = [], dst_last_tested_at = None,
     dst_last_audit_at = None, dst_last_audit_status = [], dst_last_audit_problem_count = 0\<rparr>"

definition next_audit :: "env \<Rightarrow> datetime \<Rightarrow> string \<Rightarrow> storage_row \<Rightarrow> rejection + int option" where
  "next_audit e now tz s = (case calculate_destination_next_ftp_audit e (audit_view s) now tz of
       Inl x \<Rightarrow> Inl (Raised x) | Inr t \<Rightarrow> Inr t)"

definition without_host_key :: "storage_row \<Rightarrow> storage_row" where
  "without_host_key s = s\<lparr>st_host_key_type := [], st_host_key_public := [], st_host_key_sha256 := [],
      st_host_key_md5 := [], st_host_key_approved_at := None\<rparr>"

definition storage_form_row :: "storage_form \<Rightarrow> storage_row \<Rightarrow> storage_row" where
  "storage_form_row f s =
     (let s1 = without_host_key (s\<lparr>st_protocol := sf_protocol f\<rparr>) in
      if mounted_protocol (st_protocol s1) then cleared_server s1 else s1\<lparr>st_mount_path := []\<rparr>)"

definition storage_form_save ::
  "env \<Rightarrow> datetime \<Rightarrow> string \<Rightarrow> storages \<Rightarrow> storage_form \<Rightarrow> storage_row \<Rightarrow> rejection + storages" where
  "storage_form_save e now tz sg f s =
     (if is_local_storage s then save_storage sg s
      else let s1 = storage_form_row f s in
        if \<not> st_enabled s1 \<or> \<not> st_audit_enabled s1 then save_storage sg (s1\<lparr>st_next_audit_at := None\<rparr>)
        else if st_next_audit_at s1 \<noteq> None then save_storage sg s1
        else case next_audit e now tz s1 of
            Inl x \<Rightarrow> Inl x
          | Inr t \<Rightarrow> save_storage sg (s1\<lparr>st_next_audit_at := t\<rparr>))"

text \<open>A submitted form: validation of the fields, \<open>clean\<close>, the model's validation of the instance, \<open>save\<close>.\<close>

definition submit_storage_form ::
  "env \<Rightarrow> datetime \<Rightarrow> string \<Rightarrow> storages \<Rightarrow> storage_row \<Rightarrow> storage_form \<Rightarrow> rejection + storages" where
  "submit_storage_form e now tz sg inst f =
     (let cleaned = form_data inst f;
          s = construct_instance cleaned (prepared_instance inst f) in
      case first_error [guard (form_field_errors inst f @ storage_form_errors inst f), full_clean sg s] of
        Inl x \<Rightarrow> Inl x
      | Inr _ \<Rightarrow> storage_form_save e now tz sg cleaned s)"

text \<open>The instance a form starts from: the stored row, or a new one with the defaults of the model.\<close>

definition new_storage :: storage_row where
  "new_storage = \<lparr>st_pk = None, st_name = [], st_is_default = False, st_enabled = True, st_auto_replicate = True,
     st_audit_enabled = False, st_audit_frequency = ''daily'', st_audit_time = 4 * 3600 * 1000000, st_audit_weekday = 0,
     st_next_audit_at = None, st_protocol = PFtp, st_allow_insecure_ftp = False, st_host = [], st_port = Some 22,
     st_base_path = ''netbox-config-backup'', st_mount_path = [], st_credential = None, st_connect_timeout = Some 15,
     st_max_retries = Some 3, st_retry_delay_minutes = Some 15, st_max_artifact_size = Some (1024 * 1024 * 1024),
     st_local_policy = None, st_remote_policy = None, st_enforce_retention = False, st_host_key_type = [],
     st_host_key_public = [], st_host_key_sha256 = [], st_host_key_md5 = [], st_host_key_approved_at = None\<rparr>"

definition form_instance :: "storages \<Rightarrow> int option \<Rightarrow> storage_row option" where
  "form_instance sg pk = (if pk = None then Some new_storage else stored_row sg pk)"

section \<open>The audit schedule form\<close>

definition submit_audit_form ::
  "env \<Rightarrow> datetime \<Rightarrow> string \<Rightarrow> storages \<Rightarrow> storage_row \<Rightarrow> bool \<Rightarrow> string \<Rightarrow> int \<Rightarrow> int \<Rightarrow> rejection + storages" where
  "submit_audit_form e now tz sg inst audits frequency on_weekday at_time =
     (let s = inst\<lparr>st_audit_enabled := audits, st_audit_frequency := frequency, st_audit_weekday := on_weekday,
                   st_audit_time := at_time\<rparr> in
      case first_error [guard (failing [(''integrity_audit_enabled'', audits \<and> \<not> st_enabled inst)]), full_clean sg s] of
        Inl x \<Rightarrow> Inl x
      | Inr _ \<Rightarrow> (case next_audit e now tz s of
            Inl x \<Rightarrow> Inl x
          | Inr t \<Rightarrow> save_storage sg (s\<lparr>st_next_audit_at := t\<rparr>)))"

section \<open>The REST serializer\<close>

text \<open>
  \<open>s\<close> is the instance with the attributes of the request applied, so an attribute that differs from the stored row is
  one that was given.
\<close>

definition managed_changes :: "storage_row \<Rightarrow> storage_row \<Rightarrow> string list" where
  "managed_changes original s = failing
     [(''name'', st_name s \<noteq> st_name original),
      (''enabled'', st_enabled s \<noteq> st_enabled original),
      (''auto_replicate'', st_auto_replicate s \<noteq> st_auto_replicate original),
      (''protocol'', st_protocol s \<noteq> st_protocol original),
      (''allow_insecure_ftp'', st_allow_insecure_ftp s \<noteq> st_allow_insecure_ftp original),
      (''host'', st_host s \<noteq> st_host original),
      (''port'', st_port s \<noteq> st_port original),
      (''base_path'', st_base_path s \<noteq> st_base_path original),
      (''mount_path'', st_mount_path s \<noteq> st_mount_path original),
      (''credential_profile'', map_option fst (st_credential s) \<noteq> map_option fst (st_credential original)),
      (''connect_timeout'', st_connect_timeout s \<noteq> st_connect_timeout original),
      (''max_retries'', st_max_retries s \<noteq> st_max_retries original),
      (''retry_delay_minutes'', st_retry_delay_minutes s \<noteq> st_retry_delay_minutes original),
      (''max_artifact_size'', st_max_artifact_size s \<noteq> st_max_artifact_size original),
      (''remote_retention_policy'', st_remote_policy s \<noteq> st_remote_policy original),
      (''integrity_audit_enabled'', st_audit_enabled s \<noteq> st_audit_enabled original),
      (''integrity_audit_frequency'', st_audit_frequency s \<noteq> st_audit_frequency original),
      (''integrity_audit_time'', st_audit_time s \<noteq> st_audit_time original),
      (''integrity_audit_weekday'', st_audit_weekday s \<noteq> st_audit_weekday original)]"

definition serializer_validate :: "storages \<Rightarrow> storage_row \<Rightarrow> check" where
  "serializer_validate sg s =
     (if st_pk s \<noteq> None \<and> stored_row sg (st_pk s) = None then Inl DoesNotExist
      else first_error
        [full_clean sg s,
         guard (failing [(''protocol'', st_pk s = None \<and> st_protocol s = PLocal)]),
         (case stored_row sg (st_pk s) of
            Some original \<Rightarrow> if st_protocol original = PLocal then guard (managed_changes original s) else Inr ()
          | None \<Rightarrow> Inr ()),
         guard (if st_protocol s = PLocal
                then failing [(''local_retention_policy'', st_enforce_retention s \<and> st_local_policy s = None)]
                else failing [(''remote_retention_policy'', st_enforce_retention s \<and> st_remote_policy s = None)]),
         (case stored_row sg (st_pk s) of
            Some original \<Rightarrow> if has_live_copies sg (st_pk s) then guard (endpoint_changes original s) else Inr ()
          | None \<Rightarrow> Inr ())])"

text \<open>The fields of \<open>read_only_fields\<close> keep the value of the stored row, or their default.\<close>

definition with_read_only :: "storages \<Rightarrow> storage_row \<Rightarrow> storage_row" where
  "with_read_only sg s =
     (let original = (case stored_row sg (st_pk s) of Some r \<Rightarrow> r | None \<Rightarrow> new_storage) in
      s\<lparr>st_is_default := st_is_default original, st_host_key_type := st_host_key_type original,
        st_host_key_public := st_host_key_public original, st_host_key_sha256 := st_host_key_sha256 original,
        st_host_key_md5 := st_host_key_md5 original, st_host_key_approved_at := st_host_key_approved_at original\<rparr>)"

definition serializer_save :: "storages \<Rightarrow> storage_row \<Rightarrow> rejection + storages" where
  "serializer_save sg request =
     (let s = with_read_only sg request in
      case serializer_validate sg s of Inl x \<Rightarrow> Inl x | Inr _ \<Rightarrow> save_storage sg s)"

section \<open>What validation guarantees\<close>

lemma failing_ok [simp]:
  "failing [] = []"
  "failing ((name, bad) # fs) = [] \<longleftrightarrow> \<not> bad \<and> failing fs = []"
  "failing (fs @ gs) = [] \<longleftrightarrow> failing fs = [] \<and> failing gs = []"
  by (auto simp: failing_def)

lemma guard_ok [simp]: "guard es = Inr u \<longleftrightarrow> es = []"
  by (cases u) (simp add: guard_def)

lemma first_error_ok [simp]: "first_error cs = Inr u \<longleftrightarrow> list_all (\<lambda>c. c = Inr ()) cs"
  by (cases u, induction cs rule: first_error.induct) auto

lemma clean_localD:
  assumes "backup_destination_clean sg s = Inr u" "st_protocol s = PLocal"
  shows "st_is_default s" "st_enabled s" "\<not> st_auto_replicate s" "\<not> st_audit_enabled s" "st_credential s = None"
    "st_host s = []" "st_port s = None" "st_base_path s = []" "st_mount_path s = []" "st_connect_timeout s = None"
    "st_max_retries s = None" "st_retry_delay_minutes s = None" "st_max_artifact_size s = None"
    "st_remote_policy s = None" "\<not> (st_enforce_retention s \<and> st_local_policy s = None)"
  using assms by (simp_all add: backup_destination_clean_def local_errors_def del: not_None_eq split: if_split_asm)

lemma clean_remoteD:
  assumes "backup_destination_clean sg s = Inr u" "st_protocol s \<noteq> PLocal"
  shows "\<not> st_is_default s" "st_local_policy s = None" "\<not> (st_enforce_retention s \<and> st_remote_policy s = None)"
    "st_max_retries s \<noteq> None" "st_retry_delay_minutes s \<noteq> None" "st_max_artifact_size s \<noteq> None"
    "mounted_protocol (st_protocol s) \<longleftrightarrow> st_mount_path s \<noteq> []" "mounted_protocol (st_protocol s) \<longleftrightarrow> st_port s = None"
    "mounted_protocol (st_protocol s) \<longleftrightarrow> st_credential s = None" "mounted_protocol (st_protocol s) \<longleftrightarrow> st_connect_timeout s = None"
    "mounted_protocol (st_protocol s) \<longleftrightarrow> st_host s = []"
    "check_endpoint sg s = Inr ()"
    "\<not> base_path_invalid (st_base_path s)" "mounted_protocol (st_protocol s) \<Longrightarrow> \<not> mount_path_invalid (st_mount_path s)"
    "\<not> mounted_protocol (st_protocol s) \<Longrightarrow> \<not> host_invalid (st_host s)"
proof -
  from assms have ok: "remote_errors s = []" and checks: "check_endpoint sg s = Inr ()"
    "\<not> base_path_invalid (st_base_path s)" "if \<not> mounted_protocol (st_protocol s) then \<not> host_invalid (st_host s)
       else \<not> mount_path_invalid (st_mount_path s)"
    by (simp_all add: backup_destination_clean_def split: if_split_asm)
  from ok have required: "\<not> st_is_default s" "st_local_policy s = None" "\<not> (st_enforce_retention s \<and> st_remote_policy s = None)"
    "st_max_retries s \<noteq> None" "st_retry_delay_minutes s \<noteq> None" "st_max_artifact_size s \<noteq> None"
    by (simp_all add: remote_errors_def del: not_None_eq split_paired_All split_paired_Ex)
  then show "\<not> st_is_default s" "st_local_policy s = None" "\<not> (st_enforce_retention s \<and> st_remote_policy s = None)"
    "st_max_retries s \<noteq> None" "st_retry_delay_minutes s \<noteq> None" "st_max_artifact_size s \<noteq> None" by blast+
  from ok required checks(3)
  show "mounted_protocol (st_protocol s) \<longleftrightarrow> st_mount_path s \<noteq> []" "mounted_protocol (st_protocol s) \<longleftrightarrow> st_port s = None"
    "mounted_protocol (st_protocol s) \<longleftrightarrow> st_credential s = None" "mounted_protocol (st_protocol s) \<longleftrightarrow> st_connect_timeout s = None"
    "mounted_protocol (st_protocol s) \<longleftrightarrow> st_host s = []"
    by (simp_all add: remote_errors_def host_invalid_def del: not_None_eq split_paired_All split_paired_Ex split: if_split_asm)
  from checks show "check_endpoint sg s = Inr ()" "\<not> base_path_invalid (st_base_path s)"
    "mounted_protocol (st_protocol s) \<Longrightarrow> \<not> mount_path_invalid (st_mount_path s)"
    "\<not> mounted_protocol (st_protocol s) \<Longrightarrow> \<not> host_invalid (st_host s)" by simp_all
qed

lemma clean_identityD: "backup_destination_clean sg s = Inr u \<Longrightarrow> \<not> identity_changed sg s"
  by (auto simp: backup_destination_clean_def)

lemma base_path_nonempty: "\<not> base_path_invalid p \<Longrightarrow> p \<noteq> []"
  by (auto simp: base_path_invalid_def strip_def lstrip_def rstrip_def)


section \<open>Every way to save a storage saves a validated row\<close>

definition accepted :: "storages \<Rightarrow> storage_row \<Rightarrow> storages \<Rightarrow> bool" where
  "accepted sg s sg' \<longleftrightarrow> backup_destination_clean sg s = Inr () \<and> save_storage sg s = Inr sg'
     \<and> (st_pk s = None \<longrightarrow> st_protocol s \<noteq> PLocal) \<and> (st_pk s \<noteq> None \<longrightarrow> stored_row sg (st_pk s) \<noteq> None)"

lemma stored_rowD: "stored_row sg pk = Some r \<Longrightarrow> r \<in> set (sg_rows sg) \<and> st_pk r = pk \<and> pk \<noteq> None"
  by (auto simp: stored_row_def find_Some_iff split: if_split_asm)

lemma clean_remote_iff:
  "st_protocol s \<noteq> PLocal \<Longrightarrow> backup_destination_clean sg s = Inr () \<longleftrightarrow>
     \<not> identity_changed sg s \<and> remote_errors s = [] \<and> check_endpoint sg s = Inr ()
     \<and> \<not> (st_protocol s = PFtp \<and> \<not> st_allow_insecure_ftp s)
     \<and> \<not> (st_protocol s = PFtp \<and> (case st_credential s of Some (_, auth_type) \<Rightarrow> auth_type \<noteq> ''password'' | None \<Rightarrow> False))
     \<and> \<not> (st_audit_enabled s \<and> \<not> replicated_protocol (st_protocol s))
     \<and> (if mounted_protocol (st_protocol s) then \<not> mount_path_invalid (st_mount_path s) else \<not> host_invalid (st_host s))
     \<and> \<not> base_path_invalid (st_base_path s) \<and> \<not> host_key_incomplete s"
  by (simp add: backup_destination_clean_def)

lemma checks_ignore_schedule [simp]:
  "identity_changed sg (s\<lparr>st_next_audit_at := t\<rparr>) = identity_changed sg s"
  "local_errors (s\<lparr>st_next_audit_at := t\<rparr>) = local_errors s"
  "remote_errors (s\<lparr>st_next_audit_at := t\<rparr>) = remote_errors s"
  "check_endpoint sg (s\<lparr>st_next_audit_at := t\<rparr>) = check_endpoint sg s"
  "host_key_incomplete (s\<lparr>st_next_audit_at := t\<rparr>) = host_key_incomplete s"
  by (simp_all add: identity_changed_def local_errors_def remote_errors_def check_endpoint_def
      endpoint_changes_def host_key_incomplete_def split: option.split)

lemma clean_ignores_schedule:
  "backup_destination_clean sg (s\<lparr>st_next_audit_at := t\<rparr>) = backup_destination_clean sg s"
  by (simp add: backup_destination_clean_def)

lemma checks_ignore_host_key [simp]:
  "identity_changed sg (without_host_key s) = identity_changed sg s"
  "remote_errors (without_host_key s) = remote_errors s"
  "check_endpoint sg (without_host_key s) = check_endpoint sg s"
  "\<not> host_key_incomplete (without_host_key s)"
  by (simp_all add: without_host_key_def identity_changed_def remote_errors_def check_endpoint_def
      endpoint_changes_def host_key_incomplete_def split: option.split)

lemma without_host_key_fields [simp]:
  "st_protocol (without_host_key s) = st_protocol s" "st_allow_insecure_ftp (without_host_key s) = st_allow_insecure_ftp s"
  "st_credential (without_host_key s) = st_credential s" "st_audit_enabled (without_host_key s) = st_audit_enabled s"
  "st_mount_path (without_host_key s) = st_mount_path s" "st_host (without_host_key s) = st_host s"
  "st_base_path (without_host_key s) = st_base_path s" "st_pk (without_host_key s) = st_pk s"
  by (simp_all add: without_host_key_def)

lemma clean_without_host_key:
  "backup_destination_clean sg s = Inr () \<Longrightarrow> st_protocol s \<noteq> PLocal \<Longrightarrow>
     backup_destination_clean sg (without_host_key s) = Inr ()"
  by (simp add: clean_remote_iff)

lemma form_instance_cases:
  assumes "form_instance sg pk = Some inst"
  obtains (new) "pk = None" "inst = new_storage" | (old) "stored_row sg pk = Some inst" "st_pk inst = pk" "pk \<noteq> None"
proof (cases "pk = None")
  case True
  with assms have "inst = new_storage" unfolding form_instance_def by (metis option.inject)
  with True show thesis by (rule new)
next
  case False
  with assms have "stored_row sg pk = Some inst" unfolding form_instance_def by metis
  with False stored_rowD [OF this] show thesis using old by blast
qed

lemma prepared_fields [simp]:
  "st_pk (prepared_instance inst f) = st_pk inst" "st_protocol (prepared_instance inst f) = st_protocol inst"
  "is_local_storage (prepared_instance inst f) = is_local_storage inst" "sf_protocol (form_data inst f) = sf_protocol f"
  by (simp_all add: prepared_instance_def cleared_server_def form_data_def is_local_storage_def)

lemma constructed_fields [simp]:
  "st_pk (construct_instance f inst) = st_pk inst"
  "is_local_storage inst \<Longrightarrow> st_protocol (construct_instance f inst) = PLocal"
  "\<not> is_local_storage inst \<Longrightarrow> st_protocol (construct_instance f inst) = sf_protocol f"
  by (simp_all add: construct_instance_def is_local_storage_def)

text \<open>What \<open>save\<close> clears, \<open>clean\<close> has cleared before the row was validated.\<close>

lemma constructed_transport:
  assumes "\<not> is_local_storage inst" "storage_form_errors inst f = []"
  defines "s \<equiv> construct_instance (form_data inst f) (prepared_instance inst f)"
  shows "sf_protocol f = PFtp \<Longrightarrow> st_mount_path s = []"
    "mounted_protocol (sf_protocol f) \<Longrightarrow> st_host s = [] \<and> st_port s = None \<and> st_credential s = None
       \<and> st_connect_timeout s = None \<and> \<not> st_allow_insecure_ftp s"
proof -
  have protocol: "form_protocol inst f = sf_protocol f" using assms(1) by (simp add: form_protocol_def)
  show "st_mount_path s = []" if "sf_protocol f = PFtp"
    using that assms(1) by (simp add: s_def construct_instance_def form_data_def prepared_instance_def protocol submitted_def)
  show "st_host s = [] \<and> st_port s = None \<and> st_credential s = None
       \<and> st_connect_timeout s = None \<and> \<not> st_allow_insecure_ftp s" if "mounted_protocol (sf_protocol f)"
  proof -
    from that have other: "sf_protocol f \<noteq> PFtp" by (auto simp: mounted_protocol_def)
    with that assms(2) have "clears_server inst f"
      by (simp add: storage_form_errors_def clears_server_def protocol)
    with that other assms(1) show ?thesis
      by (simp add: s_def construct_instance_def form_data_def prepared_instance_def cleared_server_def protocol submitted_def)
  qed
qed

lemma form_row_unchanged:
  assumes "\<not> is_local_storage inst" "storage_form_errors inst f = []" "sf_protocol f \<in> {PFtp, PNfs, PSmb}"
    "s = construct_instance (form_data inst f) (prepared_instance inst f)"
  shows "storage_form_row (form_data inst f) s = without_host_key s"
proof -
  have same: "s\<lparr>st_protocol := sf_protocol f\<rparr> = s" using assms(1,4) by simp
  note transport = constructed_transport [OF assms(1,2), folded assms(4)]
  from assms(3) consider (ftp) "sf_protocol f = PFtp" "\<not> mounted_protocol (sf_protocol f)" | (mounted) "mounted_protocol (sf_protocol f)"
    by (auto simp: mounted_protocol_def)
  then show ?thesis
  proof cases
    case ftp
    then show ?thesis using transport(1) by (simp add: storage_form_row_def same assms(1,4) without_host_key_def)
  next
    case mounted
    then show ?thesis using transport(2) by (simp add: storage_form_row_def same assms(1,4) without_host_key_def cleared_server_def)
  qed
qed

lemma storage_form_accepted:
  assumes "form_instance sg pk = Some inst" "submit_storage_form e now tz sg inst f = Inr sg'"
  shows "\<exists>s. accepted sg s sg'"
proof -
  define s where "s = construct_instance (form_data inst f) (prepared_instance inst f)"
  have ok: "form_field_errors inst f = []" "storage_form_errors inst f = []" "backup_destination_clean sg s = Inr ()"
    and save: "storage_form_save e now tz sg (form_data inst f) s = Inr sg'"
    using assms(2) by (simp_all add: submit_storage_form_def s_def [symmetric] full_clean_def Let_def split: sum.split_asm)
  have pk: "st_pk s = st_pk inst" by (simp add: s_def)
  have known: "st_pk s \<noteq> None \<longrightarrow> stored_row sg (st_pk s) \<noteq> None"
    using assms(1) by (cases rule: form_instance_cases) (auto simp: pk new_storage_def)
  show ?thesis
  proof (cases "is_local_storage inst")
    case True
    then have "st_protocol s = PLocal" by (simp add: s_def)
    moreover have "st_pk s \<noteq> None"
      using assms(1) True by (cases rule: form_instance_cases) (auto simp: pk new_storage_def is_local_storage_def)
    ultimately have "accepted sg s sg'"
      using save ok known by (simp add: storage_form_save_def accepted_def is_local_storage_def)
    then show ?thesis by blast
  next
    case False
    then have protocol: "st_protocol s = sf_protocol f" "sf_protocol f \<in> {PFtp, PNfs, PSmb}"
      using ok(1) by (simp_all add: s_def form_field_errors_def)
    then have remote: "st_protocol s \<noteq> PLocal" by auto
    have s1: "storage_form_row (form_data inst f) s = without_host_key s"
      using form_row_unchanged [OF False ok(2) protocol(2) s_def] .
    have clean: "backup_destination_clean sg ((without_host_key s)\<lparr>st_next_audit_at := t\<rparr>) = Inr ()" for t
      using clean_without_host_key [OF ok(3) remote] by (simp add: clean_ignores_schedule)
    have same: "(without_host_key s)\<lparr>st_next_audit_at := st_next_audit_at (without_host_key s)\<rparr> = without_host_key s" by simp
    from save remote obtain t where "save_storage sg ((without_host_key s)\<lparr>st_next_audit_at := t\<rparr>) = Inr sg'"
      by (simp add: storage_form_save_def is_local_storage_def s1 Let_def split: if_split_asm sum.split_asm) (metis same)
    with clean remote known have "accepted sg ((without_host_key s)\<lparr>st_next_audit_at := t\<rparr>) sg'"
      by (simp add: accepted_def)
    then show ?thesis by blast
  qed
qed

lemma audit_form_accepted:
  assumes "stored_row sg pk = Some inst" "submit_audit_form e now tz sg inst audits fr wd tm = Inr sg'"
  shows "\<exists>s. accepted sg s sg'"
proof -
  define s where "s = inst\<lparr>st_audit_enabled := audits, st_audit_frequency := fr, st_audit_weekday := wd, st_audit_time := tm\<rparr>"
  have "st_pk s \<noteq> None" "stored_row sg (st_pk s) = Some inst"
    using assms(1) stored_rowD [OF assms(1)] by (auto simp: s_def)
  moreover have clean: "backup_destination_clean sg s = Inr ()" and saved: "\<exists>t. save_storage sg (s\<lparr>st_next_audit_at := t\<rparr>) = Inr sg'"
    using assms(2) by (auto simp: submit_audit_form_def s_def [symmetric] full_clean_def Let_def split: sum.split_asm)
  moreover obtain t where "save_storage sg (s\<lparr>st_next_audit_at := t\<rparr>) = Inr sg'" using saved by blast
  moreover have "st_pk s = None \<longrightarrow> st_protocol s \<noteq> PLocal" using calculation(1) by blast
  ultimately have "accepted sg (s\<lparr>st_next_audit_at := t\<rparr>) sg'" by (simp add: accepted_def clean_ignores_schedule)
  then show ?thesis ..
qed

lemma serializer_accepted:
  assumes "serializer_save sg request = Inr sg'"
  shows "\<exists>s. accepted sg s sg'"
proof -
  define s where "s = with_read_only sg request"
  have ok: "serializer_validate sg s = Inr ()" "save_storage sg s = Inr sg'"
    using assms by (auto simp: serializer_save_def s_def [symmetric] Let_def split: sum.split_asm)
  have known: "st_pk s \<noteq> None \<longrightarrow> stored_row sg (st_pk s) \<noteq> None"
    using ok(1) unfolding serializer_validate_def by (metis Inl_Inr_False)
  then have "first_error [full_clean sg s, guard (failing [(''protocol'', st_pk s = None \<and> st_protocol s = PLocal)])] = Inr ()"
    using ok(1) unfolding serializer_validate_def by (simp del: not_None_eq split: if_split_asm)
  then have "backup_destination_clean sg s = Inr ()" "st_pk s = None \<longrightarrow> st_protocol s \<noteq> PLocal"
    by (auto simp: full_clean_def)
  with ok known have "accepted sg s sg'" by (simp add: accepted_def)
  then show ?thesis ..
qed

section \<open>Copies stay where they were uploaded\<close>

type_synonym endpoint = "destination_protocol \<times> string \<times> int option \<times> string \<times> string \<times> int option"

definition endpoint_of :: "storage_row \<Rightarrow> endpoint" where
  "endpoint_of s = (st_protocol s, st_host s, st_port s, st_base_path s, st_mount_path s, map_option fst (st_credential s))"

text \<open>
  One step of the configuration: a request that saves or deletes a storage, a replica row that is queued, the start of
  its transfer, which records the path of the copy before anything is sent, and the later updates and deletions of
  replica rows, which keep the path and revive nothing. The second component remembers, for each replica, the endpoint
  its path was recorded for.
\<close>

definition record_path :: "int \<Rightarrow> string \<Rightarrow> revision_replica list \<Rightarrow> revision_replica list" where
  "record_path k path ps =
     map (\<lambda>p. if p_pk p = k then if p_remote_path p = [] then p\<lparr>p_remote_path := path\<rparr> else p else p) ps"

inductive storage_step :: "storages \<times> (int \<Rightarrow> endpoint) \<Rightarrow> storages \<times> (int \<Rightarrow> endpoint) \<Rightarrow> bool" where
  form: "form_instance sg pk = Some inst \<Longrightarrow> submit_storage_form e now tz sg inst f = Inr sg' \<Longrightarrow> storage_step (sg, at) (sg', at)"
| audit: "stored_row sg pk = Some inst \<Longrightarrow> submit_audit_form e now tz sg inst audits fr wd tm = Inr sg' \<Longrightarrow>
    storage_step (sg, at) (sg', at)"
| api: "serializer_save sg request = Inr sg' \<Longrightarrow> storage_step (sg, at) (sg', at)"
| delete: "stored_row sg pk = Some s \<Longrightarrow> delete_storage sg s = Inr sg' \<Longrightarrow> storage_step (sg, at) (sg', at)"
| queue: "stored_row sg (Some (p_destination_id p)) \<noteq> None \<Longrightarrow> p_remote_path p = [] \<Longrightarrow> p_pk p \<notin> p_pk ` set (sg_replicas sg) \<Longrightarrow>
    storage_step (sg, at) (sg\<lparr>sg_replicas := sg_replicas sg @ [p]\<rparr>, at)"
| start: "p \<in> set (sg_replicas sg) \<Longrightarrow> p_remote_path p = [] \<Longrightarrow> stored_row sg (Some (p_destination_id p)) = Some s \<Longrightarrow>
    storage_step (sg, at) (sg\<lparr>sg_replicas := record_path (p_pk p) path (sg_replicas sg)\<rparr>, at(p_pk p := endpoint_of s))"
| finish: "list_all2 (\<lambda>p q. p_pk q = p_pk p \<and> p_destination_id q = p_destination_id p \<and> p_remote_path q = p_remote_path p
      \<and> (p_remote_deleted_at q = None \<longrightarrow> p_remote_deleted_at p = None)) (sg_replicas sg) ps \<Longrightarrow>
    storage_step (sg, at) (sg\<lparr>sg_replicas := ps\<rparr>, at)"
| remove: "storage_step (sg, at) (sg\<lparr>sg_replicas := filter keep (sg_replicas sg)\<rparr>, at)"

definition keys_ok :: "storage_row list \<Rightarrow> bool" where
  "keys_ok rows \<longleftrightarrow> distinct (map st_pk rows) \<and> None \<notin> set (map st_pk rows)"

definition rows_ok :: "storage_row list \<Rightarrow> bool" where
  "rows_ok rows \<longleftrightarrow> keys_ok rows \<and> list_all row_constraints rows \<and> length (filter (\<lambda>r. st_protocol r = PLocal) rows) = 1"

text \<open>Every replica has its storage, and a live copy is at the endpoint its storage has now.\<close>

definition copy_ok :: "storages \<Rightarrow> (int \<Rightarrow> endpoint) \<Rightarrow> revision_replica \<Rightarrow> bool" where
  "copy_ok sg at p \<longleftrightarrow> (case stored_row sg (Some (p_destination_id p)) of None \<Rightarrow> False
     | Some s \<Rightarrow> p_remote_path p = [] \<or> p_remote_deleted_at p \<noteq> None \<or> endpoint_of s = at (p_pk p))"

definition storages_ok :: "storages \<times> (int \<Rightarrow> endpoint) \<Rightarrow> bool" where
  "storages_ok x \<longleftrightarrow> rows_ok (sg_rows (fst x)) \<and> distinct (map p_pk (sg_replicas (fst x)))
     \<and> list_all (copy_ok (fst x) (snd x)) (sg_replicas (fst x))"

lemma stored_row_iff: "keys_ok (sg_rows sg) \<Longrightarrow> stored_row sg pk = Some r \<longleftrightarrow> r \<in> set (sg_rows sg) \<and> st_pk r = pk"
proof
  assume k: "keys_ok (sg_rows sg)" and r: "r \<in> set (sg_rows sg) \<and> st_pk r = pk"
  then have "pk \<noteq> None" unfolding keys_ok_def by (metis image_eqI set_map)
  moreover from r obtain r' where r': "find (\<lambda>r. st_pk r = pk) (sg_rows sg) = Some r'"
    by (cases "find (\<lambda>r. st_pk r = pk) (sg_rows sg)") (auto simp: find_None_iff)
  then have "r' \<in> set (sg_rows sg)" "st_pk r' = pk" by (auto simp: find_Some_iff)
  with r k have "r' = r" by (auto simp: keys_ok_def distinct_map inj_on_def)
  ultimately show "stored_row sg pk = Some r" using r' by (simp add: stored_row_def)
qed (use stored_rowD in blast)

lemma fresh_key_new: "Some (fresh_key rows) \<notin> st_pk ` set rows"
proof
  let ?K = "insert 0 (the ` (st_pk ` set rows - {None}))"
  assume "Some (fresh_key rows) \<in> st_pk ` set rows"
  then have "fresh_key rows \<in> ?K" by (metis DiffI image_eqI insertCI option.sel option.simps(3) singletonD)
  then have "fresh_key rows \<le> Max ?K" by (intro Max_ge) auto
  then show False by (simp add: fresh_key_def)
qed

lemma put_row_new: "st_pk s \<notin> st_pk ` set rows \<Longrightarrow> put_row s rows = rows @ [s]"
  unfolding put_row_def list_ex_iff by (metis image_eqI)

lemma put_row_old: "r \<in> set rows \<Longrightarrow> st_pk r = st_pk s \<Longrightarrow> put_row s rows = map (\<lambda>r. if st_pk r = st_pk s then s else r) rows"
  by (auto simp: put_row_def list_ex_iff)

lemma set_put_row: "keys_ok rows \<Longrightarrow> set (put_row s rows) = insert s {r \<in> set rows. st_pk r \<noteq> st_pk s}"
  by (auto simp: put_row_def list_ex_iff)

lemma keys_put_row:
  assumes "keys_ok rows" "st_pk s \<noteq> None"
  shows "keys_ok (put_row s rows)"
proof (cases "st_pk s \<in> st_pk ` set rows")
  case True
  then obtain r where r: "st_pk s = st_pk r" "r \<in> set rows" by (rule imageE)
  have "put_row s rows = map (\<lambda>r. if st_pk r = st_pk s then s else r) rows"
    by (rule put_row_old [OF r(2) r(1) [symmetric]])
  moreover have "map st_pk (map (\<lambda>r. if st_pk r = st_pk s then s else r) rows) = map st_pk rows" by simp
  ultimately have "map st_pk (put_row s rows) = map st_pk rows" by simp
  with assms(1) show ?thesis unfolding keys_ok_def by metis
next
  case False
  moreover have "None \<noteq> st_pk s" using assms(2) by metis
  ultimately show ?thesis using assms(1) by (simp add: put_row_new keys_ok_def)
qed

text \<open>An accepted row replaces the stored row with its key, or is new; the number of local storages stays the same.\<close>

lemma accepted_row:
  assumes "accepted sg s sg'" "rows_ok (sg_rows sg)"
  obtains s' where "sg' = sg\<lparr>sg_rows := put_row s' (sg_rows sg)\<rparr>" "row_constraints s'" "backup_destination_clean sg s = Inr ()"
    "s' = s\<lparr>st_pk := st_pk s'\<rparr>" "st_pk s' \<noteq> None"
    "(st_pk s' \<notin> st_pk ` set (sg_rows sg) \<and> st_protocol s' \<noteq> PLocal)
     \<or> (s' = s \<and> (\<exists>r. stored_row sg (st_pk s) = Some r \<and> (st_protocol r = PLocal \<longleftrightarrow> st_protocol s = PLocal)))"
proof -
  from assms(1) have ok: "backup_destination_clean sg s = Inr ()" "st_pk s = None \<longrightarrow> st_protocol s \<noteq> PLocal"
    "st_pk s \<noteq> None \<longrightarrow> stored_row sg (st_pk s) \<noteq> None" and saved: "save_storage sg s = Inr sg'"
    unfolding accepted_def by auto
  from saved have c: "row_constraints s" and sg': "sg' = sg\<lparr>sg_rows := put_row (saved_row sg s) (sg_rows sg)\<rparr>"
    by (simp_all add: save_storage_def Let_def split: if_split_asm)
  have c': "row_constraints (saved_row sg s)"
    using c by (simp add: saved_row_def row_constraints_def typed_retention_def local_invariants_def remote_transport_def
        enforced_policy_def)
  show thesis
  proof (cases "st_pk s = None")
    case True
    show thesis
      using that [OF sg' c' ok(1)] True ok(2) fresh_key_new by (simp add: saved_row_def)
  next
    case False
    then obtain r where r: "stored_row sg (st_pk s) = Some r" using ok(3) by blast
    then have "st_protocol r = PLocal \<longleftrightarrow> st_protocol s = PLocal"
      using clean_identityD [OF ok(1)] by (auto simp: identity_changed_def)
    then show thesis using that [OF sg' c' ok(1)] False r by (simp add: saved_row_def)
  qed
qed

lemma stored_put:
  assumes "keys_ok (sg_rows sg)" "st_pk s \<noteq> None"
  shows "stored_row (sg\<lparr>sg_rows := put_row s (sg_rows sg)\<rparr>) pk = (if pk = st_pk s then Some s else stored_row sg pk)"
    (is "stored_row ?sg pk = ?r")
proof -
  have k: "keys_ok (sg_rows ?sg)" using keys_put_row [OF assms] by simp
  have "stored_row ?sg pk = Some r \<longleftrightarrow> ?r = Some r" for r
    using stored_row_iff [OF k, of pk r] stored_row_iff [OF assms(1), of pk r]
    by (auto simp: set_put_row [OF assms(1)])
  then show ?thesis by (metis option.exhaust)
qed

lemma count_replaced:
  "\<forall>r \<in> set rows. st_pk r = k \<longrightarrow> P r = P s \<Longrightarrow>
   length (filter P (map (\<lambda>r. if st_pk r = k then s else r) rows)) = length (filter P rows)"
  by (induction rows) auto

lemma rows_accepted:
  assumes "accepted sg s sg'" "rows_ok (sg_rows sg)"
  shows "rows_ok (sg_rows sg')"
proof -
  from assms(2) have k: "keys_ok (sg_rows sg)" and c: "list_all row_constraints (sg_rows sg)"
    and one: "length (filter (\<lambda>r. st_protocol r = PLocal) (sg_rows sg)) = 1" by (simp_all add: rows_ok_def)
  from accepted_row [OF assms] obtain s' where s': "sg' = sg\<lparr>sg_rows := put_row s' (sg_rows sg)\<rparr>" "row_constraints s'"
      "st_pk s' \<noteq> None"
    "(st_pk s' \<notin> st_pk ` set (sg_rows sg) \<and> st_protocol s' \<noteq> PLocal)
     \<or> (s' = s \<and> (\<exists>r. stored_row sg (st_pk s) = Some r \<and> (st_protocol r = PLocal \<longleftrightarrow> st_protocol s = PLocal)))" by metis
  have "length (filter (\<lambda>r. st_protocol r = PLocal) (put_row s' (sg_rows sg))) = 1"
    using s'(4)
  proof (elim disjE conjE exE)
    assume "st_pk s' \<notin> st_pk ` set (sg_rows sg)" "st_protocol s' \<noteq> PLocal"
    with one show ?thesis by (simp add: put_row_new)
  next
    fix r assume r: "s' = s" "stored_row sg (st_pk s) = Some r" "(st_protocol r = PLocal) = (st_protocol s = PLocal)"
    then have r': "r \<in> set (sg_rows sg)" "st_pk r = st_pk s'" using stored_rowD [OF r(2)] by auto
    have "st_protocol q = PLocal \<longleftrightarrow> st_protocol s' = PLocal" if "q \<in> set (sg_rows sg)" "st_pk q = st_pk s'" for q
      using that r stored_row_iff [OF k, of "st_pk s" q] by simp
    then have "length (filter (\<lambda>r. st_protocol r = PLocal) (map (\<lambda>r. if st_pk r = st_pk s' then s' else r) (sg_rows sg)))
        = length (filter (\<lambda>r. st_protocol r = PLocal) (sg_rows sg))" by (intro count_replaced) blast
    then show ?thesis unfolding put_row_old [OF r'] one .
  qed
  moreover have "list_all row_constraints (put_row s' (sg_rows sg))"
    using c s'(2) by (auto simp: list_all_iff set_put_row [OF k])
  ultimately show ?thesis using keys_put_row [OF k s'(3)] by (simp add: s'(1) rows_ok_def)
qed

lemma local_endpoint: "row_constraints s \<Longrightarrow> st_protocol s = PLocal \<Longrightarrow> endpoint_of s = (PLocal, [], None, [], [], None)"
  by (simp add: row_constraints_def local_invariants_def endpoint_of_def)

lemma same_endpoint: "endpoint_changes original s = [] \<Longrightarrow> endpoint_of s = endpoint_of original"
  by (simp add: endpoint_changes_def endpoint_of_def)

lemma copies_accepted:
  assumes "accepted sg s sg'" "rows_ok (sg_rows sg)" "p \<in> set (sg_replicas sg)" "copy_ok sg at p"
  shows "copy_ok sg' at p"
proof -
  from assms(2) have k: "keys_ok (sg_rows sg)" by (simp add: rows_ok_def)
  from accepted_row [OF assms(1,2)] obtain s' where s': "sg' = sg\<lparr>sg_rows := put_row s' (sg_rows sg)\<rparr>" "row_constraints s'"
      "backup_destination_clean sg s = Inr ()" "st_pk s' \<noteq> None"
    "(st_pk s' \<notin> st_pk ` set (sg_rows sg) \<and> st_protocol s' \<noteq> PLocal)
     \<or> (s' = s \<and> (\<exists>r. stored_row sg (st_pk s) = Some r \<and> (st_protocol r = PLocal \<longleftrightarrow> st_protocol s = PLocal)))" by metis
  from assms(4) obtain r where r: "stored_row sg (Some (p_destination_id p)) = Some r"
    and at: "p_remote_path p = [] \<or> p_remote_deleted_at p \<noteq> None \<or> endpoint_of r = at (p_pk p)"
    by (auto simp: copy_ok_def split: option.split_asm)
  have stored': "stored_row sg' (Some (p_destination_id p)) = (if Some (p_destination_id p) = st_pk s' then Some s' else Some r)"
    using stored_put [OF k s'(4)] r s'(1) by simp
  show ?thesis
  proof (cases "Some (p_destination_id p) = st_pk s'")
    case False
    then show ?thesis using stored' at by (simp add: copy_ok_def)
  next
    case True
    with stored_rowD [OF r] s'(5) have eq: "s' = s" "st_protocol r = PLocal \<longleftrightarrow> st_protocol s = PLocal"
      using r by (metis image_eqI, metis image_eqI option.inject)
    have "endpoint_of s = endpoint_of r" if live: "p_remote_path p \<noteq> []" "p_remote_deleted_at p = None"
    proof (cases "st_protocol s = PLocal")
      case True
      moreover have "row_constraints r"
        using stored_rowD [OF r] assms(2) by (simp add: rows_ok_def list_all_iff)
      ultimately show ?thesis using local_endpoint [of s] local_endpoint [of r] s'(2) eq by simp
    next
      case remote: False
      have "has_live_copies sg (st_pk s)"
        using True eq live assms(3) s'(4) by (auto simp: has_live_copies_def live_copy_def list_ex_iff)
      then have "endpoint_changes r s = []"
        using clean_remoteD(12) [OF s'(3) remote] r True eq by (simp add: check_endpoint_def)
      then show ?thesis by (rule same_endpoint)
    qed
    with at have "p_remote_path p = [] \<or> p_remote_deleted_at p \<noteq> None \<or> endpoint_of s = at (p_pk p)" by metis
    then show ?thesis using stored' True eq by (simp add: copy_ok_def)
  qed
qed

lemma accepted_ok: "accepted sg s sg' \<Longrightarrow> storages_ok (sg, at) \<Longrightarrow> storages_ok (sg', at)"
proof -
  assume a: "accepted sg s sg'" and ok: "storages_ok (sg, at)"
  then have "sg_replicas sg' = sg_replicas sg" by (elim accepted_row) (simp_all add: storages_ok_def)
  with a ok rows_accepted [OF a] copies_accepted [OF a] show ?thesis
    by (simp add: storages_ok_def list_all_iff)
qed

lemma delete_ok:
  assumes "stored_row sg pk = Some s" "delete_storage sg s = Inr sg'" "storages_ok (sg, at)"
  shows "storages_ok (sg', at)"
proof -
  let ?rows = "filter (\<lambda>r. st_pk r \<noteq> st_pk s) (sg_rows sg)"
  from assms(2) have sg': "sg' = sg\<lparr>sg_rows := ?rows\<rparr>" and remote: "st_protocol s \<noteq> PLocal"
    and free: "\<forall>p \<in> set (sg_replicas sg). Some (p_destination_id p) \<noteq> st_pk s"
    by (simp_all add: delete_storage_def list_ex_iff split: if_split_asm)
  from assms(3) have k: "keys_ok (sg_rows sg)" by (simp add: storages_ok_def rows_ok_def)
  then have keys: "keys_ok ?rows" by (auto simp: keys_ok_def distinct_map inj_on_def)
  have s: "s \<in> set (sg_rows sg)" "st_pk s = pk" using stored_rowD [OF assms(1)] by auto
  have "filter (\<lambda>r. st_protocol r = PLocal) ?rows = filter (\<lambda>r. st_protocol r = PLocal) (sg_rows sg)"
  proof -
    have "st_pk r \<noteq> st_pk s" if "r \<in> set (sg_rows sg)" "st_protocol r = PLocal" for r
    proof
      assume "st_pk r = st_pk s"
      with that assms(1) s(2) stored_row_iff [OF k, of pk r] have "r = s" by simp
      with that remote show False by simp
    qed
    then show ?thesis by (auto intro!: filter_cong)
  qed
  with assms(3) keys have rows: "rows_ok ?rows" by (auto simp: storages_ok_def rows_ok_def list_all_iff)
  have kept: "stored_row sg' (Some (p_destination_id p)) = stored_row sg (Some (p_destination_id p))"
    if "p \<in> set (sg_replicas sg)" for p
  proof -
    have "stored_row sg' (Some (p_destination_id p)) = Some r \<longleftrightarrow> stored_row sg (Some (p_destination_id p)) = Some r" for r
      using stored_row_iff [of sg' "Some (p_destination_id p)" r] stored_row_iff [OF k, of "Some (p_destination_id p)" r]
        keys free that by (auto simp: sg')
    then show ?thesis by (metis option.exhaust)
  qed
  then have "copy_ok sg' at p = copy_ok sg at p" if "p \<in> set (sg_replicas sg)" for p
    using that by (simp add: copy_ok_def)
  then show ?thesis using assms(3) rows by (simp add: storages_ok_def sg' list_all_iff)
qed

lemma copy_ok_replicas: "copy_ok (sg\<lparr>sg_replicas := ps\<rparr>) at p = copy_ok sg at p"
  by (simp add: copy_ok_def stored_row_def)

lemma record_path_ok:
  assumes "p \<in> set (sg_replicas sg)" "p_remote_path p = []" "stored_row sg (Some (p_destination_id p)) = Some s"
    "storages_ok (sg, at)"
  shows "storages_ok (sg\<lparr>sg_replicas := record_path (p_pk p) path (sg_replicas sg)\<rparr>, at(p_pk p := endpoint_of s))"
proof -
  let ?h = "\<lambda>q. if p_pk q = p_pk p then if p_remote_path q = [] then q\<lparr>p_remote_path := path\<rparr> else q else q"
  let ?at = "at(p_pk p := endpoint_of s)"
  have d: "distinct (map p_pk (sg_replicas sg))" using assms(4) by (simp add: storages_ok_def)
  have "map p_pk (map ?h (sg_replicas sg)) = map p_pk (sg_replicas sg)" by simp
  then have "distinct (map p_pk (record_path (p_pk p) path (sg_replicas sg)))" using d by (simp only: record_path_def)
  moreover have "copy_ok sg ?at (?h q)" if q: "q \<in> set (sg_replicas sg)" for q
  proof (cases "p_pk q = p_pk p")
    case True
    with d q assms(1) have "q = p" by (auto simp: distinct_map inj_on_def)
    then show ?thesis using assms(2,3) by (simp add: copy_ok_def)
  next
    case False
    moreover have "copy_ok sg at q" using q assms(4) by (simp add: storages_ok_def list_all_iff)
    ultimately show ?thesis by (auto simp: copy_ok_def split: option.split_asm)
  qed
  then have "\<forall>q \<in> set (record_path (p_pk p) path (sg_replicas sg)). copy_ok sg ?at q"
    unfolding record_path_def set_map by blast
  ultimately show ?thesis
    using assms(4) by (simp add: storages_ok_def list_all_iff copy_ok_replicas)
qed

lemma finish_ok:
  assumes "list_all2 (\<lambda>p q. p_pk q = p_pk p \<and> p_destination_id q = p_destination_id p \<and> p_remote_path q = p_remote_path p
      \<and> (p_remote_deleted_at q = None \<longrightarrow> p_remote_deleted_at p = None)) (sg_replicas sg) ps"
    "storages_ok (sg, at)"
  shows "storages_ok (sg\<lparr>sg_replicas := ps\<rparr>, at)"
proof -
  have "map p_pk ps = map p_pk (sg_replicas sg)"
    using assms(1) by (induction rule: list_all2_induct) auto
  moreover have "copy_ok sg at q" if "q \<in> set ps" for q
  proof -
    from that assms(1) obtain p where "p \<in> set (sg_replicas sg)" "p_pk q = p_pk p" "p_destination_id q = p_destination_id p"
      "p_remote_path q = p_remote_path p" "p_remote_deleted_at q = None \<longrightarrow> p_remote_deleted_at p = None"
      unfolding list_all2_conv_all_nth in_set_conv_nth by metis
    moreover from this assms(2) have "copy_ok sg at p" by (simp add: storages_ok_def list_all_iff)
    ultimately show ?thesis by (auto simp: copy_ok_def split: option.split_asm)
  qed
  ultimately show ?thesis using assms(2) by (simp add: storages_ok_def list_all_iff copy_ok_replicas)
qed

lemma storage_step_ok: "storage_step x y \<Longrightarrow> storages_ok x \<Longrightarrow> storages_ok y"
proof (induction rule: storage_step.induct)
  case (form sg pk inst e now tz f sg' at)
  then show ?case using storage_form_accepted accepted_ok by blast
next
  case (audit sg pk inst e now tz audits fr wd tm sg' at)
  then show ?case using audit_form_accepted accepted_ok by blast
next
  case (api sg request sg' at)
  then show ?case using serializer_accepted accepted_ok by blast
next
  case (delete sg pk s sg' at)
  then show ?case by (rule delete_ok)
next
  case (queue sg p at)
  then obtain s where "stored_row sg (Some (p_destination_id p)) = Some s" by blast
  with queue(2) have "copy_ok sg at p" by (simp add: copy_ok_def)
  with queue show ?case by (simp add: storages_ok_def list_all_iff copy_ok_replicas)
next
  case (start p sg s at path)
  then show ?case by (rule record_path_ok)
next
  case (finish sg ps at)
  then show ?case by (rule finish_ok)
next
  case (remove sg at keep)
  then show ?case by (auto simp: storages_ok_def list_all_iff copy_ok_replicas distinct_map inj_on_def)
qed


section \<open>Base paths and recorded copies\<close>

lemma split_lstrip: "set (split_on c (dropWhile (\<lambda>x. x = c) xs)) \<subseteq> set (split_on c xs)"
  by (induction xs) (auto split: list.split)

lemma split_rstrip: "set (split_on c (rstrip (\<lambda>x. x = c) xs)) \<subseteq> set (split_on c xs)"
proof (induction xs rule: rev_induct)
  case (snoc x xs)
  have "split_on c (xs @ [c]) = split_on c xs @ [[]]"
    using append_butlast_last_id [OF split_on_nonempty, of c xs] by (simp add: split_on_split)
  with snoc show ?case by (auto simp: rstrip_def)
qed (simp add: rstrip_def)

lemma split_strip: "set (split_on c (strip (\<lambda>x. x = c) xs)) \<subseteq> set (split_on c xs)"
  using split_lstrip split_rstrip unfolding strip_def lstrip_def by blast

lemma set_strip: "set (strip P xs) \<subseteq> set xs"
  by (auto simp: strip_def rstrip_def lstrip_def dest!: set_dropWhileD)

text \<open>A base path as the documentation writes it: no empty segment, no \<open>.\<close> and no blanks around it.\<close>

definition plain_base :: "string \<Rightarrow> bool" where
  "plain_base base \<longleftrightarrow> strip py_space base = base \<and>
     (strip slash base = [] \<or> list_all (\<lambda>p. p \<noteq> [] \<and> p \<noteq> ''.'') (split_on (CHR ''/'') (strip slash base)))"

lemma valid_base_segments:
  assumes "\<not> base_path_invalid base" "plain_base base"
  defines "bs \<equiv> (if strip slash base = [] then [] else split_on (CHR ''/'') (strip slash base))"
  shows "strip slash base = join_with ''/'' bs" "list_all clean_segment bs" "\<not> unsafe_text (strip slash base)"
proof -
  from assms(1,2) have base: "CHR 0x5C \<notin> set base" "CHR 0x00 \<notin> set base" "\<forall>c \<in> set base. \<not> (of_char c :: nat) < 32"
    and dots: "''..'' \<notin> set (split_on (CHR ''/'') (map (\<lambda>c. if c = CHR 0x5C then CHR ''/'' else c) base))"
    by (auto simp: base_path_invalid_def plain_base_def Let_def list_ex_iff)
  have "map (\<lambda>c. if c = CHR 0x5C then CHR ''/'' else c) base = base" using base(1) by (auto intro!: map_idI)
  with dots have "''..'' \<notin> set (split_on (CHR ''/'') (strip slash base))" using split_strip [of "CHR ''/''" base] by auto
  then show "list_all clean_segment bs"
    using assms(2) set_split_on by (auto simp: bs_def plain_base_def list_all_iff clean_segment_def)
  show "strip slash base = join_with ''/'' bs" by (simp add: bs_def join_split_on)
  show "\<not> unsafe_text (strip slash base)"
    using base set_strip [of slash base] unfolding unsafe_text_def list_ex_iff by blast
qed

text \<open>
  C38. On a storage that validation accepts, with a plain base path, the path that a transfer records for a new copy is
  accepted by every later audit, deletion and recovery, also when the device has been renamed since. \<open>asc\<close> leaves
  plain ASCII names unchanged.
\<close>

theorem accepted_base_path_usable:
  assumes "backup_destination_clean sg s = Inr ()" "st_protocol s \<noteq> PLocal" "plain_base (st_base_path s)"
    and ids: "0 \<le> rv_device_id rv" "rv_device_id rv < 2 ^ 63" "0 < rv_pk rv"
    and asc: "\<And>x. list_all segment_char x \<Longrightarrow> asc x = x"
  shows "\<exists>path. ftp_revision_destination_path asc (st_base_path s) (rv_device_name rv) (rv_device_id rv) (Aware (rv_created rv))
        (Some (rv_pk rv)) None = Inr path
      \<and> validate_recorded_revision_path asc (st_base_path s) (rv\<lparr>rv_device_name := renamed\<rparr>) path code
        = Inr (''backups'', device_directory_name asc (rv_device_name rv) (rv_device_id rv))"
proof -
  note base = valid_base_segments [OF clean_remoteD(13) [OF assms(1,2)] assms(3)]
  have "\<exists>path. ftp_revision_destination_path asc (st_base_path s) (rv_device_name rv) (rv_device_id rv)
      (Aware (rv_created rv)) (Some (rv_pk rv)) None = Inr path"
    using ids(3) by (simp add: ftp_revision_destination_path_def Let_def)
  then show ?thesis using recorded_path_accepted [OF base ids asc] by blast
qed

text \<open>
  Validation does not ask for a normal path: a base path with an empty or a \<open>.\<close> segment is accepted and every path
  below it is then refused.
\<close>

theorem base_path_never_usable:
  assumes "canonical_base base \<noteq> normpath (canonical_base base)"
  shows "validate_recorded_revision_path asc base rv path code
    = Inl (DestinationError code ''The recorded FTP revision path is not safe or does not match this revision.'')"
  using assms by (simp add: validate_recorded_revision_path_def path_invalid_def Let_def)

definition sample_ftp_storage :: storage_row where
  "sample_ftp_storage = new_storage\<lparr>st_pk := Some 2, st_name := ''nas'', st_allow_insecure_ftp := True,
     st_host := ''nas.example.net'', st_port := Some 21, st_base_path := ''cfg/backups'', st_credential := Some (4, ''password'')\<rparr>"

definition sample_local_storage :: storage_row where
  "sample_local_storage = new_storage\<lparr>st_pk := Some 1, st_name := ''local'', st_is_default := True, st_auto_replicate := False,
     st_protocol := PLocal, st_port := None, st_base_path := [], st_connect_timeout := None, st_max_retries := None,
     st_retry_delay_minutes := None, st_max_artifact_size := None\<rparr>"

definition sample_storages :: storages where
  "sample_storages = \<lparr>sg_rows = [sample_local_storage, sample_ftp_storage], sg_replicas = []\<rparr>"

theorem sloppy_base_path_accepted:
  "backup_destination_clean sample_storages (sample_ftp_storage\<lparr>st_base_path := ''cfg//backups''\<rparr>) = Inr ()
   \<and> canonical_base ''cfg//backups'' \<noteq> normpath (canonical_base ''cfg//backups'')"
  by code_simp


theorem accepted_base_path_usable_witness:
  "\<exists>path. validate_recorded_revision_path id ''cfg/backups'' \<lparr>rv_pk = 7, rv_uuid = ''u'', rv_device_id = 3,
      rv_device_name = Some ''new'', rv_driver_id = ''d'', rv_created = 63839761445000000, rv_artifacts = []\<rparr> path ''E''
    = Inr (''backups'', ''core-sw-1'')"
proof -
  have "backup_destination_clean sample_storages sample_ftp_storage = Inr ()" "plain_base (st_base_path sample_ftp_storage)"
    by code_simp+
  moreover have "device_directory_name id (Some ''core sw#1'') 3 = ''core-sw-1''" by code_simp
  moreover have "st_protocol sample_ftp_storage \<noteq> PLocal" "st_base_path sample_ftp_storage = ''cfg/backups''" by code_simp+
  ultimately show ?thesis
    using accepted_base_path_usable [of sample_storages sample_ftp_storage "\<lparr>rv_pk = 7, rv_uuid = ''u'', rv_device_id = 3,
      rv_device_name = Some ''core sw#1'', rv_driver_id = ''d'', rv_created = 63839761445000000, rv_artifacts = []\<rparr>" id
      "Some ''new''" "''E''"] by auto
qed

definition sample_copy :: revision_replica where
  "sample_copy = \<lparr>p_pk = 9, p_revision_id = 7, p_destination_id = 2, p_status = PPending, p_attempts = 0, p_queued_at = 0,
     p_started_at = None, p_finished_at = None, p_next_retry_at = None, p_bytes_transferred = 0, p_remote_path = [],
     p_remote_available = False, p_remote_deleted_at = None, p_error_code = [], p_error_message = [], p_job_id = None\<rparr>"


section \<open>Policies, connections, receivers and host keys\<close>

text \<open>\<open>BackupPolicy\<close>: its check constraint and \<open>clean\<close>; \<open>PositiveIntegerField\<close> accepts zero.\<close>

definition policy_schedule_fields :: "backup_policy \<Rightarrow> bool" where
  "policy_schedule_fields pol \<longleftrightarrow>
     (bp_schedule_type pol = ''interval'' \<and> bp_interval_minutes pol \<noteq> None \<and> bp_time_of_day pol = None)
     \<or> (bp_schedule_type pol = ''daily'' \<and> bp_interval_minutes pol = None \<and> bp_time_of_day pol \<noteq> None)"

definition policy_field_errors :: "backup_policy \<Rightarrow> string list" where
  "policy_field_errors pol = failing
     [(''schedule_type'', bp_schedule_type pol \<notin> {''interval'', ''daily''}),
      (''interval_minutes'', case bp_interval_minutes pol of Some m \<Rightarrow> m < 0 | None \<Rightarrow> False),
      (''jitter_minutes'', bp_jitter_minutes pol < 0),
      (''max_retries'', bp_max_retries pol < 0)]"

definition backup_policy_clean :: "backup_policy \<Rightarrow> check" where
  "backup_policy_clean pol = first_error
     [guard (failing [(''timezone_mode'', bp_timezone_mode pol \<notin> {''site'', ''plugin_default''})]),
      guard (failing [(''retry_backoff_minutes'', list_ex (\<lambda>v. v < 0) (bp_retry_backoff_minutes pol))])]"

definition policy_accepted :: "backup_policy \<Rightarrow> bool" where
  "policy_accepted pol \<longleftrightarrow> policy_field_errors pol = [] \<and> backup_policy_clean pol = Inr () \<and> policy_schedule_fields pol"

text \<open>\<open>BackupPolicyForm.save\<close>: the targets that use the policy are scheduled again.\<close>

definition backup_policy_form_save :: "runtime \<Rightarrow> int \<Rightarrow> backup_policy \<Rightarrow> (db, unit) prog" where
  "backup_policy_form_save rt now pol = (\<lambda>d.
     let stored = d\<lparr>targets := map (\<lambda>t. case t_policy_override t of
                      Some p \<Rightarrow> if bp_pk p = bp_pk pol then t\<lparr>t_policy_override := Some pol\<rparr> else t
                    | None \<Rightarrow> t) (targets d)\<rparr>
     in forS (schedule_target rt now)
          (filter (\<lambda>t. map_option bp_pk (t_policy_override t) = Some (bp_pk pol)) (targets stored)) stored)"

definition backup_target_form_save :: "runtime \<Rightarrow> int \<Rightarrow> backup_target \<Rightarrow> (db, unit) prog" where
  "backup_target_form_save rt now t =
     bindS (atomic (\<lambda>d. bindE (save_target_checked rt t d) (\<lambda>d'. Inr ((), d')))) (\<lambda>_.
     bindS (readS (\<lambda>d. get_target d (t_pk t))) (\<lambda>t'. schedule_target rt now t'))"

definition connection_profile_clean :: "connection_profile \<Rightarrow> connection_profile" where
  "connection_profile_clean c =
     (if cp_protocol c = ''telnet'' \<or> \<not> cp_verify_host_key c
      then c\<lparr>cp_verify_host_key := False, cp_auto_trust_first_host_key := False, cp_known_hosts_path := []\<rparr>
      else c)"

definition host_key_policy :: "connection_profile \<Rightarrow> string" where
  "host_key_policy c = (if \<not> cp_verify_host_key c then ''disabled''
     else if cp_auto_trust_first_host_key c then ''tofu'' else ''strict'')"

text \<open>\<open>ConnectionProfileForm\<close>: \<open>clean\<close> with the submitted policy, then the model's \<open>clean\<close>.\<close>

definition connection_form_clean :: "string \<Rightarrow> string \<Rightarrow> connection_profile \<Rightarrow> connection_profile" where
  "connection_form_clean protocol policy inst =
     (let policy = (if protocol = ''telnet'' then ''disabled'' else policy);
          inst = inst\<lparr>cp_verify_host_key := policy \<noteq> ''disabled'', cp_auto_trust_first_host_key := policy = ''tofu''\<rparr>
      in if policy = ''disabled'' then inst\<lparr>cp_known_hosts_path := []\<rparr> else inst)"

definition submit_connection_form :: "string \<Rightarrow> string \<Rightarrow> connection_profile \<Rightarrow> connection_profile" where
  "submit_connection_form protocol policy inst =
     connection_profile_clean ((connection_form_clean protocol policy inst)\<lparr>cp_protocol := protocol\<rparr>)"

definition receiver_profile_clean :: "receiver_profile \<Rightarrow> check" where
  "receiver_profile_clean r = first_error
     ((if rcp_protocol r = ''ftp'' then
         [guard (failing [(''mode'', rcp_mode r \<noteq> ''direct'')]),
          guard (failing [(''passive_port_end'', rcp_passive_port_end r < rcp_passive_port_start r)]),
          guard (failing [(''passive_port_end'', 99 < rcp_passive_port_end r - rcp_passive_port_start r)])]
       else [])
      @ [guard (failing [(''advertised_host'', rcp_mode r = ''direct'' \<and> rcp_advertised_host r = [])]),
         guard (failing [(''bridge_host'', rcp_bridge_host r = [])]),
         guard (failing [(''upload_directory'', rcp_upload_directory r = [] \<or> rcp_upload_directory r \<in> {''.'', ''..''}
           \<or> CHR ''/'' \<in> set (rcp_upload_directory r) \<or> CHR 0x5C \<in> set (rcp_upload_directory r)
           \<or> CHR 0x00 \<in> set (rcp_upload_directory r))])])"

definition ssh_host_key_clean :: "ssh_host_key \<Rightarrow> check" where
  "ssh_host_key_clean k =
     (let broken = (\<lambda>extra s. s = [] \<or> list_ex (\<lambda>c. c \<in> {CHR 0x0D, CHR 0x0A, CHR 0x00} \<union> extra) s) in first_error
     [guard (failing [(''address'', broken {} (hk_address k))]),
      guard (failing [(''key_type'', broken {CHR '' ''} (hk_key_type k))]),
      guard (failing [(''public_key'', broken {CHR '' ''} (hk_public_key k))])])"

section \<open>Driver assignments\<close>

text \<open>
  \<open>clean\<close> and \<open>save\<close> of the platform mappings, targets and settings. The settings row holds the disabled drivers; all
  three lock it before they write.
\<close>

record driver_config =
  dc_db :: db
  dc_disabled :: "string list"

text \<open>\<open>Model.save\<close>: an existing row is replaced, a new one added.\<close>

definition row_put :: "('a \<Rightarrow> int) \<Rightarrow> 'a \<Rightarrow> 'a list \<Rightarrow> 'a list" where
  "row_put key row rows = (if list_ex (\<lambda>r. key r = key row) rows then row_save key row rows else rows @ [row])"

definition platform_mapping_clean :: "driver_registry \<Rightarrow> driver_config \<Rightarrow> platform_mapping \<Rightarrow> check" where
  "platform_mapping_clean reg dc m = first_error
     [guard (failing [(''driver_id'', map_of reg (pm_driver_id m) = None)]),
      guard (failing [(''driver_id'', validate_driver_assignment (pm_driver_id m) (dc_disabled dc) \<noteq> Inr ())])]"

definition platform_mapping_save :: "driver_config \<Rightarrow> platform_mapping \<Rightarrow> driver_config result" where
  "platform_mapping_save dc m =
     bindE (validate_driver_assignment (pm_driver_id m) (dc_disabled dc)) (\<lambda>_.
     Inr (dc\<lparr>dc_db := (dc_db dc)\<lparr>mappings := row_put pm_platform_id m (mappings (dc_db dc))\<rparr>\<rparr>))"

definition backup_target_clean :: "driver_registry \<Rightarrow> driver_config \<Rightarrow> backup_target \<Rightarrow> check" where
  "backup_target_clean reg dc t =
     (if t_driver_override t = [] then Inr ()
      else first_error
        [guard (failing [(''driver_override'', map_of reg (t_driver_override t) = None)]),
         guard (failing [(''driver_override'', validate_driver_assignment (t_driver_override t) (dc_disabled dc) \<noteq> Inr ())])])"

definition backup_target_save :: "driver_config \<Rightarrow> backup_target \<Rightarrow> driver_config result" where
  "backup_target_save dc t =
     bindE (validate_driver_assignment (t_driver_override t) (dc_disabled dc)) (\<lambda>_.
     Inr (dc\<lparr>dc_db := (dc_db dc)\<lparr>targets := row_put t_pk t (targets (dc_db dc))\<rparr>\<rparr>))"

definition operational_settings_save :: "driver_config \<Rightarrow> string list \<Rightarrow> driver_config result" where
  "operational_settings_save dc values =
     bindE (validate_disabled_drivers (dc_db dc) values) (\<lambda>_. Inr (dc\<lparr>dc_disabled := values\<rparr>))"

inductive driver_step :: "driver_config \<Rightarrow> driver_config \<Rightarrow> bool" where
  mapping: "platform_mapping_save dc m = Inr dc' \<Longrightarrow> driver_step dc dc'"
| target: "backup_target_save dc t = Inr dc' \<Longrightarrow> driver_step dc dc'"
| settings: "operational_settings_save dc values = Inr dc' \<Longrightarrow> driver_step dc dc'"
| unassign: "driver_step dc (dc\<lparr>dc_db := (dc_db dc)\<lparr>targets := filter keep (targets (dc_db dc)),
    mappings := filter keep' (mappings (dc_db dc))\<rparr>\<rparr>)"

definition assigned_drivers :: "db \<Rightarrow> string list" where
  "assigned_drivers d = map t_driver_override (targets d) @ map pm_driver_id (mappings d)"

definition assignments_ok :: "driver_config \<Rightarrow> bool" where
  "assignments_ok dc \<longleftrightarrow> list_all (\<lambda>k. k = [] \<or> driver_is_enabled k (dc_disabled dc)) (assigned_drivers (dc_db dc))"

lemma in_row_put: "x \<in> set (row_put key row rows) \<Longrightarrow> x = row \<or> x \<in> set rows"
  by (auto simp: row_put_def row_save_def split: if_split_asm)

lemma assignments_okI:
  "(\<And>t. t \<in> set (targets (dc_db dc)) \<Longrightarrow> t_driver_override t = [] \<or> driver_is_enabled (t_driver_override t) (dc_disabled dc)) \<Longrightarrow>
   (\<And>m. m \<in> set (mappings (dc_db dc)) \<Longrightarrow> pm_driver_id m = [] \<or> driver_is_enabled (pm_driver_id m) (dc_disabled dc)) \<Longrightarrow>
   assignments_ok dc"
  by (auto simp: assignments_ok_def assigned_drivers_def list_all_iff)

lemma assignments_okD:
  assumes "assignments_ok dc"
  shows "t \<in> set (targets (dc_db dc)) \<Longrightarrow> t_driver_override t = [] \<or> driver_is_enabled (t_driver_override t) (dc_disabled dc)"
    "m \<in> set (mappings (dc_db dc)) \<Longrightarrow> pm_driver_id m = [] \<or> driver_is_enabled (pm_driver_id m) (dc_disabled dc)"
  using assms by (auto simp: assignments_ok_def assigned_drivers_def list_all_iff)

lemma driver_step_ok: "driver_step dc dc' \<Longrightarrow> assignments_ok dc \<Longrightarrow> assignments_ok dc'"
proof (induction rule: driver_step.induct)
  case (mapping dc m dc')
  then have ok: "pm_driver_id m = [] \<or> driver_is_enabled (pm_driver_id m) (dc_disabled dc)"
    and dc': "dc' = dc\<lparr>dc_db := (dc_db dc)\<lparr>mappings := row_put pm_platform_id m (mappings (dc_db dc))\<rparr>\<rparr>"
    by (auto simp: platform_mapping_save_def bindE_eq_Inr validate_driver_assignment_def split: if_split_asm)
  show ?case
    by (rule assignments_okI) (use ok assignments_okD [OF mapping(2)] in \<open>auto simp: dc' dest!: in_row_put\<close>)
next
  case (target dc t dc')
  then have ok: "t_driver_override t = [] \<or> driver_is_enabled (t_driver_override t) (dc_disabled dc)"
    and dc': "dc' = dc\<lparr>dc_db := (dc_db dc)\<lparr>targets := row_put t_pk t (targets (dc_db dc))\<rparr>\<rparr>"
    by (auto simp: backup_target_save_def bindE_eq_Inr validate_driver_assignment_def split: if_split_asm)
  show ?case
    by (rule assignments_okI) (use ok assignments_okD [OF target(2)] in \<open>auto simp: dc' dest!: in_row_put\<close>)
next
  case (settings dc ids dc')
  then have ok: "validate_disabled_drivers (dc_db dc) ids = Inr ()" and dc': "dc' = dc\<lparr>dc_disabled := ids\<rparr>"
    by (auto simp: operational_settings_save_def bindE_eq_Inr)
  have "k = [] \<or> driver_is_enabled k ids" if "k \<in> set (assigned_drivers (dc_db dc))" for k
  proof (cases "k = []")
    case False
    with that have "0 < driver_usage_count (dc_db dc) (selection_id k)"
      unfolding driver_usage_count_def length_greater_0_conv assigned_drivers_def [symmetric] filter_empty_conv by blast
    with ok have "\<forall>v \<in> set ids. selection_id v \<noteq> selection_id k"
      by (auto simp: validate_disabled_drivers_def list_ex_iff split: if_split_asm)
    then show ?thesis by (auto simp: driver_is_enabled_def)
  qed simp
  then show ?case by (auto simp: assignments_ok_def dc' list_all_iff)
next
  case (unassign dc keep keep')
  show ?case by (rule assignments_okI) (use assignments_okD [OF unassign] in auto)
qed

text \<open>
  Under any sequence of changes to the settings, mappings and targets, a driver that is assigned somewhere is enabled,
  through whatever compatibility name, and execution creates it.
\<close>

theorem assigned_drivers_run:
  assumes "driver_step\<^sup>*\<^sup>* dc dc'" "assignments_ok dc" "k \<in> set (assigned_drivers (dc_db dc'))" "k \<noteq> []"
  shows "create_enabled_driver reg (dc_disabled dc') k = create_driver reg k"
proof -
  have "assignments_ok dc'" using assms(1,2) by induction (auto intro: driver_step_ok)
  with assms(3,4) have "driver_is_enabled k (dc_disabled dc')" by (auto simp: assignments_ok_def list_all_iff)
  then show ?thesis by (simp add: create_enabled_driver_def)
qed

section \<open>Smaller guarantees\<close>

text \<open>What an operator selects in the connection form is the policy the stored profile has.\<close>

lemma connection_policy_kept:
  assumes "policy \<in> {''strict'', ''tofu'', ''disabled''}"
  shows "host_key_policy (submit_connection_form protocol policy inst) = (if protocol = ''telnet'' then ''disabled'' else policy)"
    "connection_profile_clean (submit_connection_form protocol policy inst) = submit_connection_form protocol policy inst"
  using assms by (auto simp: submit_connection_form_def connection_form_clean_def connection_profile_clean_def host_key_policy_def)

text \<open>An accepted host key takes one line of a \<open>known_hosts\<close> file.\<close>

lemma host_key_line_single:
  assumes "ssh_host_key_clean k = Inr ()"
  shows "CHR 0x0A \<notin> set (host_key_line k)"
proof -
  have "CHR 0x0A \<notin> set (show_int n)" for n
    using show_int_chars [of "CHR 0x0A" n] by (auto simp: segment_char_def ascii_alnum_def)
  moreover from assms have "CHR 0x0A \<notin> set (hk_address k)" "CHR 0x0A \<notin> set (hk_key_type k)" "CHR 0x0A \<notin> set (hk_public_key k)"
    by (simp_all add: ssh_host_key_clean_def list_ex_iff Let_def) blast+
  ultimately show ?thesis by (simp add: host_key_line_def)
qed

section \<open>A policy that stops the dispatcher\<close>

lemma forS_fails:
  assumes "x \<in> set xs" "\<And>s. \<exists>e s'. f x s = (Inl e, s')"
  shows "\<exists>e s'. forS f xs s = (Inl e, s')"
  using assms(1)
proof (induction xs arbitrary: s)
  case (Cons y ys)
  show ?case
  proof (cases "f y s")
    case (Pair r s1)
    with Cons assms(2) [of s] show ?thesis by (cases r) (auto simp: bindS_def)
  qed
qed simp

interpretation same_runs: step_relation "\<lambda>d d'. runs d' = runs d"
  by unfold_locales auto

lemma schedule_target_runs: "within (\<lambda>d d'. runs d' = runs d) (schedule_target rt now t)"
  by (auto simp: within_def schedule_target_def atomic_def bindE_eq_Inr save_target_def
      split: sum.split_asm dest!: save_target_checked_Inr)

text \<open>
  An interval of zero minutes passes the validation of the policy and the constraint of its table. A target with this
  policy cannot be scheduled, and the dispatcher then fails on every tick before it looks at any other target.
\<close>

theorem zero_interval_stops_dispatch:
  assumes "t \<in> set (targets d)" "t_enabled t" "t_next_run_at t = None" "t_policy_override t = Some pol" "bp_enabled pol"
    "bp_schedule_type pol = ''interval''" "bp_interval_minutes pol = Some 0"
  shows "\<exists>e d'. dispatch_due_targets rt workers now queued_at limit d = (Inl e, d') \<and> runs d' = runs d"
proof -
  have fails: "\<exists>e s'. schedule_target rt now t s = (Inl e, s')" for s
    using assms by (auto simp: schedule_target_def atomic_def apply_target_schedule_def calculate_target_next_run_def
        calculate_next_run_def)
  let ?ts = "filter (\<lambda>t. t_enabled t \<and> policy_active t \<and> t_next_run_at t = None) (targets (clear_inactive d))"
  have "policy_active t" using assms by (simp add: policy_active_def)
  then have "t \<in> set (targets (clear_inactive d))"
    using assms by (force simp: clear_inactive_def)
  then have "t \<in> set ?ts" using assms by (simp add: policy_active_def)
  from forS_fails [of t ?ts "schedule_target rt now" "clear_inactive d", OF this fails]
  obtain e d' where "forS (schedule_target rt now) ?ts (clear_inactive d) = (Inl e, d')" by blast
  moreover from withinD [OF same_runs.within_forS [OF schedule_target_runs] this] have "runs d' = runs d"
    by (simp add: clear_inactive_def)
  ultimately show ?thesis by (auto simp: dispatch_due_targets_def initialize_target_schedules_def bindS_def Let_def)
qed

theorem zero_interval_accepted: "policy_accepted (sample_policy\<lparr>bp_interval_minutes := Some 0\<rparr>)"
  by code_simp

end
