(* ===== verification/S3_Storage.thy ===== *)
theory S3_Storage
  imports Ftp_Client
begin

text \<open>
  The S3 backend of the artifact store (\<open>storage/s3.py\<close>, \<open>storage/factory.py\<close>) and the command that copies a local
  store into it (\<open>management/commands/config_backup_migrate_to_s3.py\<close>). The boto3 client is a record of operations on an
  arbitrary service state; \<open>s3_lawful\<close> states what the theorems rely on: conditional writes, copies of a given source,
  and that a request which reports an error has either not been carried out or, for writes and copies, completely.
\<close>

section \<open>The client\<close>

type_synonym encryption = "(string \<times> string) list"

text \<open>
  \<open>get_object\<close> returns the length the service announces and the body, whose reading may fail; \<open>head_object\<close> the entity tag
  and the length.
\<close>

record 's s3_client =
  sc_put_object :: "string \<Rightarrow> string \<Rightarrow> string \<Rightarrow> (string \<times> string) list \<Rightarrow> encryption \<Rightarrow> ('s, unit) prog"
  sc_get_object :: "string \<Rightarrow> string \<Rightarrow> ('s, int option \<times> string result) prog"
  sc_head_object :: "string \<Rightarrow> string \<Rightarrow> ('s, string option \<times> int option) prog"
  sc_copy_object :: "string \<Rightarrow> string \<Rightarrow> string \<Rightarrow> string \<Rightarrow> encryption \<Rightarrow> ('s, unit) prog"
  sc_delete_object :: "string \<Rightarrow> string \<Rightarrow> ('s, unit) prog"
  sc_head_bucket :: "string \<Rightarrow> ('s, unit) prog"

record 's s3_storage =
  s3_bucket :: string
  s3_prefix :: string
  s3_server_side_encryption :: string
  s3_kms_key_id :: string
  s3_max_object_bytes :: int
  s3_client :: "'s s3_client"

section \<open>Construction\<close>

definition normalize_prefix :: "string \<Rightarrow> string result" where
  "normalize_prefix prefix =
     (let value = strip slash prefix in
      if value = [] then Inr []
      else if CHR 0x5C \<in> set value \<or> list_ex (\<lambda>p. p \<in> {'''', ''.'', ''..''}) (path_parts value)
      then Inl (StorageError ''S3 storage prefix is invalid.'')
      else Inr value)"

record s3_options =
  so_bucket :: string
  so_prefix :: string
  so_endpoint_url :: string
  so_addressing_style :: string
  so_allow_insecure_http :: bool
  so_server_side_encryption :: string
  so_kms_key_id :: string
  so_request_timeout :: int
  so_max_object_bytes :: int

text \<open>\<open>urlparse\<close> gives the scheme and the network location; \<open>build_client\<close> is \<open>_build_client\<close>, which calls boto3.\<close>

definition s3_init ::
  "(string \<Rightarrow> (string \<times> string) result) \<Rightarrow> (s3_options \<Rightarrow> 's s3_client result) \<Rightarrow> s3_options \<Rightarrow> 's s3_storage result" where
  "s3_init urlparse build_client opts =
     (if strip py_space (so_bucket opts) = [] then Inl (StorageError ''S3 storage bucket is not configured.'')
      else if so_addressing_style opts \<notin> {''auto'', ''path'', ''virtual''} then Inl (StorageError ''S3 addressing style is invalid.'')
      else if so_server_side_encryption opts \<notin> {''AES256'', ''aws:kms''}
      then Inl (StorageError ''S3 server-side encryption must be AES256 or aws:kms.'')
      else if so_server_side_encryption opts = ''aws:kms'' \<and> so_kms_key_id opts = []
      then Inl (StorageError ''S3 KMS encryption requires a KMS key ID.'')
      else if so_request_timeout opts \<le> 0 \<or> so_max_object_bytes opts \<le> 0
      then Inl (StorageError ''S3 storage limits must be positive.'')
      else bindE (if so_endpoint_url opts = [] then Inr ()
                  else bindE (urlparse (so_endpoint_url opts)) (\<lambda>(scheme, netloc).
                    if scheme \<notin> {''http'', ''https''} \<or> netloc = [] then Inl (StorageError ''S3 endpoint URL is invalid.'')
                    else if scheme \<noteq> ''https'' \<and> \<not> so_allow_insecure_http opts
                    then Inl (StorageError ''S3 endpoint must use HTTPS.'')
                    else Inr ())) (\<lambda>_.
           bindE (normalize_prefix (so_prefix opts)) (\<lambda>prefix.
           bindE (build_client opts) (\<lambda>client.
           Inr \<lparr>s3_bucket = strip py_space (so_bucket opts), s3_prefix = prefix,
             s3_server_side_encryption = so_server_side_encryption opts, s3_kms_key_id = so_kms_key_id opts,
             s3_max_object_bytes = so_max_object_bytes opts, s3_client = client\<rparr>))))"

section \<open>Keys\<close>

text \<open>\<open>str(PurePosixPath(key))\<close>.\<close>

definition pure_path :: "string \<Rightarrow> string" where
  "pure_path key = (if path_parts key = [] then ''.'' else join_path (path_parts key))"

definition validate_key :: "string \<Rightarrow> string result" where
  "validate_key key =
     (if key = [] \<or> CHR 0x5C \<in> set key then Inl (StorageError ''Invalid storage key.'')
      else if is_absolute key \<or> list_ex (\<lambda>p. p \<in> {'''', ''.'', ''..''}) (path_parts key)
      then Inl (StorageError ''Invalid storage key.'')
      else Inr (pure_path key))"

definition object_key :: "'s s3_storage \<Rightarrow> string \<Rightarrow> string result" where
  "object_key st key = bindE (validate_key key) (\<lambda>logical.
     Inr (if s3_prefix st = [] then logical else s3_prefix st @ ''/'' @ logical))"

definition encryption_parameters :: "'s s3_storage \<Rightarrow> encryption" where
  "encryption_parameters st = (''ServerSideEncryption'', s3_server_side_encryption st)
     # (if s3_server_side_encryption st = ''aws:kms'' then [(''SSEKMSKeyId'', s3_kms_key_id st)] else [])"

section \<open>Operations\<close>

text \<open>\<open>except StorageError: raise\<close> and \<open>except Exception\<close>.\<close>

fun is_storage_error :: "exn \<Rightarrow> bool" where
  "is_storage_error (StorageError _) = True"
| "is_storage_error _ = False"

definition wrap_all :: "string \<Rightarrow> ('s, 'a) prog \<Rightarrow> ('s, 'a) prog" where
  "wrap_all msg m = catchS m (\<lambda>_. raiseS (StorageError msg))"

definition wrap_other :: "string \<Rightarrow> ('s, 'a) prog \<Rightarrow> ('s, 'a) prog" where
  "wrap_other msg m = catchS m (\<lambda>x. if is_storage_error x then raiseS x else raiseS (StorageError msg))"

definition on_object :: "'s s3_storage \<Rightarrow> string \<Rightarrow> (string \<Rightarrow> ('s, 'a) prog) \<Rightarrow> ('s, 'a) prog" where
  "on_object st key f = bindS (readS (\<lambda>_. object_key st key)) f"

fun is_not_found :: "exn \<Rightarrow> bool" where
  "is_not_found (S3ClientError status code) \<longleftrightarrow> status = 404 \<or> code \<in> {''404'', ''NoSuchKey'', ''NotFound''}"
| "is_not_found _ \<longleftrightarrow> False"

definition s3_put :: "'s s3_storage \<Rightarrow> string \<Rightarrow> string \<Rightarrow> (string \<times> string) list \<Rightarrow> ('s, storage_object) prog" where
  "s3_put st key content metadata =
     (if s3_max_object_bytes st < int (length content)
      then raiseS (StorageError ''Configuration object exceeds the S3 size limit.'')
      else bindS (wrap_all ''S3 configuration write failed.'' (on_object st key (\<lambda>k.
             sc_put_object (s3_client st) (s3_bucket st) k content metadata (encryption_parameters st)))) (\<lambda>_.
           returnS \<lparr>so_key = key, so_size = int (length content), so_metadata = metadata\<rparr>))"

definition read_body :: "'s s3_storage \<Rightarrow> int option \<times> string result \<Rightarrow> ('s, string) prog" where
  "read_body st response =
     (let announced = (case fst response of Some n \<Rightarrow> n | None \<Rightarrow> 0); limit = s3_max_object_bytes st in
      if announced < 0 \<or> limit < announced
      then raiseS (StorageError ''S3 configuration object exceeds the download limit.'')
      else bindS (readS (\<lambda>_. bindE (snd response) (\<lambda>body. Inr (take (nat (limit + 1)) body)))) (\<lambda>content.
           if limit < int (length content) \<or> (announced \<noteq> 0 \<and> int (length content) \<noteq> announced)
           then raiseS (StorageError ''S3 configuration download was incomplete.'')
           else returnS content))"

definition s3_get :: "'s s3_storage \<Rightarrow> string \<Rightarrow> ('s, string) prog" where
  "s3_get st key = wrap_other ''S3 configuration read failed.''
     (bindS (on_object st key (sc_get_object (s3_client st) (s3_bucket st))) (read_body st))"

definition s3_exists :: "'s s3_storage \<Rightarrow> string \<Rightarrow> ('s, bool) prog" where
  "s3_exists st key =
     catchS (bindS (on_object st key (sc_head_object (s3_client st) (s3_bucket st))) (\<lambda>_. returnS True))
       (\<lambda>x. if is_not_found x then returnS False else raiseS (StorageError ''S3 configuration existence check failed.''))"

definition s3_delete :: "'s s3_storage \<Rightarrow> string \<Rightarrow> ('s, unit) prog" where
  "s3_delete st key = wrap_all ''S3 configuration delete failed.''
     (on_object st key (sc_delete_object (s3_client st) (s3_bucket st)))"

definition s3_copy :: "'s s3_storage \<Rightarrow> string \<Rightarrow> string \<Rightarrow> ('s, unit) prog" where
  "s3_copy st source_key destination_key = wrap_other ''S3 configuration copy failed.''
     (bindS (on_object st source_key (sc_head_object (s3_client st) (s3_bucket st))) (\<lambda>source.
      bindS (on_object st destination_key (\<lambda>dst. on_object st source_key (\<lambda>src.
        sc_copy_object (s3_client st) (s3_bucket st) dst src (case fst source of Some t \<Rightarrow> t | None \<Rightarrow> [])
          (encryption_parameters st)))) (\<lambda>_.
      bindS (on_object st destination_key (sc_head_object (s3_client st) (s3_bucket st))) (\<lambda>copied.
      if (case snd copied of Some n \<Rightarrow> n | None \<Rightarrow> - 1) \<noteq> (case snd source of Some n \<Rightarrow> n | None \<Rightarrow> - 2)
      then raiseS (StorageError ''S3 quarantine copy failed its size check.'')
      else returnS ()))))"

definition staged_name :: "string \<Rightarrow> string \<Rightarrow> string" where
  "staged_name namespace logical = ''.retention-trash/'' @ namespace @ ''/'' @ logical"

definition discard_staged :: "'s s3_storage \<Rightarrow> string \<Rightarrow> ('s, unit) prog" where
  "discard_staged st staged_key = catchS (s3_delete st staged_key) (\<lambda>y. if is_storage_error y then returnS () else raiseS y)"

definition move_to_quarantine :: "'s s3_storage \<Rightarrow> string \<Rightarrow> string \<Rightarrow> ('s, string option) prog" where
  "move_to_quarantine st key staged_key =
     bindS (s3_exists st staged_key) (\<lambda>taken.
     if taken then raiseS (StorageError ''Storage quarantine object already exists.'')
     else bindS (s3_copy st key staged_key) (\<lambda>_.
          bindS (catchS (s3_delete st key) (\<lambda>x.
            if is_storage_error x then bindS (discard_staged st staged_key) (\<lambda>_. raiseS x) else raiseS x)) (\<lambda>_.
          returnS (Some staged_key))))"

definition s3_stage_delete :: "'s s3_storage \<Rightarrow> string \<Rightarrow> string \<Rightarrow> ('s, string option) prog" where
  "s3_stage_delete st key namespace =
     (if \<not> valid_namespace namespace then raiseS (StorageError ''Invalid storage quarantine namespace.'')
      else bindS (s3_exists st key) (\<lambda>present.
        if \<not> present then returnS None
        else bindS (readS (\<lambda>_. validate_key key)) (\<lambda>logical. move_to_quarantine st key (staged_name namespace logical))))"

definition s3_restore_staged_delete :: "'s s3_storage \<Rightarrow> string \<Rightarrow> string \<Rightarrow> ('s, unit) prog" where
  "s3_restore_staged_delete st key staged_key =
     bindS (s3_exists st staged_key) (\<lambda>staged.
     if \<not> staged then raiseS (StorageError ''Quarantined configuration object is missing.'')
     else bindS (s3_exists st key) (\<lambda>present.
          if present then raiseS (StorageError ''Configuration restore destination already exists.'')
          else bindS (s3_copy st staged_key key) (\<lambda>_. s3_delete st staged_key)))"

definition s3_purge_staged_delete :: "'s s3_storage \<Rightarrow> string \<Rightarrow> ('s, unit) prog" where
  "s3_purge_staged_delete st staged_key = s3_delete st staged_key"

definition s3_healthcheck :: "'s s3_storage \<Rightarrow> ('s, bool) prog" where
  "s3_healthcheck st = catchS (bindS (sc_head_bucket (s3_client st) (s3_bucket st)) (\<lambda>_. returnS True)) (\<lambda>_. returnS False)"

definition S3ConfigStorage :: "'s s3_storage \<Rightarrow> 's config_storage" where
  "S3ConfigStorage st = \<lparr>st_put = s3_put st, st_get = s3_get st, st_exists = s3_exists st, st_delete = s3_delete st,
     st_stage_delete = s3_stage_delete st, st_restore_staged_delete = s3_restore_staged_delete st,
     st_purge_staged_delete = s3_purge_staged_delete st\<rparr>"

text \<open>\<open>build_config_storage\<close>: which backend the settings select.\<close>

datatype 's backend = LocalBackend string | S3Backend "'s s3_storage"

definition build_config_storage ::
  "(string \<Rightarrow> (string \<times> string) result) \<Rightarrow> (s3_options \<Rightarrow> 's s3_client result) \<Rightarrow> string \<Rightarrow> string \<Rightarrow> s3_options \<Rightarrow> 's backend result" where
  "build_config_storage urlparse build_client storage_backend storage_root options =
     (let backend = lower (strip py_space storage_backend) in
      if backend = ''local'' then Inr (LocalBackend storage_root)
      else if backend = ''s3'' then bindE (s3_init urlparse build_client options) (\<lambda>st. Inr (S3Backend st))
      else Inl (StorageError ''Unknown configuration storage backend.''))"

section \<open>Migration from the local store\<close>

record migration_counts =
  mg_copied :: nat
  mg_pending :: nat
  mg_existing :: nat
  mg_missing :: nat
  mg_verified :: nat

abbreviation no_counts :: migration_counts where
  "no_counts \<equiv> \<lparr>mg_copied = 0, mg_pending = 0, mg_existing = 0, mg_missing = 0, mg_verified = 0\<rparr>"

text \<open>The command works on both stores; each operation acts on its own half of the state.\<close>

definition on_source :: "('l, 'a) prog \<Rightarrow> ('l \<times> 's, 'a) prog" where
  "on_source m s = (case m (fst s) of (r, l) \<Rightarrow> (r, (l, snd s)))"

definition on_destination :: "('s, 'a) prog \<Rightarrow> ('l \<times> 's, 'a) prog" where
  "on_destination m s = (case m (snd s) of (r, t) \<Rightarrow> (r, (fst s, t)))"

definition verify_content :: "env \<Rightarrow> config_artifact \<Rightarrow> string \<Rightarrow> ('s, unit) prog" where
  "verify_content e a content =
     (if int (length content) \<noteq> a_size a \<or> sha256_hex e content \<noteq> a_raw_hash a
      then raiseS (ValueError ''Artifact integrity check failed.'') else returnS ())"

definition migrate_copy ::
  "env \<Rightarrow> 's config_storage \<Rightarrow> bool \<Rightarrow> string \<Rightarrow> config_artifact \<Rightarrow> string \<Rightarrow> migration_counts
   \<Rightarrow> ('l \<times> 's, migration_counts) prog" where
  "migrate_copy e dst commit driver_id a content n =
     bindS (on_destination (st_exists dst (a_storage_key a))) (\<lambda>present.
     if present
     then bindS (on_destination (st_get dst (a_storage_key a))) (\<lambda>stored.
          bindS (verify_content e a stored) (\<lambda>_. returnS (n\<lparr>mg_existing := mg_existing n + 1\<rparr>)))
     else if commit
     then bindS (on_destination (st_put dst (a_storage_key a) content
            [(''artifact_type'', a_artifact_type a), (''driver_id'', driver_id), (''raw_hash'', a_raw_hash a)])) (\<lambda>_.
          bindS (on_destination (st_get dst (a_storage_key a))) (\<lambda>stored.
          bindS (verify_content e a stored) (\<lambda>_. returnS (n\<lparr>mg_copied := mg_copied n + 1\<rparr>))))
     else returnS (n\<lparr>mg_pending := mg_pending n + 1\<rparr>))"

definition migrate_artifact ::
  "env \<Rightarrow> 'l config_storage \<Rightarrow> 's config_storage \<Rightarrow> bool \<Rightarrow> string \<times> config_artifact \<Rightarrow> migration_counts
   \<Rightarrow> ('l \<times> 's, migration_counts) prog" where
  "migrate_artifact e src dst commit x n =
     bindS (on_source (st_exists src (a_storage_key (snd x)))) (\<lambda>present.
     if \<not> present then returnS (n\<lparr>mg_missing := mg_missing n + 1\<rparr>)
     else bindS (on_source (st_get src (a_storage_key (snd x)))) (\<lambda>content.
          bindS (verify_content e (snd x) content) (\<lambda>_.
          migrate_copy e dst commit (fst x) (snd x) content (n\<lparr>mg_verified := mg_verified n + 1\<rparr>))))"

fun command_error :: "int \<Rightarrow> exn \<Rightarrow> exn" where
  "command_error pk (StorageError _) = OtherException (''CommandError: Storage migration stopped safely at artifact ID '' @ show_int pk @ ''.'')"
| "command_error pk (ValueError _) = OtherException (''CommandError: Artifact ID '' @ show_int pk @ '' failed its integrity check; migration stopped.'')"
| "command_error pk x = x"

fun migrate_artifacts ::
  "env \<Rightarrow> 'l config_storage \<Rightarrow> 's config_storage \<Rightarrow> bool \<Rightarrow> (string \<times> config_artifact) list \<Rightarrow> migration_counts
   \<Rightarrow> ('l \<times> 's, migration_counts) prog" where
  "migrate_artifacts e src dst commit [] n = returnS n"
| "migrate_artifacts e src dst commit (x # xs) n =
     bindS (catchS (migrate_artifact e src dst commit x n) (\<lambda>y. raiseS (command_error (a_pk (snd x)) y)))
       (migrate_artifacts e src dst commit xs)"

text \<open>The artifacts of the database with the driver of their revision, in the order of their keys.\<close>

definition migrate_to_s3 ::
  "env \<Rightarrow> 'l config_storage \<Rightarrow> 's config_storage \<Rightarrow> bool \<Rightarrow> (string \<times> config_artifact) list \<Rightarrow> ('l \<times> 's, migration_counts) prog" where
  "migrate_to_s3 e src dst commit rows =
     bindS (migrate_artifacts e src dst commit (sort_key (\<lambda>x. a_pk (snd x)) rows) no_counts) (\<lambda>n.
     if mg_missing n \<noteq> 0
     then raiseS (OtherException ''CommandError: Some database artifacts are missing from local storage; do not switch backends.'')
     else returnS n)"

section \<open>Object keys\<close>

lemma join_path_split:
  "ps \<noteq> [] \<Longrightarrow> \<forall>p \<in> set ps. CHR ''/'' \<notin> set p \<Longrightarrow> split_on (CHR ''/'') (join_path ps) = ps"
  by (induction ps rule: join_path.induct) (auto simp: split_on_append split_on_no_sep)

lemma path_parts_clean: "p \<in> set (path_parts key) \<Longrightarrow> p \<noteq> [] \<and> p \<noteq> ''.'' \<and> CHR ''/'' \<notin> set p"
  using set_split_on [of p "CHR ''/''" key] by (auto simp: path_parts_def)

lemma path_parts_join: "path_parts (join_path (path_parts key)) = path_parts key"
proof (cases "path_parts key = []")
  case False
  then have "split_on (CHR ''/'') (join_path (path_parts key)) = path_parts key"
    using path_parts_clean by (intro join_path_split) auto
  moreover have "filter (\<lambda>p. p \<noteq> [] \<and> p \<noteq> ''.'') (path_parts key) = path_parts key"
    using path_parts_clean by (intro filter_True) blast
  ultimately show ?thesis by (simp add: path_parts_def)
qed (simp add: path_parts_def)

lemma path_parts_pure [simp]: "path_parts (pure_path key) = path_parts key"
proof (cases "path_parts key = []")
  case True
  moreover have "path_parts ''.'' = []" by code_simp
  ultimately show ?thesis by (simp add: pure_path_def)
qed (simp add: pure_path_def path_parts_join)

lemma length_join: "length (join_path ps) < length (join_path (q # r # ps)) \<or> q = []"
  by (cases ps; cases q) auto

lemma staged_key_longer:
  assumes "valid_namespace ns"
  shows "length (pure_path key) < length (pure_path (''.retention-trash/'' @ ns @ ''/'' @ pure_path key))"
proof -
  let ?staged = "''.retention-trash/'' @ ns @ ''/'' @ pure_path key"
  have parts: "path_parts ?staged = ''.retention-trash'' # ns # path_parts key"
    using path_parts_quarantine [OF assms, of "pure_path key"] by (simp only: path_parts_pure)
  then have "pure_path ?staged = join_path (''.retention-trash'' # ns # path_parts key)"
    by (simp only: pure_path_def) simp
  moreover have "length (join_path (path_parts key)) < length (join_path (''.retention-trash'' # ns # path_parts key))"
    "length ''.'' < length (join_path (''.retention-trash'' # ns # path_parts key))"
    using length_join [of "path_parts key" "''.retention-trash''" ns] by auto
  ultimately show ?thesis by (simp only: pure_path_def [of key] split: if_split) blast
qed

lemma object_keyD:
  assumes "object_key st key = Inr k"
  shows "k = (if s3_prefix st = [] then pure_path key else s3_prefix st @ ''/'' @ pure_path key)" "validate_key key = Inr (pure_path key)"
  using assms by (auto simp: object_key_def validate_key_def bindE_eq_Inr split: if_split_asm)

lemma staged_object_key:
  assumes "object_key st key = Inr k" "valid_namespace ns" "object_key st (staged_name ns (pure_path key)) = Inr k'"
  shows "k' \<noteq> k"
  using object_keyD(1) [OF assms(1)] object_keyD(1) [OF assms(3)] staged_key_longer [OF assms(2), of key] by (auto simp: staged_name_def)

text \<open>Every object of the store lies below its prefix and its key has no \<open>..\<close> component.\<close>

lemma object_key_confined:
  assumes "object_key st key = Inr k"
  shows "\<exists>logical. k = (if s3_prefix st = [] then logical else s3_prefix st @ ''/'' @ logical)
    \<and> \<not> is_absolute logical \<and> ''..'' \<notin> set (path_parts logical)"
proof -
  from assms have "''..'' \<notin> set (path_parts key)"
    by (auto simp: object_key_def validate_key_def bindE_eq_Inr list_ex_iff split: if_split_asm)
  moreover have "\<not> is_absolute (pure_path key)"
  proof (cases "path_parts key")
    case (Cons p ps)
    with path_parts_clean [of p key] show ?thesis
      by (cases ps; cases p) (auto simp: pure_path_def is_absolute_def)
  qed (simp add: pure_path_def is_absolute_def)
  ultimately show ?thesis using object_keyD(1) [OF assms] by (intro exI [of _ "pure_path key"]) simp
qed

section \<open>What the service promises\<close>

text \<open>
  \<open>ob\<close> is the content of the bucket by object key. \<open>lost\<close> says whether a deletion that reports an error may have been
  carried out all the same, because only its reply was lost.
\<close>

definition s3_lawful :: "bool \<Rightarrow> 's s3_client \<Rightarrow> string \<Rightarrow> ('s \<Rightarrow> string \<Rightarrow> string option) \<Rightarrow> bool" where
  "s3_lawful lost cl b ob \<longleftrightarrow>
     (\<forall>k c m enc s r s'. sc_put_object cl b k c m enc s = (r, s') \<longrightarrow>
        (r = Inr () \<longrightarrow> ob s k = None \<and> ob s' = (ob s)(k \<mapsto> c))
        \<and> (ob s' = ob s \<or> ob s k = None \<and> ob s' = (ob s)(k \<mapsto> c)))
     \<and> (\<forall>k s r s'. sc_get_object cl b k s = (r, s') \<longrightarrow> ob s' = ob s
        \<and> (\<forall>n body. r = Inr (n, Inr body) \<longrightarrow>
             (\<exists>c. ob s k = Some c \<and> n = Some (int (length c)) \<and> take (length body) c = body)))
     \<and> (\<forall>k s r s'. sc_head_object cl b k s = (r, s') \<longrightarrow> ob s' = ob s
        \<and> (\<forall>t n. r = Inr (t, n) \<longrightarrow> (\<exists>c. ob s k = Some c \<and> n = Some (int (length c))))
        \<and> (\<forall>x. r = Inl x \<and> is_not_found x \<longrightarrow> ob s k = None))
     \<and> (\<forall>dst src t enc s r s'. sc_copy_object cl b dst src t enc s = (r, s') \<longrightarrow>
        (r \<noteq> Inr () \<and> ob s' = ob s) \<or> (\<exists>c. ob s src = Some c \<and> ob s' = (ob s)(dst \<mapsto> c)))
     \<and> (\<forall>k s r s'. sc_delete_object cl b k s = (r, s') \<longrightarrow>
        (if r = Inr () then ob s' = (ob s)(k := None) else ob s' = ob s \<or> lost \<and> ob s' = (ob s)(k := None)))"

abbreviation lawful :: "bool \<Rightarrow> 's s3_storage \<Rightarrow> ('s \<Rightarrow> string \<Rightarrow> string option) \<Rightarrow> bool" where
  "lawful lost st ob \<equiv> s3_lawful lost (s3_client st) (s3_bucket st) ob"

lemma lawful_putD:
  "s3_lawful lost cl b ob \<Longrightarrow> sc_put_object cl b k c m enc s = (r, s') \<Longrightarrow>
     (r = Inr () \<longrightarrow> ob s k = None \<and> ob s' = (ob s)(k \<mapsto> c)) \<and> (ob s' = ob s \<or> ob s k = None \<and> ob s' = (ob s)(k \<mapsto> c))"
  unfolding s3_lawful_def by (elim conjE) blast

lemma lawful_getD:
  "s3_lawful lost cl b ob \<Longrightarrow> sc_get_object cl b k s = (r, s') \<Longrightarrow> ob s' = ob s
     \<and> (\<forall>n body. r = Inr (n, Inr body) \<longrightarrow> (\<exists>c. ob s k = Some c \<and> n = Some (int (length c)) \<and> take (length body) c = body))"
  unfolding s3_lawful_def by (elim conjE) blast

lemma lawful_headD:
  "s3_lawful lost cl b ob \<Longrightarrow> sc_head_object cl b k s = (r, s') \<Longrightarrow> ob s' = ob s
     \<and> (\<forall>t n. r = Inr (t, n) \<longrightarrow> (\<exists>c. ob s k = Some c \<and> n = Some (int (length c)))) \<and> (\<forall>x. r = Inl x \<and> is_not_found x \<longrightarrow> ob s k = None)"
  unfolding s3_lawful_def by (elim conjE) blast

lemma lawful_copyD:
  assumes "s3_lawful lost cl b ob" "sc_copy_object cl b dst src t enc s = (r, s')"
  shows "(r \<noteq> Inr () \<and> ob s' = ob s) \<or> (\<exists>c. ob s src = Some c \<and> ob s' = (ob s)(dst \<mapsto> c))"
proof -
  from assms(1) have "\<forall>dst src t enc s r s'. sc_copy_object cl b dst src t enc s = (r, s') \<longrightarrow>
      (r \<noteq> Inr () \<and> ob s' = ob s) \<or> (\<exists>c. ob s src = Some c \<and> ob s' = (ob s)(dst \<mapsto> c))"
    unfolding s3_lawful_def by (elim conjE) assumption
  with assms(2) show ?thesis by blast
qed

lemma lawful_deleteD:
  assumes "s3_lawful lost cl b ob" "sc_delete_object cl b k s = (r, s')"
  shows "if r = Inr () then ob s' = (ob s)(k := None) else ob s' = ob s \<or> lost \<and> ob s' = (ob s)(k := None)"
proof -
  from assms(1) have "\<forall>k s r s'. sc_delete_object cl b k s = (r, s') \<longrightarrow>
      (if r = Inr () then ob s' = (ob s)(k := None) else ob s' = ob s \<or> lost \<and> ob s' = (ob s)(k := None))"
    unfolding s3_lawful_def by (elim conjE) assumption
  with assms(2) show ?thesis by blast
qed

section \<open>What each operation does to the bucket\<close>

lemma on_object_eq:
  "on_object st key f s = (case object_key st key of Inl x \<Rightarrow> (Inl x, s) | Inr k \<Rightarrow> f k s)"
  by (simp add: on_object_def bindS_def readS_def split: sum.split)

lemma object_key_error: "object_key st key = Inl x \<Longrightarrow> is_storage_error x \<and> \<not> is_not_found x"
  by (auto simp: object_key_def validate_key_def bindE_eq_Inl split: if_split_asm)

lemma s3_exists_effect:
  assumes "lawful lost st ob" "s3_exists st key s = (r, s')"
  shows "ob s' = ob s" "r = Inr found \<Longrightarrow> \<exists>k. object_key st key = Inr k \<and> (found \<longleftrightarrow> ob s k \<noteq> None)"
proof -
  have "ob s' = ob s \<and> (\<forall>found. r = Inr found \<longrightarrow> (\<exists>k. object_key st key = Inr k \<and> (found \<longleftrightarrow> ob s k \<noteq> None)))"
  proof (cases "object_key st key")
    case (Inl x)
    with assms(2) object_key_error [OF Inl] show ?thesis
      by (auto simp: s3_exists_def catchS_def bindS_def on_object_eq raiseS_def)
  next
    case (Inr k)
    obtain r1 s1 where h: "sc_head_object (s3_client st) (s3_bucket st) k s = (r1, s1)" by (cases "sc_head_object (s3_client st) (s3_bucket st) k s")
    note law = lawful_headD [OF assms(1) h]
    show ?thesis
    proof (cases r1)
      case (Inl x)
      with assms(2) Inr h law show ?thesis
        by (cases "is_not_found x") (auto simp: s3_exists_def catchS_def bindS_def on_object_eq raiseS_def returnS_def)
    next
      case r1: (Inr y)
      with assms(2) Inr h law show ?thesis
        by (cases y) (auto simp: s3_exists_def catchS_def bindS_def on_object_eq returnS_def)
    qed
  qed
  then show "ob s' = ob s" "r = Inr found \<Longrightarrow> \<exists>k. object_key st key = Inr k \<and> (found \<longleftrightarrow> ob s k \<noteq> None)" by auto
qed

lemma s3_delete_effect:
  assumes "lawful lost st ob" "s3_delete st key s = (r, s')"
  shows "r = Inr () \<Longrightarrow> \<exists>k. object_key st key = Inr k \<and> ob s' = (ob s)(k := None)"
    "r \<noteq> Inr () \<Longrightarrow> ob s' = ob s \<or> lost \<and> (\<exists>k. object_key st key = Inr k \<and> ob s' = (ob s)(k := None))"
    "r = Inl x \<Longrightarrow> is_storage_error x"
proof -
  have "(r = Inr () \<longrightarrow> (\<exists>k. object_key st key = Inr k \<and> ob s' = (ob s)(k := None)))
    \<and> (r \<noteq> Inr () \<longrightarrow> ob s' = ob s \<or> lost \<and> (\<exists>k. object_key st key = Inr k \<and> ob s' = (ob s)(k := None)))
    \<and> (\<forall>x. r = Inl x \<longrightarrow> is_storage_error x)"
  proof (cases "object_key st key")
    case (Inr k)
    obtain r1 s1 where d: "sc_delete_object (s3_client st) (s3_bucket st) k s = (r1, s1)"
      by (cases "sc_delete_object (s3_client st) (s3_bucket st) k s")
    with assms(2) Inr lawful_deleteD [OF assms(1) d] show ?thesis
      by (cases r1) (auto simp: s3_delete_def wrap_all_def catchS_def on_object_eq raiseS_def split: if_split_asm)
  qed (use assms(2) in \<open>auto simp: s3_delete_def wrap_all_def catchS_def on_object_eq raiseS_def\<close>)
  then show "r = Inr () \<Longrightarrow> \<exists>k. object_key st key = Inr k \<and> ob s' = (ob s)(k := None)"
    "r \<noteq> Inr () \<Longrightarrow> ob s' = ob s \<or> lost \<and> (\<exists>k. object_key st key = Inr k \<and> ob s' = (ob s)(k := None))"
    "r = Inl x \<Longrightarrow> is_storage_error x" by auto
qed

lemma s3_copy_effect:
  assumes "lawful lost st ob" "s3_copy st source dest s = (r, s')"
  shows "(r \<noteq> Inr () \<and> ob s' = ob s)
    \<or> (\<exists>src dst c. object_key st source = Inr src \<and> object_key st dest = Inr dst \<and> ob s src = Some c \<and> ob s' = (ob s)(dst \<mapsto> c))"
proof -
  let ?head = "\<lambda>key. on_object st key (sc_head_object (s3_client st) (s3_bucket st))"
  have read: "ob s2 = ob s1" if "?head key s1 = (q, s2)" for key s1 s2 q
    using that lawful_headD [OF assms(1)] by (auto simp: on_object_eq split: sum.split_asm)
  obtain r1 s1 where 1: "?head source s = (r1, s1)" by (cases "?head source s")
  show ?thesis
  proof (cases r1)
    case (Inl x)
    with assms(2) 1 read [OF 1] show ?thesis
      by (auto simp: s3_copy_def wrap_other_def catchS_def bindS_def raiseS_def split: if_split_asm)
  next
    case (Inr head)
    let ?copy = "on_object st dest (\<lambda>dst. on_object st source (\<lambda>src.
        sc_copy_object (s3_client st) (s3_bucket st) dst src (case fst head of Some t \<Rightarrow> t | None \<Rightarrow> []) (encryption_parameters st)))"
    obtain r2 s2 where 2: "?copy s1 = (r2, s2)" by (cases "?copy s1")
    have copied: "(r2 \<noteq> Inr () \<and> ob s2 = ob s1)
      \<or> (\<exists>src dst c. object_key st source = Inr src \<and> object_key st dest = Inr dst \<and> ob s1 src = Some c \<and> ob s2 = (ob s1)(dst \<mapsto> c))"
      using 2 lawful_copyD [OF assms(1)] by (auto simp: on_object_eq split: sum.split_asm)
    show ?thesis
    proof (cases r2)
      case (Inl x)
      with assms(2) 1 2 Inr read [OF 1] copied show ?thesis
        by (auto simp: s3_copy_def wrap_other_def catchS_def bindS_def raiseS_def split: if_split_asm)
    next
      case r2: (Inr u)
      obtain r3 s3 where 3: "?head dest s2 = (r3, s3)" by (cases "?head dest s2")
      have "s' = s3"
        using assms(2) 1 2 3 Inr r2
        by (cases r3) (auto simp: s3_copy_def wrap_other_def catchS_def bindS_def raiseS_def returnS_def split: if_split_asm)
      with copied read [OF 1] read [OF 3] r2 show ?thesis by auto
    qed
  qed
qed

lemma s3_put_effect:
  assumes "lawful lost st ob" "s3_put st key c m s = (r, s')"
  shows "ob s' = ob s \<and> (\<forall>x. r \<noteq> Inr x) \<or> (\<exists>k. object_key st key = Inr k \<and> ob s k = None \<and> ob s' = (ob s)(k \<mapsto> c))"
proof (cases "s3_max_object_bytes st < int (length c)")
  case False
  show ?thesis
  proof (cases "object_key st key")
    case (Inr k)
    let ?put = "sc_put_object (s3_client st) (s3_bucket st) k c m (encryption_parameters st)"
    obtain r1 s1 where p: "?put s = (r1, s1)" by (cases "?put s")
    with assms(2) False Inr lawful_putD [OF assms(1) p] show ?thesis
      by (cases r1) (auto simp: s3_put_def wrap_all_def catchS_def bindS_def on_object_eq raiseS_def returnS_def)
  qed (use assms(2) False in \<open>auto simp: s3_put_def wrap_all_def catchS_def bindS_def on_object_eq raiseS_def\<close>)
qed (use assms(2) in \<open>auto simp: s3_put_def raiseS_def\<close>)

lemma read_body_content:
  assumes "read_body st (Some (int (length c)), Inr body) s = (Inr content, s')" "take (length body) c = body"
  shows "content = c \<and> int (length c) \<le> s3_max_object_bytes st"
proof -
  let ?limit = "s3_max_object_bytes st"
  have limit: "int (length c) \<le> ?limit" and content: "content = take (nat (?limit + 1)) body"
    and same: "int (length c) \<noteq> 0 \<longrightarrow> length content = length c"
    using assms(1) by (auto simp: read_body_def Let_def bindS_def readS_def raiseS_def returnS_def split: if_split_asm)
  have "length body \<le> length c" using assms(2) by (metis length_take min.cobounded1)
  with limit content have "content = body" by simp
  with same assms(2) have "content = c" by (cases "c = []") auto
  with limit show ?thesis by simp
qed

lemma s3_get_effect:
  assumes "lawful lost st ob" "s3_get st key s = (r, s')"
  shows "ob s' = ob s"
    "r = Inr content \<Longrightarrow> \<exists>k. object_key st key = Inr k \<and> ob s k = Some content \<and> int (length content) \<le> s3_max_object_bytes st"
proof -
  have "ob s' = ob s \<and> (\<forall>content. r = Inr content \<longrightarrow>
    (\<exists>k. object_key st key = Inr k \<and> ob s k = Some content \<and> int (length content) \<le> s3_max_object_bytes st))"
  proof (cases "object_key st key")
    case (Inl x)
    with assms(2) object_key_error [OF Inl] show ?thesis
      by (auto simp: s3_get_def wrap_other_def catchS_def bindS_def on_object_eq raiseS_def)
  next
    case (Inr k)
    let ?get = "sc_get_object (s3_client st) (s3_bucket st) k"
    obtain r1 s1 where g: "?get s = (r1, s1)" by (cases "?get s")
    note law = lawful_getD [OF assms(1) g]
    show ?thesis
    proof (cases r1)
      case (Inl x)
      with assms(2) Inr g law show ?thesis
        by (auto simp: s3_get_def wrap_other_def catchS_def bindS_def on_object_eq raiseS_def split: if_split_asm)
    next
      case r1: (Inr response)
      obtain n b where response: "response = (n, b)" by (cases response)
      obtain r2 s2 where b: "read_body st response s1 = (r2, s2)" by (cases "read_body st response s1")
      have keep: "s2 = s1" using b by (auto simp: read_body_def Let_def bindS_def readS_def raiseS_def returnS_def split: if_split_asm sum.split_asm)
      show ?thesis
      proof (cases r2)
        case (Inl x)
        with assms(2) Inr g r1 b law keep show ?thesis
          by (auto simp: s3_get_def wrap_other_def catchS_def bindS_def on_object_eq raiseS_def split: if_split_asm)
      next
        case r2: (Inr content)
        have r: "r = Inr content" "s' = s2"
          using assms(2) Inr g r1 b r2 by (auto simp: s3_get_def wrap_other_def catchS_def bindS_def on_object_eq)
        obtain body where body: "b = Inr body"
          using b response r2 by (cases b) (auto simp: read_body_def Let_def bindS_def readS_def raiseS_def split: if_split_asm)
        with law r1 response obtain c where c: "ob s k = Some c" "n = Some (int (length c))" "take (length body) c = body" by auto
        with read_body_content [of st c body s1 content s2] b response r2 body
        have "content = c \<and> int (length c) \<le> s3_max_object_bytes st" by simp
        with r c Inr law keep show ?thesis by simp
      qed
    qed
  qed
  then show "ob s' = ob s"
    "r = Inr content \<Longrightarrow> \<exists>k. object_key st key = Inr k \<and> ob s k = Some content \<and> int (length content) \<le> s3_max_object_bytes st"
    by auto
qed

text \<open>
  Objects of the store are immutable: whatever happens to a write, an object that exists keeps its content, and a
  write that succeeds has created the object with the content.
\<close>

theorem s3_put_immutable:
  assumes "lawful lost st ob" "s3_put st key c m s = (r, s')"
  shows "(\<forall>k v. ob s k = Some v \<longrightarrow> ob s' k = Some v) \<and> (\<forall>x. r = Inr x \<longrightarrow> (\<exists>k. object_key st key = Inr k \<and> ob s' k = Some c))"
  using s3_put_effect [OF assms] by auto

section \<open>Quarantine\<close>

lemma move_to_quarantine_effect:
  assumes "lawful False st ob" "move_to_quarantine st key sk s = (r, s')" "object_key st key = Inr k"
    and other: "\<And>k'. object_key st sk = Inr k' \<Longrightarrow> k' \<noteq> k"
  shows "(\<exists>c k'. object_key st sk = Inr k' \<and> k' \<noteq> k \<and> ob s k = Some c
        \<and> (r = Inr (Some sk) \<and> ob s k' = None \<and> ob s' = (ob s)(k := None, k' \<mapsto> c)
           \<or> (\<exists>x. r = Inl x) \<and> ob s' = (ob s)(k' \<mapsto> c)))
    \<or> (\<exists>x. r = Inl x) \<and> ob s' = ob s"
proof -
  obtain r2 s2 where 2: "s3_exists st sk s = (r2, s2)" by (cases "s3_exists st sk s")
  note e2 = s3_exists_effect [OF assms(1) 2]
  consider (err) x where "r2 = Inl x" | (taken) "r2 = Inr True" | (free) "r2 = Inr False" by (cases r2) auto
  then show ?thesis
  proof cases
    case free
    from e2(2) [of False] free obtain k' where k': "object_key st sk = Inr k'" "ob s k' = None" by auto
    note other = other [OF k'(1)]
    obtain r3 s3 where 3: "s3_copy st key sk s2 = (r3, s3)" by (cases "s3_copy st key sk s2")
    note e3 = s3_copy_effect [OF assms(1) 3]
    show ?thesis
    proof (cases r3)
      case (Inl x)
      then have "r = Inl x" "s' = s3" using assms(2) 2 free 3 by (auto simp: move_to_quarantine_def bindS_def)
      with e3 e2(1) assms(3) k' other show ?thesis by auto
    next
      case (Inr u)
      with e3 assms(3) k' e2(1) obtain c where c: "ob s k = Some c" "ob s3 = (ob s)(k' \<mapsto> c)" by auto
      obtain r4 s4 where 4: "s3_delete st key s3 = (r4, s4)" by (cases "s3_delete st key s3")
      note e4 = s3_delete_effect [OF assms(1) 4]
      show ?thesis
      proof (cases r4)
        case r4: (Inr v)
        then have "r = Inr (Some sk)" "s' = s4"
          using assms(2) 2 free 3 Inr 4 by (auto simp: move_to_quarantine_def bindS_def catchS_def returnS_def)
        moreover have "ob s4 = (ob s)(k := None, k' \<mapsto> c)" using e4(1) r4 assms(3) c other by auto
        ultimately show ?thesis using k' other c by metis
      next
        case (Inl x)
        have se: "is_storage_error x" using e4(3) Inl by blast
        have keep: "ob s4 = ob s3" using e4(2) Inl by auto
        obtain r5 s5 where 5: "s3_delete st sk s4 = (r5, s5)" by (cases "s3_delete st sk s4")
        note e5 = s3_delete_effect [OF assms(1) 5]
        have "discard_staged st sk s4 = (Inr (), s5)"
          using 5 e5(3) by (cases r5) (auto simp: discard_staged_def catchS_def returnS_def)
        then have "r = Inl x" "s' = s5"
          using assms(2) 2 free 3 Inr 4 Inl se by (auto simp: move_to_quarantine_def bindS_def catchS_def raiseS_def)
        moreover have "ob s5 = ob s \<or> ob s5 = (ob s)(k' \<mapsto> c)"
          using e5(1,2) keep c k' by (cases r5) auto
        ultimately show ?thesis using k' other c by metis
      qed
    qed
  qed (use assms(2) 2 e2(1) in \<open>auto simp: move_to_quarantine_def bindS_def raiseS_def\<close>)
qed

lemma s3_stage_effect:
  assumes "lawful False st ob" "s3_stage_delete st key ns s = (r, s')" "object_key st key = Inr k"
  shows "(r = Inr None \<and> ob s k = None \<and> ob s' = ob s)
    \<or> (\<exists>sk c k'. object_key st sk = Inr k' \<and> k' \<noteq> k \<and> ob s k = Some c
        \<and> (r = Inr (Some sk) \<and> ob s k' = None \<and> ob s' = (ob s)(k := None, k' \<mapsto> c)
           \<or> (\<exists>x. r = Inl x) \<and> ob s' = (ob s)(k' \<mapsto> c)))
    \<or> (\<exists>x. r = Inl x) \<and> ob s' = ob s"
proof (cases "valid_namespace ns")
  case True
  have valid: "validate_key key = Inr (pure_path key)" by (rule object_keyD(2) [OF assms(3)])
  obtain r1 s1 where 1: "s3_exists st key s = (r1, s1)" by (cases "s3_exists st key s")
  note e1 = s3_exists_effect [OF assms(1) 1]
  consider (err) x where "r1 = Inl x" | (absent) "r1 = Inr False" | (present) "r1 = Inr True" by (cases r1) auto
  then show ?thesis
  proof cases
    case err
    with assms(2) True 1 e1(1) show ?thesis by (auto simp: s3_stage_delete_def bindS_def)
  next
    case absent
    with e1(2) [of False] assms(3) have "ob s k = None" by simp
    with assms(2) True 1 e1(1) absent show ?thesis by (auto simp: s3_stage_delete_def bindS_def returnS_def)
  next
    case present
    have "move_to_quarantine st key (staged_name ns (pure_path key)) s1 = (r, s')"
      using assms(2) True 1 present valid by (simp add: s3_stage_delete_def bindS_def readS_def)
    from move_to_quarantine_effect [OF assms(1) this assms(3)] staged_object_key [OF assms(3) True]
    show ?thesis unfolding e1(1) by blast
  qed
qed (use assms(2) in \<open>auto simp: s3_stage_delete_def raiseS_def\<close>)

lemma s3_restore_effect:
  assumes "lawful False st ob" "s3_restore_staged_delete st key sk s = (r, s')" "object_key st key = Inr k" "object_key st sk = Inr k'"
    "k' \<noteq> k" "ob s k' = Some c"
  shows "(if r = Inr () then ob s' = (ob s)(k' := None, k \<mapsto> c) else ob s' = ob s \<or> ob s' = (ob s)(k \<mapsto> c))"
proof -
  obtain r1 s1 where 1: "s3_exists st sk s = (r1, s1)" by (cases "s3_exists st sk s")
  note e1 = s3_exists_effect [OF assms(1) 1]
  obtain r2 s2 where 2: "s3_exists st key s1 = (r2, s2)" by (cases "s3_exists st key s1")
  note e2 = s3_exists_effect [OF assms(1) 2]
  show ?thesis
  proof (cases "r1 = Inr True \<and> r2 = Inr False")
    case False
    then have "r \<noteq> Inr () \<and> (s' = s1 \<or> s' = s2)"
      using assms(2) 1 2 by (cases r1; cases r2) (auto simp: s3_restore_staged_delete_def bindS_def raiseS_def split: if_split_asm)
    with e1(1) e2(1) show ?thesis by auto
  next
    case True
    obtain r3 s3 where 3: "s3_copy st sk key s2 = (r3, s3)" by (cases "s3_copy st sk key s2")
    note e3 = s3_copy_effect [OF assms(1) 3]
    then have copied: "(r3 \<noteq> Inr () \<and> ob s3 = ob s) \<or> ob s3 = (ob s)(k \<mapsto> c)"
      using e1(1) e2(1) assms(3,4,6) by auto
    show ?thesis
    proof (cases r3)
      case (Inl x)
      then have "r = Inl x" "s' = s3"
        using assms(2) 1 2 3 True by (auto simp: s3_restore_staged_delete_def bindS_def)
      with copied show ?thesis by auto
    next
      case (Inr u)
      then have "s3_delete st sk s3 = (r, s')"
        using assms(2) 1 2 3 True by (auto simp: s3_restore_staged_delete_def bindS_def)
      note e4 = s3_delete_effect [OF assms(1) this]
      have "ob s3 = (ob s)(k \<mapsto> c)" using copied Inr by simp
      then show ?thesis using e4(1,2) assms(4,5) by (cases "r = Inr ()") (auto simp: fun_upd_twist)
    qed
  qed
qed

text \<open>
  C17. Quarantine in S3 is reversible. If a deletion that reports an error has not been carried out, then an object that is
  staged and restored is back with its content and nothing else has changed; when staging or restoring fails at any
  request, the content is still stored, under its own key or under the quarantine key.
\<close>

theorem s3_quarantine_reversible:
  assumes "s3_lawful False (s3_client st) (s3_bucket st) ob" "object_key st key = Inr k" "ob s k = Some c"
    and "s3_stage_delete st key ns s = (r, s1)"
  shows "(\<forall>x. r = Inl x \<longrightarrow> ob s1 k = Some c) \<and> r \<noteq> Inr None
    \<and> (\<forall>sk. r = Inr (Some sk) \<longrightarrow> (\<exists>k'. object_key st sk = Inr k' \<and> ob s1 = (ob s)(k := None, k' \<mapsto> c)
        \<and> (\<forall>r' s2. s3_restore_staged_delete st key sk s1 = (r', s2) \<longrightarrow>
             (if r' = Inr () then ob s2 = ob s else ob s2 k = Some c \<or> ob s2 k' = Some c))))"
proof -
  consider (failed) x k' where "r = Inl x" "k' \<noteq> k" "ob s1 = (ob s)(k' \<mapsto> c) \<or> ob s1 = ob s"
    | (staged) sk k' where "r = Inr (Some sk)" "object_key st sk = Inr k'" "k' \<noteq> k" "ob s k' = None"
      "ob s1 = (ob s)(k := None, k' \<mapsto> c)"
    | (same) x where "r = Inl x" "ob s1 = ob s"
    using s3_stage_effect [OF assms(1,4,2)] assms(3) by auto
  then show ?thesis
  proof cases
    case staged
    have "if r' = Inr () then ob s2 = ob s else ob s2 k = Some c \<or> ob s2 k' = Some c"
      if "s3_restore_staged_delete st key sk s1 = (r', s2)" for r' s2
    proof -
      have c: "ob s1 k' = Some c" using staged(5) by simp
      have undone: "(ob s1)(k' := None, k \<mapsto> c) = ob s"
        using staged(3,4) assms(3) by (auto simp: fun_eq_iff staged(5))
      show ?thesis
      proof (cases "r' = Inr ()")
        case True
        with s3_restore_effect [OF assms(1) that assms(2) staged(2,3) c] undone show ?thesis by simp
      next
        case False
        with s3_restore_effect [OF assms(1) that assms(2) staged(2,3) c] c show ?thesis by auto
      qed
    qed
    with staged(1,2,5) show ?thesis by auto
  qed (use assms(3) in auto)
qed

section \<open>A service in memory\<close>

text \<open>How the coming requests end: \<open>Done\<close>, \<open>Refused\<close> without effect, or carried out with the reply lost.\<close>

datatype outcome = Done | Refused | LostReply

record memory_s3 =
  m3_objects :: "string \<Rightarrow> string option"
  m3_outcomes :: "outcome list"

definition m3_next :: "memory_s3 \<Rightarrow> outcome \<times> memory_s3" where
  "m3_next s = (case m3_outcomes s of [] \<Rightarrow> (Done, s) | x # xs \<Rightarrow> (x, s\<lparr>m3_outcomes := xs\<rparr>))"

definition m3_change :: "(memory_s3 \<Rightarrow> memory_s3) \<Rightarrow> (memory_s3, unit) prog" where
  "m3_change f s = (case m3_next s of
       (Done, t) \<Rightarrow> (Inr (), f t) | (Refused, t) \<Rightarrow> (Inl (OSErr ''timeout''), t) | (LostReply, t) \<Rightarrow> (Inl (OSErr ''timeout''), f t))"

definition m3_read :: "(memory_s3 \<Rightarrow> 'a result) \<Rightarrow> (memory_s3, 'a) prog" where
  "m3_read f s = (case m3_next s of (Done, t) \<Rightarrow> (f t, t) | (_, t) \<Rightarrow> (Inl (OSErr ''timeout''), t))"

definition memory_client :: "bool \<Rightarrow> memory_s3 s3_client" where
  "memory_client lossy = \<lparr>
     sc_put_object = (\<lambda>b k c m enc s. if m3_objects s k \<noteq> None then (Inl (S3ClientError 412 ''PreconditionFailed''), s)
       else m3_change (\<lambda>t. t\<lparr>m3_objects := (m3_objects t)(k \<mapsto> c)\<rparr>) s),
     sc_get_object = (\<lambda>b k. m3_read (\<lambda>t. case m3_objects t k of
         None \<Rightarrow> Inl (S3ClientError 404 ''NoSuchKey'') | Some c \<Rightarrow> Inr (Some (int (length c)), Inr c))),
     sc_head_object = (\<lambda>b k. m3_read (\<lambda>t. case m3_objects t k of
         None \<Rightarrow> Inl (S3ClientError 404 ''404'') | Some c \<Rightarrow> Inr (Some c, Some (int (length c))))),
     sc_copy_object = (\<lambda>b dst src etag enc s. case m3_objects s src of
         None \<Rightarrow> (Inl (S3ClientError 404 ''NoSuchKey''), s)
       | Some c \<Rightarrow> m3_change (\<lambda>t. t\<lparr>m3_objects := (m3_objects t)(dst \<mapsto> c)\<rparr>) s),
     sc_delete_object = (\<lambda>b k s. if \<not> lossy \<and> fst (m3_next s) = LostReply then (Inl (OSErr ''timeout''), snd (m3_next s))
       else m3_change (\<lambda>t. t\<lparr>m3_objects := (m3_objects t)(k := None)\<rparr>) s),
     sc_head_bucket = (\<lambda>b. m3_read (\<lambda>t. Inr ()))\<rparr>"

lemma m3_next_objects [simp]: "m3_next s = (x, t) \<Longrightarrow> m3_objects t = m3_objects s"
  by (auto simp: m3_next_def split: list.split_asm)

lemma m3_change_cases:
  "m3_change f s = (r, s') \<Longrightarrow> (\<And>x t. m3_next s = (x, t) \<Longrightarrow> m3_objects (f t) = g) \<Longrightarrow>
     (r = Inr () \<longrightarrow> m3_objects s' = g) \<and> (m3_objects s' = m3_objects s \<or> m3_objects s' = g)
     \<and> (r \<noteq> Inr () \<longrightarrow> fst (m3_next s) = LostReply \<or> m3_objects s' = m3_objects s)"
  by (auto simp: m3_change_def split: prod.split_asm outcome.split_asm)

lemma m3_read_cases:
  "m3_read f s = (r, s') \<Longrightarrow> m3_objects s' = m3_objects s \<and> (r = f s' \<or> r = Inl (OSErr ''timeout''))"
  by (auto simp: m3_read_def split: prod.split_asm outcome.split_asm)

lemma memory_client_lawful: "s3_lawful lossy (memory_client lossy) b m3_objects"
  unfolding s3_lawful_def
proof (intro conjI allI impI)
  fix k c m enc s r s' assume "sc_put_object (memory_client lossy) b k c m enc s = (r, s')"
  then show "r = Inr () \<Longrightarrow> m3_objects s k = None" "r = Inr () \<Longrightarrow> m3_objects s' = (m3_objects s)(k \<mapsto> c)"
    "m3_objects s' = m3_objects s \<or> m3_objects s k = None \<and> m3_objects s' = (m3_objects s)(k \<mapsto> c)"
    by (auto simp: memory_client_def split: if_split_asm dest!: m3_change_cases [where g = "(m3_objects s)(k \<mapsto> c)"])
next
  fix k s r s' n body assume get: "sc_get_object (memory_client lossy) b k s = (r, s')"
  then show "m3_objects s' = m3_objects s" by (auto simp: memory_client_def dest: m3_read_cases)
  assume "r = Inr (n, Inr body)"
  with get show "\<exists>c. m3_objects s k = Some c \<and> n = Some (int (length c)) \<and> take (length body) c = body"
    by (auto simp: memory_client_def dest!: m3_read_cases split: option.split_asm)
next
  fix k s r s' assume head: "sc_head_object (memory_client lossy) b k s = (r, s')"
  then show "m3_objects s' = m3_objects s" by (auto simp: memory_client_def dest: m3_read_cases)
  show "\<exists>c. m3_objects s k = Some c \<and> n = Some (int (length c))" if "r = Inr (t, n)" for t n
    using that head by (auto simp: memory_client_def dest!: m3_read_cases split: option.split_asm)
  show "m3_objects s k = None" if "r = Inl x \<and> is_not_found x" for x
    using that head by (auto simp: memory_client_def dest!: m3_read_cases split: option.split_asm)
next
  fix dst src t enc s r s' assume "sc_copy_object (memory_client lossy) b dst src t enc s = (r, s')"
  then show "r \<noteq> Inr () \<and> m3_objects s' = m3_objects s \<or> (\<exists>c. m3_objects s src = Some c \<and> m3_objects s' = (m3_objects s)(dst \<mapsto> c))"
    by (cases "m3_objects s src") (auto simp: memory_client_def dest!: m3_change_cases [where g = "(m3_objects s)(dst \<mapsto> the (m3_objects s src))"])
next
  fix k s r s' assume "sc_delete_object (memory_client lossy) b k s = (r, s')"
  then show "if r = Inr () then m3_objects s' = (m3_objects s)(k := None)
    else m3_objects s' = m3_objects s \<or> lossy \<and> m3_objects s' = (m3_objects s)(k := None)"
    by (cases "m3_next s") (auto simp: memory_client_def split: if_split_asm dest!: m3_change_cases [where g = "(m3_objects s)(k := None)"])
qed

definition sample_s3 :: "bool \<Rightarrow> memory_s3 s3_storage" where
  "sample_s3 lossy = \<lparr>s3_bucket = ''b'', s3_prefix = ''p'', s3_server_side_encryption = ''AES256'', s3_kms_key_id = [],
     s3_max_object_bytes = 100, s3_client = memory_client lossy\<rparr>"

definition sample_bucket :: "outcome list \<Rightarrow> memory_s3" where
  "sample_bucket os = \<lparr>m3_objects = Map.empty(''p/a'' \<mapsto> ''cfg''), m3_outcomes = os\<rparr>"

theorem s3_quarantine_reversible_witness:
  "\<exists>sk s1 s2. s3_stage_delete (sample_s3 False) ''a'' ''n'' (sample_bucket []) = (Inr (Some sk), s1)
     \<and> s3_restore_staged_delete (sample_s3 False) ''a'' sk s1 = (Inr (), s2)
     \<and> m3_objects s2 = m3_objects (sample_bucket [])"
proof -
  let ?st = "sample_s3 False" and ?s = "sample_bucket []"
  let ?r = "fst (s3_stage_delete ?st ''a'' ''n'' ?s)" and ?s1 = "snd (s3_stage_delete ?st ''a'' ''n'' ?s)"
  let ?sk = "''.retention-trash/n/a''"
  let ?r2 = "fst (s3_restore_staged_delete ?st ''a'' ?sk ?s1)" and ?s2 = "snd (s3_restore_staged_delete ?st ''a'' ?sk ?s1)"
  have key: "object_key ?st ''a'' = Inr ''p/a''" "m3_objects ?s ''p/a'' = Some ''cfg''" by code_simp+
  have runs: "?r = Inr (Some ?sk)" "?r2 = Inr ()" by code_simp+
  have law: "s3_lawful False (s3_client ?st) (s3_bucket ?st) m3_objects" by (simp add: sample_s3_def memory_client_lawful)
  have stage: "s3_stage_delete ?st ''a'' ''n'' ?s = (Inr (Some ?sk), ?s1)" using runs(1) by (metis prod.collapse)
  have restore: "s3_restore_staged_delete ?st ''a'' ?sk ?s1 = (Inr (), ?s2)" using runs(2) by (metis prod.collapse)
  from s3_quarantine_reversible [OF law key stage] restore have "m3_objects ?s2 = m3_objects ?s" by auto
  with stage restore show ?thesis by blast
qed

text \<open>
  When the reply to the deletion of the original is lost, \<open>stage_delete\<close> takes the deletion for failed and removes the
  quarantine copy: the object is gone, although the caller is told that nothing was deleted.
\<close>

theorem lost_reply_loses_object:
  "\<exists>(st :: memory_s3 s3_storage) s s1 x. s3_lawful True (s3_client st) (s3_bucket st) m3_objects
     \<and> m3_objects s ''p/a'' = Some ''cfg'' \<and> s3_stage_delete st ''a'' ''n'' s = (Inl x, s1)
     \<and> m3_objects s1 ''p/a'' = None \<and> m3_objects s1 ''p/.retention-trash/n/a'' = None"
proof -
  let ?st = "sample_s3 True" and ?s = "sample_bucket [Done, Done, Done, Done, Done, LostReply]"
  let ?run = "s3_stage_delete ?st ''a'' ''n'' ?s"
  have "fst ?run = Inl (StorageError ''S3 configuration delete failed.'')" "m3_objects (snd ?run) ''p/a'' = None"
    "m3_objects (snd ?run) ''p/.retention-trash/n/a'' = None" "m3_objects ?s ''p/a'' = Some ''cfg''" by code_simp+
  moreover have "s3_lawful True (s3_client ?st) (s3_bucket ?st) m3_objects" by (simp add: sample_s3_def memory_client_lawful)
  ultimately show ?thesis by (metis prod.collapse)
qed

section \<open>Migration\<close>

definition migrates :: "bool \<Rightarrow> ('s \<Rightarrow> string \<Rightarrow> string option) \<Rightarrow> local_fs \<times> 's \<Rightarrow> local_fs \<times> 's \<Rightarrow> bool" where
  "migrates commit ob x y \<longleftrightarrow> fs_files (fst y) = fs_files (fst x) \<and> ob (snd x) \<subseteq>\<^sub>m ob (snd y)
     \<and> (commit \<or> ob (snd y) = ob (snd x))"

interpretation migration: step_relation "migrates commit ob" for commit ob
  by unfold_locales (auto simp: migrates_def intro: map_le_trans)

lemma on_source_eq: "on_source m x = (r, y) \<longleftrightarrow> m (fst x) = (r, fst y) \<and> snd y = snd x"
  by (cases y) (auto simp: on_source_def split: prod.split)

lemma on_destination_eq: "on_destination m x = (r, y) \<longleftrightarrow> m (snd x) = (r, snd y) \<and> fst y = fst x"
  by (cases y) (auto simp: on_destination_def split: prod.split)

lemma local_reads:
  "local_exists key l = (r, l') \<Longrightarrow> fs_files l' = fs_files l" "local_get key l = (r', l') \<Longrightarrow> fs_files l' = fs_files l"
proof -
  show "local_exists key l = (r, l') \<Longrightarrow> fs_files l' = fs_files l"
    by (auto simp: local_exists_def readS_def)
  have same: "fs_files t = fs_files l" if "os_call (\<lambda>s. s) l = (q, t)" for q t
    using os_call_effect [OF that] by auto
  show "local_get key l = (r', l') \<Longrightarrow> fs_files l' = fs_files l"
    using same by (cases "local_path l key"; cases "os_call (\<lambda>s. s) l"; cases "fst (os_call (\<lambda>s. s) l)")
      (auto simp: local_get_def wrap_oserror_def catchS_def bindS_def raiseS_def readS_def split: sum.split_asm option.split_asm)
qed

lemma within_source:
  "(\<And>l r l'. m l = (r, l') \<Longrightarrow> fs_files l' = fs_files l) \<Longrightarrow> within (migrates commit ob) (on_source m)"
  by (auto simp: within_def on_source_def migrates_def split: prod.split_asm)

lemma within_destination:
  "(\<And>s r s'. m s = (r, s') \<Longrightarrow> ob s \<subseteq>\<^sub>m ob s' \<and> (commit \<or> ob s' = ob s)) \<Longrightarrow> within (migrates commit ob) (on_destination m)"
  by (auto simp: within_def on_destination_def migrates_def split: prod.split_asm)

lemma s3_put_grows: "lawful lost st ob \<Longrightarrow> s3_put st key c m s = (r, s') \<Longrightarrow> ob s \<subseteq>\<^sub>m ob s'"
  using s3_put_immutable [of lost st ob key c m s r s'] by (auto simp: map_le_def dom_def)

lemma migrate_artifact_within:
  assumes "lawful lost st ob"
  shows "within (migrates commit ob) (migrate_artifact e LocalConfigStorage (S3ConfigStorage st) commit x n)"
proof -
  have 1: "within (migrates commit ob) (on_destination (s3_exists st key))"
    "within (migrates commit ob) (on_destination (s3_get st key))" for key
    using s3_exists_effect(1) [OF assms] s3_get_effect(1) [OF assms] by (intro within_destination; simp)+
  have 2: "commit \<Longrightarrow> within (migrates commit ob) (on_destination (s3_put st key c m))" for key c m
    using s3_put_grows [OF assms] by (intro within_destination) simp
  have 3: "within (migrates commit ob) (on_source (local_exists key))" "within (migrates commit ob) (on_source (local_get key))" for key
    using local_reads by (intro within_source; blast)+
  have 4: "within (migrates commit ob) (verify_content e a c)" for a c
    by (simp add: verify_content_def migration.within_intros)
  have "within (migrates commit ob) (migrate_copy e (S3ConfigStorage st) commit d a c m)" for d a c m
    using 1 2 4 by (auto simp: migrate_copy_def S3ConfigStorage_def intro!: migration.within_intros)
  with 3 4 show ?thesis
    by (auto simp: migrate_artifact_def LocalConfigStorage_def intro!: migration.within_intros)
qed

lemma migrate_artifacts_within:
  assumes "lawful lost st ob"
  shows "within (migrates commit ob) (migrate_artifacts e LocalConfigStorage (S3ConfigStorage st) commit xs n)"
  by (induction xs arbitrary: n) (auto intro!: migration.within_intros migrate_artifact_within [OF assms])

definition stored_in :: "env \<Rightarrow> 's s3_storage \<Rightarrow> (string \<Rightarrow> string option) \<Rightarrow> config_artifact \<Rightarrow> bool" where
  "stored_in e st objects a \<longleftrightarrow> (case object_key st (a_storage_key a) of Inl _ \<Rightarrow> False
     | Inr k \<Rightarrow> (case objects k of None \<Rightarrow> False
         | Some c \<Rightarrow> int (length c) = a_size a \<and> sha256_hex e c = a_raw_hash a))"

lemma stored_in_grows: "stored_in e st o1 a \<Longrightarrow> o1 \<subseteq>\<^sub>m o2 \<Longrightarrow> stored_in e st o2 a"
  by (auto simp: stored_in_def map_le_def dom_def split: sum.split_asm option.split_asm)

lemma verify_content_Inr:
  "verify_content e a c t = (Inr u, t') \<longleftrightarrow> t' = t \<and> int (length c) = a_size a \<and> sha256_hex e c = a_raw_hash a"
  by (auto simp: verify_content_def raiseS_def returnS_def)

lemma verified_get:
  assumes "lawful lost st ob" "s3_get st (a_storage_key a) s = (Inr c, s')" "int (length c) = a_size a" "sha256_hex e c = a_raw_hash a"
  shows "stored_in e st (ob s') a"
  using s3_get_effect [OF assms(1,2)] assms(3,4) by (auto simp: stored_in_def)

lemma migrate_copy_Inr:
  assumes "lawful lost st ob" "migrate_copy e (S3ConfigStorage st) commit d a c n x = (Inr n', y)"
  shows "mg_missing n' = mg_missing n \<and> mg_pending n \<le> mg_pending n' \<and> (commit \<longrightarrow> mg_pending n' = mg_pending n)
    \<and> (stored_in e st (ob (snd y)) a \<or> mg_pending n < mg_pending n')"
proof -
  obtain present x1 where 1: "on_destination (s3_exists st (a_storage_key a)) x = (Inr present, x1)"
    using assms(2) by (auto simp: migrate_copy_def bindS_eq_Inr S3ConfigStorage_def)
  note unfold = migrate_copy_def S3ConfigStorage_def bindS_eq_Inr 1
  consider (existing) present | (copied) "\<not> present" commit | (pending) "\<not> present" "\<not> commit" by blast
  then show ?thesis
  proof cases
    case existing
    with assms(2) show ?thesis
      by (simp add: unfold) ((auto simp: bindS_eq_Inr on_destination_eq verify_content_Inr returnS_eq)[1], rule verified_get [OF assms(1)])
  next
    case copied
    with assms(2) show ?thesis
      by (simp add: unfold) ((auto simp: bindS_eq_Inr on_destination_eq verify_content_Inr returnS_eq)[1], rule verified_get [OF assms(1)])
  next
    case pending
    with assms(2) show ?thesis by (simp add: unfold) (auto simp: bindS_eq_Inr returnS_eq)
  qed
qed

lemma migrate_artifact_Inr:
  assumes "lawful lost st ob" "migrate_artifact e LocalConfigStorage (S3ConfigStorage st) commit x n t = (Inr n', t')"
  shows "mg_missing n \<le> mg_missing n' \<and> mg_pending n \<le> mg_pending n' \<and> (commit \<longrightarrow> mg_pending n' = mg_pending n)
    \<and> (stored_in e st (ob (snd t')) (snd x) \<or> mg_missing n < mg_missing n' \<or> mg_pending n < mg_pending n')"
proof -
  from assms(2) consider "n' = n\<lparr>mg_missing := mg_missing n + 1\<rparr>"
    | c t1 where "migrate_copy e (S3ConfigStorage st) commit (fst x) (snd x) c (n\<lparr>mg_verified := mg_verified n + 1\<rparr>) t1 = (Inr n', t')"
    unfolding migrate_artifact_def bindS_eq_Inr by (auto simp: returnS_eq bindS_eq_Inr split: if_split_asm)
  then show ?thesis
  proof cases
    case 2
    from migrate_copy_Inr [OF assms(1) this] show ?thesis by auto
  qed simp
qed

lemma migrate_artifacts_Inr:
  assumes "lawful lost st ob"
  shows "migrate_artifacts e LocalConfigStorage (S3ConfigStorage st) commit xs n t = (Inr n', t') \<Longrightarrow>
    mg_missing n \<le> mg_missing n' \<and> mg_pending n \<le> mg_pending n' \<and> (commit \<longrightarrow> mg_pending n' = mg_pending n)
    \<and> (mg_missing n' = mg_missing n \<and> mg_pending n' = mg_pending n \<longrightarrow> (\<forall>x \<in> set xs. stored_in e st (ob (snd t')) (snd x)))"
proof (induction xs arbitrary: n t)
  case Nil
  then show ?case by (simp add: returnS_eq)
next
  case (Cons x xs)
  from Cons.prems obtain n1 t1 where 1: "migrate_artifact e LocalConfigStorage (S3ConfigStorage st) commit x n t = (Inr n1, t1)"
    and 2: "migrate_artifacts e LocalConfigStorage (S3ConfigStorage st) commit xs n1 t1 = (Inr n', t')"
    by (auto simp: bindS_eq_Inr catchS_eq raiseS_eq)
  note first = migrate_artifact_Inr [OF assms 1] and rest = Cons.IH [OF 2]
  have grow: "ob (snd t1) \<subseteq>\<^sub>m ob (snd t')"
    using withinD [OF migrate_artifacts_within [OF assms] 2] by (simp add: migrates_def)
  have "stored_in e st (ob (snd t')) (snd y)"
    if "mg_missing n' = mg_missing n" "mg_pending n' = mg_pending n" "y = x \<or> y \<in> set xs" for y
    using that first rest stored_in_grows [OF _ grow] by fastforce
  with first rest show ?case by auto
qed

text \<open>
  C18. A migration never changes the local store and never overwrites an object; without \<open>--commit\<close> it changes nothing in
  the bucket. When it reports success with nothing pending, every artifact of the database is in the bucket with the
  size and the hash the database has for it; with \<open>--commit\<close> nothing is pending.
\<close>

theorem migration_complete:
  assumes "s3_lawful lost (s3_client st) (s3_bucket st) ob"
    and "migrate_to_s3 e LocalConfigStorage (S3ConfigStorage st) commit rows (l, s) = (r, (l', s'))"
  shows "fs_files l' = fs_files l \<and> ob s \<subseteq>\<^sub>m ob s' \<and> (\<not> commit \<longrightarrow> ob s' = ob s)
    \<and> (\<forall>n. r = Inr n \<longrightarrow> (commit \<longrightarrow> mg_pending n = 0)
        \<and> (mg_pending n = 0 \<longrightarrow> list_all (\<lambda>x. stored_in e st (ob s') (snd x)) rows))"
proof -
  let ?xs = "sort_key (\<lambda>x. a_pk (snd x)) rows"
  let ?run = "migrate_artifacts e LocalConfigStorage (S3ConfigStorage st) commit ?xs no_counts"
  obtain r1 l1 s1 where 1: "?run (l, s) = (r1, (l1, s1))" by (cases "?run (l, s)") auto
  have final: "l' = l1" "s' = s1" "\<And>n. r = Inr n \<Longrightarrow> r1 = Inr n \<and> mg_missing n = 0"
    using assms(2) 1 by (auto simp: migrate_to_s3_def bindS_def raiseS_def returnS_def split: sum.split_asm if_split_asm)
  have "migrates commit ob (l, s) (l1, s1)" using withinD [OF migrate_artifacts_within [OF assms(1)] 1] .
  moreover have "(commit \<longrightarrow> mg_pending n = 0) \<and> (mg_pending n = 0 \<longrightarrow> list_all (\<lambda>x. stored_in e st (ob s1) (snd x)) rows)"
    if "r = Inr n" for n
    using final(3) [OF that] migrate_artifacts_Inr [OF assms(1), of e commit ?xs no_counts "(l, s)" n "(l1, s1)"] 1
    by (auto simp: list_all_iff)
  ultimately show ?thesis using final(1,2) by (auto simp: migrates_def)
qed

text \<open>One artifact in a local store is copied into an empty bucket.\<close>

definition sample_store :: local_fs where
  "sample_store = \<lparr>fs_root = [''r''], fs_resolve = Inr, fs_files = Map.empty([''r'', ''a''] \<mapsto> ''cfg''), fs_dirs = [], fs_outcomes = [], fs_random = ''x''\<rparr>"

definition sample_row :: "string \<times> config_artifact" where
  "sample_row = (''d'', \<lparr>a_pk = 1, a_revision_id = 7, a_artifact_type = ''r'', a_format = ''t'', a_storage_key = ''a'', a_size = 3,
     a_raw_hash = sha256_hex sample_env ''cfg'', a_normalized_hash = [], a_is_primary = True, a_local_available = True,
     a_local_deleted_at = None\<rparr>)"

theorem migration_complete_witness:
  "\<exists>l s. migrate_to_s3 sample_env LocalConfigStorage (S3ConfigStorage (sample_s3 True)) True [sample_row]
        (sample_store, \<lparr>m3_objects = Map.empty, m3_outcomes = []\<rparr>)
      = (Inr \<lparr>mg_copied = 1, mg_pending = 0, mg_existing = 0, mg_missing = 0, mg_verified = 1\<rparr>, (l, s))
     \<and> fs_files l = fs_files sample_store \<and> stored_in sample_env (sample_s3 True) (m3_objects s) (snd sample_row)"
proof -
  let ?run = "migrate_to_s3 sample_env LocalConfigStorage (S3ConfigStorage (sample_s3 True)) True [sample_row]
        (sample_store, \<lparr>m3_objects = Map.empty, m3_outcomes = []\<rparr>)"
  have r: "fst ?run = Inr \<lparr>mg_copied = 1, mg_pending = 0, mg_existing = 0, mg_missing = 0, mg_verified = 1\<rparr>" by code_simp
  obtain l s where run: "?run = (fst ?run, (l, s))" by (metis prod.collapse)
  have law: "s3_lawful True (s3_client (sample_s3 True)) (s3_bucket (sample_s3 True)) m3_objects"
    by (simp add: sample_s3_def memory_client_lawful)
  from migration_complete [OF law run] r have "fs_files l = fs_files sample_store"
    "stored_in sample_env (sample_s3 True) (m3_objects s) (snd sample_row)" by auto
  with run r show ?thesis by metis
qed

end
